(* ===== verification/Contract_Error.thy ===== *)
theory Contract_Error
  imports Main
begin

text \<open>
  The error values of the contracts (\<^verbatim>\<open>packages/euclid/src/error.rs\<close>) and the failures a call
  can end in. A Rust call ends in \<open>Ok\<close>, in \<open>Err\<close> with a \<open>ContractError\<close>, or in a panic (an
  arithmetic operator that overflows, a failed \<open>assert!\<close>, a slice out of range); the last two
  both abort the message and undo its storage writes. Payloads that only carry a rendered message
  of a library error (the operands of an overflow) are dropped.
\<close>

datatype StdError =
    GenericErr string
  | NotFound
  | ParseErr
  | StdOverflow

datatype OverflowOperation = OpAdd | OpSub | OpMul

datatype CheckedMultiplyFractionError =
    FractionDivideByZero
  | FractionConversionOverflow
  | FractionOverflow

datatype CheckedMultiplyRatioError =
    RatioDivideByZero
  | RatioOverflow

datatype (plugins only: size) ContractError =
    Std StdError
  | Overflow OverflowOperation
  | CheckedMultiplyFraction CheckedMultiplyFractionError
  | CheckedMultiplyRatio CheckedMultiplyRatioError
  | DivideByZero
  | ParseIntError
  | Generic string
  | Unauthorized
  | TxAlreadyExist
  | TokenAlreadyExist
  | ChainAlreadyExist
  | InvalidAsset string
  | ZeroAssetSupply string
  | ZeroWithdrawalAmount
  | InvalidWithdrawalAmount
  | DuplicateDenominations
  | DeregisteredChain
  | UnsupportedDenomination
  | UnsupportedMessage
  | UnsupportedOperation
  | NotImplemented
  | DenomDoesNotExist
  | ChainNotFound
  | InvalidPartnerFee
  | InstantiateError string
  | PoolRequestAlreadyExists
  | PoolRequestDoesNotExists string
  | PoolAlreadyExists
  | PoolDoesNotExists
  | OrderedChannel
  | InvalidVersion string string
  | InvalidTokenID
  | ChannelNotFound
  | AssetDoesNotExist
  | ZeroAssetAmount
  | NoChannelForLocalChain
  | DuplicateTokens
  | ZeroSlippageAmount
  | SlippageExceeded nat nat
  | InvalidLiquidityRatio
  | InvalidTimeout
  | InvalidSlippageTolerance
  | ChannelDoesNotExist
  | ChannelAlreadyExists
  | EscrowDoesNotExist
  | EscrowAlreadyExists
  | SwapDoesNotExist
  | SwapAlreadyExist
  | InsufficientDeposit
  | InsufficientFunds
  | InvalidChainId
  | LiquidityTxAlreadyExist
  | LiquiditySlippageExceeded
  | PoolInstantiateFailed string
  | ContractLocked
  | CannotSetOwnAccount
  | InvalidZeroAmount
  | InvalidDenom
  | Expired
  | NoAllowance
  | CannotExceedCap
  | LogoTooBig
  | InvalidMigration string
  | InvalidXmlPreamble
  | InvalidPngHeader
  | Instantiate2AddressMismatch string string
  | DuplicateInitialBalanceAddresses
  | InvalidExpiration

datatype failure = Raised ContractError | Panic string

type_synonym 'a result = "failure + 'a"

abbreviation Ok :: "'a \<Rightarrow> 'a result" where
  "Ok \<equiv> Inr"

abbreviation Err :: "ContractError \<Rightarrow> 'a result" where
  "Err e \<equiv> Inl (Raised e)"

abbreviation panic :: "string \<Rightarrow> 'a result" where
  "panic s \<equiv> Inl (Panic s)"

end
