(* ===== verification/Prelude.thy ===== *)
theory Prelude
  imports
    Contract_Error
    "HOL-Library.Word"
    "HOL-Library.AList"
    "HOL-Library.Char_ord"
    "HOL-Library.List_Lexorder"
begin

text \<open>
  Shared vocabulary of the development: the result combinators that mirror Rust's \<open>?\<close> operator and
  the \<open>ensure!\<close> macro, the checked arithmetic of 128-bit unsigned integers, the key-value maps of
  contract storage with the law for the sum of the stored amounts, the greedy distribution that the
  payment loops refine, and decimal rendering of numbers. The collection \<open>ok_simps\<close> holds, for every combinator and storage or arithmetic
  primitive, the equivalence that says when it succeeds and with what value: unfolding a handler
  and simplifying with \<open>ok_simps\<close> turns ``the handler returned \<open>Ok\<close>'' into the conjunction of its
  guards and the values it computed.
\<close>

named_theorems ok_simps "when a fallible operation succeeds, and with which value"

section \<open>Results\<close>

definition bindR :: "'a result \<Rightarrow> ('a \<Rightarrow> 'b result) \<Rightarrow> 'b result" where
  "bindR m f = (case m of Inl e \<Rightarrow> Inl e | Inr x \<Rightarrow> f x)"

definition ensure :: "bool \<Rightarrow> ContractError \<Rightarrow> 'a result \<Rightarrow> 'a result" where
  "ensure c e k = (if c then k else Err e)"

text \<open>\<open>opt.ok_or(e)?\<close> and \<open>res.map_err(|_| e)?\<close>.\<close>

definition ok_or :: "'a option \<Rightarrow> ContractError \<Rightarrow> 'a result" where
  "ok_or x e = (case x of None \<Rightarrow> Err e | Some v \<Rightarrow> Ok v)"

definition map_err :: "'a result \<Rightarrow> ContractError \<Rightarrow> 'a result" where
  "map_err m e = (case m of Inl f \<Rightarrow> (case f of Raised _ \<Rightarrow> Err e | Panic s \<Rightarrow> panic s) | Inr v \<Rightarrow> Ok v)"

definition is_ok :: "'a result \<Rightarrow> bool" where
  "is_ok m = (case m of Inl _ \<Rightarrow> False | Inr _ \<Rightarrow> True)"

definition unwrap_or :: "'a option \<Rightarrow> 'a \<Rightarrow> 'a" where
  "unwrap_or x d = (case x of None \<Rightarrow> d | Some v \<Rightarrow> v)"

lemma bindR_Inr [simp]: "bindR (Inr x) f = f x"
  by (simp add: bindR_def)

lemma bindR_Inl [simp]: "bindR (Inl e) f = Inl e"
  by (simp add: bindR_def)

lemma bindR_eq_Inr [ok_simps]: "bindR m f = Inr y \<longleftrightarrow> (\<exists>x. m = Inr x \<and> f x = Inr y)"
  by (cases m) simp_all

lemma bindR_eq_Inl: "bindR m f = Inl e \<longleftrightarrow> m = Inl e \<or> (\<exists>x. m = Inr x \<and> f x = Inl e)"
  by (cases m) simp_all

lemma bindR_cong [fundef_cong]:
  "m = m' \<Longrightarrow> (\<And>x. m' = Inr x \<Longrightarrow> f x = g x) \<Longrightarrow> bindR m f = bindR m' g"
  by (cases m') simp_all

lemma ensure_True [simp]: "ensure True e k = k"
  by (simp add: ensure_def)

lemma ensure_False [simp]: "ensure False e k = Err e"
  by (simp add: ensure_def)

lemma ensure_eq_Inr [ok_simps]: "ensure c e k = Inr y \<longleftrightarrow> c \<and> k = Inr y"
  by (simp add: ensure_def)

lemma ensure_cong [fundef_cong]:
  "c = c' \<Longrightarrow> e = e' \<Longrightarrow> (c' \<Longrightarrow> k = k') \<Longrightarrow> ensure c e k = ensure c' e' k'"
  by (simp add: ensure_def)

lemma ok_or_simps [simp]: "ok_or None e = Err e" "ok_or (Some v) e = Ok v"
  by (simp_all add: ok_or_def)

lemma ok_or_eq_Inr [ok_simps]: "ok_or x e = Inr v \<longleftrightarrow> x = Some v"
  by (cases x) simp_all

lemma map_err_simps [simp]:
  "map_err (Inr v) e = Ok v" "map_err (Err e') e = Err e" "map_err (panic s) e = panic s"
  by (simp_all add: map_err_def)

lemma map_err_eq_Inr [ok_simps]: "map_err m e = Inr v \<longleftrightarrow> m = Inr v"
  by (cases m) (simp_all add: map_err_def split: failure.splits)

lemma is_ok_simps [simp]: "is_ok (Inr v)" "\<not> is_ok (Inl f)"
  by (simp_all add: is_ok_def)

lemma is_ok_iff: "is_ok m \<longleftrightarrow> (\<exists>v. m = Inr v)"
  by (cases m) simp_all

lemma unwrap_or_simps [simp]: "unwrap_or None d = d" "unwrap_or (Some v) d = v"
  by (simp_all add: unwrap_or_def)

text \<open>Running a list of fallible steps in order, stopping at the first failure.\<close>

fun mapR :: "('a \<Rightarrow> 'b result) \<Rightarrow> 'a list \<Rightarrow> 'b list result" where
  "mapR f [] = Ok []"
| "mapR f (x # xs) = bindR (f x) (\<lambda>y. bindR (mapR f xs) (\<lambda>ys. Ok (y # ys)))"

fun eachR :: "('a \<Rightarrow> unit result) \<Rightarrow> 'a list \<Rightarrow> unit result" where
  "eachR f [] = Ok ()"
| "eachR f (x # xs) = bindR (f x) (\<lambda>_. eachR f xs)"

lemma mapR_eq_Inr [ok_simps]: "mapR f xs = Inr ys \<longleftrightarrow> list_all2 (\<lambda>x y. f x = Inr y) xs ys"
  by (induction xs arbitrary: ys) (auto simp: ok_simps list_all2_Cons1)

lemma eachR_eq_Inr [ok_simps]: "eachR f xs = Inr u \<longleftrightarrow> (\<forall>x\<in>set xs. f x = Inr ())"
  by (induction xs) (auto simp: ok_simps)

section \<open>Unsigned integers\<close>

type_synonym uint128 = "128 word"
type_synonym u64 = "64 word"
type_synonym u32 = "32 word"

definition checked_add :: "uint128 \<Rightarrow> uint128 \<Rightarrow> uint128 result" where
  "checked_add a b = (if unat a + unat b < 2 ^ 128 then Ok (a + b) else Err (Overflow OpAdd))"

definition checked_sub :: "uint128 \<Rightarrow> uint128 \<Rightarrow> uint128 result" where
  "checked_sub a b = (if b \<le> a then Ok (a - b) else Err (Overflow OpSub))"

definition checked_mul :: "uint128 \<Rightarrow> uint128 \<Rightarrow> uint128 result" where
  "checked_mul a b = (if unat a * unat b < 2 ^ 128 then Ok (a * b) else Err (Overflow OpMul))"

definition checked_div :: "uint128 \<Rightarrow> uint128 \<Rightarrow> uint128 result" where
  "checked_div a b = (if b = 0 then Err DivideByZero else Ok (a div b))"

text \<open>The operator \<open>+\<close> of \<open>Uint128\<close> panics where \<open>checked_add\<close> returns an error.\<close>

definition add_or_panic :: "uint128 \<Rightarrow> uint128 \<Rightarrow> uint128 result" where
  "add_or_panic a b =
     (if unat a + unat b < 2 ^ 128 then Ok (a + b) else panic ''attempt to add with overflow'')"

lemma unat_lt_u128: "unat (a :: uint128) < 2 ^ 128"
proof -
  have "(unsigned a :: nat) < 2 ^ LENGTH(128)" by (rule unsigned_less)
  then show ?thesis by simp
qed

lemma unat_add_u128: "unat a + unat b < 2 ^ 128 \<Longrightarrow> unat (a + b) = unat a + unat (b :: uint128)"
  by (simp add: unat_word_ariths)

lemma unat_mul_u128: "unat a * unat b < 2 ^ 128 \<Longrightarrow> unat (a * b) = unat a * unat (b :: uint128)"
  by (simp add: unat_word_ariths)

lemma checked_add_eq_Inr [ok_simps]: "checked_add a b = Inr c \<longleftrightarrow> unat c = unat a + unat b"
proof (cases "unat a + unat b < 2 ^ 128")
  case True
  then show ?thesis
    by (auto simp: checked_add_def unat_add_u128 simp flip: word_unat_eq_iff)
       (simp add: word_unat_eq_iff unat_add_u128)
next
  case False
  then show ?thesis
    using unat_lt_u128 [of c] by (auto simp: checked_add_def)
qed

lemma add_or_panic_eq_Inr [ok_simps]: "add_or_panic a b = Inr c \<longleftrightarrow> unat c = unat a + unat b"
  using checked_add_eq_Inr [of a b c]
  by (auto simp: checked_add_def add_or_panic_def split: if_splits)

lemma checked_sub_eq_Inr [ok_simps]: "checked_sub a b = Inr c \<longleftrightarrow> unat a = unat b + unat c"
proof -
  have "b \<le> a \<Longrightarrow> unat (a - b) = unat a - unat b"
    by (rule unat_sub)
  then show ?thesis
    by (auto simp: checked_sub_def word_unat_eq_iff word_le_nat_alt)
qed

lemma checked_mul_eq_Inr [ok_simps]: "checked_mul a b = Inr c \<longleftrightarrow> unat c = unat a * unat b"
proof (cases "unat a * unat b < 2 ^ 128")
  case True
  then show ?thesis
    by (auto simp: checked_mul_def word_unat_eq_iff unat_mul_u128)
next
  case False
  then show ?thesis
    using unat_lt_u128 [of c] by (auto simp: checked_mul_def)
qed

lemma checked_div_eq_Inr [ok_simps]:
  "checked_div a b = Inr c \<longleftrightarrow> b \<noteq> 0 \<and> unat c = unat a div unat b"
  by (auto simp: checked_div_def word_unat_eq_iff unat_div)

lemma unat_eq_0_iff [simp]: "unat (a :: 'a::len word) = 0 \<longleftrightarrow> a = 0"
  by (simp add: unat_eq_zero)

lemma unat_inject [simp]: "unat a = unat b \<longleftrightarrow> a = (b :: 'a::len word)"
  by (simp add: word_unat_eq_iff)

lemma unat_of_nat_u128: "n < 2 ^ 128 \<Longrightarrow> unat (of_nat n :: uint128) = n"
  by (simp add: unat_of_nat)

section \<open>Slices\<close>

text \<open>\<open>first\<close>, \<open>last\<close> and \<open>split_first\<close> of a slice.\<close>

definition slice_first :: "'a list \<Rightarrow> 'a option" where
  "slice_first xs = (case xs of [] \<Rightarrow> None | x # _ \<Rightarrow> Some x)"

definition slice_last :: "'a list \<Rightarrow> 'a option" where
  "slice_last xs = (if xs = [] then None else Some (last xs))"

definition split_first :: "'a list \<Rightarrow> ('a \<times> 'a list) option" where
  "split_first xs = (case xs of [] \<Rightarrow> None | x # ys \<Rightarrow> Some (x, ys))"

section \<open>Storage maps\<close>

text \<open>
  A storage map is an association list; \<open>map_save\<close> overwrites, \<open>map_load\<close> fails on a missing key,
  \<open>map_range\<close> enumerates the entries in ascending key order.
\<close>

type_synonym ('k, 'v) store = "('k \<times> 'v) list"

definition map_may_load :: "('k, 'v) store \<Rightarrow> 'k \<Rightarrow> 'v option" where
  "map_may_load m k = map_of m k"

definition map_load :: "('k, 'v) store \<Rightarrow> 'k \<Rightarrow> 'v result" where
  "map_load m k = ok_or (map_may_load m k) (Std NotFound)"

definition map_has :: "('k, 'v) store \<Rightarrow> 'k \<Rightarrow> bool" where
  "map_has m k = (map_may_load m k \<noteq> None)"

definition map_save :: "('k, 'v) store \<Rightarrow> 'k \<Rightarrow> 'v \<Rightarrow> ('k, 'v) store" where
  "map_save m k v = AList.update k v m"

definition map_remove :: "('k, 'v) store \<Rightarrow> 'k \<Rightarrow> ('k, 'v) store" where
  "map_remove m k = AList.delete k m"

definition map_range :: "('k::linorder, 'v) store \<Rightarrow> ('k \<times> 'v) list" where
  "map_range m = sort_key fst (AList.clearjunk m)"

text \<open>An \<open>Item\<close> of the storage: \<open>None\<close> until it is first saved.\<close>

definition item_load :: "'a option \<Rightarrow> 'a result" where
  "item_load x = ok_or x (Std NotFound)"

lemma item_load_simps [simp]: "item_load (Some v) = Ok v" "item_load None = Err (Std NotFound)"
  by (simp_all add: item_load_def)

lemma item_load_eq_Inr [ok_simps]: "item_load x = Inr v \<longleftrightarrow> x = Some v"
  by (simp add: item_load_def ok_simps)

lemma map_load_eq_Inr [ok_simps]: "map_load m k = Inr v \<longleftrightarrow> map_may_load m k = Some v"
  by (simp add: map_load_def ok_simps)

lemma map_may_load_save [simp]:
  "map_may_load (map_save m k v) k' = (if k' = k then Some v else map_may_load m k')"
  by (simp add: map_may_load_def map_save_def update_conv)

lemma map_may_load_remove [simp]:
  "map_may_load (map_remove m k) k' = (if k' = k then None else map_may_load m k')"
  by (auto simp: map_may_load_def map_remove_def delete_conv)

lemma map_may_load_Nil [simp]: "map_may_load [] k = None"
  by (simp add: map_may_load_def)

lemma map_has_save [simp]: "map_has (map_save m k v) k' \<longleftrightarrow> k' = k \<or> map_has m k'"
  by (simp add: map_has_def)

lemma map_has_remove [simp]: "map_has (map_remove m k) k' \<longleftrightarrow> k' \<noteq> k \<and> map_has m k'"
  by (simp add: map_has_def)

lemma set_map_range: "(k, v) \<in> set (map_range m) \<longleftrightarrow> map_may_load m k = Some v" for k :: "'k::linorder"
  using map_of_eq_Some_iff [OF distinct_clearjunk, of m k v]
  by (simp add: map_range_def map_may_load_def map_of_clearjunk)

lemma sorted_map_range: "sorted (map fst (map_range m))"
  by (simp add: map_range_def)

text \<open>What the clients of a map of amounts use of it.\<close>

definition amount_at :: "('k, uint128) store \<Rightarrow> 'k \<Rightarrow> uint128" where
  "amount_at m k = unwrap_or (map_may_load m k) 0"

definition total_on :: "('k \<Rightarrow> bool) \<Rightarrow> ('k \<Rightarrow> uint128 option) \<Rightarrow> nat" where
  "total_on P f = (\<Sum>k\<in>{k \<in> dom f. P k}. unat (the (f k)))"

locale kv_store =
  fixes lookup :: "'m \<Rightarrow> 'k \<Rightarrow> uint128 option"
    and save :: "'m \<Rightarrow> 'k \<Rightarrow> uint128 \<Rightarrow> 'm"
    and remove :: "'m \<Rightarrow> 'k \<Rightarrow> 'm"
  assumes lookup_save: "lookup (save m k v) = (lookup m)(k \<mapsto> v)"
    and lookup_remove: "lookup (remove m k) = (lookup m)(k := None)"
    and finite_keys: "finite (dom (lookup m))"
begin

definition held :: "'m \<Rightarrow> 'k \<Rightarrow> nat" where
  "held m k = (case lookup m k of None \<Rightarrow> 0 | Some v \<Rightarrow> unat v)"

lemma total_split:
  assumes "P k"
  shows "total_on P (lookup m) = held m k + total_on (\<lambda>k'. P k' \<and> k' \<noteq> k) (lookup m)"
proof (cases "k \<in> dom (lookup m)")
  case True
  then have split: "{k' \<in> dom (lookup m). P k'} = insert k {k' \<in> dom (lookup m). P k' \<and> k' \<noteq> k}"
    using assms by auto
  have "finite {k' \<in> dom (lookup m). P k' \<and> k' \<noteq> k}"
    using finite_keys [of m] by (rule rev_finite_subset) auto
  then show ?thesis
    using True by (auto simp: total_on_def split held_def)
next
  case False
  then have "{k' \<in> dom (lookup m). P k'} = {k' \<in> dom (lookup m). P k' \<and> k' \<noteq> k}"
    by auto
  with False show ?thesis
    by (auto simp: total_on_def held_def)
qed

lemma total_others_save:
  "total_on (\<lambda>k'. P k' \<and> k' \<noteq> k) (lookup (save m k v)) = total_on (\<lambda>k'. P k' \<and> k' \<noteq> k) (lookup m)"
  unfolding total_on_def lookup_save by (rule sum.cong) auto

lemma total_save:
  "total_on P (lookup (save m k v)) + (if P k then held m k else 0)
     = total_on P (lookup m) + (if P k then unat v else 0)"
proof (cases "P k")
  case True
  have "held (save m k v) k = unat v"
    by (simp add: held_def lookup_save)
  then show ?thesis
    using True by (simp add: total_split [of P k] total_others_save)
next
  case False
  have "total_on P (lookup (save m k v)) = total_on P (lookup m)"
    unfolding total_on_def lookup_save using False by (intro sum.cong) auto
  with False show ?thesis by simp
qed

lemma held_le_total: "P k \<Longrightarrow> held m k \<le> total_on P (lookup m)"
  by (simp add: total_split [of P k])

end

interpretation cw: kv_store map_may_load map_save map_remove
proof
  fix m :: "('k, uint128) store"
  show "finite (dom (map_may_load m))"
    by (simp add: map_may_load_def [abs_def] finite_dom_map_of)
qed (auto simp: fun_eq_iff)

lemma held_amount_at: "cw.held m k = unat (amount_at m k)"
  by (simp add: cw.held_def amount_at_def unwrap_or_def split: option.split)

lemma amount_at_save [simp]: "amount_at (map_save m k v) k' = (if k' = k then v else amount_at m k')"
  by (simp add: amount_at_def)

lemma amount_at_Some: "map_may_load m k = Some v \<Longrightarrow> amount_at m k = v"
  by (simp add: amount_at_def)

lemma total_on_empty [simp]: "total_on P (map_may_load []) = 0"
  by (simp add: total_on_def map_may_load_def [abs_def])

lemmas total_on_save = cw.total_save [unfolded held_amount_at]
lemmas amount_le_total_on = cw.held_le_total [unfolded held_amount_at]

abbreviation total_of :: "('k, uint128) store \<Rightarrow> nat" where
  "total_of m \<equiv> total_on (\<lambda>_. True) (map_may_load m)"

lemma total_of_save: "total_of (map_save m k v) + unat (amount_at m k) = total_of m + unat v"
  using total_on_save [of "\<lambda>_. True" m k v] by simp

lemma amount_le_total_of: "unat (amount_at m k) \<le> total_of m"
  by (rule amount_le_total_on) simp

lemma distinct_map_range: "distinct (map fst (map_range m))"
  using distinct_clearjunk [of m] by (simp add: map_range_def distinct_map)

lemma sum_map_range: "(\<Sum>(k, v)\<leftarrow>map_range m. unat v) = total_of m" for m :: "('k::linorder, uint128) store"
proof -
  have "(\<Sum>(k, v)\<leftarrow>map_range m. unat v) = (\<Sum>(k, v)\<in>set (map_range m). unat v)"
    using distinct_map_range [of m] by (intro sum_list_distinct_conv_sum_set) (simp add: distinct_map)
  also have "set (map_range m) = (\<lambda>k. (k, the (map_may_load m k))) ` dom (map_may_load m)"
    by (auto simp: set_map_range image_iff)
  also have "(\<Sum>(k, v)\<in>\<dots>. unat v) = total_of m"
    by (subst sum.reindex) (auto simp: total_on_def inj_on_def)
  finally show ?thesis .
qed

section \<open>Greedy distribution\<close>

text \<open>
  The abstract form of the two payment loops: an amount is taken from a list of capacities in order, as much
  as each allows, until nothing remains.
\<close>

fun greedy :: "nat \<Rightarrow> nat list \<Rightarrow> nat list" where
  "greedy r [] = []"
| "greedy r (c # cs) = (if r = 0 then [] else min c r # greedy (r - min c r) cs)"

lemma sum_greedy: "sum_list (greedy r cs) = min r (sum_list cs)"
  by (induction r cs rule: greedy.induct) (auto simp: min_def)

lemma greedy_0 [simp]: "greedy 0 cs = []"
  by (cases cs) simp_all

lemma length_greedy: "length (greedy r cs) \<le> length cs"
  by (induction r cs rule: greedy.induct) auto

lemma greedy_le: "i < length (greedy r cs) \<Longrightarrow> greedy r cs ! i \<le> cs ! i"
proof (induction r cs arbitrary: i rule: greedy.induct)
  case (2 r c cs)
  then show ?case by (cases i) (auto split: if_splits)
qed simp

section \<open>Rendering numbers\<close>

definition digit_char :: "nat \<Rightarrow> char" where
  "digit_char d = char_of (48 + d)"

fun show_nat :: "nat \<Rightarrow> string" where
  "show_nat n = (if n < 10 then [digit_char n] else show_nat (n div 10) @ [digit_char (n mod 10)])"

declare show_nat.simps [simp del]

fun read_nat :: "nat \<Rightarrow> string \<Rightarrow> nat" where
  "read_nat acc [] = acc"
| "read_nat acc (c # cs) = read_nat (10 * acc + (of_char c - 48)) cs"

lemma read_nat_append: "read_nat acc (xs @ ys) = read_nat (read_nat acc xs) ys"
  by (induction xs arbitrary: acc) auto

lemma of_char_digit: "d < 10 \<Longrightarrow> of_char (digit_char d) = (48 + d :: nat)"
  by (simp add: digit_char_def)

lemma read_show_nat: "read_nat 0 (show_nat n) = n"
proof (induction n rule: show_nat.induct)
  case (1 n)
  show ?case
  proof (cases "n < 10")
    case True
    then show ?thesis by (simp add: show_nat.simps [of n] of_char_digit)
  next
    case False
    with 1 show ?thesis
      by (simp add: show_nat.simps [of n] read_nat_append of_char_digit)
  qed
qed

lemma show_nat_inject [simp]: "show_nat m = show_nat n \<longleftrightarrow> m = n"
  by (metis read_show_nat)

lemma digit_char_not_colon: "d < 10 \<Longrightarrow> digit_char d \<noteq> CHR '':''"
proof
  assume d: "d < 10" and "digit_char d = CHR '':''"
  then have "of_char (digit_char d) = (of_char (CHR '':'') :: nat)" by simp
  with d show False by (simp add: of_char_digit)
qed

lemma colon_not_in_show_nat: "CHR '':'' \<notin> set (show_nat n)"
proof (induction n rule: show_nat.induct)
  case (1 n)
  then show ?case
    using digit_char_not_colon [of n] digit_char_not_colon [of "n mod 10"]
    by (cases "n < 10") (auto simp: show_nat.simps [of n])
qed

text \<open>A suffix that does not contain the separator is determined by the whole string.\<close>

lemma last_field_inject:
  assumes "xs @ c # ys = xs' @ c # ys'" and "c \<notin> set ys" and "c \<notin> set ys'"
  shows "xs = xs' \<and> ys = ys'"
proof -
  have field: "takeWhile (\<lambda>x. x \<noteq> c) (rev (us @ c # vs)) = rev vs" if "c \<notin> set vs" for us vs
  proof -
    have "takeWhile (\<lambda>x. x \<noteq> c) (rev vs @ c # rev us) = rev vs @ takeWhile (\<lambda>x. x \<noteq> c) (c # rev us)"
      using that by (intro takeWhile_append2) auto
    then show ?thesis by simp
  qed
  have "rev ys = rev ys'"
    using field [OF assms(2), of xs] field [OF assms(3), of xs'] assms(1) by simp
  then show ?thesis
    using assms(1) by simp
qed

end
