(* ===== verification/Platform.thy ===== *)
theory Platform
  imports Prelude
begin

text \<open>
  What the contracts take from their host: the call environment (block, sender, attached funds),
  and the arithmetic of the \<open>cosmwasm_std\<close> package that is not plain checked integer arithmetic:
  fixed-point decimals with 18 fractional digits, multiplication by a ratio with a 256-bit
  intermediate, the integer square root. That package is not part of the repository, so its
  functions are the fields of a record \<open>cw_math\<close> that the contract definitions take as an argument;
  the locale \<open>cosmwasm_math\<close> states their documented behaviour, through the documented accessor
  \<open>atomics()\<close> of the decimal types, and derives what the pool formulas need. \<open>std_math\<close> is one
  instance that satisfies the laws.
\<close>

section \<open>The call environment\<close>

type_synonym addr = string

record coin =
  coin_denom :: string
  coin_amount :: uint128

record message_info =
  info_sender :: addr
  info_funds :: "coin list"

text \<open>Block time is kept in nanoseconds, as \<open>Timestamp\<close> does.\<close>

record env =
  block_height :: u64
  block_time :: nat
  block_chain_id :: string
  tx_index :: "u32 option"
  contract_address :: addr

definition plus_seconds :: "nat \<Rightarrow> u64 \<Rightarrow> nat" where
  "plus_seconds t s = t + unat s * 10 ^ 9"

section \<open>Fixed-point arithmetic\<close>

record ('d, 'e) cw_math =
  decimal_atomics :: "'d \<Rightarrow> nat"
  decimal_bps :: "u64 \<Rightarrow> 'd"
  decimal_checked_from_ratio :: "uint128 \<Rightarrow> uint128 \<Rightarrow> string + 'd"
  mul_floor :: "uint128 \<Rightarrow> 'd \<Rightarrow> CheckedMultiplyFractionError + uint128"
  mul_ceil :: "uint128 \<Rightarrow> 'd \<Rightarrow> CheckedMultiplyFractionError + uint128"
  multiply_ratio :: "uint128 \<Rightarrow> uint128 \<Rightarrow> uint128 \<Rightarrow> CheckedMultiplyRatioError + uint128"
  isqrt :: "uint128 \<Rightarrow> uint128"
  decimal256_atomics :: "'e \<Rightarrow> nat"
  decimal256_checked_from_ratio :: "uint128 \<Rightarrow> uint128 \<Rightarrow> string + 'e"
  decimal256_abs_diff :: "'e \<Rightarrow> 'e \<Rightarrow> 'e"

text \<open>The \<open>?\<close> operator turns the library errors into the variants of \<open>ContractError\<close>.\<close>

definition lift_err :: "('x \<Rightarrow> ContractError) \<Rightarrow> 'x + 'a \<Rightarrow> 'a result" where
  "lift_err f m = (case m of Inl x \<Rightarrow> Err (f x) | Inr v \<Rightarrow> Ok v)"

lemma lift_err_eq_Inr [ok_simps]: "lift_err f m = Inr v \<longleftrightarrow> m = Inr v"
  by (cases m) (simp_all add: lift_err_def)

lemma lift_err_simps [simp]: "lift_err f (Inr v) = Ok v" "lift_err f (Inl x) = Err (f x)"
  by (simp_all add: lift_err_def)

definition checked_mul_floor :: "('d, 'e) cw_math \<Rightarrow> uint128 \<Rightarrow> 'd \<Rightarrow> uint128 result" where
  "checked_mul_floor M x d = lift_err CheckedMultiplyFraction (mul_floor M x d)"

definition checked_mul_ceil :: "('d, 'e) cw_math \<Rightarrow> uint128 \<Rightarrow> 'd \<Rightarrow> uint128 result" where
  "checked_mul_ceil M x d = lift_err CheckedMultiplyFraction (mul_ceil M x d)"

definition checked_multiply_ratio :: "('d, 'e) cw_math \<Rightarrow> uint128 \<Rightarrow> uint128 \<Rightarrow> uint128 \<Rightarrow> uint128 result" where
  "checked_multiply_ratio M x n d = lift_err CheckedMultiplyRatio (multiply_ratio M x n d)"

definition ceil_div :: "nat \<Rightarrow> nat \<Rightarrow> nat" where
  "ceil_div a b = a div b + (if a mod b = 0 then 0 else 1)"

locale cosmwasm_math =
  fixes M :: "('d, 'e) cw_math"
  assumes bps_atomics: "decimal_atomics M (decimal_bps M n) = unat n * 10 ^ 14"
    and from_ratio_Inr:
      "decimal_checked_from_ratio M a b = Inr q \<Longrightarrow>
         b \<noteq> 0 \<and> decimal_atomics M q = unat a * 10 ^ 18 div unat b"
    and from_ratio_ok:
      "b \<noteq> 0 \<Longrightarrow> unat a * 10 ^ 18 div unat b < 2 ^ 128 \<Longrightarrow>
         \<exists>q. decimal_checked_from_ratio M a b = Inr q"
    and mul_floor_Inr:
      "mul_floor M x d = Inr y \<longleftrightarrow> unat y = unat x * decimal_atomics M d div 10 ^ 18"
    and mul_ceil_Inr:
      "mul_ceil M x d = Inr y \<longleftrightarrow> unat y = ceil_div (unat x * decimal_atomics M d) (10 ^ 18)"
    and multiply_ratio_Inr:
      "multiply_ratio M x a b = Inr y \<longleftrightarrow> b \<noteq> 0 \<and> unat y = unat x * unat a div unat b"
    and isqrt_lower: "unat (isqrt M x) * unat (isqrt M x) \<le> unat x"
    and isqrt_upper: "unat x < Suc (unat (isqrt M x)) * Suc (unat (isqrt M x))"
    and from_ratio256_Inr:
      "decimal256_checked_from_ratio M a b = Inr r \<Longrightarrow>
         b \<noteq> 0 \<and> decimal256_atomics M r = unat a * 10 ^ 18 div unat b"
    and from_ratio256_ok: "b \<noteq> 0 \<Longrightarrow> \<exists>r. decimal256_checked_from_ratio M a b = Inr r"
    and abs_diff_atomics:
      "int (decimal256_atomics M (decimal256_abs_diff M r s))
         = \<bar>int (decimal256_atomics M r) - int (decimal256_atomics M s)\<bar>"
begin

lemma mul_floor_bps [ok_simps]:
  "checked_mul_floor M x (decimal_bps M n) = Inr y \<longleftrightarrow> unat y = unat x * unat n div 10000"
proof -
  have "unat x * (unat n * 10 ^ 14) div 10 ^ 18 = (unat x * unat n) * 10 ^ 14 div (10000 * 10 ^ 14)"
    by (simp add: ac_simps)
  also have "\<dots> = unat x * unat n div 10000"
    by (rule div_mult_mult2) simp
  finally show ?thesis
    by (simp add: checked_mul_floor_def ok_simps mul_floor_Inr bps_atomics)
qed

lemma mul_ceil_bps [ok_simps]:
  "checked_mul_ceil M x (decimal_bps M n) = Inr y \<longleftrightarrow> unat y = ceil_div (unat x * unat n) 10000"
proof -
  have split: "unat x * (unat n * 10 ^ 14) = (unat x * unat n) * 10 ^ 14"
    and pow: "(10 :: nat) ^ 18 = 10000 * 10 ^ 14" by simp_all
  have "ceil_div (unat x * (unat n * 10 ^ 14)) (10 ^ 18) = ceil_div (unat x * unat n) 10000"
    unfolding ceil_div_def split pow by (simp only: div_mult_mult2 mod_mult_mult2) simp
  then show ?thesis
    by (simp add: checked_mul_ceil_def ok_simps mul_ceil_Inr bps_atomics)
qed

lemma checked_mul_ceil_Inr [ok_simps]:
  "checked_mul_ceil M x d = Inr y \<longleftrightarrow> unat y = ceil_div (unat x * decimal_atomics M d) (10 ^ 18)"
  by (simp add: checked_mul_ceil_def ok_simps mul_ceil_Inr)

lemma checked_multiply_ratio_Inr [ok_simps]:
  "checked_multiply_ratio M x a b = Inr y \<longleftrightarrow> b \<noteq> 0 \<and> unat y = unat x * unat a div unat b"
  by (simp add: checked_multiply_ratio_def ok_simps multiply_ratio_Inr)

lemma isqrt_unique: "r * r \<le> unat x \<Longrightarrow> unat x < Suc r * Suc r \<Longrightarrow> unat (isqrt M x) = r"
proof -
  assume "r * r \<le> unat x" and "unat x < Suc r * Suc r"
  then have "r * r < Suc (unat (isqrt M x)) * Suc (unat (isqrt M x))"
    and "unat (isqrt M x) * unat (isqrt M x) < Suc r * Suc r"
    using isqrt_lower [of x] isqrt_upper [of x] by linarith+
  then have "r < Suc (unat (isqrt M x))" and "unat (isqrt M x) < Suc r"
    by (meson mult_le_mono not_less)+
  then show ?thesis by simp
qed

end

section \<open>An instance of the laws\<close>

fun isqrt_nat :: "nat \<Rightarrow> nat" where
  "isqrt_nat n =
     (if n = 0 then 0
      else let r = 2 * isqrt_nat (n div 4) in if Suc r * Suc r \<le> n then Suc r else r)"

declare isqrt_nat.simps [simp del]

lemma isqrt_nat_bounds: "isqrt_nat n * isqrt_nat n \<le> n \<and> n < Suc (isqrt_nat n) * Suc (isqrt_nat n)"
proof (induction n rule: isqrt_nat.induct)
  case (1 n)
  show ?case
  proof (cases "n = 0")
    case True
    then show ?thesis by (simp add: isqrt_nat.simps [of 0])
  next
    case False
    define q where "q = isqrt_nat (n div 4)"
    have "q * q \<le> n div 4" and "n div 4 < Suc q * Suc q"
      using 1 False by (simp_all add: q_def)
    then have "4 * (q * q) \<le> n" and "n < 4 * (Suc q * Suc q)"
      by linarith+
    with False show ?thesis
      by (simp add: isqrt_nat.simps [of n] Let_def flip: q_def)
  qed
qed

definition std_math :: "(nat, nat) cw_math" where
  "std_math =
     \<lparr> decimal_atomics = (\<lambda>d. d),
       decimal_bps = (\<lambda>n. unat n * 10 ^ 14),
       decimal_checked_from_ratio =
         (\<lambda>a b. if b = 0 then Inl ''Denominator must not be zero''
                else let q = unat a * 10 ^ 18 div unat b in
                     if q < 2 ^ 128 then Inr q else Inl ''Overflow''),
       mul_floor =
         (\<lambda>x d. let y = unat x * d div 10 ^ 18 in
                if y < 2 ^ 128 then Inr (of_nat y) else Inl FractionConversionOverflow),
       mul_ceil =
         (\<lambda>x d. let y = ceil_div (unat x * d) (10 ^ 18) in
                if y < 2 ^ 128 then Inr (of_nat y) else Inl FractionConversionOverflow),
       multiply_ratio =
         (\<lambda>x a b. if b = 0 then Inl RatioDivideByZero
                  else let y = unat x * unat a div unat b in
                       if y < 2 ^ 128 then Inr (of_nat y) else Inl RatioOverflow),
       isqrt = (\<lambda>x. of_nat (isqrt_nat (unat x))),
       decimal256_atomics = (\<lambda>r. r),
       decimal256_checked_from_ratio =
         (\<lambda>a b. if b = 0 then Inl ''Denominator must not be zero''
                else Inr (unat a * 10 ^ 18 div unat b)),
       decimal256_abs_diff = (\<lambda>r s. if r \<le> s then s - r else r - s) \<rparr>"

lemma of_nat_eq_u128: "y < 2 ^ 128 \<Longrightarrow> of_nat y = z \<longleftrightarrow> unat (z :: uint128) = y"
  by (auto simp: unat_of_nat)

lemma fit_u128:
  "(if y < 2 ^ 128 then Inr (of_nat y) else Inl e) = Inr (z :: uint128) \<longleftrightarrow> unat z = y"
  using unat_lt_u128 [of z] by (auto simp: of_nat_eq_u128 unat_of_nat)

lemma unat_isqrt_nat:
  "unat (of_nat (isqrt_nat (unat x)) :: uint128) = isqrt_nat (unat (x :: uint128))"
proof -
  have "isqrt_nat (unat x) \<le> unat x"
    using isqrt_nat_bounds [of "unat x"] by (cases "isqrt_nat (unat x)") auto
  then have "isqrt_nat (unat x) < 2 ^ 128"
    using unat_lt_u128 [of x] by linarith
  then show ?thesis by (simp add: unat_of_nat)
qed

interpretation std: cosmwasm_math std_math
proof unfold_locales
  fix x :: uint128
  show "unat (isqrt std_math x) * unat (isqrt std_math x) \<le> unat x"
    and "unat x < Suc (unat (isqrt std_math x)) * Suc (unat (isqrt std_math x))"
    using isqrt_nat_bounds [of "unat x"]
    by (simp_all only: std_math_def cw_math.simps unat_isqrt_nat)
next
  fix x y :: uint128 and d :: nat
  show "mul_floor std_math x d = Inr y \<longleftrightarrow> unat y = unat x * decimal_atomics std_math d div 10 ^ 18"
    by (simp only: std_math_def cw_math.simps Let_def fit_u128)
  show "mul_ceil std_math x d = Inr y \<longleftrightarrow>
      unat y = ceil_div (unat x * decimal_atomics std_math d) (10 ^ 18)"
    by (simp only: std_math_def cw_math.simps Let_def fit_u128)
next
  fix x a b y :: uint128
  show "multiply_ratio std_math x a b = Inr y \<longleftrightarrow> b \<noteq> 0 \<and> unat y = unat x * unat a div unat b"
    by (cases "b = 0") (simp_all only: std_math_def cw_math.simps Let_def fit_u128 if_True if_False
        simp_thms sum.distinct)
next
  fix r s :: nat
  show "int (decimal256_atomics std_math (decimal256_abs_diff std_math r s))
     = \<bar>int (decimal256_atomics std_math r) - int (decimal256_atomics std_math s)\<bar>"
    by (simp add: std_math_def)
qed (auto simp: std_math_def Let_def split: if_splits)

end
