(* ===== verification/Euclid_Types.thy ===== *)
theory Euclid_Types
  imports Platform
begin

text \<open>
  The shared data of the contracts, \<^verbatim>\<open>packages/euclid/src\<close>: chains and cross-chain users
  (\<^verbatim>\<open>chain.rs\<close>), tokens and pairs (\<^verbatim>\<open>token.rs\<close>), fees (\<^verbatim>\<open>fee.rs\<close>), pools,
  swap and liquidity requests, time-outs (\<^verbatim>\<open>timeout.rs\<close>) and transaction ids (\<^verbatim>\<open>utils.rs\<close>).
  A newtype around a string is a one-constructor datatype; Rust compares strings bytewise, which is
  the lexicographic order of \<open>char list\<close>.
\<close>

type_synonym bytes = "char list"

section \<open>Chains and users\<close>

datatype ChainUid = ChainUid (uid_str: string)

definition is_ascii_lowercase :: "char \<Rightarrow> bool" where
  "is_ascii_lowercase c = (97 \<le> (of_char c :: nat) \<and> (of_char c :: nat) \<le> 122)"

definition is_ascii_uppercase :: "char \<Rightarrow> bool" where
  "is_ascii_uppercase c = (65 \<le> (of_char c :: nat) \<and> (of_char c :: nat) \<le> 90)"

definition is_ascii_digit :: "char \<Rightarrow> bool" where
  "is_ascii_digit c = (48 \<le> (of_char c :: nat) \<and> (of_char c :: nat) \<le> 57)"

definition is_ascii_alphanumeric :: "char \<Rightarrow> bool" where
  "is_ascii_alphanumeric c = (is_ascii_lowercase c \<or> is_ascii_uppercase c \<or> is_ascii_digit c)"

lemmas ascii_defs =
  is_ascii_lowercase_def is_ascii_uppercase_def is_ascii_digit_def is_ascii_alphanumeric_def

definition ChainUid_validate :: "ChainUid \<Rightarrow> ChainUid result" where
  "ChainUid_validate u =
     ensure (uid_str u \<noteq> []) (Generic ''Chain UID cannot be empty'')
     (if \<exists>c\<in>set (uid_str u). \<not> is_ascii_lowercase c \<and> \<not> is_ascii_digit c \<and> c \<noteq> CHR ''.''
      then Err (Generic (''Invalid UID format: must be lowercase, alphanumeric or '' @ [CHR 0x27, CHR ''.'', CHR 0x27]))
      else Ok u)"

definition ChainUid_create :: "string \<Rightarrow> ChainUid result" where
  "ChainUid_create s = ChainUid_validate (ChainUid s)"

definition vsl_chain_uid :: "ChainUid result" where
  "vsl_chain_uid = ChainUid_create ''vsl''"

abbreviation vsl :: ChainUid where
  "vsl \<equiv> ChainUid ''vsl''"

lemma vsl_chain_uid_ok [simp]: "vsl_chain_uid = Ok vsl"
  by (simp add: vsl_chain_uid_def ChainUid_create_def ChainUid_validate_def ascii_defs)

lemma ChainUid_validate_Inr [ok_simps]: "ChainUid_validate u = Inr v \<longleftrightarrow> v = u \<and> is_ok (ChainUid_validate u)"
  by (auto simp: ChainUid_validate_def ensure_def)

record CrossChainUser =
  ccu_chain_uid :: ChainUid
  ccu_address :: string

record CrossChainUserWithLimit =
  ccl_user :: CrossChainUser
  ccl_limit :: "uint128 option"

definition to_sender_string :: "CrossChainUser \<Rightarrow> string" where
  "to_sender_string u = uid_str (ccu_chain_uid u) @ '':'' @ ccu_address u"

record IbcChain =
  from_hub_channel :: string
  from_factory_channel :: string

datatype ChainType = Ibc IbcChain | NativeChain

record Chain =
  factory_chain_id :: string
  factory_addr :: string
  chain_type :: ChainType

definition Chain_is_native :: "Chain \<Rightarrow> bool" where
  "Chain_is_native c = (case chain_type c of NativeChain \<Rightarrow> True | Ibc _ \<Rightarrow> False)"

definition Chain_ibc_info :: "Chain \<Rightarrow> IbcChain result" where
  "Chain_ibc_info c =
     (case chain_type c of Ibc d \<Rightarrow> Ok d | NativeChain \<Rightarrow> Err (Generic ''Not an ibc chain''))"

instantiation ChainUid :: linorder
begin

definition less_eq_ChainUid :: "ChainUid \<Rightarrow> ChainUid \<Rightarrow> bool" where
  "less_eq_ChainUid a b = (uid_str a \<le> uid_str b)"

definition less_ChainUid :: "ChainUid \<Rightarrow> ChainUid \<Rightarrow> bool" where
  "less_ChainUid a b = (uid_str a < uid_str b)"

instance
  by standard (auto simp: less_eq_ChainUid_def less_ChainUid_def ChainUid.expand)

end

section \<open>Tokens and pairs\<close>

datatype Token = Token (token_id: string)

instantiation Token :: linorder
begin

definition less_eq_Token :: "Token \<Rightarrow> Token \<Rightarrow> bool" where
  "less_eq_Token a b = (token_id a \<le> token_id b)"

definition less_Token :: "Token \<Rightarrow> Token \<Rightarrow> bool" where
  "less_Token a b = (token_id a < token_id b)"

instance
  by standard (auto simp: less_eq_Token_def less_Token_def Token.expand)

end

definition Token_validate :: "Token \<Rightarrow> Token result" where
  "Token_validate t =
     ensure (token_id t \<noteq> []) InvalidTokenID
     (if \<exists>c\<in>set (token_id t). \<not> is_ascii_alphanumeric c \<and> c \<noteq> CHR ''.''
      then Err (Generic (''Invalid Token Id format: must be lowercase, alphanumeric or '' @ [CHR 0x27, CHR ''.'', CHR 0x27]))
      else Ok t)"

definition Token_create :: "string \<Rightarrow> Token result" where
  "Token_create s = Token_validate (Token s)"

lemma Token_validate_Inr [ok_simps]: "Token_validate t = Inr v \<longleftrightarrow> v = t \<and> is_ok (Token_validate t)"
  by (auto simp: Token_validate_def ensure_def)

record Pair =
  pair_token_1 :: Token
  pair_token_2 :: Token

definition Token_exists :: "Token \<Rightarrow> Pair \<Rightarrow> bool" where
  "Token_exists t p = (t = pair_token_1 p \<or> t = pair_token_2 p)"

definition Pair_validate :: "Pair \<Rightarrow> unit result" where
  "Pair_validate p =
     ensure (pair_token_1 p \<noteq> pair_token_2 p) DuplicateTokens
     (bindR (Token_validate (pair_token_1 p)) (\<lambda>_.
      bindR (Token_validate (pair_token_2 p)) (\<lambda>_.
      ensure (pair_token_1 p \<le> pair_token_2 p) (Generic ''Token order is wrong'')
      (Ok ()))))"

definition Pair_new :: "Token \<Rightarrow> Token \<Rightarrow> Pair result" where
  "Pair_new a b =
     (let p = (if a \<le> b then \<lparr>pair_token_1 = a, pair_token_2 = b\<rparr>
               else \<lparr>pair_token_1 = b, pair_token_2 = a\<rparr>)
      in bindR (Pair_validate p) (\<lambda>_. Ok p))"

definition get_other_token :: "Pair \<Rightarrow> Token \<Rightarrow> Token" where
  "get_other_token p t = (if t = pair_token_1 p then pair_token_2 p else pair_token_1 p)"

definition get_tupple :: "Pair \<Rightarrow> Token \<times> Token" where
  "get_tupple p =
     (if pair_token_1 p \<le> pair_token_2 p then (pair_token_1 p, pair_token_2 p)
      else (pair_token_2 p, pair_token_1 p))"

definition get_vec_token :: "Pair \<Rightarrow> Token list" where
  "get_vec_token p = [pair_token_1 p, pair_token_2 p]"

lemma Pair_validate_Inr [ok_simps]:
  "Pair_validate p = Inr u \<longleftrightarrow>
     pair_token_1 p < pair_token_2 p \<and> is_ok (Token_validate (pair_token_1 p))
     \<and> is_ok (Token_validate (pair_token_2 p))"
  by (auto simp: Pair_validate_def ok_simps)

lemma get_other_token_involutive:
  "pair_token_1 p \<noteq> pair_token_2 p \<Longrightarrow> Token_exists t p \<Longrightarrow>
     get_other_token p (get_other_token p t) = t \<and> get_other_token p t \<noteq> t"
  by (auto simp: get_other_token_def Token_exists_def)

subsection \<open>Denominations\<close>

datatype TokenType = Native string | Smart string

definition TokenType_is_native :: "TokenType \<Rightarrow> bool" where
  "TokenType_is_native t = (case t of Native _ \<Rightarrow> True | Smart _ \<Rightarrow> False)"

definition TokenType_is_smart :: "TokenType \<Rightarrow> bool" where
  "TokenType_is_smart t = (\<not> TokenType_is_native t)"

definition get_denom :: "TokenType \<Rightarrow> string" where
  "get_denom t = (case t of Native d \<Rightarrow> d | Smart a \<Rightarrow> a)"

definition get_key :: "TokenType \<Rightarrow> string" where
  "get_key t = (case t of Native d \<Rightarrow> ''native:'' @ d | Smart a \<Rightarrow> ''smart:'' @ a)"

lemma get_key_inject [simp]: "get_key t = get_key u \<longleftrightarrow> t = u"
  by (cases t; cases u) (auto simp: get_key_def)

record TokenWithDenom =
  twd_token :: Token
  twd_token_type :: TokenType

text \<open>\<open>query_supply\<close> is the bank module's answer for a native denomination.\<close>

definition TokenWithDenom_validate :: "(string \<Rightarrow> uint128 result) \<Rightarrow> TokenWithDenom \<Rightarrow> unit result" where
  "TokenWithDenom_validate query_supply t =
     (let denom = get_denom (twd_token_type t) in
      ensure (denom \<noteq> []) (InvalidAsset denom)
      (if TokenType_is_native (twd_token_type t)
       then bindR (query_supply denom) (\<lambda>supply. ensure (supply \<noteq> 0) (ZeroAssetSupply denom) (Ok ()))
       else Ok ()))"

record PairWithDenom =
  pwd_token_1 :: TokenWithDenom
  pwd_token_2 :: TokenWithDenom

definition get_pair :: "PairWithDenom \<Rightarrow> Pair result" where
  "get_pair p = Pair_new (twd_token (pwd_token_1 p)) (twd_token (pwd_token_2 p))"

definition get_vec_token_info :: "PairWithDenom \<Rightarrow> TokenWithDenom list" where
  "get_vec_token_info p = [pwd_token_1 p, pwd_token_2 p]"

definition PairWithDenom_validate :: "PairWithDenom \<Rightarrow> bool result" where
  "PairWithDenom_validate p =
     bindR (get_pair p) (\<lambda>pair.
     ensure (pair_token_1 pair = twd_token (pwd_token_1 p)) (Generic ''Pair should be sorted'')
     (ensure (pair_token_2 pair = twd_token (pwd_token_2 p)) (Generic ''Pair should be sorted'')
     (Ok True)))"

section \<open>Fees\<close>

definition MAX_FEE_BPS :: u64 where
  "MAX_FEE_BPS = 1000"

definition MAX_PARTNER_FEE_BPS :: u64 where
  "MAX_PARTNER_FEE_BPS = 30"

record Fee =
  fee_lp_fee_bps :: u64
  fee_euclid_fee_bps :: u64
  fee_recipient :: CrossChainUser

type_synonym DenomFees = "(string, uint128) store"

record TotalFees =
  tf_lp_fees :: DenomFees
  tf_euclid_fees :: DenomFees

text \<open>\<open>*total += amount\<close> panics on overflow.\<close>

definition add_fee :: "DenomFees \<Rightarrow> string \<Rightarrow> uint128 \<Rightarrow> DenomFees result" where
  "add_fee f token amount =
     (case map_may_load f token of
        Some tot \<Rightarrow> bindR (add_or_panic tot amount) (\<lambda>t. Ok (map_save f token t))
      | None \<Rightarrow> Ok (map_save f token amount))"

definition get_fee :: "DenomFees \<Rightarrow> string \<Rightarrow> uint128" where
  "get_fee f token = unwrap_or (map_may_load f token) 0"

lemma add_fee_Inr:
  assumes "add_fee f t a = Inr f'"
  shows "unat (get_fee f' t) = unat (get_fee f t) + unat a"
    and "t' \<noteq> t \<Longrightarrow> get_fee f' t' = get_fee f t'"
  using assms by (auto simp: add_fee_def get_fee_def ok_simps split: option.splits)

record PartnerFee =
  pf_partner_fee_bps :: u64
  pf_recipient :: string

section \<open>Pools, swaps and liquidity\<close>

definition MINIMUM_LIQUIDITY :: uint128 where
  "MINIMUM_LIQUIDITY = 1000"

record Pool =
  pool_pair :: Pair
  pool_reserve_1 :: uint128
  pool_reserve_2 :: uint128

definition get_reserve :: "Pool \<Rightarrow> Token \<Rightarrow> uint128 result" where
  "get_reserve p t =
     (if t = pair_token_1 (pool_pair p) then Ok (pool_reserve_1 p)
      else if t = pair_token_2 (pool_pair p) then Ok (pool_reserve_2 p)
      else Err AssetDoesNotExist)"

record NextSwapPair =
  nsp_token_in :: Token
  nsp_token_out :: Token
  nsp_test_fail :: "bool option"

record NextSwapVlp =
  nsv_vlp_address :: string
  nsv_test_fail :: "bool option"

record SwapRequest =
  sr_sender :: string
  sr_tx_id :: string
  sr_asset_in :: TokenWithDenom
  sr_asset_out :: Token
  sr_amount_in :: uint128
  sr_min_amount_out :: uint128
  sr_swaps :: "NextSwapPair list"
  sr_timeout :: nat
  sr_cross_chain_addresses :: "CrossChainUserWithLimit list"
  sr_partner_fee_amount :: uint128
  sr_partner_fee_recipient :: "addr option"

record AddLiquidityRequest =
  alr_sender :: string
  alr_tx_id :: string
  alr_token_1_liquidity :: uint128
  alr_token_2_liquidity :: uint128
  alr_pair_info :: PairWithDenom

record RemoveLiquidityRequest =
  rlr_sender :: string
  rlr_tx_id :: string
  rlr_lp_allocation :: uint128
  rlr_pair :: Pair
  rlr_cw20 :: addr

record BalanceKey =
  bk_cross_chain_user :: CrossChainUser
  bk_token_id :: string

type_synonym SerializedBalanceKey = "ChainUid \<times> string \<times> string"

definition to_serialized_balance_key :: "BalanceKey \<Rightarrow> SerializedBalanceKey" where
  "to_serialized_balance_key k =
     (ccu_chain_uid (bk_cross_chain_user k), ccu_address (bk_cross_chain_user k), bk_token_id k)"

definition from_serialized_balance_key :: "SerializedBalanceKey \<Rightarrow> BalanceKey result" where
  "from_serialized_balance_key k =
     (case k of (uid, address, token) \<Rightarrow>
        bindR (ChainUid_validate uid) (\<lambda>uid.
        Ok \<lparr>bk_cross_chain_user = \<lparr>ccu_chain_uid = uid, ccu_address = address\<rparr>, bk_token_id = token\<rparr>))"

lemma to_serialized_balance_key_inject [simp]:
  "to_serialized_balance_key k = to_serialized_balance_key k' \<longleftrightarrow> k = k'"
  by (cases k; cases k')
     (auto simp: to_serialized_balance_key_def intro: CrossChainUser.equality)

section \<open>Time-outs and transaction ids\<close>

definition get_timeout :: "u64 option \<Rightarrow> u64 result" where
  "get_timeout t =
     (case t of
        Some timeout \<Rightarrow> ensure (30 \<le> timeout \<and> timeout \<le> 240) InvalidTimeout (Ok timeout)
      | None \<Rightarrow> Ok 60)"

text \<open>The counter \<open>TX_NONCE\<close> of the calling contract is threaded through.\<close>

definition generate_tx :: "uint128 option \<Rightarrow> env \<Rightarrow> CrossChainUser \<Rightarrow> uint128 option \<times> string" where
  "generate_tx tx_nonce env sender =
     (let index = unwrap_or (tx_index env) 0;
          nonce = unwrap_or tx_nonce 0 + 1
      in (Some nonce,
          to_sender_string sender @ '':'' @ block_chain_id env @ '':'' @ show_nat (unat (block_height env))
            @ '':'' @ show_nat (unat index) @ '':'' @ show_nat (unat nonce)))"

text \<open>A page of a listing.\<close>

record 'k Pagination =
  page_min :: "'k option"
  page_max :: "'k option"
  page_skip :: "u64 option"
  page_limit :: "u64 option"

end
