(* ===== verification/Messages.thy ===== *)
theory Messages
  imports Euclid_Types
begin

text \<open>
  The messages the contracts exchange (\<^verbatim>\<open>packages/euclid/src/msgs\<close>, \<^verbatim>\<open>packages/euclid_ibc/src\<close>) and
  the response a handler returns. Wire formats are free data types: \<open>to_json_binary\<close> is a constructor
  of \<open>binary\<close> and \<open>from_json\<close> is the match on it, which fails with a parse error on any other payload
  (the message structs reject unknown fields, so no payload parses as two of them); the protobuf
  envelope around the data of a reply is treated in the same way. Attributes and events of a response
  are log output that no contract reads, and are left out.

  The two queues that give native (same-chain) calls the shape of packets share one representation
  and one set of laws, the locale \<open>bounded_queue\<close>.
\<close>

section \<open>Responses and acknowledgements\<close>

record PoolCreationResponse =
  pcr_vlp_contract :: string

record AddLiquidityResponse =
  alresp_mint_lp_tokens :: uint128
  alresp_vlp_address :: string

record RemoveLiquidityResponse =
  rlresp_token_1_liquidity :: uint128
  rlresp_token_2_liquidity :: uint128
  rlresp_burn_lp_tokens :: uint128
  rlresp_vlp_address :: string

record SwapResponse =
  swresp_amount_out :: uint128
  swresp_tx_id :: string

record WithdrawResponse =
  wresp_token :: Token
  wresp_tx_id :: string

record RegisterFactoryResponse =
  rfresp_factory_address :: string
  rfresp_chain_id :: string

record ReleaseEscrowResponse =
  reresp_factory_address :: string
  reresp_chain_id :: string
  reresp_amount :: uint128
  reresp_token :: Token
  reresp_to_address :: string

record VlpRemoveLiquidityResponse =
  vrl_token_1_liquidity_released :: uint128
  vrl_token_2_liquidity_released :: uint128
  vrl_burn_lp_tokens :: uint128
  vrl_tx_id :: string
  vrl_sender :: CrossChainUser
  vrl_vlp_address :: string

record VlpSwapResponse =
  vsr_sender :: CrossChainUser
  vsr_tx_id :: string
  vsr_asset_out :: Token
  vsr_amount_out :: uint128

record EscrowInstantiateResponse =
  eir_token :: Token
  eir_address :: string

record Cw20InstantiateResponse =
  cir_pair :: Pair
  cir_address :: string
  cir_vlp :: string

datatype 's AcknowledgementMsg = AckOk 's | AckError string

definition AcknowledgementMsg_unwrap :: "'s AcknowledgementMsg \<Rightarrow> 's result" where
  "AcknowledgementMsg_unwrap a = (case a of AckOk d \<Rightarrow> Ok d | AckError e \<Rightarrow> Err (Generic e))"

definition AcknowledgementMsg_unwrap_err :: "'s AcknowledgementMsg \<Rightarrow> string result" where
  "AcknowledgementMsg_unwrap_err a =
     (case a of AckOk _ \<Rightarrow> Err (Generic ''Not an error'') | AckError e \<Rightarrow> Ok e)"

datatype ack_data =
    PoolCreated PoolCreationResponse
  | EscrowCreated
  | LiquidityAdded AddLiquidityResponse
  | LiquidityRemoved RemoveLiquidityResponse
  | Swapped SwapResponse
  | WithdrawAccepted WithdrawResponse
  | FactoryRegistered RegisterFactoryResponse
  | EscrowReleased ReleaseEscrowResponse

section \<open>Messages between hub and chains\<close>

record ChainIbcRemoveLiquidityExecuteMsg =
  crl_sender :: CrossChainUser
  crl_lp_allocation :: uint128
  crl_pair :: Pair
  crl_cross_chain_addresses :: "CrossChainUserWithLimit list"
  crl_tx_id :: string

record ChainIbcSwapExecuteMsg =
  csw_sender :: CrossChainUser
  csw_asset_in :: Token
  csw_amount_in :: uint128
  csw_asset_out :: Token
  csw_min_amount_out :: uint128
  csw_swaps :: "NextSwapPair list"
  csw_cross_chain_addresses :: "CrossChainUserWithLimit list"
  csw_tx_id :: string

record ChainIbcWithdrawExecuteMsg =
  cwd_sender :: CrossChainUser
  cwd_token :: Token
  cwd_amount :: uint128
  cwd_cross_chain_addresses :: "CrossChainUserWithLimit list"
  cwd_tx_id :: string
  cwd_timeout :: "u64 option"

text \<open>Arguments in the order of the fields of the source.\<close>

datatype ChainIbcExecuteMsg =
    CI_RequestPoolCreation CrossChainUser string Pair
  | CI_RequestEscrowCreation CrossChainUser string Token
  | CI_AddLiquidity CrossChainUser uint128 uint128 u64 Pair string
  | CI_RemoveLiquidity ChainIbcRemoveLiquidityExecuteMsg
  | CI_Swap ChainIbcSwapExecuteMsg
  | CI_Withdraw ChainIbcWithdrawExecuteMsg

fun ChainIbc_get_tx_id :: "ChainIbcExecuteMsg \<Rightarrow> string" where
  "ChainIbc_get_tx_id (CI_AddLiquidity _ _ _ _ _ tx_id) = tx_id"
| "ChainIbc_get_tx_id (CI_RequestPoolCreation _ tx_id _) = tx_id"
| "ChainIbc_get_tx_id (CI_RemoveLiquidity msg) = crl_tx_id msg"
| "ChainIbc_get_tx_id (CI_Swap msg) = csw_tx_id msg"
| "ChainIbc_get_tx_id (CI_Withdraw msg) = cwd_tx_id msg"
| "ChainIbc_get_tx_id (CI_RequestEscrowCreation _ tx_id _) = tx_id"

text \<open>The user a message acts for.\<close>

fun chain_sender :: "ChainIbcExecuteMsg \<Rightarrow> CrossChainUser" where
  "chain_sender (CI_RequestPoolCreation s _ _) = s"
| "chain_sender (CI_RequestEscrowCreation s _ _) = s"
| "chain_sender (CI_AddLiquidity s _ _ _ _ _) = s"
| "chain_sender (CI_RemoveLiquidity m) = crl_sender m"
| "chain_sender (CI_Swap m) = csw_sender m"
| "chain_sender (CI_Withdraw m) = cwd_sender m"

datatype HubIbcExecuteMsg =
    HI_RegisterFactory ChainUid string
  | HI_UpdateFactoryChannel ChainUid string
  | HI_ReleaseEscrow ChainUid CrossChainUser uint128 Token string string

fun HubIbc_get_tx_id :: "HubIbcExecuteMsg \<Rightarrow> string" where
  "HubIbc_get_tx_id (HI_RegisterFactory _ tx_id) = tx_id"
| "HubIbc_get_tx_id (HI_ReleaseEscrow _ _ _ _ _ tx_id) = tx_id"
| "HubIbc_get_tx_id (HI_UpdateFactoryChannel _ tx_id) = tx_id"

datatype Cw20HookMsg =
    Hook_Deposit
  | Hook_Swap TokenWithDenom Token uint128 "NextSwapPair list" "u64 option"
      "CrossChainUserWithLimit list" "PartnerFee option"
  | Hook_RemoveLiquidity Pair uint128 "u64 option" "CrossChainUserWithLimit list"

section \<open>Payloads\<close>

datatype binary =
    Json_ChainIbc ChainIbcExecuteMsg
  | Json_HubIbc HubIbcExecuteMsg
  | Json_Hook Cw20HookMsg
  | Json_Ack "ack_data AcknowledgementMsg"
  | Json_PoolCreation PoolCreationResponse
  | Json_AddLiquidity AddLiquidityResponse
  | Json_VlpRemoveLiquidity VlpRemoveLiquidityResponse
  | Json_VlpSwap VlpSwapResponse
  | Json_EscrowInstantiate EscrowInstantiateResponse
  | Json_Cw20Instantiate Cw20InstantiateResponse
  | Pb_Execute "binary option"
  | Pb_Instantiate string "binary option"
  | Raw string

abbreviation parse_error :: "'a result" where
  "parse_error \<equiv> Err (Std ParseErr)"

definition from_json_chain_ibc :: "binary \<Rightarrow> ChainIbcExecuteMsg result" where
  "from_json_chain_ibc b = (case b of Json_ChainIbc m \<Rightarrow> Ok m | _ \<Rightarrow> parse_error)"

definition from_json_hub_ibc :: "binary \<Rightarrow> HubIbcExecuteMsg result" where
  "from_json_hub_ibc b = (case b of Json_HubIbc m \<Rightarrow> Ok m | _ \<Rightarrow> parse_error)"

definition from_json_hook :: "binary \<Rightarrow> Cw20HookMsg result" where
  "from_json_hook b = (case b of Json_Hook m \<Rightarrow> Ok m | _ \<Rightarrow> parse_error)"

definition from_json_vlp_swap :: "binary \<Rightarrow> VlpSwapResponse result" where
  "from_json_vlp_swap b = (case b of Json_VlpSwap m \<Rightarrow> Ok m | _ \<Rightarrow> parse_error)"

definition from_json_pool_creation :: "binary \<Rightarrow> PoolCreationResponse result" where
  "from_json_pool_creation b = (case b of Json_PoolCreation m \<Rightarrow> Ok m | _ \<Rightarrow> parse_error)"

definition from_json_add_liquidity :: "binary \<Rightarrow> AddLiquidityResponse result" where
  "from_json_add_liquidity b = (case b of Json_AddLiquidity m \<Rightarrow> Ok m | _ \<Rightarrow> parse_error)"

definition from_json_remove_liquidity :: "binary \<Rightarrow> VlpRemoveLiquidityResponse result" where
  "from_json_remove_liquidity b = (case b of Json_VlpRemoveLiquidity m \<Rightarrow> Ok m | _ \<Rightarrow> parse_error)"

definition from_json_escrow_instantiate :: "binary \<Rightarrow> EscrowInstantiateResponse result" where
  "from_json_escrow_instantiate b = (case b of Json_EscrowInstantiate m \<Rightarrow> Ok m | _ \<Rightarrow> parse_error)"

definition from_json_cw20_instantiate :: "binary \<Rightarrow> Cw20InstantiateResponse result" where
  "from_json_cw20_instantiate b = (case b of Json_Cw20Instantiate m \<Rightarrow> Ok m | _ \<Rightarrow> parse_error)"

lemma from_json_Inr [ok_simps]:
  "from_json_chain_ibc b = Inr c \<longleftrightarrow> b = Json_ChainIbc c"
  "from_json_hub_ibc b = Inr h \<longleftrightarrow> b = Json_HubIbc h"
  "from_json_hook b = Inr k \<longleftrightarrow> b = Json_Hook k"
  "from_json_vlp_swap b = Inr v \<longleftrightarrow> b = Json_VlpSwap v"
  "from_json_pool_creation b = Inr p \<longleftrightarrow> b = Json_PoolCreation p"
  "from_json_add_liquidity b = Inr a \<longleftrightarrow> b = Json_AddLiquidity a"
  "from_json_remove_liquidity b = Inr r \<longleftrightarrow> b = Json_VlpRemoveLiquidity r"
  "from_json_escrow_instantiate b = Inr e \<longleftrightarrow> b = Json_EscrowInstantiate e"
  "from_json_cw20_instantiate b = Inr w \<longleftrightarrow> b = Json_Cw20Instantiate w"
  by (auto simp: from_json_chain_ibc_def from_json_hub_ibc_def from_json_hook_def from_json_vlp_swap_def
      from_json_pool_creation_def from_json_add_liquidity_def from_json_remove_liquidity_def
      from_json_escrow_instantiate_def from_json_cw20_instantiate_def split: binary.splits)

lemma from_json_simps [simp]:
  "from_json_chain_ibc (Json_ChainIbc c) = Ok c" "from_json_hub_ibc (Json_HubIbc h) = Ok h"
  "from_json_hook (Json_Hook k) = Ok k" "from_json_vlp_swap (Json_VlpSwap v) = Ok v"
  "from_json_pool_creation (Json_PoolCreation p) = Ok p" "from_json_add_liquidity (Json_AddLiquidity a) = Ok a"
  "from_json_remove_liquidity (Json_VlpRemoveLiquidity r) = Ok r"
  by (simp_all add: ok_simps)

text \<open>\<open>sel\<close> picks the success type the caller asks for.\<close>

definition from_json_ack :: "(ack_data \<Rightarrow> 's option) \<Rightarrow> binary \<Rightarrow> 's AcknowledgementMsg result" where
  "from_json_ack sel b =
     (case b of
        Json_Ack (AckOk d) \<Rightarrow> (case sel d of Some s \<Rightarrow> Ok (AckOk s) | None \<Rightarrow> parse_error)
      | Json_Ack (AckError e) \<Rightarrow> Ok (AckError e)
      | _ \<Rightarrow> parse_error)"

definition make_ack_fail :: "string \<Rightarrow> binary" where
  "make_ack_fail err = Json_Ack (AckError err)"

lemma from_json_ack_fail [simp]: "from_json_ack sel (make_ack_fail e) = Ok (AckError e)"
  by (simp add: from_json_ack_def make_ack_fail_def)

record Cw20ReceiveMsg =
  crm_sender :: string
  crm_amount :: uint128
  crm_msg :: binary

record IbcEndpoint =
  port_id :: string
  channel_id :: string

record IbcPacket =
  packet_data :: binary
  packet_src :: IbcEndpoint
  packet_dest :: IbcEndpoint

record IbcPacketAckMsg =
  acknowledgement :: binary
  original_packet :: IbcPacket

datatype SubMsgResult = SubMsgOk "binary option" | SubMsgErr string

record Reply =
  reply_id :: u64
  reply_result :: SubMsgResult

definition parse_execute_response_data :: "binary \<Rightarrow> string + binary option" where
  "parse_execute_response_data b =
     (case b of Pb_Execute d \<Rightarrow> Inr d | _ \<Rightarrow> Inl ''failed to decode Protobuf message'')"

definition parse_reply_execute_data :: "Reply \<Rightarrow> string + binary option" where
  "parse_reply_execute_data r =
     (case reply_result r of
        SubMsgErr e \<Rightarrow> Inl e
      | SubMsgOk None \<Rightarrow> Inl ''Missing reply data''
      | SubMsgOk (Some b) \<Rightarrow> parse_execute_response_data b)"

definition parse_reply_instantiate_data :: "Reply \<Rightarrow> string + (string \<times> binary option)" where
  "parse_reply_instantiate_data r =
     (case reply_result r of
        SubMsgErr e \<Rightarrow> Inl e
      | SubMsgOk (Some (Pb_Instantiate a d)) \<Rightarrow> Inr (a, d)
      | SubMsgOk _ \<Rightarrow> Inl ''Missing reply data'')"

definition default_binary :: binary where
  "default_binary = Raw []"

section \<open>Messages to contracts\<close>

record ExecuteMint =
  mint_amount :: uint128
  mint_balance_key :: BalanceKey

record ExecuteTransfer =
  transfer_amount :: uint128
  transfer_token_id :: string
  transfer_from :: CrossChainUser
  transfer_to :: CrossChainUser

record ExecuteBurn =
  burn_amount :: uint128
  burn_balance_key :: BalanceKey

datatype vb_ExecuteMsg = VB_Mint ExecuteMint | VB_Transfer ExecuteTransfer | VB_Burn ExecuteBurn

datatype vlp_ExecuteMsg =
    VLP_RegisterPool CrossChainUser Pair string
  | VLP_UpdateFee "u64 option" "u64 option" "CrossChainUser option"
  | VLP_Swap CrossChainUser string Token uint128 uint128 "NextSwapVlp list" "bool option"
  | VLP_AddLiquidity CrossChainUser string uint128 uint128 u64
  | VLP_RemoveLiquidity CrossChainUser string uint128

datatype escrow_ExecuteMsg =
    ESC_AddAllowedDenom TokenType
  | ESC_DisallowDenom TokenType
  | ESC_DepositNative
  | ESC_Receive Cw20ReceiveMsg
  | ESC_Withdraw addr uint128

datatype RegisterFactoryChainType =
    RegisterNative string
  | RegisterIbc string "u64 option"

datatype router_ExecuteMsg =
    R_ReregisterChain ChainUid
  | R_DeregisterChain ChainUid
  | R_UpdateFactoryChannel ChainUid string
  | R_UpdateLock
  | R_UpdateVLPCodeId u64
  | R_RegisterFactory ChainUid RegisterFactoryChainType
  | R_WithdrawVoucher Token "uint128 option" "CrossChainUserWithLimit list" "u64 option"
  | R_ReleaseEscrowInternal CrossChainUser Token "uint128 option" "CrossChainUserWithLimit list"
      "u64 option" string
  | R_IbcCallbackAckAndTimeout IbcPacketAckMsg
  | R_IbcCallbackReceive IbcPacket
  | R_NativeReceiveCallback binary ChainUid

datatype factory_ExecuteMsg =
    F_AddLiquidityRequest PairWithDenom uint128 uint128 u64 "u64 option"
  | F_ExecuteSwapRequest TokenWithDenom Token uint128 uint128 "u64 option" "NextSwapPair list"
      "CrossChainUserWithLimit list" "PartnerFee option"
  | F_RequestRegisterDenom TokenWithDenom
  | F_RequestDeregisterDenom TokenWithDenom
  | F_RequestPoolCreation PairWithDenom "u64 option" string string "8 word" "string option"
  | F_RequestRegisterEscrow TokenWithDenom "u64 option"
  | F_UpdateHubChannel string
  | F_WithdrawVirtualBalance Token uint128 "CrossChainUserWithLimit list" "u64 option"
  | F_Receive Cw20ReceiveMsg
  | F_IbcCallbackAckAndTimeout IbcPacketAckMsg
  | F_IbcCallbackReceive IbcPacket
  | F_NativeReceiveCallback binary

text \<open>When an allowance ends, in the token library.\<close>

datatype Expiration = AtHeight u64 | AtTime nat | Never

text \<open>The messages of the LP token; the logo is opaque.\<close>

datatype cw20_ExecuteMsg =
    CW20_Transfer string uint128
  | CW20_Burn uint128
  | CW20_Send string uint128 binary
  | CW20_IncreaseAllowance string uint128 "Expiration option"
  | CW20_DecreaseAllowance string uint128 "Expiration option"
  | CW20_TransferFrom string string uint128
  | CW20_SendFrom string string uint128 binary
  | CW20_BurnFrom string uint128
  | CW20_Mint string uint128
  | CW20_UpdateMarketing "string option" "string option" "string option"
  | CW20_UploadLogo string

record MinterResponse =
  minter :: string
  cap :: "uint128 option"

text \<open>
  The instantiation message of the token library, with the starting balances by address; the marketing block is
  opaque.
\<close>

record LpTokenInstantiateMsg =
  lpt_name :: string
  lpt_symbol :: string
  lpt_decimals :: "8 word"
  lpt_initial_balances :: "(string \<times> uint128) list"
  lpt_mint :: "MinterResponse option"
  lpt_marketing :: "string option"

record PoolCreateRequest =
  pcq_sender :: string
  pcq_tx_id :: string
  pcq_pair_info :: PairWithDenom
  pcq_lp_token_instantiate_msg :: LpTokenInstantiateMsg

record EscrowCreateRequest =
  ecq_sender :: string
  ecq_tx_id :: string
  ecq_token :: TokenWithDenom

record vlp_InstantiateMsg =
  vim_router :: string
  vim_virtual_balance :: string
  vim_pair :: Pair
  vim_fee :: Fee
  vim_execute :: "vlp_ExecuteMsg option"
  vim_admin :: string

record cw20_InstantiateMsg =
  cim_name :: string
  cim_symbol :: string
  cim_decimals :: "8 word"
  cim_initial_balances :: "(string \<times> uint128) list"
  cim_mint :: "MinterResponse option"
  cim_marketing :: "string option"
  cim_vlp :: string
  cim_factory :: addr
  cim_token_pair :: Pair

datatype wasm_execute_msg =
    To_VirtualBalance vb_ExecuteMsg
  | To_Vlp vlp_ExecuteMsg
  | To_Escrow escrow_ExecuteMsg
  | To_Router router_ExecuteMsg
  | To_Factory factory_ExecuteMsg
  | To_Cw20 cw20_ExecuteMsg

datatype wasm_instantiate_msg =
    New_VirtualBalance addr "addr option"
  | New_Vlp vlp_InstantiateMsg
  | New_Escrow Token "TokenType option"
  | New_Cw20 cw20_InstantiateMsg

datatype CosmosMsg =
    Bank_Send string "coin list"
  | Wasm_Execute string wasm_execute_msg "coin list"
  | Wasm_Instantiate "string option" u64 wasm_instantiate_msg "coin list" string
  | Ibc_SendPacket string binary nat

datatype ReplyOn = ReplyAlways | ReplyOnError | ReplyNever

record SubMsg =
  sm_id :: u64
  sm_msg :: CosmosMsg
  sm_reply_on :: ReplyOn

definition SubMsg_new :: "CosmosMsg \<Rightarrow> SubMsg" where
  "SubMsg_new m = \<lparr>sm_id = 0, sm_msg = m, sm_reply_on = ReplyNever\<rparr>"

definition reply_always :: "CosmosMsg \<Rightarrow> u64 \<Rightarrow> SubMsg" where
  "reply_always m i = \<lparr>sm_id = i, sm_msg = m, sm_reply_on = ReplyAlways\<rparr>"

definition reply_on_error :: "CosmosMsg \<Rightarrow> u64 \<Rightarrow> SubMsg" where
  "reply_on_error m i = \<lparr>sm_id = i, sm_msg = m, sm_reply_on = ReplyOnError\<rparr>"

record Response =
  r_messages :: "SubMsg list"
  r_data :: "binary option"

definition Response_new :: Response where
  "Response_new = \<lparr>r_messages = [], r_data = None\<rparr>"

definition add_submessage :: "SubMsg \<Rightarrow> Response \<Rightarrow> Response" where
  "add_submessage m r = r\<lparr>r_messages := r_messages r @ [m]\<rparr>"

definition add_submessages :: "SubMsg list \<Rightarrow> Response \<Rightarrow> Response" where
  "add_submessages ms r = r\<lparr>r_messages := r_messages r @ ms\<rparr>"

definition add_message :: "CosmosMsg \<Rightarrow> Response \<Rightarrow> Response" where
  "add_message m r = add_submessage (SubMsg_new m) r"

definition add_messages :: "CosmosMsg list \<Rightarrow> Response \<Rightarrow> Response" where
  "add_messages ms r = add_submessages (map SubMsg_new ms) r"

definition set_data :: "binary \<Rightarrow> Response \<Rightarrow> Response" where
  "set_data d r = r\<lparr>r_data := Some d\<rparr>"

lemmas response_simps [simp] =
  Response_new_def add_submessage_def add_submessages_def add_message_def add_messages_def set_data_def

lemmas submsg_defs = SubMsg_new_def reply_always_def reply_on_error_def

section \<open>Transfers of a denomination\<close>

definition create_transfer_msg :: "TokenType \<Rightarrow> uint128 \<Rightarrow> string \<Rightarrow> string option \<Rightarrow> CosmosMsg" where
  "create_transfer_msg t amount recipient allowance =
     (case t of
        Native denom \<Rightarrow> Bank_Send recipient [\<lparr>coin_denom = denom, coin_amount = amount\<rparr>]
      | Smart contract_addr \<Rightarrow>
          Wasm_Execute contract_addr
            (To_Cw20 (case allowance of
               Some owner \<Rightarrow> CW20_TransferFrom owner recipient amount
             | None \<Rightarrow> CW20_Transfer recipient amount)) [])"

definition create_escrow_msg :: "TokenType \<Rightarrow> uint128 \<Rightarrow> addr \<Rightarrow> CosmosMsg" where
  "create_escrow_msg t amount escrow_contract =
     (case t of
        Native denom \<Rightarrow>
          Wasm_Execute escrow_contract (To_Escrow ESC_DepositNative)
            [\<lparr>coin_denom = denom, coin_amount = amount\<rparr>]
      | Smart contract_addr \<Rightarrow>
          Wasm_Execute contract_addr
            (To_Cw20 (CW20_Send escrow_contract amount (Json_Hook Hook_Deposit))) [])"

definition create_virtual_balance_transfer_msg ::
    "Token \<Rightarrow> string \<Rightarrow> uint128 \<Rightarrow> CrossChainUser \<Rightarrow> CrossChainUser \<Rightarrow> CosmosMsg" where
  "create_virtual_balance_transfer_msg t virtual_balance_address amount from to =
     Wasm_Execute virtual_balance_address
       (To_VirtualBalance (VB_Transfer
          \<lparr>transfer_amount = amount, transfer_token_id = token_id t,
           transfer_from = from, transfer_to = to\<rparr>)) []"

section \<open>The queues of native calls\<close>

text \<open>
  A call to a contract on the same chain is made to look like a packet: the message is stored under a
  reply id from a fixed range, and the reply with that id is handled as its acknowledgement.
\<close>

record 'm msg_queue =
  q_entries :: "(u64, 'm) store"
  q_count :: "u64 option"

definition queue_push :: "u64 \<Rightarrow> u64 \<Rightarrow> 'm msg_queue \<Rightarrow> 'm \<Rightarrow> ('m msg_queue \<times> u64) result" where
  "queue_push lo hi q m =
     (let count = unwrap_or (q_count q) lo;
          count = max (min count hi) lo
      in ensure (\<not> map_has (q_entries q) count) (Generic ''Msg Queue is full'')
         (Ok (\<lparr>q_entries = map_save (q_entries q) count m, q_count = Some (count + 1)\<rparr>, count)))"

definition queue_take :: "'m msg_queue \<Rightarrow> u64 \<Rightarrow> ('m msg_queue \<times> 'm) result" where
  "queue_take q i =
     bindR (map_load (q_entries q) i) (\<lambda>m. Ok (q\<lparr>q_entries := map_remove (q_entries q) i\<rparr>, m))"

definition CHAIN_IBC_EXECUTE_MSG_QUEUE_RANGE :: "u64 \<times> u64" where
  "CHAIN_IBC_EXECUTE_MSG_QUEUE_RANGE = (2001, 3000)"

definition HUB_IBC_EXECUTE_MSG_QUEUE_RANGE :: "u64 \<times> u64" where
  "HUB_IBC_EXECUTE_MSG_QUEUE_RANGE = (1001, 2000)"

definition ChainIbc_to_msg ::
    "ChainIbcExecuteMsg msg_queue \<Rightarrow> env \<Rightarrow> ChainIbcExecuteMsg \<Rightarrow> string \<Rightarrow> ChainUid \<Rightarrow> bool \<Rightarrow> string
       \<Rightarrow> u64 \<Rightarrow> (ChainIbcExecuteMsg msg_queue \<times> SubMsg) result" where
  "ChainIbc_to_msg q env msg router_contract chain_uid is_native channel timeout =
     (if is_native
      then bindR (queue_push (fst CHAIN_IBC_EXECUTE_MSG_QUEUE_RANGE) (snd CHAIN_IBC_EXECUTE_MSG_QUEUE_RANGE) q msg)
           (\<lambda>(q', count).
             Ok (q', reply_always
                  (Wasm_Execute router_contract
                     (To_Router (R_NativeReceiveCallback (Json_ChainIbc msg) chain_uid)) []) count))
      else Ok (q, SubMsg_new
             (Ibc_SendPacket channel (Json_ChainIbc msg) (plus_seconds (block_time env) timeout))))"

definition HubIbc_to_msg ::
    "HubIbcExecuteMsg msg_queue \<Rightarrow> env \<Rightarrow> HubIbcExecuteMsg \<Rightarrow> Chain \<Rightarrow> u64
       \<Rightarrow> (HubIbcExecuteMsg msg_queue \<times> SubMsg) result" where
  "HubIbc_to_msg q env msg chain timeout =
     (case chain_type chain of
        Ibc ibc_info \<Rightarrow>
          Ok (q, SubMsg_new
             (Ibc_SendPacket (from_hub_channel ibc_info) (Json_HubIbc msg)
                (plus_seconds (block_time env) timeout)))
      | NativeChain \<Rightarrow>
          bindR (queue_push (fst HUB_IBC_EXECUTE_MSG_QUEUE_RANGE) (snd HUB_IBC_EXECUTE_MSG_QUEUE_RANGE) q msg)
           (\<lambda>(q', count).
             Ok (q', reply_always
                  (Wasm_Execute (factory_addr chain)
                     (To_Factory (F_NativeReceiveCallback (Json_HubIbc msg))) []) count)))"

text \<open>The laws both queues rely on: the ids handed out lie in the reserved range.\<close>

locale bounded_queue =
  fixes lo hi :: u64
  assumes range_ok: "lo \<le> hi" and hi_max: "hi < - 1"
begin

lemma push_id_in_range:
  assumes "queue_push lo hi q m = Inr (q', i)"
  shows "lo \<le> i \<and> i \<le> hi"
  using assms range_ok by (auto simp: queue_push_def Let_def ok_simps max_def min_def)

lemma push_take:
  assumes "queue_push lo hi q m = Inr (q', i)"
  shows "map_may_load (q_entries q) i = None" and "queue_take q' i = Ok (q'\<lparr>q_entries := map_remove (q_entries q') i\<rparr>, m)"
    and "j \<noteq> i \<Longrightarrow> map_may_load (q_entries q') j = map_may_load (q_entries q) j"
  using assms
  by (auto simp: queue_push_def queue_take_def Let_def ok_simps map_has_def map_load_def)

lemma push_count:
  assumes "queue_push lo hi q m = Inr (q', i)"
  shows "q_count q' = Some (i + 1)" and "lo < i + 1" and "i + 1 \<le> hi + 1"
proof -
  have i: "lo \<le> i" "i \<le> hi" using push_id_in_range [OF assms] by auto
  show "q_count q' = Some (i + 1)"
    using assms by (auto simp: queue_push_def Let_def ok_simps)
  have "i < - 1" "hi < -1" using i hi_max by auto
  then show "lo < i + 1" and "i + 1 \<le> hi + 1"
    using i by unat_arith+
qed

text \<open>The counter never wraps: once the last id has been used, every later push asks for it again.\<close>

lemma push_saturates:
  assumes "q_count q = Some c" and "hi \<le> c"
  shows "queue_push lo hi q m = Inr (q', i) \<Longrightarrow> i = hi"
    and "map_has (q_entries q) hi \<Longrightarrow> queue_push lo hi q m = Err (Generic ''Msg Queue is full'')"
  using assms range_ok by (auto simp: queue_push_def Let_def ok_simps max_def min_def)

end

interpretation chain_queue: bounded_queue "fst CHAIN_IBC_EXECUTE_MSG_QUEUE_RANGE" "snd CHAIN_IBC_EXECUTE_MSG_QUEUE_RANGE"
  by unfold_locales (simp_all add: CHAIN_IBC_EXECUTE_MSG_QUEUE_RANGE_def)

interpretation hub_queue: bounded_queue "fst HUB_IBC_EXECUTE_MSG_QUEUE_RANGE" "snd HUB_IBC_EXECUTE_MSG_QUEUE_RANGE"
  by unfold_locales (simp_all add: HUB_IBC_EXECUTE_MSG_QUEUE_RANGE_def)

end
