(* ===== verification/Virtual_Balance.thy ===== *)
theory Virtual_Balance
  imports Messages
begin

text \<open>
  The virtual balance contract, \<^verbatim>\<open>contracts/hub/virtual_balance/src\<close>: a ledger of the amounts of every
  token that a user of any chain holds on the hub. Only the router mints and burns; a transfer is made
  by the router or by the owner on the hub chain itself. The abstract ledger is a function from keys to
  natural numbers; the locale \<open>ledger\<close> states what the pools and the router rely on, and the contract is
  shown to provide it for transfers between different accounts. A transfer to oneself is not one of
  them: it credits the account without debiting it.
\<close>

section \<open>State and operations\<close>

record vb_State =
  vbs_router :: string
  vbs_admin :: addr

record vb_storage =
  VB_STATE :: "vb_State option"
  VB_BALANCES :: "(SerializedBalanceKey, uint128) store"

definition vb_instantiate :: "message_info \<Rightarrow> addr option \<Rightarrow> (vb_storage \<times> Response) result" where
  "vb_instantiate info admin =
     Ok (\<lparr>VB_STATE = Some \<lparr>vbs_router = info_sender info, vbs_admin = unwrap_or admin (info_sender info)\<rparr>,
          VB_BALANCES = []\<rparr>, Response_new)"

definition execute_mint :: "vb_storage \<Rightarrow> message_info \<Rightarrow> ExecuteMint \<Rightarrow> (vb_storage \<times> Response) result" where
  "execute_mint st info msg =
     bindR (item_load (VB_STATE st)) (\<lambda>state.
     ensure (info_sender info = vbs_router state) Unauthorized
     (ensure (mint_amount msg \<noteq> 0) ZeroAssetAmount
     (let key = to_serialized_balance_key (mint_balance_key msg);
          old_balance = unwrap_or (map_may_load (VB_BALANCES st) key) 0
      in bindR (checked_add old_balance (mint_amount msg)) (\<lambda>new_balance.
         Ok (st\<lparr>VB_BALANCES := map_save (VB_BALANCES st) key new_balance\<rparr>, Response_new)))))"

definition execute_burn :: "vb_storage \<Rightarrow> message_info \<Rightarrow> ExecuteBurn \<Rightarrow> (vb_storage \<times> Response) result" where
  "execute_burn st info msg =
     bindR (item_load (VB_STATE st)) (\<lambda>state.
     ensure (info_sender info = vbs_router state) Unauthorized
     (ensure (burn_amount msg \<noteq> 0) ZeroAssetAmount
     (let key = to_serialized_balance_key (burn_balance_key msg);
          old_balance = unwrap_or (map_may_load (VB_BALANCES st) key) 0
      in bindR (checked_sub old_balance (burn_amount msg)) (\<lambda>new_balance.
         Ok (st\<lparr>VB_BALANCES := map_save (VB_BALANCES st) key new_balance\<rparr>, Response_new)))))"

definition execute_transfer ::
    "vb_storage \<Rightarrow> message_info \<Rightarrow> ExecuteTransfer \<Rightarrow> (vb_storage \<times> Response) result" where
  "execute_transfer st info msg =
     bindR (item_load (VB_STATE st)) (\<lambda>state.
     bindR vsl_chain_uid (\<lambda>vsl_uid.
     ensure (vbs_router state = info_sender info
             \<or> (ccu_address (transfer_from msg) = info_sender info
                \<and> ccu_chain_uid (transfer_from msg) = vsl_uid)) Unauthorized
     (let sender_key = to_serialized_balance_key
            \<lparr>bk_cross_chain_user = transfer_from msg, bk_token_id = transfer_token_id msg\<rparr>;
          receiver_key = to_serialized_balance_key
            \<lparr>bk_cross_chain_user = transfer_to msg, bk_token_id = transfer_token_id msg\<rparr>;
          sender_old_balance = unwrap_or (map_may_load (VB_BALANCES st) sender_key) 0
      in ensure (transfer_amount msg \<le> sender_old_balance) (Generic ''Not Enough Funds'')
         (bindR (checked_sub sender_old_balance (transfer_amount msg)) (\<lambda>sender_new_balance.
          let receiver_old_balance = unwrap_or (map_may_load (VB_BALANCES st) receiver_key) 0
          in bindR (checked_add receiver_old_balance (transfer_amount msg)) (\<lambda>receiver_new_balance.
             Ok (st\<lparr>VB_BALANCES :=
                   map_save (map_save (VB_BALANCES st) sender_key sender_new_balance)
                     receiver_key receiver_new_balance\<rparr>, Response_new)))))))"

fun vb_execute :: "vb_storage \<Rightarrow> message_info \<Rightarrow> vb_ExecuteMsg \<Rightarrow> (vb_storage \<times> Response) result" where
  "vb_execute st info (VB_Mint msg) = execute_mint st info msg"
| "vb_execute st info (VB_Burn msg) = execute_burn st info msg"
| "vb_execute st info (VB_Transfer msg) = execute_transfer st info msg"

definition vb_query_state :: "vb_storage \<Rightarrow> vb_State result" where
  "vb_query_state st = item_load (VB_STATE st)"

definition query_balance :: "vb_storage \<Rightarrow> BalanceKey \<Rightarrow> uint128 result" where
  "query_balance st k =
     Ok (unwrap_or (map_may_load (VB_BALANCES st) (to_serialized_balance_key k)) 0)"

definition query_user_balances :: "vb_storage \<Rightarrow> ChainUid \<Rightarrow> string \<Rightarrow> (string \<times> uint128) list result" where
  "query_user_balances st uid address =
     Ok (map_range (map (\<lambda>((_, _, token), amount). (token, amount))
           (filter (\<lambda>((u, a, _), _). u = uid \<and> a = address) (VB_BALANCES st))))"

section \<open>The ledger interface\<close>

text \<open>
  The operations as relations on ledger states: \<open>minted s k a s'\<close> says that the call that mints \<open>a\<close> for
  account \<open>k\<close> took \<open>s\<close> to \<open>s'\<close>.
\<close>

locale ledger =
  fixes bal :: "'s \<Rightarrow> 'k \<Rightarrow> nat"
    and minted burned :: "'s \<Rightarrow> 'k \<Rightarrow> nat \<Rightarrow> 's \<Rightarrow> bool"
    and moved :: "'s \<Rightarrow> 'k \<Rightarrow> 'k \<Rightarrow> nat \<Rightarrow> 's \<Rightarrow> bool"
  assumes minted_bal: "minted s k a s' \<Longrightarrow> bal s' = (bal s)(k := bal s k + a)"
    and burned_bal: "burned s k a s' \<Longrightarrow> a \<le> bal s k \<and> bal s' = (bal s)(k := bal s k - a)"
    and moved_bal: "moved s k k' a s' \<Longrightarrow> k \<noteq> k' \<Longrightarrow>
        a \<le> bal s k \<and> bal s' = (bal s)(k := bal s k - a, k' := bal s k' + a)"
begin

lemma mint_then_burn: "minted s k a s' \<Longrightarrow> burned s' k a s'' \<Longrightarrow> bal s'' = bal s"
  by (auto dest!: minted_bal burned_bal)

lemma move_and_back:
  "moved s k k' a s' \<Longrightarrow> moved s' k' k a s'' \<Longrightarrow> k \<noteq> k' \<Longrightarrow> bal s'' = bal s"
  by (auto dest!: moved_bal simp: fun_eq_iff)

lemma minted_moved:
  assumes "minted s k a s'" and "moved s' k k' a s''" and "k \<noteq> k'"
  shows "bal s'' = (bal s)(k' := bal s k' + a)"
  using minted_bal [OF assms(1)] moved_bal [OF assms(2,3)] assms(3) by (auto simp: fun_eq_iff)

lemma sum_moved:
  assumes "moved s k k' a s'" and "k \<noteq> k'" and "finite A" and "k \<in> A" and "k' \<in> A"
  shows "(\<Sum>x\<in>A. bal s' x) = (\<Sum>x\<in>A. bal s x)"
proof -
  have split: "(\<Sum>x\<in>A. f x) = f k + f k' + (\<Sum>x\<in>A - {k, k'}. f x)" for f :: "'k \<Rightarrow> nat"
  proof -
    have "(\<Sum>x\<in>A. f x) = f k + (\<Sum>x\<in>A - {k}. f x)"
      using assms(3,4) by (rule sum.remove)
    also have "(\<Sum>x\<in>A - {k}. f x) = f k' + (\<Sum>x\<in>A - {k} - {k'}. f x)"
      using assms(2,3,5) by (intro sum.remove) auto
    finally show ?thesis by (simp add: Diff_insert2 [symmetric])
  qed
  have others: "(\<Sum>x\<in>A - {k, k'}. bal s' x) = (\<Sum>x\<in>A - {k, k'}. bal s x)"
    using moved_bal [OF assms(1,2)] by (intro sum.cong) auto
  show ?thesis
    using moved_bal [OF assms(1,2)] assms(2) by (simp add: split others)
qed

end

section \<open>The contract provides it\<close>

abbreviation vb_bal :: "vb_storage \<Rightarrow> SerializedBalanceKey \<Rightarrow> nat" where
  "vb_bal st k \<equiv> unat (amount_at (VB_BALANCES st) k)"

abbreviation account :: "CrossChainUser \<Rightarrow> string \<Rightarrow> SerializedBalanceKey" where
  "account u t \<equiv> (ccu_chain_uid u, ccu_address u, t)"

lemma mint_ok_iff:
  "execute_mint st info msg = Inr (st', r) \<longleftrightarrow>
     (\<exists>state new. VB_STATE st = Some state \<and> info_sender info = vbs_router state \<and> mint_amount msg \<noteq> 0
        \<and> unat new = vb_bal st (to_serialized_balance_key (mint_balance_key msg)) + unat (mint_amount msg)
        \<and> st' = st\<lparr>VB_BALANCES := map_save (VB_BALANCES st)
                    (to_serialized_balance_key (mint_balance_key msg)) new\<rparr> \<and> r = Response_new)"
  by (auto simp: execute_mint_def Let_def ok_simps amount_at_def)

lemma burn_ok_iff:
  "execute_burn st info msg = Inr (st', r) \<longleftrightarrow>
     (\<exists>state new. VB_STATE st = Some state \<and> info_sender info = vbs_router state \<and> burn_amount msg \<noteq> 0
        \<and> vb_bal st (to_serialized_balance_key (burn_balance_key msg)) = unat (burn_amount msg) + unat new
        \<and> st' = st\<lparr>VB_BALANCES := map_save (VB_BALANCES st)
                    (to_serialized_balance_key (burn_balance_key msg)) new\<rparr> \<and> r = Response_new)"
  by (auto simp: execute_burn_def Let_def ok_simps amount_at_def)

definition may_transfer :: "vb_State \<Rightarrow> message_info \<Rightarrow> CrossChainUser \<Rightarrow> bool" where
  "may_transfer state info from =
     (vbs_router state = info_sender info
      \<or> (ccu_address from = info_sender info \<and> ccu_chain_uid from = vsl))"

lemma transfer_ok_iff:
  "execute_transfer st info msg = Inr (st', r) \<longleftrightarrow>
     (\<exists>state s_new r_new. VB_STATE st = Some state \<and> may_transfer state info (transfer_from msg)
        \<and> vb_bal st (account (transfer_from msg) (transfer_token_id msg)) = unat (transfer_amount msg) + unat s_new
        \<and> unat r_new = vb_bal st (account (transfer_to msg) (transfer_token_id msg)) + unat (transfer_amount msg)
        \<and> st' = st\<lparr>VB_BALANCES :=
            map_save (map_save (VB_BALANCES st) (account (transfer_from msg) (transfer_token_id msg)) s_new)
              (account (transfer_to msg) (transfer_token_id msg)) r_new\<rparr> \<and> r = Response_new)"
  by (auto simp: execute_transfer_def Let_def ok_simps amount_at_def may_transfer_def
      to_serialized_balance_key_def word_le_nat_alt)

definition vb_minted :: "vb_storage \<Rightarrow> SerializedBalanceKey \<Rightarrow> nat \<Rightarrow> vb_storage \<Rightarrow> bool" where
  "vb_minted s k a s' \<longleftrightarrow> (\<exists>info msg r. execute_mint s info msg = Inr (s', r)
      \<and> k = to_serialized_balance_key (mint_balance_key msg) \<and> a = unat (mint_amount msg))"

definition vb_burned :: "vb_storage \<Rightarrow> SerializedBalanceKey \<Rightarrow> nat \<Rightarrow> vb_storage \<Rightarrow> bool" where
  "vb_burned s k a s' \<longleftrightarrow> (\<exists>info msg r. execute_burn s info msg = Inr (s', r)
      \<and> k = to_serialized_balance_key (burn_balance_key msg) \<and> a = unat (burn_amount msg))"

definition vb_moved ::
    "vb_storage \<Rightarrow> SerializedBalanceKey \<Rightarrow> SerializedBalanceKey \<Rightarrow> nat \<Rightarrow> vb_storage \<Rightarrow> bool" where
  "vb_moved s k k' a s' \<longleftrightarrow> (\<exists>info msg r. execute_transfer s info msg = Inr (s', r)
      \<and> k = account (transfer_from msg) (transfer_token_id msg)
      \<and> k' = account (transfer_to msg) (transfer_token_id msg) \<and> a = unat (transfer_amount msg))"

interpretation vbl: ledger vb_bal vb_minted vb_burned vb_moved
proof
  fix s k a s'
  show "vb_minted s k a s' \<Longrightarrow> vb_bal s' = (vb_bal s)(k := vb_bal s k + a)"
    by (auto simp: vb_minted_def mint_ok_iff fun_eq_iff)
  show "vb_burned s k a s' \<Longrightarrow> a \<le> vb_bal s k \<and> vb_bal s' = (vb_bal s)(k := vb_bal s k - a)"
    by (auto simp: vb_burned_def burn_ok_iff fun_eq_iff)
next
  fix s k k' a s'
  assume "vb_moved s k k' a s'" and "k \<noteq> k'"
  then obtain s_new r_new where "vb_bal s k = a + unat s_new" and "unat r_new = vb_bal s k' + a"
    and "s' = s\<lparr>VB_BALANCES := map_save (map_save (VB_BALANCES s) k s_new) k' r_new\<rparr>"
    by (auto simp: vb_moved_def transfer_ok_iff)
  with \<open>k \<noteq> k'\<close>
  show "a \<le> vb_bal s k \<and> vb_bal s' = (vb_bal s)(k := vb_bal s k - a, k' := vb_bal s k' + a)"
    by (simp add: fun_eq_iff)
qed

section \<open>Supply\<close>

definition vb_supply :: "vb_storage \<Rightarrow> string \<Rightarrow> nat" where
  "vb_supply st t = total_on (\<lambda>(_, _, t'). t' = t) (map_may_load (VB_BALANCES st))"

lemma supply_save:
  "vb_supply (st\<lparr>VB_BALANCES := map_save (VB_BALANCES st) (u, a, t') v\<rparr>) t
     + (if t' = t then vb_bal st (u, a, t') else 0)
   = vb_supply st t + (if t' = t then unat v else 0)"
  unfolding vb_supply_def
  using total_on_save [of "\<lambda>(_, _, t'). t' = t" "VB_BALANCES st" "(u, a, t')" v] by simp

text \<open>What a successful message adds to and takes from the supply of a token.\<close>

fun minted_by :: "vb_ExecuteMsg \<Rightarrow> string \<Rightarrow> nat" where
  "minted_by (VB_Mint m) t = (if bk_token_id (mint_balance_key m) = t then unat (mint_amount m) else 0)"
| "minted_by (VB_Transfer m) t =
     (if transfer_from m = transfer_to m \<and> transfer_token_id m = t then unat (transfer_amount m) else 0)"
| "minted_by (VB_Burn m) t = 0"

fun burned_by :: "vb_ExecuteMsg \<Rightarrow> string \<Rightarrow> nat" where
  "burned_by (VB_Burn m) t = (if bk_token_id (burn_balance_key m) = t then unat (burn_amount m) else 0)"
| "burned_by m t = 0"

lemma supply_mint:
  assumes "execute_mint st info msg = Inr (st', r)"
  shows "vb_supply st' t = vb_supply st t + minted_by (VB_Mint msg) t"
proof -
  obtain u a t' where k: "to_serialized_balance_key (mint_balance_key msg) = (u, a, t')"
    by (metis prod_cases3)
  then have t': "t' = bk_token_id (mint_balance_key msg)"
    by (simp add: to_serialized_balance_key_def)
  from assms k obtain new where
      "unat new = vb_bal st (u, a, t') + unat (mint_amount msg)" and "st' = st\<lparr>VB_BALANCES := map_save (VB_BALANCES st) (u, a, t') new\<rparr>"
    by (auto simp: mint_ok_iff)
  with t' supply_save [of st u a t' new t] show ?thesis
    by (auto split: if_splits)
qed

lemma supply_burn:
  assumes "execute_burn st info msg = Inr (st', r)"
  shows "vb_supply st' t + burned_by (VB_Burn msg) t = vb_supply st t"
proof -
  obtain u a t' where k: "to_serialized_balance_key (burn_balance_key msg) = (u, a, t')"
    by (metis prod_cases3)
  then have t': "t' = bk_token_id (burn_balance_key msg)"
    by (simp add: to_serialized_balance_key_def)
  from assms k obtain new where
      "vb_bal st (u, a, t') = unat (burn_amount msg) + unat new" and "st' = st\<lparr>VB_BALANCES := map_save (VB_BALANCES st) (u, a, t') new\<rparr>"
    by (auto simp: burn_ok_iff)
  with t' supply_save [of st u a t' new t] show ?thesis
    by (auto split: if_splits)
qed

lemma account_inject: "account u t = account v t \<longleftrightarrow> u = v"
  by (auto intro: CrossChainUser.equality)

lemma supply_transfer:
  assumes "execute_transfer st info msg = Inr (st', r)"
  shows "vb_supply st' t = vb_supply st t + minted_by (VB_Transfer msg) t"
proof -
  let ?f = "account (transfer_from msg) (transfer_token_id msg)"
  let ?t = "account (transfer_to msg) (transfer_token_id msg)"
  let ?a = "unat (transfer_amount msg)"
  from assms obtain s_new r_new where
      s: "vb_bal st ?f = ?a + unat s_new" and r: "unat r_new = vb_bal st ?t + ?a"
    and st': "st' = st\<lparr>VB_BALANCES := map_save (map_save (VB_BALANCES st) ?f s_new) ?t r_new\<rparr>"
    by (auto simp: transfer_ok_iff)
  define st1 where "st1 = st\<lparr>VB_BALANCES := map_save (VB_BALANCES st) ?f s_new\<rparr>"
  have "vb_supply st1 t + (if transfer_token_id msg = t then vb_bal st ?f else 0)
      = vb_supply st t + (if transfer_token_id msg = t then unat s_new else 0)"
    unfolding st1_def by (rule supply_save)
  moreover have "vb_supply st' t + (if transfer_token_id msg = t then vb_bal st1 ?t else 0)
      = vb_supply st1 t + (if transfer_token_id msg = t then unat r_new else 0)"
    using supply_save [of st1 _ _ "transfer_token_id msg" r_new t] by (simp add: st1_def st')
  moreover have "vb_bal st1 ?t = (if ?t = ?f then unat s_new else vb_bal st ?t)"
    by (simp add: st1_def)
  ultimately show ?thesis
    using s r account_inject [of "transfer_to msg" "transfer_token_id msg" "transfer_from msg"]
    by (auto split: if_splits)
qed

lemma supply_step:
  assumes "vb_execute st info msg = Inr (st', r)"
  shows "vb_supply st' t + burned_by msg t = vb_supply st t + minted_by msg t"
proof (cases msg)
  case (VB_Mint m)
  with assms supply_mint [of st info m st' r t] show ?thesis by simp
next
  case (VB_Transfer m)
  with assms supply_transfer [of st info m st' r t] show ?thesis by simp
next
  case (VB_Burn m)
  with assms supply_burn [of st info m st' r t] show ?thesis by simp
qed

section \<open>Runs\<close>

text \<open>
  A run is a sequence of calls; a call that fails leaves the state unchanged. \<open>effect\<close> lists the calls
  that took effect.
\<close>

fun vb_run :: "vb_storage \<Rightarrow> (message_info \<times> vb_ExecuteMsg) list \<Rightarrow> vb_storage" where
  "vb_run st [] = st"
| "vb_run st ((info, msg) # cs) =
     (case vb_execute st info msg of Inr (st', _) \<Rightarrow> vb_run st' cs | Inl _ \<Rightarrow> vb_run st cs)"

fun vb_effects :: "vb_storage \<Rightarrow> (message_info \<times> vb_ExecuteMsg) list \<Rightarrow> (message_info \<times> vb_ExecuteMsg) list" where
  "vb_effects st [] = []"
| "vb_effects st ((info, msg) # cs) =
     (case vb_execute st info msg of
        Inr (st', _) \<Rightarrow> (info, msg) # vb_effects st' cs
      | Inl _ \<Rightarrow> vb_effects st cs)"

lemma vb_execute_keeps_STATE: "vb_execute st info msg = Inr (st', r) \<Longrightarrow> VB_STATE st' = VB_STATE st"
  by (cases msg) (auto simp: mint_ok_iff burn_ok_iff transfer_ok_iff)

lemma vb_run_supply:
  "vb_supply (vb_run st cs) t + (\<Sum>(i, m)\<leftarrow>vb_effects st cs. burned_by m t)
     = vb_supply st t + (\<Sum>(i, m)\<leftarrow>vb_effects st cs. minted_by m t)"
proof (induction st cs rule: vb_run.induct)
  case (2 st info msg cs)
  show ?case
  proof (cases "vb_execute st info msg")
    case (Inl e)
    with 2 show ?thesis by simp
  next
    case (Inr v)
    obtain st' r where v: "v = (st', r)" by (cases v)
    have "vb_supply st' t + burned_by msg t = vb_supply st t + minted_by msg t"
      using Inr v by (simp add: supply_step)
    with 2 Inr v show ?thesis by fastforce
  qed
qed simp

text \<open>Who can change what: minting and burning need the router, a debit needs the router or its owner.\<close>

lemma vb_execute_sender:
  assumes "vb_execute st info msg = Inr (st', r)"
  shows "\<exists>state. VB_STATE st = Some state \<and>
     (info_sender info = vbs_router state
      \<or> (\<exists>m. msg = VB_Transfer m \<and> transfer_from m = \<lparr>ccu_chain_uid = vsl, ccu_address = info_sender info\<rparr>))"
  using assms
  by (cases msg) (auto simp: mint_ok_iff burn_ok_iff transfer_ok_iff may_transfer_def
      intro: CrossChainUser.equality)

section \<open>Properties\<close>

lemma user_entries_load:
  "map_may_load (map (\<lambda>((_, _, token), amount). (token, amount))
      (filter (\<lambda>((u, a, _), _). u = uid \<and> a = address) m)) t = map_may_load m (uid, address, t)"
  by (induction m) (auto simp: map_may_load_def)

text \<open>
  Over any sequence of calls, failed ones included, the supply of a token after the run plus
  what was burned equals the supply before it plus what was minted, where the only calls that add to
  the supply are mints and transfers of an account to itself.
\<close>

theorem vb_run_accounts_for_supply:
  "vb_supply (vb_run st cs) t + (\<Sum>(i, m)\<leftarrow>vb_effects st cs. burned_by m t)
     = vb_supply st t + (\<Sum>(i, m)\<leftarrow>vb_effects st cs. minted_by m t)"
  by (rule vb_run_supply)

text \<open>
  A successful transfer between two different users moves exactly the amount: the sender held it
  and loses it, the receiver gains it, every other account is unchanged, and so is the supply of
  every token.
\<close>

theorem vb_transfer_conserves:
  assumes "execute_transfer st info msg = Ok (st', r)" and "transfer_from msg \<noteq> transfer_to msg"
  shows "transfer_amount msg \<le> amount_at (VB_BALANCES st) (account (transfer_from msg) (transfer_token_id msg))
    \<and> vb_bal st' = (vb_bal st)
       (account (transfer_from msg) (transfer_token_id msg) :=
          vb_bal st (account (transfer_from msg) (transfer_token_id msg)) - unat (transfer_amount msg),
        account (transfer_to msg) (transfer_token_id msg) :=
          vb_bal st (account (transfer_to msg) (transfer_token_id msg)) + unat (transfer_amount msg))
    \<and> (\<forall>t. vb_supply st' t = vb_supply st t)"
proof -
  let ?f = "account (transfer_from msg) (transfer_token_id msg)"
  let ?t = "account (transfer_to msg) (transfer_token_id msg)"
  have "vb_moved st ?f ?t (unat (transfer_amount msg)) st'"
    using assms(1) by (auto simp: vb_moved_def)
  moreover have "?f \<noteq> ?t"
    using assms(2) by (simp only: account_inject) simp
  ultimately have "unat (transfer_amount msg) \<le> vb_bal st ?f \<and> vb_bal st' = (vb_bal st)
      (?f := vb_bal st ?f - unat (transfer_amount msg), ?t := vb_bal st ?t + unat (transfer_amount msg))"
    by (rule vbl.moved_bal)
  moreover have "\<forall>t. vb_supply st' t = vb_supply st t"
    using supply_transfer [OF assms(1)] assms(2) by simp
  ultimately show ?thesis
    by (simp only: word_le_nat_alt) simp
qed

definition example_ledger :: vb_storage where
  "example_ledger =
     \<lparr>VB_STATE = Some \<lparr>vbs_router = ''router'', vbs_admin = ''admin''\<rparr>,
      VB_BALANCES = [((vsl, ''alice'', ''euclid''), 100)]\<rparr>"

definition example_transfer :: "string \<Rightarrow> ExecuteTransfer" where
  "example_transfer to =
     \<lparr>transfer_amount = 30, transfer_token_id = ''euclid'',
      transfer_from = \<lparr>ccu_chain_uid = vsl, ccu_address = ''alice''\<rparr>,
      transfer_to = \<lparr>ccu_chain_uid = vsl, ccu_address = to\<rparr>\<rparr>"

lemmas vb_example_simps =
  example_ledger_def example_transfer_def execute_transfer_def to_serialized_balance_key_def
  map_may_load_def map_save_def checked_sub_def checked_add_def amount_at_def

theorem vb_transfer_conserves_witness:
  "\<exists>st' r. execute_transfer example_ledger \<lparr>info_sender = ''alice'', info_funds = []\<rparr> (example_transfer ''bob'') = Ok (st', r)
     \<and> vb_supply st' ''euclid'' = vb_supply example_ledger ''euclid''"
proof -
  obtain st' r where ok: "execute_transfer example_ledger \<lparr>info_sender = ''alice'', info_funds = []\<rparr>
      (example_transfer ''bob'') = Ok (st', r)"
    by (simp add: vb_example_simps)
  moreover have "transfer_from (example_transfer ''bob'') \<noteq> transfer_to (example_transfer ''bob'')"
    by (simp add: example_transfer_def)
  ultimately show ?thesis
    using vb_transfer_conserves by blast
qed

text \<open>
  C32: A transfer from an account to itself, which its owner on the hub may make, leaves the account
  with its old balance plus the amount: the supply of the token grows by the amount moved.
\<close>

theorem vb_self_transfer_inflates:
  assumes "execute_transfer st info msg = Ok (st', r)" and "transfer_from msg = transfer_to msg"
  shows "vb_bal st' (account (transfer_from msg) (transfer_token_id msg))
      = vb_bal st (account (transfer_from msg) (transfer_token_id msg)) + unat (transfer_amount msg)
    \<and> vb_supply st' (transfer_token_id msg)
      = vb_supply st (transfer_token_id msg) + unat (transfer_amount msg)"
  using supply_transfer [OF assms(1), of "transfer_token_id msg"] assms by (auto simp: transfer_ok_iff)

theorem vb_self_transfer_inflates_witness:
  "\<exists>st' r. execute_transfer example_ledger \<lparr>info_sender = ''alice'', info_funds = []\<rparr> (example_transfer ''alice'') = Ok (st', r)
     \<and> vb_bal st' (vsl, ''alice'', ''euclid'') = 130"
proof -
  obtain st' r where ok: "execute_transfer example_ledger \<lparr>info_sender = ''alice'', info_funds = []\<rparr>
      (example_transfer ''alice'') = Ok (st', r)"
    by (simp add: vb_example_simps)
  moreover have "transfer_from (example_transfer ''alice'') = transfer_to (example_transfer ''alice'')"
    by (simp add: example_transfer_def)
  ultimately have "vb_bal st' (account (transfer_from (example_transfer ''alice'')) ''euclid'')
      = vb_bal example_ledger (account (transfer_from (example_transfer ''alice'')) ''euclid'') + 30"
    using vb_self_transfer_inflates [OF ok] by (simp add: example_transfer_def)
  with ok show ?thesis
    by (auto simp: example_ledger_def example_transfer_def amount_at_def map_may_load_def)
qed

lemma vb_step_no_theft:
  assumes "vb_execute st info msg = Inr (st', r)" and "VB_STATE st = Some state"
    and "info_sender info \<noteq> vbs_router state" and "u = vsl \<longrightarrow> info_sender info \<noteq> a"
  shows "vb_bal st (u, a, t) \<le> vb_bal st' (u, a, t)"
proof -
  obtain m where m: "msg = VB_Transfer m" and f: "transfer_from m = \<lparr>ccu_chain_uid = vsl, ccu_address = info_sender info\<rparr>"
    using vb_execute_sender [OF assms(1)] assms(2,3) by auto
  then have ok: "execute_transfer st info m = Inr (st', r)"
    using assms(1) by simp
  then obtain s_new r_new where
      r: "unat r_new = vb_bal st (account (transfer_to m) (transfer_token_id m)) + unat (transfer_amount m)"
    and st': "st' = st\<lparr>VB_BALANCES :=
        map_save (map_save (VB_BALANCES st) (account (transfer_from m) (transfer_token_id m)) s_new)
          (account (transfer_to m) (transfer_token_id m)) r_new\<rparr>"
    by (auto simp: transfer_ok_iff)
  define kf kt where "kf = account (transfer_from m) (transfer_token_id m)"
    and "kt = account (transfer_to m) (transfer_token_id m)"
  have "(u, a, t) \<noteq> kf"
    using f assms(4) by (auto simp: kf_def)
  with r show ?thesis
    unfolding st' kf_def [symmetric] kt_def [symmetric] by auto
qed

text \<open>
  C31: No run of calls can take virtual tokens from an account unless the router or, for an account of
  the hub chain, its owner made one of the calls.
\<close>

theorem vb_no_theft:
  assumes "VB_STATE st = Some state"
    and "\<forall>(info, msg)\<in>set cs. info_sender info \<noteq> vbs_router state \<and> (u = vsl \<longrightarrow> info_sender info \<noteq> a)"
  shows "vb_bal st (u, a, t) \<le> vb_bal (vb_run st cs) (u, a, t)"
  using assms
proof (induction st cs rule: vb_run.induct)
  case (2 st info msg cs)
  show ?case
  proof (cases "vb_execute st info msg")
    case (Inl e)
    with 2 show ?thesis by simp
  next
    case (Inr v)
    obtain st' r where v: "v = (st', r)" by (cases v)
    have "vb_bal st (u, a, t) \<le> vb_bal st' (u, a, t)"
    proof (rule vb_step_no_theft)
      show "vb_execute st info msg = Inr (st', r)" using Inr v by simp
      show "VB_STATE st = Some state" by (rule 2(3))
    qed (use 2(4) in simp_all)
    also have "\<dots> \<le> vb_bal (vb_run st' cs) (u, a, t)"
    proof (rule 2(2) [of v st' r])
      show "VB_STATE st' = Some state"
        using vb_execute_keeps_STATE [of st info msg st' r] Inr v 2(3) by simp
    qed (use Inr v 2(4) in simp_all)
    finally show ?thesis using Inr v by simp
  qed
qed simp

theorem vb_no_theft_witness:
  "vb_bal example_ledger (vsl, ''alice'', ''euclid'')
     \<le> vb_bal (vb_run example_ledger
          [(\<lparr>info_sender = ''mallory'', info_funds = []\<rparr>, VB_Transfer (example_transfer ''mallory''))])
        (vsl, ''alice'', ''euclid'')"
  by (rule vb_no_theft [where state = "\<lparr>vbs_router = ''router'', vbs_admin = ''admin''\<rparr>"])
     (simp_all add: example_ledger_def)

text \<open>
  The balances listed for a user are exactly the stored entries of that user, each once per token
  and in token order, so they agree with the single-balance query.
\<close>

theorem vb_user_balances_complete:
  "\<exists>bs. query_user_balances st uid address = Ok bs \<and> sorted (map fst bs)
     \<and> (\<forall>t a. (t, a) \<in> set bs \<longleftrightarrow> map_may_load (VB_BALANCES st) (uid, address, t) = Some a)"
  by (simp add: query_user_balances_def set_map_range user_entries_load sorted_map_range)

end
