(* ===== verification/Vlp.thy ===== *)
theory Vlp
  imports Messages
begin

text \<open>
  The virtual liquidity pool contract, \<^verbatim>\<open>contracts/hub/vlp/src\<close>: a constant-product pool of two tokens
  whose reserves are virtual balances of the pool's own account. It keeps the reserves, the number of
  LP tokens issued to every chain and their total, and the fees collected. Handlers take the storage
  and return the new one with the response; \<open>M\<close> is the arithmetic of \<open>cosmwasm_std\<close>, \<open>query_vb\<close> and
  \<open>query_vlp\<close> are the answers of the other contracts to the queries a handler makes.
\<close>

section \<open>State\<close>

record vlp_State =
  vlp_pair :: Pair
  vlp_router :: string
  vlp_virtual_balance :: string
  vlp_fee :: Fee
  vlp_total_fees_collected :: TotalFees
  vlp_last_updated :: u64
  vlp_total_lp_tokens :: uint128
  vlp_admin :: string

record vlp_storage =
  VLP_STATE :: "vlp_State option"
  CHAIN_LP_TOKENS :: "(ChainUid, uint128) store"
  VLP_BALANCES :: "(Token, uint128) store"

definition VIRTUAL_BALANCE_TRANSFER_REPLY_ID :: u64 where
  "VIRTUAL_BALANCE_TRANSFER_REPLY_ID = 1"

definition NEXT_SWAP_REPLY_ID :: u64 where
  "NEXT_SWAP_REPLY_ID = 2"

type_synonym vb_querier = "string \<Rightarrow> BalanceKey \<Rightarrow> uint128 result"

section \<open>Pool arithmetic\<close>

definition calculate_swap :: "uint128 \<Rightarrow> uint128 \<Rightarrow> uint128 \<Rightarrow> uint128 result" where
  "calculate_swap swap_amount reserve_in reserve_out =
     bindR (checked_mul reserve_in reserve_out) (\<lambda>k.
     bindR (checked_add reserve_in swap_amount) (\<lambda>new_reserve_in.
     bindR (checked_div k new_reserve_in) (\<lambda>new_reserve_out.
     checked_sub reserve_out new_reserve_out)))"

definition calculate_lp_allocation ::
    "('d, 'e) cw_math \<Rightarrow> uint128 \<Rightarrow> uint128 \<Rightarrow> uint128 \<Rightarrow> uint128 \<Rightarrow> uint128 \<Rightarrow> uint128 result" where
  "calculate_lp_allocation M token_1_amount token_2_amount total_liquidity_1 total_liquidity_2 total_lp_supply =
     (if total_lp_supply = 0
      then bindR (checked_mul token_1_amount token_2_amount) (\<lambda>product.
           checked_sub (isqrt M product) MINIMUM_LIQUIDITY)
      else bindR (checked_multiply_ratio M token_1_amount total_lp_supply total_liquidity_1) (\<lambda>lp_1.
           bindR (checked_multiply_ratio M token_2_amount total_lp_supply total_liquidity_2) (\<lambda>lp_2.
           Ok (min lp_1 lp_2))))"

text \<open>\<open>Decimal256::from_ratio\<close> panics where the checked version returns an error.\<close>

definition decimal256_from_ratio :: "('d, 'e) cw_math \<Rightarrow> uint128 \<Rightarrow> uint128 \<Rightarrow> 'e result" where
  "decimal256_from_ratio M a b =
     (case decimal256_checked_from_ratio M a b of Inl e \<Rightarrow> panic e | Inr r \<Rightarrow> Ok r)"

definition assert_slippage_tolerance :: "('d, 'e) cw_math \<Rightarrow> 'e \<Rightarrow> 'e \<Rightarrow> u64 \<Rightarrow> bool result" where
  "assert_slippage_tolerance M ratio pool_ratio slippage_tolerance =
     (let slippage = decimal256_abs_diff M pool_ratio ratio in
      bindR (decimal256_from_ratio M (ucast slippage_tolerance) 100) (\<lambda>slippage_tolerance.
      ensure (decimal256_atomics M slippage \<le> decimal256_atomics M slippage_tolerance)
        LiquiditySlippageExceeded
      (Ok True)))"

section \<open>Handlers\<close>

definition register_pool ::
    "vlp_storage \<Rightarrow> env \<Rightarrow> message_info \<Rightarrow> CrossChainUser \<Rightarrow> Pair \<Rightarrow> string \<Rightarrow> (vlp_storage \<times> Response) result" where
  "register_pool st env info sender pair tx_id =
     bindR (item_load (VLP_STATE st)) (\<lambda>state.
     ensure (info_sender info = vlp_router state) Unauthorized
     (ensure (\<not> map_has (CHAIN_LP_TOKENS st) (ccu_chain_uid sender)) PoolAlreadyExists
     (ensure (get_tupple (vlp_pair state) = get_tupple pair) AssetDoesNotExist
     (Ok (st\<lparr>CHAIN_LP_TOKENS := map_save (CHAIN_LP_TOKENS st) (ccu_chain_uid sender) 0\<rparr>,
          set_data (Json_PoolCreation \<lparr>pcr_vlp_contract = contract_address env\<rparr>) Response_new)))))"

definition vlp_instantiate :: "env \<Rightarrow> message_info \<Rightarrow> vlp_InstantiateMsg \<Rightarrow> (vlp_storage \<times> Response) result" where
  "vlp_instantiate env info msg =
     bindR (Pair_validate (vim_pair msg)) (\<lambda>_.
     let state = \<lparr>vlp_pair = vim_pair msg, vlp_router = info_sender info,
           vlp_virtual_balance = vim_virtual_balance msg, vlp_fee = vim_fee msg,
           vlp_total_fees_collected = \<lparr>tf_lp_fees = [], tf_euclid_fees = []\<rparr>, vlp_last_updated = 0,
           vlp_total_lp_tokens = 0, vlp_admin = vim_admin msg\<rparr>;
         st = \<lparr>VLP_STATE = Some state, CHAIN_LP_TOKENS = [],
           VLP_BALANCES = map_save (map_save [] (pair_token_1 (vlp_pair state)) 0)
             (pair_token_2 (vlp_pair state)) 0\<rparr>
     in case vim_execute msg of
          None \<Rightarrow> Ok (st, Response_new)
        | Some (VLP_RegisterPool sender pair tx_id) \<Rightarrow> register_pool st env info sender pair tx_id
        | Some _ \<Rightarrow> Err Unauthorized)"

definition add_liquidity ::
    "('d, 'e) cw_math \<Rightarrow> vlp_storage \<Rightarrow> env \<Rightarrow> message_info \<Rightarrow> CrossChainUser \<Rightarrow> uint128 \<Rightarrow> uint128 \<Rightarrow> u64
       \<Rightarrow> string \<Rightarrow> (vlp_storage \<times> Response) result" where
  "add_liquidity M st env info sender token_1_liquidity token_2_liquidity slippage_tolerance tx_id =
     bindR (item_load (VLP_STATE st)) (\<lambda>state.
     ensure (info_sender info = vlp_router state) Unauthorized
     (bindR (map_load (CHAIN_LP_TOKENS st) (ccu_chain_uid sender)) (\<lambda>chain_lp_tokens.
      let pair = vlp_pair state in
      bindR (lift_err Generic (decimal256_checked_from_ratio M token_1_liquidity token_2_liquidity)) (\<lambda>ratio.
      bindR (map_load (VLP_BALANCES st) (pair_token_1 pair)) (\<lambda>total_reserve_1.
      bindR (map_load (VLP_BALANCES st) (pair_token_2 pair)) (\<lambda>total_reserve_2.
      let lq_ratio = (case decimal256_checked_from_ratio M total_reserve_1 total_reserve_2 of
                        Inl _ \<Rightarrow> ratio | Inr r \<Rightarrow> r) in
      ensure (slippage_tolerance \<le> 100) InvalidSlippageTolerance
      (bindR (assert_slippage_tolerance M ratio lq_ratio slippage_tolerance) (\<lambda>_.
       bindR (calculate_lp_allocation M token_1_liquidity token_2_liquidity total_reserve_1 total_reserve_2
                (vlp_total_lp_tokens state)) (\<lambda>lp_allocation.
       ensure (lp_allocation \<noteq> 0) (Generic ''LP Allocation cannot be zero'')
       (bindR (checked_add chain_lp_tokens lp_allocation) (\<lambda>chain_lp_tokens.
        bindR (checked_add total_reserve_1 token_1_liquidity) (\<lambda>total_reserve_1.
        bindR (checked_add total_reserve_2 token_2_liquidity) (\<lambda>total_reserve_2.
        bindR (checked_add (vlp_total_lp_tokens state) lp_allocation) (\<lambda>total_lp_tokens.
        Ok (\<lparr>VLP_STATE = Some (state\<lparr>vlp_total_lp_tokens := total_lp_tokens\<rparr>),
             CHAIN_LP_TOKENS = map_save (CHAIN_LP_TOKENS st) (ccu_chain_uid sender) chain_lp_tokens,
             VLP_BALANCES = map_save (map_save (VLP_BALANCES st) (pair_token_1 pair) total_reserve_1)
               (pair_token_2 pair) total_reserve_2\<rparr>,
            set_data (Json_AddLiquidity
              \<lparr>alresp_mint_lp_tokens = lp_allocation, alresp_vlp_address = contract_address env\<rparr>)
              Response_new)))))))))))))))"

definition remove_liquidity ::
    "('d, 'e) cw_math \<Rightarrow> vlp_storage \<Rightarrow> env \<Rightarrow> message_info \<Rightarrow> CrossChainUser \<Rightarrow> uint128 \<Rightarrow> string
       \<Rightarrow> (vlp_storage \<times> Response) result" where
  "remove_liquidity M st env info sender lp_allocation tx_id =
     bindR (item_load (VLP_STATE st)) (\<lambda>state.
     ensure (info_sender info = vlp_router state) Unauthorized
     (let pair = vlp_pair state in
      bindR (map_load (VLP_BALANCES st) (pair_token_1 pair)) (\<lambda>total_reserve_1.
      bindR (map_load (VLP_BALANCES st) (pair_token_2 pair)) (\<lambda>total_reserve_2.
      bindR (map_load (CHAIN_LP_TOKENS st) (ccu_chain_uid sender)) (\<lambda>chain_lp_tokens.
      bindR (checked_sub chain_lp_tokens lp_allocation) (\<lambda>chain_lp_tokens.
      bindR (lift_err Generic (decimal_checked_from_ratio M lp_allocation (vlp_total_lp_tokens state))) (\<lambda>lp_share.
      bindR (checked_mul_ceil M total_reserve_1 lp_share) (\<lambda>token_1_liquidity.
      bindR (checked_mul_ceil M total_reserve_2 lp_share) (\<lambda>token_2_liquidity.
      bindR (checked_sub total_reserve_1 token_1_liquidity) (\<lambda>total_reserve_1.
      bindR (checked_sub total_reserve_2 token_2_liquidity) (\<lambda>total_reserve_2.
      bindR (checked_sub (vlp_total_lp_tokens state) lp_allocation) (\<lambda>total_lp_tokens.
      bindR vsl_chain_uid (\<lambda>vsl_uid.
      let vlp_cross_chain_struct = \<lparr>ccu_chain_uid = vsl_uid, ccu_address = contract_address env\<rparr>;
          token_1_transfer_msg = create_virtual_balance_transfer_msg (pair_token_1 pair)
            (vlp_virtual_balance state) token_1_liquidity vlp_cross_chain_struct sender;
          token_2_transfer_msg = create_virtual_balance_transfer_msg (pair_token_2 pair)
            (vlp_virtual_balance state) token_2_liquidity vlp_cross_chain_struct sender
      in Ok (\<lparr>VLP_STATE = Some (state\<lparr>vlp_total_lp_tokens := total_lp_tokens\<rparr>),
              CHAIN_LP_TOKENS = map_save (CHAIN_LP_TOKENS st) (ccu_chain_uid sender) chain_lp_tokens,
              VLP_BALANCES = map_save (map_save (VLP_BALANCES st) (pair_token_1 pair) total_reserve_1)
                (pair_token_2 pair) total_reserve_2\<rparr>,
             set_data (Json_VlpRemoveLiquidity
               \<lparr>vrl_token_1_liquidity_released = token_1_liquidity,
                vrl_token_2_liquidity_released = token_2_liquidity, vrl_burn_lp_tokens = lp_allocation,
                vrl_tx_id = tx_id, vrl_sender = sender, vrl_vlp_address = contract_address env\<rparr>)
             (add_submessage (reply_always token_2_transfer_msg VIRTUAL_BALANCE_TRANSFER_REPLY_ID)
             (add_submessage (reply_always token_1_transfer_msg VIRTUAL_BALANCE_TRANSFER_REPLY_ID)
              Response_new))))))))))))))))"

text \<open>The message that sends \<open>amount\<close> of a token from the pool's own account on the hub.\<close>

definition pool_transfer ::
    "vlp_State \<Rightarrow> env \<Rightarrow> ChainUid \<Rightarrow> Token \<Rightarrow> uint128 \<Rightarrow> CrossChainUser \<Rightarrow> CosmosMsg" where
  "pool_transfer state env vsl_uid t amount to =
     Wasm_Execute (vlp_virtual_balance state)
       (To_VirtualBalance (VB_Transfer
          \<lparr>transfer_amount = amount, transfer_token_id = token_id t,
           transfer_from = \<lparr>ccu_chain_uid = vsl_uid, ccu_address = contract_address env\<rparr>,
           transfer_to = to\<rparr>)) []"

text \<open>The two parts of \<open>execute_swap\<close> that build messages: the protocol fee, and the delivery of the output.\<close>

definition collect_euclid_fee ::
    "vlp_State \<Rightarrow> env \<Rightarrow> ChainUid \<Rightarrow> Token \<Rightarrow> uint128 \<Rightarrow> (DenomFees \<times> SubMsg list) result" where
  "collect_euclid_fee state env vsl_uid asset_in euclid_fee =
     (let fees = tf_euclid_fees (vlp_total_fees_collected state) in
      if euclid_fee \<noteq> 0
      then bindR (add_fee fees (token_id asset_in) euclid_fee) (\<lambda>euclid_fees.
           Ok (euclid_fees, [reply_on_error
             (pool_transfer state env vsl_uid asset_in euclid_fee (fee_recipient (vlp_fee state)))
             VIRTUAL_BALANCE_TRANSFER_REPLY_ID]))
      else Ok (fees, []))"

definition deliver_swap ::
    "vlp_State \<Rightarrow> env \<Rightarrow> ChainUid \<Rightarrow> CrossChainUser \<Rightarrow> Token \<Rightarrow> uint128 \<Rightarrow> uint128 \<Rightarrow> string
       \<Rightarrow> NextSwapVlp list \<Rightarrow> SubMsg list result" where
  "deliver_swap state env vsl_uid sender asset_out receive_amount min_token_out tx_id next_swaps =
     (case next_swaps of
        next_swap # forward_swaps \<Rightarrow>
          Ok [reply_on_error
                (pool_transfer state env vsl_uid asset_out receive_amount
                   \<lparr>ccu_chain_uid = vsl_uid, ccu_address = nsv_vlp_address next_swap\<rparr>)
                VIRTUAL_BALANCE_TRANSFER_REPLY_ID,
              reply_always
                (Wasm_Execute (nsv_vlp_address next_swap)
                   (To_Vlp (VLP_Swap sender tx_id asset_out receive_amount min_token_out
                      forward_swaps (nsv_test_fail next_swap))) [])
                NEXT_SWAP_REPLY_ID]
      | [] \<Rightarrow>
          ensure (min_token_out \<le> receive_amount)
            (SlippageExceeded (unat receive_amount) (unat min_token_out))
          (Ok [reply_on_error (pool_transfer state env vsl_uid asset_out receive_amount sender)
                 VIRTUAL_BALANCE_TRANSFER_REPLY_ID]))"

definition execute_swap ::
    "('d, 'e) cw_math \<Rightarrow> vb_querier \<Rightarrow> vlp_storage \<Rightarrow> env \<Rightarrow> CrossChainUser \<Rightarrow> Token \<Rightarrow> uint128 \<Rightarrow> uint128
       \<Rightarrow> string \<Rightarrow> NextSwapVlp list \<Rightarrow> bool option \<Rightarrow> (vlp_storage \<times> Response) result" where
  "execute_swap M query_vb st env sender asset_in amount_in min_token_out tx_id next_swaps test_fail =
     ensure (\<not> unwrap_or test_fail False) (Generic ''Force fail flag'')
     (ensure (amount_in \<noteq> 0) ZeroAssetAmount
     (bindR (item_load (VLP_STATE st)) (\<lambda>state.
      ensure (Token_exists asset_in (vlp_pair state)) AssetDoesNotExist
      (let fee = vlp_fee state; fees = vlp_total_fees_collected state in
       bindR (checked_mul_floor M amount_in (decimal_bps M (fee_lp_fee_bps fee))) (\<lambda>lp_fee.
       bindR (checked_mul_floor M amount_in (decimal_bps M (fee_euclid_fee_bps fee))) (\<lambda>euclid_fee.
       bindR (add_fee (tf_lp_fees fees) (token_id asset_in) lp_fee) (\<lambda>lp_fees.
       bindR (checked_add lp_fee euclid_fee) (\<lambda>total_fee.
       bindR (checked_sub amount_in total_fee) (\<lambda>swap_amount.
       let asset_out = get_other_token (vlp_pair state) asset_in in
       bindR (map_load (VLP_BALANCES st) asset_in) (\<lambda>token_in_reserve.
       bindR (map_load (VLP_BALANCES st) asset_out) (\<lambda>token_out_reserve.
       bindR vsl_chain_uid (\<lambda>vsl_uid.
       bindR (query_vb (vlp_virtual_balance state)
                \<lparr>bk_cross_chain_user = \<lparr>ccu_chain_uid = vsl_uid, ccu_address = contract_address env\<rparr>,
                 bk_token_id = token_id asset_in\<rparr>) (\<lambda>vlp_virtual_balance_balance.
       bindR (checked_add token_in_reserve amount_in) (\<lambda>expected.
       ensure (vlp_virtual_balance_balance = expected)
         (Generic (''Swap didn'' @ [CHR 0x27] @ ''t receive any funds!''))
       (bindR (calculate_swap swap_amount token_in_reserve token_out_reserve) (\<lambda>receive_amount.
        ensure (receive_amount \<noteq> 0) (SlippageExceeded (unat receive_amount) (unat min_token_out))
        (bindR (checked_add token_in_reserve swap_amount) (\<lambda>r.
         bindR (checked_add r lp_fee) (\<lambda>token_in_reserve.
         bindR (checked_sub token_out_reserve receive_amount) (\<lambda>token_out_reserve.
         bindR (collect_euclid_fee state env vsl_uid asset_in euclid_fee) (\<lambda>(euclid_fees, fee_msgs).
         bindR (deliver_swap state env vsl_uid sender asset_out receive_amount min_token_out tx_id next_swaps)
           (\<lambda>out_msgs.
         Ok (st\<lparr>VLP_STATE := Some (state\<lparr>vlp_total_fees_collected :=
                   \<lparr>tf_lp_fees = lp_fees, tf_euclid_fees = euclid_fees\<rparr>\<rparr>),
                VLP_BALANCES := map_save (map_save (VLP_BALANCES st) asset_in token_in_reserve)
                  asset_out token_out_reserve\<rparr>,
             set_data (Json_VlpSwap
               \<lparr>vsr_sender = sender, vsr_tx_id = tx_id, vsr_asset_out = asset_out,
                vsr_amount_out = receive_amount\<rparr>)
             (add_submessages out_msgs (add_submessages fee_msgs Response_new)))))))))))))))))))))))))"

definition update_fee ::
    "vlp_storage \<Rightarrow> message_info \<Rightarrow> u64 option \<Rightarrow> u64 option \<Rightarrow> CrossChainUser option
       \<Rightarrow> (vlp_storage \<times> Response) result" where
  "update_fee st info lp_fee_bps euclid_fee_bps recipient =
     bindR (item_load (VLP_STATE st)) (\<lambda>state.
     ensure (info_sender info = vlp_admin state) Unauthorized
     (let fee = (vlp_fee state)\<lparr>fee_lp_fee_bps := unwrap_or lp_fee_bps (fee_lp_fee_bps (vlp_fee state))\<rparr> in
      ensure (fee_lp_fee_bps fee \<le> MAX_FEE_BPS) (Generic ''LP Fee cannot exceed maximum limit'')
      (let fee = fee\<lparr>fee_euclid_fee_bps := unwrap_or euclid_fee_bps (fee_euclid_fee_bps fee)\<rparr> in
       ensure (fee_euclid_fee_bps fee \<le> MAX_FEE_BPS) (Generic ''Euclid Fee cannot exceed maximum limit'')
       (let fee = fee\<lparr>fee_recipient := unwrap_or recipient (fee_recipient fee)\<rparr> in
        Ok (st\<lparr>VLP_STATE := Some (state\<lparr>vlp_fee := fee\<rparr>)\<rparr>, Response_new)))))"

fun vlp_execute ::
    "('d, 'e) cw_math \<Rightarrow> vb_querier \<Rightarrow> vlp_storage \<Rightarrow> env \<Rightarrow> message_info \<Rightarrow> vlp_ExecuteMsg
       \<Rightarrow> (vlp_storage \<times> Response) result" where
  "vlp_execute M query_vb st env info (VLP_RegisterPool sender pair tx_id) =
     register_pool st env info sender pair tx_id"
| "vlp_execute M query_vb st env info (VLP_UpdateFee lp_fee_bps euclid_fee_bps recipient) =
     update_fee st info lp_fee_bps euclid_fee_bps recipient"
| "vlp_execute M query_vb st env info (VLP_AddLiquidity sender tx_id token_1_liquidity token_2_liquidity
       slippage_tolerance) =
     add_liquidity M st env info sender token_1_liquidity token_2_liquidity slippage_tolerance tx_id"
| "vlp_execute M query_vb st env info (VLP_RemoveLiquidity sender tx_id lp_allocation) =
     remove_liquidity M st env info sender lp_allocation tx_id"
| "vlp_execute M query_vb st env info (VLP_Swap sender tx_id asset_in amount_in min_token_out next_swaps
       test_fail) =
     execute_swap M query_vb st env sender asset_in amount_in min_token_out tx_id next_swaps test_fail"

section \<open>Replies\<close>

definition on_next_swap_reply :: "vlp_storage \<Rightarrow> Reply \<Rightarrow> (vlp_storage \<times> Response) result" where
  "on_next_swap_reply st msg =
     (case reply_result msg of
        SubMsgErr err \<Rightarrow> Err (Generic err)
      | SubMsgOk _ \<Rightarrow>
          bindR (lift_err Generic (parse_reply_execute_data msg)) (\<lambda>execute_data.
          bindR (from_json_vlp_swap (unwrap_or execute_data default_binary)) (\<lambda>swap_response.
          Ok (st, set_data (Json_VlpSwap swap_response) Response_new))))"

definition on_virtual_balance_transfer_reply :: "vlp_storage \<Rightarrow> Reply \<Rightarrow> (vlp_storage \<times> Response) result" where
  "on_virtual_balance_transfer_reply st msg =
     (case reply_result msg of
        SubMsgErr err \<Rightarrow> Err (Generic err)
      | SubMsgOk _ \<Rightarrow> Ok (st, Response_new))"

definition vlp_reply :: "vlp_storage \<Rightarrow> Reply \<Rightarrow> (vlp_storage \<times> Response) result" where
  "vlp_reply st msg =
     (if reply_id msg = VIRTUAL_BALANCE_TRANSFER_REPLY_ID then on_virtual_balance_transfer_reply st msg
      else if reply_id msg = NEXT_SWAP_REPLY_ID then on_next_swap_reply st msg
      else Err (Generic (''Unknown reply id: '' @ show_nat (unat (reply_id msg)))))"

section \<open>Queries\<close>

record GetSwapResponse =
  gsr_amount_out :: uint128
  gsr_asset_out :: Token

type_synonym vlp_querier = "string \<Rightarrow> Token \<Rightarrow> uint128 \<Rightarrow> NextSwapVlp list \<Rightarrow> GetSwapResponse result"

definition query_simulate_swap ::
    "('d, 'e) cw_math \<Rightarrow> vlp_querier \<Rightarrow> vlp_storage \<Rightarrow> Token \<Rightarrow> uint128 \<Rightarrow> NextSwapVlp list
       \<Rightarrow> GetSwapResponse result" where
  "query_simulate_swap M query_vlp st asset_in amount_in next_swaps =
     ensure (amount_in \<noteq> 0) ZeroAssetAmount
     (bindR (item_load (VLP_STATE st)) (\<lambda>state.
      ensure (Token_exists asset_in (vlp_pair state)) AssetDoesNotExist
      (let fee = vlp_fee state in
       bindR (checked_mul_floor M amount_in (decimal_bps M (fee_lp_fee_bps fee))) (\<lambda>lp_fee.
       bindR (checked_mul_floor M amount_in (decimal_bps M (fee_euclid_fee_bps fee))) (\<lambda>euclid_fee.
       bindR (checked_add lp_fee euclid_fee) (\<lambda>total_fee.
       bindR (checked_sub amount_in total_fee) (\<lambda>swap_amount.
       let asset_out = get_other_token (vlp_pair state) asset_in in
       bindR (map_load (VLP_BALANCES st) asset_in) (\<lambda>token_in_reserve.
       bindR (map_load (VLP_BALANCES st) asset_out) (\<lambda>token_out_reserve.
       bindR (calculate_swap swap_amount token_in_reserve token_out_reserve) (\<lambda>receive_amount.
       case next_swaps of
         next_swap # forward_swaps \<Rightarrow>
           query_vlp (nsv_vlp_address next_swap) asset_out receive_amount forward_swaps
       | [] \<Rightarrow> Ok \<lparr>gsr_amount_out = receive_amount, gsr_asset_out = asset_out\<rparr>))))))))))"

record GetLiquidityResponse =
  glr_pair :: Pair
  glr_token_1_reserve :: uint128
  glr_token_2_reserve :: uint128
  glr_total_lp_tokens :: uint128

definition query_liquidity :: "vlp_storage \<Rightarrow> GetLiquidityResponse result" where
  "query_liquidity st =
     bindR (item_load (VLP_STATE st)) (\<lambda>state.
     Ok \<lparr>glr_pair = vlp_pair state,
         glr_token_1_reserve = unwrap_or (map_may_load (VLP_BALANCES st) (pair_token_1 (vlp_pair state))) 0,
         glr_token_2_reserve = unwrap_or (map_may_load (VLP_BALANCES st) (pair_token_2 (vlp_pair state))) 0,
         glr_total_lp_tokens = vlp_total_lp_tokens state\<rparr>)"

definition query_fee :: "vlp_storage \<Rightarrow> Fee result" where
  "query_fee st = bindR (item_load (VLP_STATE st)) (\<lambda>state. Ok (vlp_fee state))"

definition query_total_fees_collected :: "vlp_storage \<Rightarrow> TotalFees result" where
  "query_total_fees_collected st =
     bindR (item_load (VLP_STATE st)) (\<lambda>state. Ok (vlp_total_fees_collected state))"

definition query_total_fees_per_denom :: "vlp_storage \<Rightarrow> string \<Rightarrow> (uint128 \<times> uint128) result" where
  "query_total_fees_per_denom st denom =
     bindR (item_load (VLP_STATE st)) (\<lambda>state.
     let total_fees_collected = vlp_total_fees_collected state in
     Ok (get_fee (tf_lp_fees total_fees_collected) denom, get_fee (tf_euclid_fees total_fees_collected) denom))"

definition vlp_query_state :: "vlp_storage \<Rightarrow> vlp_State result" where
  "vlp_query_state st = item_load (VLP_STATE st)"

record PoolResponse =
  pr_lp_shares :: uint128
  pr_reserve_1 :: uint128
  pr_reserve_2 :: uint128

definition get_pool ::
    "('d, 'e) cw_math \<Rightarrow> vlp_State \<Rightarrow> uint128 \<Rightarrow> uint128 \<Rightarrow> uint128 \<Rightarrow> PoolResponse result" where
  "get_pool M state chain_lp_tokens reserve_1 reserve_2 =
     (let share = (\<lambda>reserve.
            case multiply_ratio M reserve chain_lp_tokens (vlp_total_lp_tokens state) of
              Inl _ \<Rightarrow> 0 | Inr x \<Rightarrow> x)
      in Ok \<lparr>pr_lp_shares = chain_lp_tokens, pr_reserve_1 = share reserve_1, pr_reserve_2 = share reserve_2\<rparr>)"

definition query_pool :: "('d, 'e) cw_math \<Rightarrow> vlp_storage \<Rightarrow> ChainUid \<Rightarrow> PoolResponse result" where
  "query_pool M st chain_uid =
     bindR (item_load (VLP_STATE st)) (\<lambda>state.
     bindR (map_load (CHAIN_LP_TOKENS st) chain_uid) (\<lambda>chain_lp_tokens.
     bindR (map_load (VLP_BALANCES st) (pair_token_1 (vlp_pair state))) (\<lambda>reserve_1.
     bindR (map_load (VLP_BALANCES st) (pair_token_2 (vlp_pair state))) (\<lambda>reserve_2.
     get_pool M state chain_lp_tokens reserve_1 reserve_2))))"

definition query_all_pools :: "('d, 'e) cw_math \<Rightarrow> vlp_storage \<Rightarrow> (ChainUid \<times> PoolResponse) list result" where
  "query_all_pools M st =
     bindR (item_load (VLP_STATE st)) (\<lambda>state.
     bindR (map_load (VLP_BALANCES st) (pair_token_1 (vlp_pair state))) (\<lambda>reserve_1.
     bindR (map_load (VLP_BALANCES st) (pair_token_2 (vlp_pair state))) (\<lambda>reserve_2.
     mapR (\<lambda>(chain_uid, chain_lp_tokens).
             bindR (get_pool M state chain_lp_tokens reserve_1 reserve_2) (\<lambda>pool. Ok (chain_uid, pool)))
       (map_range (CHAIN_LP_TOKENS st)))))"

end
