(* ===== verification/Ibc_Channel.thy ===== *)
theory Ibc_Channel
  imports Messages
begin

text \<open>
  The channel handshake of the router and of the factory (\<^verbatim>\<open>ibc/channel.rs\<close> of both, which differ only in
  how they spell the checks), the counters kept per channel, and the payload of a reply as both contracts
  read it.
\<close>

section \<open>Channels\<close>

datatype IbcOrder = Unordered | Ordered

record IbcChannel =
  chan_endpoint :: IbcEndpoint
  chan_order :: IbcOrder
  chan_version :: string

record channel_counts =
  CONNECTION_COUNTS :: "(string, u32) store"
  TIMEOUT_COUNTS :: "(string, u32) store"

definition IBC_VERSION :: string where
  "IBC_VERSION = ''counter-1''"

definition validate_order_and_version :: "IbcChannel \<Rightarrow> string option \<Rightarrow> unit result" where
  "validate_order_and_version channel counterparty_version =
     (if chan_order channel \<noteq> Unordered then Err OrderedChannel
      else if chan_version channel \<noteq> IBC_VERSION then Err (InvalidVersion (chan_version channel) IBC_VERSION)
      else case counterparty_version of
             Some v \<Rightarrow> if v \<noteq> IBC_VERSION then Err (InvalidVersion v IBC_VERSION) else Ok ()
           | None \<Rightarrow> Ok ())"

definition ibc_channel_open :: "channel_counts \<Rightarrow> IbcChannel \<Rightarrow> string option \<Rightarrow> channel_counts result" where
  "ibc_channel_open st channel counterparty_version =
     bindR (validate_order_and_version channel counterparty_version) (\<lambda>_. Ok st)"

definition ibc_channel_connect :: "channel_counts \<Rightarrow> IbcChannel \<Rightarrow> string option \<Rightarrow> channel_counts result" where
  "ibc_channel_connect st channel counterparty_version =
     bindR (validate_order_and_version channel counterparty_version) (\<lambda>_.
     Ok (st\<lparr>CONNECTION_COUNTS := map_save (CONNECTION_COUNTS st) (channel_id (chan_endpoint channel)) 0\<rparr>))"

definition ibc_channel_close :: "channel_counts \<Rightarrow> IbcChannel \<Rightarrow> channel_counts result" where
  "ibc_channel_close st channel =
     Ok (st\<lparr>CONNECTION_COUNTS := map_remove (CONNECTION_COUNTS st) (channel_id (chan_endpoint channel))\<rparr>)"

text \<open>The factory's version of the check, written with \<open>ensure!\<close>.\<close>

definition factory_validate_order_and_version :: "IbcChannel \<Rightarrow> string option \<Rightarrow> unit result" where
  "factory_validate_order_and_version channel counterparty_version =
     ensure (chan_order channel = Unordered) OrderedChannel
     (ensure (chan_version channel = IBC_VERSION) (InvalidVersion (chan_version channel) IBC_VERSION)
     (case counterparty_version of
        Some v \<Rightarrow> ensure (v = IBC_VERSION) (InvalidVersion v IBC_VERSION) (Ok ())
      | None \<Rightarrow> Ok ()))"

definition factory_ibc_channel_open :: "channel_counts \<Rightarrow> IbcChannel \<Rightarrow> string option \<Rightarrow> channel_counts result" where
  "factory_ibc_channel_open st channel counterparty_version =
     bindR (factory_validate_order_and_version channel counterparty_version) (\<lambda>_. Ok st)"

definition factory_ibc_channel_connect :: "channel_counts \<Rightarrow> IbcChannel \<Rightarrow> string option \<Rightarrow> channel_counts result" where
  "factory_ibc_channel_connect st channel counterparty_version =
     bindR (factory_validate_order_and_version channel counterparty_version) (\<lambda>_.
     Ok (st\<lparr>CONNECTION_COUNTS := map_save (CONNECTION_COUNTS st) (channel_id (chan_endpoint channel)) 0\<rparr>))"

definition factory_ibc_channel_close :: "channel_counts \<Rightarrow> IbcChannel \<Rightarrow> channel_counts result" where
  "factory_ibc_channel_close st channel =
     Ok (st\<lparr>CONNECTION_COUNTS := map_remove (CONNECTION_COUNTS st) (channel_id (chan_endpoint channel))\<rparr>)"

text \<open>\<open>count + 1\<close> on a \<open>u32\<close>, with overflow checks.\<close>

definition count_timeout :: "channel_counts \<Rightarrow> string \<Rightarrow> channel_counts result" where
  "count_timeout st channel =
     (let count = unwrap_or (map_may_load (TIMEOUT_COUNTS st) channel) 0 in
      if count = - 1 then panic ''attempt to add with overflow''
      else Ok (st\<lparr>TIMEOUT_COUNTS := map_save (TIMEOUT_COUNTS st) channel (count + 1)\<rparr>))"

section \<open>Reply payloads\<close>

definition reply_payload :: "binary option \<Rightarrow> binary" where
  "reply_payload d =
     (case d of
        None \<Rightarrow> default_binary
      | Some data \<Rightarrow>
          (case parse_execute_response_data data of
             Inl _ \<Rightarrow> default_binary
           | Inr x \<Rightarrow> unwrap_or x default_binary))"

lemma reply_payload_execute [simp]: "reply_payload (Some (Pb_Execute (Some b))) = b"
  by (simp add: reply_payload_def parse_execute_response_data_def)

section \<open>Properties\<close>

text \<open>
  The router and the factory accept exactly the same channels: unordered ones of version
  \<open>counter-1\<close> whose counterparty, when known, speaks the same version; both reject any other with the
  same error, and both record a connection only for a channel they accept.
\<close>

theorem channel_handshake_agrees:
  "ibc_channel_connect st channel v = factory_ibc_channel_connect st channel v
   \<and> ibc_channel_open st channel v = factory_ibc_channel_open st channel v
   \<and> (is_ok (ibc_channel_connect st channel v) \<longleftrightarrow>
        chan_order channel = Unordered \<and> chan_version channel = IBC_VERSION \<and> v \<in> {None, Some IBC_VERSION})"
proof -
  have eq: "validate_order_and_version channel v = factory_validate_order_and_version channel v"
    by (simp add: validate_order_and_version_def factory_validate_order_and_version_def ensure_def split: option.split)
  have "is_ok (validate_order_and_version channel v) \<longleftrightarrow>
      chan_order channel = Unordered \<and> chan_version channel = IBC_VERSION \<and> v \<in> {None, Some IBC_VERSION}"
    by (auto simp: validate_order_and_version_def split: option.split)
  then show ?thesis
    by (auto simp: ibc_channel_connect_def factory_ibc_channel_connect_def ibc_channel_open_def
        factory_ibc_channel_open_def is_ok_def eq bindR_def split: sum.splits)
qed

end
