(* ===== verification/Router.thy ===== *)
theory Router
  imports Vlp Ibc_Channel
begin

text \<open>
  The router contract on the hub, \<^verbatim>\<open>contracts/hub/router/src\<close>: the registry of chains and pools, the record
  of what every chain holds in escrow, and the dispatcher of the messages that arrive from the chains. It
  mints virtual balance for deposits, sends swaps and liquidity operations to the pools, and on the way back
  burns virtual balance and tells the chains to release escrowed funds. The answers of other contracts to its
  queries are the arguments \<open>query_vb\<close>, \<open>query_liq\<close> and \<open>ask_vlp\<close>.
\<close>

section \<open>State\<close>

record rt_State =
  rs_admin :: string
  rs_vlp_code_id :: u64
  rs_virtual_balance_address :: "addr option"
  rs_locked :: bool

type_synonym request_key = "ChainUid \<times> string \<times> string"

record rt_storage =
  RT_STATE :: "rt_State option"
  VLPS :: "(Token \<times> Token, string) store"
  ESCROW_BALANCES :: "(Token \<times> ChainUid, uint128) store"
  CHAIN_UID_TO_CHAIN :: "(ChainUid, Chain) store"
  CHANNEL_TO_CHAIN_UID :: "(string, ChainUid) store"
  DEREGISTERED_CHAINS :: "ChainUid list option"
  SWAP_ID_TO_MSG :: "(request_key, ChainIbcSwapExecuteMsg) store"
  PENDING_REMOVE_LIQUIDITY :: "(request_key, ChainIbcRemoveLiquidityExecuteMsg) store"
  HUB_QUEUE :: "HubIbcExecuteMsg msg_queue"
  RT_TX_NONCE :: "uint128 option"
  RT_CHANNELS :: channel_counts

type_synonym rt_result = "(rt_storage \<times> Response) result"

type_synonym liq_querier = "string \<Rightarrow> GetLiquidityResponse result"

definition VLP_INSTANTIATE_REPLY_ID :: u64 where
  "VLP_INSTANTIATE_REPLY_ID = 1"

definition VLP_POOL_REGISTER_REPLY_ID :: u64 where
  "VLP_POOL_REGISTER_REPLY_ID = 2"

definition ADD_LIQUIDITY_REPLY_ID :: u64 where
  "ADD_LIQUIDITY_REPLY_ID = 3"

definition REMOVE_LIQUIDITY_REPLY_ID :: u64 where
  "REMOVE_LIQUIDITY_REPLY_ID = 4"

definition SWAP_REPLY_ID :: u64 where
  "SWAP_REPLY_ID = 5"

definition VIRTUAL_BALANCE_INSTANTIATE_REPLY_ID :: u64 where
  "VIRTUAL_BALANCE_INSTANTIATE_REPLY_ID = 6"

definition VIRTUAL_BALANCE_MINT_REPLY_ID :: u64 where
  "VIRTUAL_BALANCE_MINT_REPLY_ID = 8"

definition VIRTUAL_BALANCE_BURN_REPLY_ID :: u64 where
  "VIRTUAL_BALANCE_BURN_REPLY_ID = 9"

definition RT_VIRTUAL_BALANCE_TRANSFER_REPLY_ID :: u64 where
  "RT_VIRTUAL_BALANCE_TRANSFER_REPLY_ID = 10"

definition IBC_RECEIVE_REPLY_ID :: u64 where
  "IBC_RECEIVE_REPLY_ID = 11"

definition IBC_ACK_AND_TIMEOUT_REPLY_ID :: u64 where
  "IBC_ACK_AND_TIMEOUT_REPLY_ID = 12"

lemmas rt_reply_ids =
  VLP_INSTANTIATE_REPLY_ID_def VLP_POOL_REGISTER_REPLY_ID_def ADD_LIQUIDITY_REPLY_ID_def
  REMOVE_LIQUIDITY_REPLY_ID_def SWAP_REPLY_ID_def VIRTUAL_BALANCE_INSTANTIATE_REPLY_ID_def
  VIRTUAL_BALANCE_MINT_REPLY_ID_def VIRTUAL_BALANCE_BURN_REPLY_ID_def
  RT_VIRTUAL_BALANCE_TRANSFER_REPLY_ID_def IBC_RECEIVE_REPLY_ID_def IBC_ACK_AND_TIMEOUT_REPLY_ID_def

text \<open>\<open>generate_tx\<close> on the router's own counter.\<close>

definition rt_generate_tx :: "rt_storage \<Rightarrow> env \<Rightarrow> CrossChainUser \<Rightarrow> rt_storage \<times> string" where
  "rt_generate_tx st env sender =
     (let (nonce, tx_id) = generate_tx (RT_TX_NONCE st) env sender in (st\<lparr>RT_TX_NONCE := nonce\<rparr>, tx_id))"

definition rt_to_msg :: "rt_storage \<Rightarrow> env \<Rightarrow> HubIbcExecuteMsg \<Rightarrow> Chain \<Rightarrow> u64 \<Rightarrow> (rt_storage \<times> SubMsg) result" where
  "rt_to_msg st env msg chain timeout =
     bindR (HubIbc_to_msg (HUB_QUEUE st) env msg chain timeout) (\<lambda>(q, m). Ok (st\<lparr>HUB_QUEUE := q\<rparr>, m))"

section \<open>Administration\<close>

definition execute_update_vlp_code_id :: "rt_storage \<Rightarrow> message_info \<Rightarrow> u64 \<Rightarrow> rt_result" where
  "execute_update_vlp_code_id st info new_vlp_code_id =
     bindR (item_load (RT_STATE st)) (\<lambda>state.
     ensure (info_sender info = rs_admin state) Unauthorized
     (Ok (st\<lparr>RT_STATE := Some (state\<lparr>rs_vlp_code_id := new_vlp_code_id\<rparr>)\<rparr>, Response_new)))"

definition execute_update_lock :: "rt_storage \<Rightarrow> message_info \<Rightarrow> rt_result" where
  "execute_update_lock st info =
     bindR (item_load (RT_STATE st)) (\<lambda>state.
     ensure (info_sender info = rs_admin state) Unauthorized
     (Ok (st\<lparr>RT_STATE := Some (state\<lparr>rs_locked := \<not> rs_locked state\<rparr>)\<rparr>, Response_new)))"

definition execute_deregister_chain :: "rt_storage \<Rightarrow> message_info \<Rightarrow> ChainUid \<Rightarrow> rt_result" where
  "execute_deregister_chain st info chain =
     bindR (item_load (RT_STATE st)) (\<lambda>state.
     ensure (info_sender info = rs_admin state) Unauthorized
     (bindR (item_load (DEREGISTERED_CHAINS st)) (\<lambda>deregistered_chains.
      ensure (chain \<notin> set deregistered_chains) ChainAlreadyExist
      (Ok (st\<lparr>DEREGISTERED_CHAINS := Some (deregistered_chains @ [chain])\<rparr>, Response_new)))))"

definition execute_reregister_chain :: "rt_storage \<Rightarrow> message_info \<Rightarrow> ChainUid \<Rightarrow> rt_result" where
  "execute_reregister_chain st info chain =
     bindR (item_load (RT_STATE st)) (\<lambda>state.
     ensure (info_sender info = rs_admin state) Unauthorized
     (bindR (item_load (DEREGISTERED_CHAINS st)) (\<lambda>deregistered_chains.
      ensure (chain \<in> set deregistered_chains) ChainNotFound
      (Ok (st\<lparr>DEREGISTERED_CHAINS := Some (filter (\<lambda>x. x \<noteq> chain) deregistered_chains)\<rparr>, Response_new)))))"

definition execute_register_factory ::
    "rt_storage \<Rightarrow> env \<Rightarrow> message_info \<Rightarrow> ChainUid \<Rightarrow> RegisterFactoryChainType \<Rightarrow> rt_result" where
  "execute_register_factory st env info chain_uid chain_info =
     bindR (ChainUid_validate chain_uid) (\<lambda>chain_uid.
     ensure (\<not> map_has (CHAIN_UID_TO_CHAIN st) chain_uid) (Generic ''Factory already exists'')
     (bindR vsl_chain_uid (\<lambda>vsl_uid.
      let sender = \<lparr>ccu_chain_uid = vsl_uid, ccu_address = info_sender info\<rparr>;
          (st, tx_id) = rt_generate_tx st env sender
      in ensure (chain_uid \<noteq> vsl_uid) (Generic ''Cannot use VSL chain uid'')
         (bindR (item_load (RT_STATE st)) (\<lambda>state.
          ensure (info_sender info = rs_admin state) Unauthorized
          (let msg = HI_RegisterFactory chain_uid tx_id in
           case chain_info of
             RegisterIbc channel timeout \<Rightarrow>
               bindR (get_timeout timeout) (\<lambda>timeout.
               Ok (st, add_message
                    (Ibc_SendPacket channel (Json_HubIbc msg) (plus_seconds (block_time env) timeout))
                    Response_new))
           | RegisterNative factory_address \<Rightarrow>
               let chain = \<lparr>factory_chain_id = block_chain_id env, factory_addr = factory_address,
                            chain_type = NativeChain\<rparr>
               in bindR (rt_to_msg st env msg chain 0) (\<lambda>(st, m).
                  Ok (st, add_submessage m Response_new))))))))"

definition execute_update_factory_channel ::
    "rt_storage \<Rightarrow> env \<Rightarrow> message_info \<Rightarrow> string \<Rightarrow> ChainUid \<Rightarrow> rt_result" where
  "execute_update_factory_channel st env info new_channel chain_uid =
     bindR (item_load (RT_STATE st)) (\<lambda>state.
     ensure (info_sender info = rs_admin state) Unauthorized
     (bindR (ChainUid_validate chain_uid) (\<lambda>chain_uid.
      bindR (map_err (map_load (CHAIN_UID_TO_CHAIN st) chain_uid)
               (Generic (''Factory doesn'' @ [CHR 0x27] @ ''t exist''))) (\<lambda>chain_info.
      ensure (\<not> map_has (CHANNEL_TO_CHAIN_UID st) new_channel) ChannelAlreadyExists
      (bindR vsl_chain_uid (\<lambda>vsl_uid.
       let sender = \<lparr>ccu_chain_uid = vsl_uid, ccu_address = info_sender info\<rparr>;
           (st, tx_id) = rt_generate_tx st env sender
       in ensure (chain_uid \<noteq> vsl_uid) (Generic ''Cannot use VSL chain uid'')
          (let msg = HI_UpdateFactoryChannel chain_uid tx_id in
           if \<not> Chain_is_native chain_info
           then bindR (get_timeout None) (\<lambda>timeout.
                Ok (st, add_message
                     (Ibc_SendPacket new_channel (Json_HubIbc msg) (plus_seconds (block_time env) timeout))
                     Response_new))
           else Err NoChannelForLocalChain)))))))"

section \<open>Releasing escrowed funds\<close>

definition release_internal ::
    "env \<Rightarrow> CrossChainUser \<Rightarrow> Token \<Rightarrow> uint128 option \<Rightarrow> CrossChainUserWithLimit list \<Rightarrow> u64 option \<Rightarrow> string
       \<Rightarrow> CosmosMsg" where
  "release_internal env sender token amount cross_chain_addresses timeout tx_id =
     Wasm_Execute (contract_address env)
       (To_Router (R_ReleaseEscrowInternal sender token amount cross_chain_addresses timeout tx_id)) []"

definition execute_withdraw_voucher ::
    "rt_storage \<Rightarrow> env \<Rightarrow> message_info \<Rightarrow> Token \<Rightarrow> uint128 option \<Rightarrow> CrossChainUserWithLimit list
       \<Rightarrow> u64 option \<Rightarrow> rt_result" where
  "execute_withdraw_voucher st env info token amount cross_chain_addresses timeout =
     bindR vsl_chain_uid (\<lambda>vsl_uid.
     let cross_chain_user = \<lparr>ccu_chain_uid = vsl_uid, ccu_address = info_sender info\<rparr>;
         (st, tx_id) = rt_generate_tx st env cross_chain_user
     in Ok (st, add_message
              (release_internal env cross_chain_user token amount cross_chain_addresses timeout tx_id)
              Response_new))"

text \<open>
  The loop of \<open>execute_release_escrow\<close> over the addresses: the amount that remains, the amount transferred
  so far, the storage and the messages.
\<close>

fun release_loop ::
    "env \<Rightarrow> CrossChainUser \<Rightarrow> Token \<Rightarrow> u64 \<Rightarrow> CrossChainUserWithLimit list \<Rightarrow> uint128 \<Rightarrow> uint128 \<Rightarrow> rt_storage
       \<Rightarrow> SubMsg list \<Rightarrow> (uint128 \<times> uint128 \<times> rt_storage \<times> SubMsg list) result" where
  "release_loop env sender token timeout [] remaining transfer st msgs = Ok (remaining, transfer, st, msgs)"
| "release_loop env sender token timeout (a # addresses) remaining transfer st msgs =
     (if remaining = 0 then Ok (remaining, transfer, st, msgs)
      else let uid = ccu_chain_uid (ccl_user a) in
        bindR (map_load (CHAIN_UID_TO_CHAIN st) uid) (\<lambda>chain.
        let escrow_balance = unwrap_or (map_may_load (ESCROW_BALANCES st) (token, uid)) 0;
            release_amount = (if escrow_balance \<le> remaining then escrow_balance else remaining);
            release_amount = min release_amount (unwrap_or (ccl_limit a) (- 1))
        in if release_amount = 0 then release_loop env sender token timeout addresses remaining transfer st msgs
           else bindR (checked_sub escrow_balance release_amount) (\<lambda>new_balance.
                let st = st\<lparr>ESCROW_BALANCES := map_save (ESCROW_BALANCES st) (token, uid) new_balance\<rparr> in
                bindR (checked_add transfer release_amount) (\<lambda>transfer.
                let (st, tx_id) = rt_generate_tx st env sender in
                bindR (rt_to_msg st env
                         (HI_ReleaseEscrow uid sender release_amount token (ccu_address (ccl_user a)) tx_id)
                         chain timeout) (\<lambda>(st, send_msg).
                bindR (checked_sub remaining release_amount) (\<lambda>remaining.
                release_loop env sender token timeout addresses remaining transfer st (msgs @ [send_msg])))))))"

definition execute_release_escrow ::
    "vb_querier \<Rightarrow> rt_storage \<Rightarrow> env \<Rightarrow> message_info \<Rightarrow> CrossChainUser \<Rightarrow> Token \<Rightarrow> uint128 option
       \<Rightarrow> CrossChainUserWithLimit list \<Rightarrow> u64 option \<Rightarrow> string \<Rightarrow> rt_result" where
  "execute_release_escrow query_vb st env info sender token amount cross_chain_addresses timeout tx_id =
     bindR (item_load (RT_STATE st)) (\<lambda>state.
     ensure (info_sender info = contract_address env) Unauthorized
     (bindR (ok_or (rs_virtual_balance_address state)
               (Generic (''virtual balance doesn'' @ [CHR 0x27] @ ''t exist''))) (\<lambda>virtual_balance_address.
      let balance_key = \<lparr>bk_cross_chain_user = sender, bk_token_id = token_id token\<rparr> in
      bindR (query_vb virtual_balance_address balance_key) (\<lambda>user_balance.
      let amount = unwrap_or amount user_balance in
      ensure (amount \<le> user_balance) InsufficientFunds
      (bindR (get_timeout timeout) (\<lambda>timeout.
       bindR (release_loop env sender token timeout cross_chain_addresses amount 0 st [])
         (\<lambda>(remaining, transfer_amount, st, release_msgs).
       bindR (checked_add transfer_amount remaining) (\<lambda>s.
       ensure (s = amount) (Generic ''Amount mismatch after trasnfer calculations'')
       (let response =
          (if transfer_amount \<noteq> 0
           then add_submessage (reply_always
                  (Wasm_Execute virtual_balance_address
                     (To_VirtualBalance (VB_Burn \<lparr>burn_amount = transfer_amount, burn_balance_key = balance_key\<rparr>)) [])
                  VIRTUAL_BALANCE_BURN_REPLY_ID) Response_new
           else Response_new)
        in Ok (st, add_submessages release_msgs response))))))))))"

section \<open>Routes\<close>

definition validate_swap_pairs :: "rt_storage \<Rightarrow> NextSwapPair list \<Rightarrow> NextSwapVlp list result" where
  "validate_swap_pairs st swaps =
     mapR (\<lambda>swap.
       bindR (Pair_new (nsp_token_in swap) (nsp_token_out swap)) (\<lambda>pair.
       bindR (map_load (VLPS st) (get_tupple pair)) (\<lambda>vlp_address.
       Ok \<lparr>nsv_vlp_address = vlp_address, nsv_test_fail = nsp_test_fail swap\<rparr>))) swaps"

abbreviation no_swaps :: ContractError where
  "no_swaps \<equiv> Generic ''Swaps cannot be empty''"

section \<open>Messages from the chains\<close>

definition execute_request_pool_creation ::
    "rt_storage \<Rightarrow> env \<Rightarrow> CrossChainUser \<Rightarrow> Pair \<Rightarrow> string \<Rightarrow> rt_result" where
  "execute_request_pool_creation st env sender pair tx_id =
     bindR (Pair_validate pair) (\<lambda>_.
     bindR (item_load (RT_STATE st)) (\<lambda>state.
     let vlp = map_may_load (VLPS st) (get_tupple pair);
         register_msg = VLP_RegisterPool sender pair tx_id
     in bindR (eachR (\<lambda>token.
          let token_exists = map_has (ESCROW_BALANCES st) (token, ccu_chain_uid sender);
              range = filter (\<lambda>((t, _), _). t = token) (ESCROW_BALANCES st)
          in ensure (token_exists \<or> range = [])
               (Generic ''Cannot use already existing token without registering it first'') (Ok ()))
          (get_vec_token pair)) (\<lambda>_.
        case vlp of
          Some vlp_address \<Rightarrow>
            Ok (st, add_submessage (reply_always (Wasm_Execute vlp_address (To_Vlp register_msg) [])
                      VLP_POOL_REGISTER_REPLY_ID) Response_new)
        | None \<Rightarrow>
            bindR (ok_or (rs_virtual_balance_address state) (Generic ''virtual balance not instantiated''))
              (\<lambda>virtual_balance.
            bindR vsl_chain_uid (\<lambda>vsl_uid.
            let instantiate_msg =
                  \<lparr>vim_router = contract_address env, vim_virtual_balance = virtual_balance, vim_pair = pair,
                   vim_fee = \<lparr>fee_lp_fee_bps = 10, fee_euclid_fee_bps = 10,
                     fee_recipient = \<lparr>ccu_chain_uid = vsl_uid, ccu_address = rs_admin state\<rparr>\<rparr>,
                   vim_execute = Some register_msg, vim_admin = rs_admin state\<rparr>
            in Ok (st, add_submessage (reply_always
                     (Wasm_Instantiate (Some (rs_admin state)) (rs_vlp_code_id state)
                        (New_Vlp instantiate_msg) [] ''VLP'')
                     VLP_INSTANTIATE_REPLY_ID) Response_new))))))"

definition execute_request_escrow_creation :: "rt_storage \<Rightarrow> CrossChainUser \<Rightarrow> Token \<Rightarrow> string \<Rightarrow> rt_result" where
  "execute_request_escrow_creation st sender token tx_id =
     bindR (Token_validate token) (\<lambda>_.
     ensure (\<not> map_has (ESCROW_BALANCES st) (token, ccu_chain_uid sender)) TokenAlreadyExist
     (Ok (st\<lparr>ESCROW_BALANCES := map_save (ESCROW_BALANCES st) (token, ccu_chain_uid sender) 0\<rparr>,
          set_data (Json_Ack (AckOk EscrowCreated)) Response_new)))"

text \<open>The message that mints virtual balance for the account of a pool on the hub.\<close>

definition mint_for_vlp :: "string \<Rightarrow> ChainUid \<Rightarrow> string \<Rightarrow> Token \<Rightarrow> uint128 \<Rightarrow> CosmosMsg" where
  "mint_for_vlp virtual_balance_address vsl_uid vlp_address token amount =
     Wasm_Execute virtual_balance_address
       (To_VirtualBalance (VB_Mint \<lparr>mint_amount = amount, mint_balance_key =
          \<lparr>bk_cross_chain_user = \<lparr>ccu_chain_uid = vsl_uid, ccu_address = vlp_address\<rparr>,
           bk_token_id = token_id token\<rparr>\<rparr>)) []"

definition add_escrow :: "rt_storage \<Rightarrow> Token \<Rightarrow> ChainUid \<Rightarrow> uint128 \<Rightarrow> rt_storage result" where
  "add_escrow st token uid amount =
     bindR (checked_add (unwrap_or (map_may_load (ESCROW_BALANCES st) (token, uid)) 0) amount) (\<lambda>b.
     Ok (st\<lparr>ESCROW_BALANCES := map_save (ESCROW_BALANCES st) (token, uid) b\<rparr>))"

definition ibc_execute_add_liquidity ::
    "liq_querier \<Rightarrow> rt_storage \<Rightarrow> CrossChainUser \<Rightarrow> uint128 \<Rightarrow> uint128 \<Rightarrow> u64 \<Rightarrow> Pair \<Rightarrow> string \<Rightarrow> rt_result" where
  "ibc_execute_add_liquidity query_liq st sender token_1_liquidity token_2_liquidity slippage_tolerance pair tx_id =
     bindR (map_load (VLPS st) (get_tupple pair)) (\<lambda>vlp_address.
     bindR (query_liq vlp_address) (\<lambda>pool_liquidity.
     let token_1 = pair_token_1 (glr_pair pool_liquidity); token_2 = pair_token_2 (glr_pair pool_liquidity) in
     bindR (add_escrow st token_1 (ccu_chain_uid sender) token_1_liquidity) (\<lambda>st.
     bindR (add_escrow st token_2 (ccu_chain_uid sender) token_2_liquidity) (\<lambda>st.
     bindR (item_load (RT_STATE st)) (\<lambda>state.
     bindR (ok_or (rs_virtual_balance_address state)
              (Generic (''virtual balance address doesn'' @ [CHR 0x27] @ ''t exist''))) (\<lambda>virtual_balance_address.
     bindR vsl_chain_uid (\<lambda>vsl_uid.
     Ok (st,
         add_submessage (reply_always (Wasm_Execute vlp_address
           (To_Vlp (VLP_AddLiquidity sender tx_id token_1_liquidity token_2_liquidity slippage_tolerance)) [])
           ADD_LIQUIDITY_REPLY_ID)
         (add_submessage (reply_on_error
            (mint_for_vlp virtual_balance_address vsl_uid vlp_address token_2 token_2_liquidity)
            VIRTUAL_BALANCE_MINT_REPLY_ID)
         (add_submessage (reply_on_error
            (mint_for_vlp virtual_balance_address vsl_uid vlp_address token_1 token_1_liquidity)
            VIRTUAL_BALANCE_MINT_REPLY_ID)
          Response_new))))))))))"

definition ibc_execute_remove_liquidity :: "rt_storage \<Rightarrow> ChainIbcRemoveLiquidityExecuteMsg \<Rightarrow> rt_result" where
  "ibc_execute_remove_liquidity st msg =
     bindR (map_load (VLPS st) (get_tupple (crl_pair msg))) (\<lambda>vlp_address.
     let req_key = (ccu_chain_uid (crl_sender msg), ccu_address (crl_sender msg), crl_tx_id msg) in
     ensure (\<not> map_has (PENDING_REMOVE_LIQUIDITY st) req_key) (Generic ''tx already present'')
     (Ok (st\<lparr>PENDING_REMOVE_LIQUIDITY := map_save (PENDING_REMOVE_LIQUIDITY st) req_key msg\<rparr>,
          add_submessage (reply_always (Wasm_Execute vlp_address
            (To_Vlp (VLP_RemoveLiquidity (crl_sender msg) (crl_tx_id msg) (crl_lp_allocation msg))) [])
            REMOVE_LIQUIDITY_REPLY_ID) Response_new)))"

definition ibc_execute_swap :: "rt_storage \<Rightarrow> ChainIbcSwapExecuteMsg \<Rightarrow> rt_result" where
  "ibc_execute_swap st msg =
     bindR (ok_or (slice_first (csw_swaps msg)) no_swaps) (\<lambda>first_swap.
     bindR (ok_or (slice_last (csw_swaps msg)) no_swaps) (\<lambda>last_swap.
     ensure (nsp_token_in first_swap = csw_asset_in msg) (Generic (''Asset IN doen'' @ [CHR 0x27] @ ''t match router''))
     (ensure (nsp_token_out last_swap = csw_asset_out msg) (Generic (''Asset OUT doen'' @ [CHR 0x27] @ ''t match router''))
     (let req_key = (ccu_chain_uid (csw_sender msg), ccu_address (csw_sender msg), csw_tx_id msg) in
      ensure (\<not> map_has (SWAP_ID_TO_MSG st) req_key) TxAlreadyExist
      (let st = st\<lparr>SWAP_ID_TO_MSG := map_save (SWAP_ID_TO_MSG st) req_key msg\<rparr>; sender = csw_sender msg in
       bindR (item_load (RT_STATE st)) (\<lambda>state.
       bindR (ok_or (rs_virtual_balance_address state)
                (Generic (''virtual balance address doesn'' @ [CHR 0x27] @ ''t exist''))) (\<lambda>virtual_balance_address.
       bindR (map_err (validate_swap_pairs st (csw_swaps msg))
                (Generic ''VLPS listed in swaps are not registered'')) (\<lambda>swap_vlps.
       bindR (ok_or (split_first swap_vlps) no_swaps) (\<lambda>(first_swap, next_swaps).
       bindR (add_escrow st (csw_asset_in msg) (ccu_chain_uid sender) (csw_amount_in msg)) (\<lambda>st.
       bindR vsl_chain_uid (\<lambda>vsl_uid.
       Ok (st,
           add_submessage (reply_always (Wasm_Execute (nsv_vlp_address first_swap)
             (To_Vlp (VLP_Swap sender (csw_tx_id msg) (csw_asset_in msg) (csw_amount_in msg)
                (csw_min_amount_out msg) next_swaps (nsv_test_fail first_swap))) [])
             SWAP_REPLY_ID)
           (add_submessage (reply_always
              (mint_for_vlp virtual_balance_address vsl_uid (nsv_vlp_address first_swap) (csw_asset_in msg)
                 (csw_amount_in msg))
              VIRTUAL_BALANCE_MINT_REPLY_ID) Response_new)))))))))))))"

abbreviation uid_mismatch :: ContractError where
  "uid_mismatch \<equiv> Generic ''Chain UID mismatch''"

definition reusable_internal_call ::
    "liq_querier \<Rightarrow> rt_storage \<Rightarrow> env \<Rightarrow> ChainIbcExecuteMsg \<Rightarrow> ChainUid \<Rightarrow> rt_result" where
  "reusable_internal_call query_liq st env msg chain_uid =
     bindR (item_load (DEREGISTERED_CHAINS st)) (\<lambda>deregistered_chains.
     ensure (chain_uid \<notin> set deregistered_chains) DeregisteredChain
     (bindR (item_load (RT_STATE st)) (\<lambda>state.
      ensure (\<not> rs_locked state) ContractLocked
      (case msg of
         CI_RequestPoolCreation sender tx_id pair \<Rightarrow>
           ensure (ccu_chain_uid sender = chain_uid) uid_mismatch
           (execute_request_pool_creation st env sender pair tx_id)
       | CI_RequestEscrowCreation sender tx_id token \<Rightarrow>
           ensure (ccu_chain_uid sender = chain_uid) uid_mismatch
           (execute_request_escrow_creation st sender token tx_id)
       | CI_AddLiquidity sender token_1_liquidity token_2_liquidity slippage_tolerance pair tx_id \<Rightarrow>
           ensure (ccu_chain_uid sender = chain_uid) uid_mismatch
           (ibc_execute_add_liquidity query_liq st sender token_1_liquidity token_2_liquidity
              slippage_tolerance pair tx_id)
       | CI_RemoveLiquidity m \<Rightarrow>
           ensure (ccu_chain_uid (crl_sender m) = chain_uid) uid_mismatch
           (ibc_execute_remove_liquidity st m)
       | CI_Swap m \<Rightarrow>
           ensure (ccu_chain_uid (csw_sender m) = chain_uid) uid_mismatch
           (ibc_execute_swap st m)
       | CI_Withdraw m \<Rightarrow>
           ensure (ccu_chain_uid (cwd_sender m) = chain_uid) uid_mismatch
           (Ok (st,
                set_data (Json_Ack (AckOk (WithdrawAccepted
                  \<lparr>wresp_token = cwd_token m, wresp_tx_id = cwd_tx_id m\<rparr>)))
                (add_message (release_internal env (cwd_sender m) (cwd_token m) (Some (cwd_amount m))
                   (cwd_cross_chain_addresses m) (cwd_timeout m) (cwd_tx_id m)) Response_new)))))))"

definition ibc_receive_internal_call :: "liq_querier \<Rightarrow> rt_storage \<Rightarrow> env \<Rightarrow> IbcPacket \<Rightarrow> rt_result" where
  "ibc_receive_internal_call query_liq st env packet =
     bindR (map_load (CHANNEL_TO_CHAIN_UID st) (channel_id (packet_dest packet))) (\<lambda>chain_uid.
     bindR (map_load (CHAIN_UID_TO_CHAIN st) chain_uid) (\<lambda>chain.
     ensure (port_id (packet_src packet) = ''wasm.'' @ factory_addr chain) Unauthorized
     (bindR (from_json_chain_ibc (packet_data packet)) (\<lambda>msg.
      reusable_internal_call query_liq st env msg chain_uid))))"

text \<open>The entry point of a packet answers with the failure acknowledgement until the reply replaces it.\<close>

definition ibc_packet_receive :: "rt_storage \<Rightarrow> env \<Rightarrow> IbcPacket \<Rightarrow> rt_result" where
  "ibc_packet_receive st env packet =
     Ok (st, add_submessage (reply_always
          (Wasm_Execute (contract_address env) (To_Router (R_IbcCallbackReceive packet)) []) IBC_RECEIVE_REPLY_ID)
        (set_data (make_ack_fail ''deafult_fail'') Response_new))"

definition execute_native_receive_callback ::
    "liq_querier \<Rightarrow> rt_storage \<Rightarrow> env \<Rightarrow> message_info \<Rightarrow> ChainUid \<Rightarrow> binary \<Rightarrow> rt_result" where
  "execute_native_receive_callback query_liq st env info chain_uid msg =
     bindR (ChainUid_validate chain_uid) (\<lambda>chain_uid.
     bindR (from_json_chain_ibc msg) (\<lambda>msg.
     bindR (map_load (CHAIN_UID_TO_CHAIN st) chain_uid) (\<lambda>chain.
     ensure (Chain_is_native chain) Unauthorized
     (ensure (factory_addr chain = info_sender info) Unauthorized
     (reusable_internal_call query_liq st env msg chain_uid)))))"

section \<open>Acknowledgements and time-outs\<close>

definition register_ack :: "ack_data \<Rightarrow> RegisterFactoryResponse option" where
  "register_ack d = (case d of FactoryRegistered r \<Rightarrow> Some r | _ \<Rightarrow> None)"

definition release_ack :: "ack_data \<Rightarrow> ReleaseEscrowResponse option" where
  "release_ack d = (case d of EscrowReleased r \<Rightarrow> Some r | _ \<Rightarrow> None)"

definition ibc_ack_register_factory ::
    "rt_storage \<Rightarrow> ChainUid \<Rightarrow> ChainType \<Rightarrow> RegisterFactoryResponse AcknowledgementMsg \<Rightarrow> rt_result" where
  "ibc_ack_register_factory st chain_uid ctype res =
     (case res of
        AckOk data \<Rightarrow>
          let chain_data = \<lparr>factory_chain_id = rfresp_chain_id data, factory_addr = rfresp_factory_address data,
                            chain_type = ctype\<rparr>;
              st = st\<lparr>CHAIN_UID_TO_CHAIN := map_save (CHAIN_UID_TO_CHAIN st) chain_uid chain_data\<rparr>
          in (case ctype of
                Ibc ibc_info \<Rightarrow>
                  Ok (st\<lparr>CHANNEL_TO_CHAIN_UID :=
                        map_save (CHANNEL_TO_CHAIN_UID st) (from_hub_channel ibc_info) chain_uid\<rparr>, Response_new)
              | NativeChain \<Rightarrow> Ok (st, Response_new))
      | AckError err \<Rightarrow>
          (case ctype of NativeChain \<Rightarrow> Err (Generic err) | Ibc _ \<Rightarrow> Ok (st, Response_new)))"

definition ibc_ack_update_factory_channel ::
    "rt_storage \<Rightarrow> ChainUid \<Rightarrow> ChainType \<Rightarrow> RegisterFactoryResponse AcknowledgementMsg \<Rightarrow> rt_result" where
  "ibc_ack_update_factory_channel st chain_uid ctype res =
     (case res of
        AckOk data \<Rightarrow>
          let chain_data = \<lparr>factory_chain_id = rfresp_chain_id data, factory_addr = rfresp_factory_address data,
                            chain_type = ctype\<rparr>
          in bindR (map_load (CHAIN_UID_TO_CHAIN st) chain_uid) (\<lambda>old.
             bindR (case chain_type old of
                      Ibc ibc_chain \<Rightarrow> Ok (from_hub_channel ibc_chain)
                    | NativeChain \<Rightarrow> Err NoChannelForLocalChain) (\<lambda>old_channel.
             let st = st\<lparr>CHAIN_UID_TO_CHAIN := map_save (CHAIN_UID_TO_CHAIN st) chain_uid chain_data\<rparr> in
             case ctype of
               Ibc ibc_info \<Rightarrow>
                 Ok (st\<lparr>CHANNEL_TO_CHAIN_UID :=
                       map_remove (map_save (CHANNEL_TO_CHAIN_UID st) (from_hub_channel ibc_info) chain_uid)
                         old_channel\<rparr>, Response_new)
             | NativeChain \<Rightarrow> Ok (st, Response_new)))
      | AckError err \<Rightarrow>
          (case ctype of NativeChain \<Rightarrow> Err (Generic err) | Ibc _ \<Rightarrow> Ok (st, Response_new)))"

definition ibc_ack_release_escrow ::
    "rt_storage \<Rightarrow> ChainUid \<Rightarrow> CrossChainUser \<Rightarrow> uint128 \<Rightarrow> Token \<Rightarrow> ReleaseEscrowResponse AcknowledgementMsg
       \<Rightarrow> rt_result" where
  "ibc_ack_release_escrow st chain_uid sender amount token res =
     (case res of
        AckOk _ \<Rightarrow> Ok (st, Response_new)
      | AckError err \<Rightarrow>
          bindR (item_load (RT_STATE st)) (\<lambda>state.
          bindR (ok_or (rs_virtual_balance_address state) (Generic ''virtual balance not available''))
            (\<lambda>virtual_balance_address.
          let mint_msg = Wasm_Execute virtual_balance_address
                (To_VirtualBalance (VB_Mint \<lparr>mint_amount = amount, mint_balance_key =
                   \<lparr>bk_cross_chain_user = sender, bk_token_id = token_id token\<rparr>\<rparr>)) []
          in bindR (map_load (ESCROW_BALANCES st) (token, chain_uid)) (\<lambda>balance.
             bindR (checked_add balance amount) (\<lambda>new_balance.
             Ok (st\<lparr>ESCROW_BALANCES := map_save (ESCROW_BALANCES st) (token, chain_uid) new_balance\<rparr>,
                 add_message mint_msg Response_new))))))"

definition reusable_internal_ack_call :: "rt_storage \<Rightarrow> HubIbcExecuteMsg \<Rightarrow> binary \<Rightarrow> ChainType \<Rightarrow> rt_result" where
  "reusable_internal_ack_call st msg ack ctype =
     (case msg of
        HI_RegisterFactory chain_uid tx_id \<Rightarrow>
          bindR (from_json_ack register_ack ack) (\<lambda>res. ibc_ack_register_factory st chain_uid ctype res)
      | HI_ReleaseEscrow chain_uid sender amount token to_address tx_id \<Rightarrow>
          bindR (from_json_ack release_ack ack) (\<lambda>res. ibc_ack_release_escrow st chain_uid sender amount token res)
      | HI_UpdateFactoryChannel chain_uid tx_id \<Rightarrow>
          bindR (from_json_ack register_ack ack) (\<lambda>res. ibc_ack_update_factory_channel st chain_uid ctype res))"

definition ibc_ack_packet_internal_call :: "rt_storage \<Rightarrow> IbcPacketAckMsg \<Rightarrow> rt_result" where
  "ibc_ack_packet_internal_call st ack =
     bindR (from_json_hub_ibc (packet_data (original_packet ack))) (\<lambda>msg.
     reusable_internal_ack_call st msg (acknowledgement ack)
       (Ibc \<lparr>from_hub_channel = channel_id (packet_src (original_packet ack)),
             from_factory_channel = channel_id (packet_dest (original_packet ack))\<rparr>))"

definition ibc_packet_ack :: "rt_storage \<Rightarrow> env \<Rightarrow> IbcPacketAckMsg \<Rightarrow> rt_result" where
  "ibc_packet_ack st env ack =
     Ok (st, add_submessage (reply_always
          (Wasm_Execute (contract_address env) (To_Router (R_IbcCallbackAckAndTimeout ack)) [])
          IBC_ACK_AND_TIMEOUT_REPLY_ID) Response_new)"

definition ibc_packet_timeout :: "rt_storage \<Rightarrow> env \<Rightarrow> IbcPacket \<Rightarrow> rt_result" where
  "ibc_packet_timeout st env packet =
     bindR (count_timeout (RT_CHANNELS st) (channel_id (packet_src packet))) (\<lambda>counts.
     let st = st\<lparr>RT_CHANNELS := counts\<rparr>;
         failed_ack = \<lparr>acknowledgement = Json_Ack (AckError ''Timeout''), original_packet = packet\<rparr>
     in case ibc_packet_ack st env failed_ack of Inl _ \<Rightarrow> Ok (st, Response_new) | Inr res \<Rightarrow> Ok res)"

section \<open>Replies\<close>

definition on_vlp_instantiate_reply :: "liq_querier \<Rightarrow> rt_storage \<Rightarrow> Reply \<Rightarrow> rt_result" where
  "on_vlp_instantiate_reply query_liq st msg =
     (case reply_result msg of
        SubMsgErr err \<Rightarrow> Err (InstantiateError err)
      | SubMsgOk _ \<Rightarrow>
          bindR (lift_err Generic (parse_reply_instantiate_data msg)) (\<lambda>(vlp_address, data).
          bindR (query_liq vlp_address) (\<lambda>liquidity.
          let st = st\<lparr>VLPS := map_save (VLPS st)
                (pair_token_1 (glr_pair liquidity), pair_token_2 (glr_pair liquidity)) vlp_address\<rparr>
          in case from_json_pool_creation (unwrap_or data default_binary) of
               Inr pool_creation_response \<Rightarrow>
                 Ok (st, set_data (Json_Ack (AckOk (PoolCreated pool_creation_response))) Response_new)
             | Inl _ \<Rightarrow> Ok (st, Response_new))))"

definition on_pool_register_reply :: "rt_storage \<Rightarrow> Reply \<Rightarrow> rt_result" where
  "on_pool_register_reply st msg =
     (case reply_result msg of
        SubMsgErr err \<Rightarrow> Err (Generic err)
      | SubMsgOk _ \<Rightarrow>
          bindR (lift_err Generic (parse_reply_execute_data msg)) (\<lambda>data.
          bindR (from_json_pool_creation (unwrap_or data default_binary)) (\<lambda>pool_creation_response.
          Ok (st, set_data (Json_Ack (AckOk (PoolCreated pool_creation_response))) Response_new))))"

definition on_add_liquidity_reply :: "rt_storage \<Rightarrow> Reply \<Rightarrow> rt_result" where
  "on_add_liquidity_reply st msg =
     (case reply_result msg of
        SubMsgErr err \<Rightarrow> Err (Generic err)
      | SubMsgOk _ \<Rightarrow>
          bindR (lift_err Generic (parse_reply_execute_data msg)) (\<lambda>data.
          bindR (from_json_add_liquidity (unwrap_or data default_binary)) (\<lambda>liquidity_response.
          Ok (st, set_data (Json_Ack (AckOk (LiquidityAdded liquidity_response))) Response_new))))"

definition on_remove_liquidity_reply :: "rt_storage \<Rightarrow> env \<Rightarrow> Reply \<Rightarrow> rt_result" where
  "on_remove_liquidity_reply st env msg =
     (case reply_result msg of
        SubMsgErr err \<Rightarrow> Err (Generic err)
      | SubMsgOk _ \<Rightarrow>
          bindR (lift_err Generic (parse_reply_execute_data msg)) (\<lambda>data.
          bindR (from_json_remove_liquidity (unwrap_or data default_binary)) (\<lambda>vlp_response.
          let req_key = (ccu_chain_uid (vrl_sender vlp_response), ccu_address (vrl_sender vlp_response),
                         vrl_tx_id vlp_response) in
          bindR (map_load (PENDING_REMOVE_LIQUIDITY st) req_key) (\<lambda>tx.
          let st = st\<lparr>PENDING_REMOVE_LIQUIDITY := map_remove (PENDING_REMOVE_LIQUIDITY st) req_key\<rparr>;
              liquidity_response =
                \<lparr>rlresp_token_1_liquidity = vrl_token_1_liquidity_released vlp_response,
                 rlresp_token_2_liquidity = vrl_token_2_liquidity_released vlp_response,
                 rlresp_burn_lp_tokens = vrl_burn_lp_tokens vlp_response,
                 rlresp_vlp_address = vrl_vlp_address vlp_response\<rparr>
          in Ok (st,
               set_data (Json_Ack (AckOk (LiquidityRemoved liquidity_response)))
               (add_message (release_internal env (crl_sender tx) (pair_token_2 (crl_pair tx))
                  (Some (vrl_token_2_liquidity_released vlp_response)) (crl_cross_chain_addresses tx) None
                  (vrl_tx_id vlp_response))
               (add_message (release_internal env (crl_sender tx) (pair_token_1 (crl_pair tx))
                  (Some (vrl_token_1_liquidity_released vlp_response)) (crl_cross_chain_addresses tx) None
                  (vrl_tx_id vlp_response))
                Response_new)))))))"

definition on_swap_reply :: "rt_storage \<Rightarrow> env \<Rightarrow> Reply \<Rightarrow> rt_result" where
  "on_swap_reply st env msg =
     (case reply_result msg of
        SubMsgErr err \<Rightarrow> Err (Generic err)
      | SubMsgOk _ \<Rightarrow>
          bindR (lift_err Generic (parse_reply_execute_data msg)) (\<lambda>data.
          bindR (from_json_vlp_swap (unwrap_or data default_binary)) (\<lambda>vlp_swap_response.
          let req_key = (ccu_chain_uid (vsr_sender vlp_swap_response), ccu_address (vsr_sender vlp_swap_response),
                         vsr_tx_id vlp_swap_response) in
          bindR (map_load (SWAP_ID_TO_MSG st) req_key) (\<lambda>swap_msg.
          let st = st\<lparr>SWAP_ID_TO_MSG := map_remove (SWAP_ID_TO_MSG st) req_key\<rparr> in
          ensure (vsr_asset_out vlp_swap_response = csw_asset_out swap_msg) (Generic ''Asset Out Mismatch'')
          (ensure (csw_min_amount_out swap_msg \<le> vsr_amount_out vlp_swap_response)
             (SlippageExceeded (unat (vsr_amount_out vlp_swap_response)) (unat (csw_min_amount_out swap_msg)))
          (Ok (st,
               set_data (Json_Ack (AckOk (Swapped
                 \<lparr>swresp_amount_out = vsr_amount_out vlp_swap_response, swresp_tx_id = vsr_tx_id vlp_swap_response\<rparr>)))
               (add_message (release_internal env (csw_sender swap_msg) (csw_asset_out swap_msg)
                  (Some (vsr_amount_out vlp_swap_response)) (csw_cross_chain_addresses swap_msg) None
                  (csw_tx_id swap_msg)) Response_new))))))))"

definition on_virtual_balance_instantiate_reply :: "(string \<Rightarrow> addr result) \<Rightarrow> rt_storage \<Rightarrow> Reply \<Rightarrow> rt_result" where
  "on_virtual_balance_instantiate_reply addr_validate st msg =
     (case reply_result msg of
        SubMsgErr err \<Rightarrow> Err (Generic err)
      | SubMsgOk _ \<Rightarrow>
          bindR (lift_err Generic (parse_reply_instantiate_data msg)) (\<lambda>(address, _).
          bindR (item_load (RT_STATE st)) (\<lambda>state.
          bindR (addr_validate address) (\<lambda>address.
          Ok (st\<lparr>RT_STATE := Some (state\<lparr>rs_virtual_balance_address := Some address\<rparr>)\<rparr>, Response_new)))))"

text \<open>The replies that only pass an error on: mint, burn and transfer of virtual balance.\<close>

definition on_virtual_balance_mint_reply :: "rt_storage \<Rightarrow> Reply \<Rightarrow> rt_result" where
  "on_virtual_balance_mint_reply st msg =
     (case reply_result msg of SubMsgErr err \<Rightarrow> Err (Generic err) | SubMsgOk _ \<Rightarrow> Ok (st, Response_new))"

definition on_virtual_balance_burn_reply :: "rt_storage \<Rightarrow> Reply \<Rightarrow> rt_result" where
  "on_virtual_balance_burn_reply st msg =
     (case reply_result msg of SubMsgErr err \<Rightarrow> Err (Generic err) | SubMsgOk _ \<Rightarrow> Ok (st, Response_new))"

definition rt_on_virtual_balance_transfer_reply :: "rt_storage \<Rightarrow> Reply \<Rightarrow> rt_result" where
  "rt_on_virtual_balance_transfer_reply st msg =
     (case reply_result msg of SubMsgErr err \<Rightarrow> Err (Generic err) | SubMsgOk _ \<Rightarrow> Ok (st, Response_new))"

definition on_ibc_ack_and_timeout_reply :: "rt_storage \<Rightarrow> Reply \<Rightarrow> rt_result" where
  "on_ibc_ack_and_timeout_reply st msg =
     (case reply_result msg of
        SubMsgErr err \<Rightarrow> Ok (st, Response_new)
      | SubMsgOk data \<Rightarrow> Ok (st, set_data (reply_payload data) Response_new))"

definition on_ibc_receive_reply :: "rt_storage \<Rightarrow> Reply \<Rightarrow> rt_result" where
  "on_ibc_receive_reply st msg =
     (case reply_result msg of
        SubMsgErr err \<Rightarrow> Ok (st, set_data (make_ack_fail err) Response_new)
      | SubMsgOk data \<Rightarrow> Ok (st, set_data (reply_payload data) Response_new))"

definition on_reply_native_ibc_wrapper_call :: "rt_storage \<Rightarrow> Reply \<Rightarrow> rt_result" where
  "on_reply_native_ibc_wrapper_call st msg =
     bindR (queue_take (HUB_QUEUE st) (reply_id msg)) (\<lambda>(q, original_msg).
     let st = st\<lparr>HUB_QUEUE := q\<rparr> in
     case reply_result msg of
       SubMsgErr err \<Rightarrow> reusable_internal_ack_call st original_msg (make_ack_fail err) NativeChain
     | SubMsgOk data \<Rightarrow> reusable_internal_ack_call st original_msg (reply_payload data) NativeChain)"

definition rt_reply ::
    "(string \<Rightarrow> addr result) \<Rightarrow> liq_querier \<Rightarrow> rt_storage \<Rightarrow> env \<Rightarrow> Reply \<Rightarrow> rt_result" where
  "rt_reply addr_validate query_liq st env msg =
     (if fst HUB_IBC_EXECUTE_MSG_QUEUE_RANGE \<le> reply_id msg \<and> reply_id msg \<le> snd HUB_IBC_EXECUTE_MSG_QUEUE_RANGE
      then on_reply_native_ibc_wrapper_call st msg
      else if reply_id msg = VLP_INSTANTIATE_REPLY_ID then on_vlp_instantiate_reply query_liq st msg
      else if reply_id msg = VLP_POOL_REGISTER_REPLY_ID then on_pool_register_reply st msg
      else if reply_id msg = ADD_LIQUIDITY_REPLY_ID then on_add_liquidity_reply st msg
      else if reply_id msg = REMOVE_LIQUIDITY_REPLY_ID then on_remove_liquidity_reply st env msg
      else if reply_id msg = SWAP_REPLY_ID then on_swap_reply st env msg
      else if reply_id msg = VIRTUAL_BALANCE_INSTANTIATE_REPLY_ID
        then on_virtual_balance_instantiate_reply addr_validate st msg
      else if reply_id msg = VIRTUAL_BALANCE_MINT_REPLY_ID then on_virtual_balance_mint_reply st msg
      else if reply_id msg = VIRTUAL_BALANCE_BURN_REPLY_ID then on_virtual_balance_burn_reply st msg
      else if reply_id msg = RT_VIRTUAL_BALANCE_TRANSFER_REPLY_ID then rt_on_virtual_balance_transfer_reply st msg
      else if reply_id msg = IBC_ACK_AND_TIMEOUT_REPLY_ID then on_ibc_ack_and_timeout_reply st msg
      else if reply_id msg = IBC_RECEIVE_REPLY_ID then on_ibc_receive_reply st msg
      else Err (Std (GenericErr (''Unknown reply id: '' @ show_nat (unat (reply_id msg))))))"

section \<open>Entry points\<close>

definition rt_instantiate :: "env \<Rightarrow> message_info \<Rightarrow> u64 \<Rightarrow> u64 \<Rightarrow> rt_result" where
  "rt_instantiate env info vlp_code_id virtual_balance_code_id =
     Ok (\<lparr>RT_STATE = Some \<lparr>rs_admin = info_sender info, rs_vlp_code_id = vlp_code_id,
            rs_virtual_balance_address = None, rs_locked = False\<rparr>,
          VLPS = [], ESCROW_BALANCES = [], CHAIN_UID_TO_CHAIN = [], CHANNEL_TO_CHAIN_UID = [],
          DEREGISTERED_CHAINS = Some [], SWAP_ID_TO_MSG = [], PENDING_REMOVE_LIQUIDITY = [],
          HUB_QUEUE = \<lparr>q_entries = [], q_count = None\<rparr>, RT_TX_NONCE = None,
          RT_CHANNELS = \<lparr>CONNECTION_COUNTS = [], TIMEOUT_COUNTS = []\<rparr>\<rparr>,
         add_submessage (reply_always
           (Wasm_Instantiate (Some (info_sender info)) virtual_balance_code_id
              (New_VirtualBalance (contract_address env) (Some (info_sender info))) []
              ''Instantiate Virtual Balance Contract'')
           VIRTUAL_BALANCE_INSTANTIATE_REPLY_ID) Response_new)"

definition rt_execute ::
    "vb_querier \<Rightarrow> liq_querier \<Rightarrow> rt_storage \<Rightarrow> env \<Rightarrow> message_info \<Rightarrow> router_ExecuteMsg \<Rightarrow> rt_result" where
  "rt_execute query_vb query_liq st env info msg =
     bindR (item_load (RT_STATE st)) (\<lambda>state.
     if rs_locked state
     then (case msg of
             R_UpdateLock \<Rightarrow> execute_update_lock st info
           | R_ReregisterChain chain \<Rightarrow> execute_reregister_chain st info chain
           | R_DeregisterChain chain \<Rightarrow> execute_deregister_chain st info chain
           | _ \<Rightarrow> Err ContractLocked)
     else (case msg of
             R_ReregisterChain chain \<Rightarrow> execute_reregister_chain st info chain
           | R_DeregisterChain chain \<Rightarrow> execute_deregister_chain st info chain
           | R_UpdateFactoryChannel chain_uid channel \<Rightarrow>
               execute_update_factory_channel st env info channel chain_uid
           | R_UpdateVLPCodeId new_vlp_code_id \<Rightarrow> execute_update_vlp_code_id st info new_vlp_code_id
           | R_RegisterFactory chain_uid chain_info \<Rightarrow> execute_register_factory st env info chain_uid chain_info
           | R_ReleaseEscrowInternal sender token amount addresses timeout tx_id \<Rightarrow>
               execute_release_escrow query_vb st env info sender token amount addresses timeout tx_id
           | R_WithdrawVoucher token amount addresses timeout \<Rightarrow>
               execute_withdraw_voucher st env info token amount addresses timeout
           | R_IbcCallbackReceive packet \<Rightarrow> ibc_receive_internal_call query_liq st env packet
           | R_IbcCallbackAckAndTimeout ack \<Rightarrow> ibc_ack_packet_internal_call st ack
           | R_UpdateLock \<Rightarrow> execute_update_lock st info
           | R_NativeReceiveCallback m chain_uid \<Rightarrow>
               execute_native_receive_callback query_liq st env info chain_uid m))"

section \<open>Queries\<close>

text \<open>
  A page of a range: the bounds compare encoded keys (\<open>raw\<close>, the encoding of the storage library), \<open>min\<close>
  inclusive and \<open>max\<close> exclusive; \<open>skip\<close> and \<open>limit\<close> are cast to the 32-bit \<open>usize\<close> of the target.
\<close>

definition page_of ::
    "('k \<Rightarrow> bytes) \<Rightarrow> ('b \<Rightarrow> bytes) \<Rightarrow> 'b Pagination \<Rightarrow> ('k, 'v) store \<Rightarrow> ('k \<times> 'v) list" where
  "page_of raw bound p m =
     take (unat (ucast (unwrap_or (page_limit p) 10) :: u32))
       (drop (unat (ucast (unwrap_or (page_skip p) 0) :: u32))
          (filter (\<lambda>(k, _). (case page_min p of None \<Rightarrow> True | Some lo \<Rightarrow> bound lo \<le> raw k)
                        \<and> (case page_max p of None \<Rightarrow> True | Some hi \<Rightarrow> raw k < bound hi))
             (sort_key (\<lambda>(k, _). raw k) (AList.clearjunk m))))"

definition rt_query_state :: "rt_storage \<Rightarrow> rt_State result" where
  "rt_query_state st = item_load (RT_STATE st)"

definition query_all_vlps ::
    "(Token \<times> Token \<Rightarrow> bytes) \<Rightarrow> rt_storage \<Rightarrow> (Token \<times> Token) Pagination \<Rightarrow> ((Token \<times> Token) \<times> string) list result" where
  "query_all_vlps raw st p = Ok (page_of raw raw p (VLPS st))"

definition query_vlp :: "rt_storage \<Rightarrow> Pair \<Rightarrow> (string \<times> Token \<times> Token) result" where
  "query_vlp st pair =
     (let key = get_tupple pair in
      bindR (map_load (VLPS st) key) (\<lambda>vlp. Ok (vlp, fst key, snd key)))"

definition query_all_chains :: "rt_storage \<Rightarrow> (ChainUid \<times> Chain) list result" where
  "query_all_chains st = Ok (map_range (CHAIN_UID_TO_CHAIN st))"

definition query_chain :: "rt_storage \<Rightarrow> ChainUid \<Rightarrow> (Chain \<times> ChainUid) result" where
  "query_chain st chain_uid =
     bindR (ChainUid_validate chain_uid) (\<lambda>chain_uid.
     bindR (map_load (CHAIN_UID_TO_CHAIN st) chain_uid) (\<lambda>chain. Ok (chain, chain_uid)))"

record QuerySimulateSwap =
  qss_asset_in :: Token
  qss_amount_in :: uint128
  qss_asset_out :: Token
  qss_min_amount_out :: uint128
  qss_swaps :: "NextSwapPair list"

definition rt_query_simulate_swap :: "vlp_querier \<Rightarrow> rt_storage \<Rightarrow> QuerySimulateSwap \<Rightarrow> GetSwapResponse result" where
  "rt_query_simulate_swap ask_vlp st msg =
     bindR (ok_or (slice_first (qss_swaps msg)) no_swaps) (\<lambda>first_swap.
     bindR (ok_or (slice_last (qss_swaps msg)) no_swaps) (\<lambda>last_swap.
     ensure (nsp_token_in first_swap = qss_asset_in msg) (Generic (''Asset IN doen'' @ [CHR 0x27] @ ''t match router''))
     (ensure (nsp_token_out last_swap = qss_asset_out msg) (Generic (''Asset OUT doen'' @ [CHR 0x27] @ ''t match router''))
     (bindR (map_err (validate_swap_pairs st (qss_swaps msg))
               (Generic ''VLPS listed in swaps are not registered'')) (\<lambda>swap_vlps.
      bindR (ok_or (split_first swap_vlps) no_swaps) (\<lambda>(first_swap, next_swaps).
      bindR (ask_vlp (nsv_vlp_address first_swap) (qss_asset_in msg) (qss_amount_in msg) next_swaps) (\<lambda>simulate_res.
      ensure (gsr_asset_out simulate_res = qss_asset_out msg) (Generic ''Invalid Asset OUT after swap'')
      (Ok simulate_res))))))))"

text \<open>The loop of \<open>query_simulate_escrow_release\<close>; it reads the escrow balances and never changes them.\<close>

fun simulate_release_loop ::
    "rt_storage \<Rightarrow> Token \<Rightarrow> CrossChainUserWithLimit list \<Rightarrow> uint128 \<Rightarrow> (uint128 \<times> CrossChainUserWithLimit) list
       \<Rightarrow> (uint128 \<times> (uint128 \<times> CrossChainUserWithLimit) list) result" where
  "simulate_release_loop st token [] remaining amounts = Ok (remaining, amounts)"
| "simulate_release_loop st token (a # addresses) remaining amounts =
     (let escrow_balance = unwrap_or (map_may_load (ESCROW_BALANCES st) (token, ccu_chain_uid (ccl_user a))) 0;
          release_amount = (if escrow_balance \<le> remaining then escrow_balance else remaining);
          release_amount = min release_amount (unwrap_or (ccl_limit a) (- 1))
      in if release_amount = 0 then simulate_release_loop st token addresses remaining amounts
         else bindR (checked_sub remaining release_amount) (\<lambda>remaining.
              simulate_release_loop st token addresses remaining (amounts @ [(release_amount, a)])))"

definition query_simulate_escrow_release ::
    "rt_storage \<Rightarrow> Token \<Rightarrow> uint128 \<Rightarrow> CrossChainUserWithLimit list
       \<Rightarrow> (uint128 \<times> (uint128 \<times> CrossChainUserWithLimit) list) result" where
  "query_simulate_escrow_release st token amount addresses = simulate_release_loop st token addresses amount []"

definition query_token_escrows ::
    "rt_storage \<Rightarrow> Token \<Rightarrow> ChainUid Pagination \<Rightarrow> (ChainUid \<times> uint128) list result" where
  "query_token_escrows st token p =
     Ok (page_of uid_str uid_str p
       (map (\<lambda>((_, uid), b). (uid, b)) (filter (\<lambda>((t, _), _). t = token) (ESCROW_BALANCES st))))"

definition query_all_tokens ::
    "(Token \<times> ChainUid \<Rightarrow> bytes) \<Rightarrow> (Token \<Rightarrow> bytes) \<Rightarrow> rt_storage \<Rightarrow> Token Pagination \<Rightarrow> (Token \<times> ChainUid) list result" where
  "query_all_tokens raw raw_prefix st p = Ok (map fst (page_of raw raw_prefix p (ESCROW_BALANCES st)))"

end
