(* ===== verification/Router_Correct.thy ===== *)
theory Router_Correct
  imports Virtual_Balance Router
begin

text \<open>
  Lemmas on the router. Every handler keeps the books: the change of the recorded escrow is what the messages
  of the response mint and burn. The release loop computes a greedy plan over the recorded escrow balances.
\<close>

section \<open>The books\<close>

text \<open>
  The messages of a response that go to the virtual balance contract, and the amount of a token that the
  router records in escrow over all chains.
\<close>

fun vb_msg_of :: "CosmosMsg \<Rightarrow> vb_ExecuteMsg list" where
  "vb_msg_of (Wasm_Execute _ (To_VirtualBalance m) _) = [m]"
| "vb_msg_of _ = []"

definition vb_msgs :: "Response \<Rightarrow> vb_ExecuteMsg list" where
  "vb_msgs r = concat (map (\<lambda>m. vb_msg_of (sm_msg m)) (r_messages r))"

definition escrow_total :: "rt_storage \<Rightarrow> string \<Rightarrow> nat" where
  "escrow_total st t = total_on (\<lambda>(t', _). token_id t' = t) (map_may_load (ESCROW_BALANCES st))"

abbreviation minted_sum :: "vb_ExecuteMsg list \<Rightarrow> string \<Rightarrow> nat" where
  "minted_sum ms t \<equiv> (\<Sum>m\<leftarrow>ms. minted_by m t)"

abbreviation burned_sum :: "vb_ExecuteMsg list \<Rightarrow> string \<Rightarrow> nat" where
  "burned_sum ms t \<equiv> (\<Sum>m\<leftarrow>ms. burned_by m t)"

text \<open>A step keeps the books when the recorded escrow changes by what its messages mint and burn.\<close>

definition keeps_books :: "rt_storage \<Rightarrow> vb_ExecuteMsg list \<Rightarrow> rt_storage \<Rightarrow> bool" where
  "keeps_books st ms st' \<longleftrightarrow>
     (\<forall>t. escrow_total st' t + burned_sum ms t = escrow_total st t + minted_sum ms t)"

lemma escrow_save:
  "escrow_total (st\<lparr>ESCROW_BALANCES := map_save (ESCROW_BALANCES st) (tk, u) v\<rparr>) t
     + (if token_id tk = t then unat (amount_at (ESCROW_BALANCES st) (tk, u)) else 0)
   = escrow_total st t + (if token_id tk = t then unat v else 0)"
  unfolding escrow_total_def
  using total_on_save [of "\<lambda>(t', _). token_id t' = t" "ESCROW_BALANCES st" "(tk, u)" v] by simp

lemma escrow_total_other [simp]:
  "escrow_total (st\<lparr>RT_STATE := a\<rparr>) = escrow_total st"
  "escrow_total (st\<lparr>VLPS := b\<rparr>) = escrow_total st"
  "escrow_total (st\<lparr>CHAIN_UID_TO_CHAIN := c\<rparr>) = escrow_total st"
  "escrow_total (st\<lparr>CHANNEL_TO_CHAIN_UID := d\<rparr>) = escrow_total st"
  "escrow_total (st\<lparr>DEREGISTERED_CHAINS := e\<rparr>) = escrow_total st"
  "escrow_total (st\<lparr>SWAP_ID_TO_MSG := f\<rparr>) = escrow_total st"
  "escrow_total (st\<lparr>PENDING_REMOVE_LIQUIDITY := g\<rparr>) = escrow_total st"
  "escrow_total (st\<lparr>HUB_QUEUE := q\<rparr>) = escrow_total st"
  "escrow_total (st\<lparr>RT_TX_NONCE := n\<rparr>) = escrow_total st"
  "escrow_total (st\<lparr>RT_CHANNELS := k\<rparr>) = escrow_total st"
  by (simp_all add: escrow_total_def fun_eq_iff)

lemma keeps_books_Nil [simp]: "keeps_books st [] st' \<longleftrightarrow> escrow_total st' = escrow_total st"
  by (auto simp: keeps_books_def)

lemma vb_msgs_simps [simp]:
  "vb_msgs \<lparr>r_messages = [], r_data = d\<rparr> = []"
  "vb_msgs \<lparr>r_messages = m # ms, r_data = d\<rparr> = vb_msg_of (sm_msg m) @ vb_msgs \<lparr>r_messages = ms, r_data = d\<rparr>"
  by (simp_all add: vb_msgs_def)

section \<open>Messages\<close>

lemma rt_generate_tx_queue: "HUB_QUEUE (fst (rt_generate_tx st env u)) = HUB_QUEUE st"
  by (simp add: rt_generate_tx_def split_beta)

lemma rt_generate_tx_keeps [simp]:
  "rt_generate_tx st env u = (st', tx) \<Longrightarrow> ESCROW_BALANCES st' = ESCROW_BALANCES st"
  "rt_generate_tx st env u = (st', tx) \<Longrightarrow> escrow_total st' = escrow_total st"
  by (auto simp: rt_generate_tx_def Let_def split: prod.splits)

lemma rt_to_msg_keeps:
  assumes "rt_to_msg st env msg chain timeout = Inr (st', m)"
  shows "st' = st\<lparr>HUB_QUEUE := HUB_QUEUE st'\<rparr>" and "vb_msg_of (sm_msg m) = []"
  using assms
  by (auto simp: rt_to_msg_def HubIbc_to_msg_def ok_simps submsg_defs split: ChainType.splits)

lemma rt_to_msg_escrow:
  "rt_to_msg st env msg chain timeout = Inr (st', m) \<Longrightarrow> escrow_total st' = escrow_total st"
  using rt_to_msg_keeps(1) escrow_total_other(8) by metis

lemma add_escrow_books:
  assumes "add_escrow st tk u a = Inr st'"
  shows "escrow_total st' t = escrow_total st t + (if token_id tk = t then unat a else 0)"
    and "\<exists>b. st' = st\<lparr>ESCROW_BALANCES := b\<rparr>"
proof -
  obtain b where b: "unat b = unat (amount_at (ESCROW_BALANCES st) (tk, u)) + unat a"
    and st': "st' = st\<lparr>ESCROW_BALANCES := map_save (ESCROW_BALANCES st) (tk, u) b\<rparr>"
    using assms by (auto simp: add_escrow_def ok_simps amount_at_def)
  show "escrow_total st' t = escrow_total st t + (if token_id tk = t then unat a else 0)"
    using escrow_save [of st tk u b t] b by (auto simp: st' split: if_splits)
  show "\<exists>b. st' = st\<lparr>ESCROW_BALANCES := b\<rparr>"
    using st' by blast
qed

section \<open>The release loop\<close>

text \<open>
  What is released to an address is the least of what its chain holds, what remains and the address's
  limit. \<open>plan\<close> is the resulting list over natural numbers, with the balances of the chains threaded
  through.
\<close>

definition limit_of :: "CrossChainUserWithLimit \<Rightarrow> nat" where
  "limit_of a = (case ccl_limit a of None \<Rightarrow> 2 ^ 128 - 1 | Some l \<Rightarrow> unat l)"

fun plan :: "(ChainUid \<Rightarrow> nat) \<Rightarrow> nat \<Rightarrow> CrossChainUserWithLimit list \<Rightarrow> (ChainUid \<times> string \<times> nat) list" where
  "plan bal r [] = []"
| "plan bal r (a # as) =
     (let u = ccu_chain_uid (ccl_user a); x = min (min (bal u) r) (limit_of a) in
      if x = 0 then plan bal r as
      else (u, ccu_address (ccl_user a), x) # plan (bal(u := bal u - x)) (r - x) as)"

abbreviation planned :: "(ChainUid \<times> string \<times> nat) list \<Rightarrow> nat" where
  "planned p \<equiv> (\<Sum>(u, to, x)\<leftarrow>p. x)"

lemma planned_le: "planned (plan bal r as) \<le> r"
proof (induction as arbitrary: bal r)
  case (Cons a as)
  let ?u = "ccu_chain_uid (ccl_user a)"
  define x where "x = min (min (bal ?u) r) (limit_of a)"
  have "x \<le> r" by (simp add: x_def)
  moreover have "planned (plan (bal(?u := bal ?u - x)) (r - x) as) \<le> r - x"
    by (rule Cons)
  ultimately have "x + planned (plan (bal(?u := bal ?u - x)) (r - x) as) \<le> r"
    by linarith
  then show ?case
    using Cons [of bal r] by (simp add: Let_def flip: x_def)
qed simp

lemma plan_0 [simp]: "plan bal 0 as = []"
  by (induction as) simp_all

text \<open>The release a message asks for.\<close>

fun release_of :: "CosmosMsg \<Rightarrow> (ChainUid \<times> string \<times> nat) list" where
  "release_of (Ibc_SendPacket _ (Json_HubIbc (HI_ReleaseEscrow u s x t to tx)) _) = [(u, to, unat x)]"
| "release_of (Wasm_Execute _ (To_Factory (F_NativeReceiveCallback (Json_HubIbc (HI_ReleaseEscrow u s x t to tx)))) _)
     = [(u, to, unat x)]"
| "release_of _ = []"

text \<open>The amount it asks of a token and a chain.\<close>

type_synonym escrow_key = "Token \<times> ChainUid"

fun hub_release :: "HubIbcExecuteMsg \<Rightarrow> escrow_key \<Rightarrow> nat" where
  "hub_release (HI_ReleaseEscrow u s x t to tx) k = (if k = (t, u) then unat x else 0)"
| "hub_release _ k = 0"

fun release_to :: "CosmosMsg \<Rightarrow> escrow_key \<Rightarrow> nat" where
  "release_to (Ibc_SendPacket _ (Json_HubIbc m) _) k = hub_release m k"
| "release_to (Wasm_Execute _ (To_Factory (F_NativeReceiveCallback (Json_HubIbc m))) _) k = hub_release m k"
| "release_to _ k = 0"

lemma rt_to_msg_release_to:
  "rt_to_msg st env msg chain timeout = Inr (st', m) \<Longrightarrow> release_to (sm_msg m) k = hub_release msg k"
  by (auto simp: rt_to_msg_def HubIbc_to_msg_def ok_simps submsg_defs split: ChainType.splits)

abbreviation releases :: "SubMsg list \<Rightarrow> (ChainUid \<times> string \<times> nat) list" where
  "releases ms \<equiv> concat (map (\<lambda>m. release_of (sm_msg m)) ms)"

lemma rt_to_msg_release:
  "rt_to_msg st env (HI_ReleaseEscrow u s x t to tx) chain timeout = Inr (st', m) \<Longrightarrow>
     release_of (sm_msg m) = [(u, to, unat x)]"
  by (auto simp: rt_to_msg_def HubIbc_to_msg_def ok_simps submsg_defs split: ChainType.splits)

lemma unat_release_amount:
  "unat (min (if b \<le> r then b else r) (unwrap_or l (- 1 :: uint128)))
     = min (min (unat b) (unat r)) (case l of None \<Rightarrow> 2 ^ 128 - 1 | Some l \<Rightarrow> unat l)"
proof -
  have m: "unat (min a c) = min (unat a) (unat c)" for a c :: uint128
    by (auto simp: min_def word_le_nat_alt)
  have "unat (if b \<le> r then b else r) = min (unat b) (unat r)"
    by (auto simp: word_le_nat_alt)
  moreover have "unat (unwrap_or l (- 1 :: uint128)) = (case l of None \<Rightarrow> 2 ^ 128 - 1 | Some l \<Rightarrow> unat l)"
    by (simp add: unsigned_minus_1_eq_mask mask_eq_exp_minus_1 split: option.split)
  ultimately show ?thesis
    by (simp only: m)
qed

text \<open>The loop computes the plan, and only touches the escrow balances, the queue and the nonce.\<close>

abbreviation escrow_of :: "rt_storage \<Rightarrow> Token \<Rightarrow> ChainUid \<Rightarrow> nat" where
  "escrow_of st tk u \<equiv> unat (amount_at (ESCROW_BALANCES st) (tk, u))"

definition rt_same :: "rt_storage \<Rightarrow> rt_storage \<Rightarrow> bool" where
  "rt_same st st' \<longleftrightarrow>
     RT_STATE st' = RT_STATE st \<and> VLPS st' = VLPS st \<and> CHAIN_UID_TO_CHAIN st' = CHAIN_UID_TO_CHAIN st
     \<and> CHANNEL_TO_CHAIN_UID st' = CHANNEL_TO_CHAIN_UID st \<and> DEREGISTERED_CHAINS st' = DEREGISTERED_CHAINS st
     \<and> SWAP_ID_TO_MSG st' = SWAP_ID_TO_MSG st \<and> PENDING_REMOVE_LIQUIDITY st' = PENDING_REMOVE_LIQUIDITY st
     \<and> RT_CHANNELS st' = RT_CHANNELS st
     \<and> (\<forall>k. map_has (ESCROW_BALANCES st) k \<longrightarrow> map_has (ESCROW_BALANCES st') k)"

lemma rt_same_trans: "rt_same a b \<Longrightarrow> rt_same b c \<Longrightarrow> rt_same a c"
  by (simp add: rt_same_def)

lemma rt_same_refl: "rt_same st st"
  by (simp add: rt_same_def)

text \<open>One round of the loop.\<close>

lemma release_loop_step:
  assumes "release_loop env s tk to (a # as) rem tr st msgs = Inr res" and "rem \<noteq> 0"
  defines "u \<equiv> ccu_chain_uid (ccl_user a)"
  defines "x \<equiv> min (min (escrow_of st tk u) (unat rem)) (limit_of a)"
  obtains "x = 0" and "release_loop env s tk to as rem tr st msgs = Inr res"
  | st1 rem1 tr1 m where "x \<noteq> 0" and "unat rem = unat rem1 + x" and "unat tr1 = unat tr + x"
    and "rt_same st st1" and "escrow_of st1 = (escrow_of st)(tk := (escrow_of st tk)(u := escrow_of st tk u - x))"
    and "\<And>t. escrow_total st1 t + (if token_id tk = t then x else 0) = escrow_total st t"
    and "release_of (sm_msg m) = [(u, ccu_address (ccl_user a), x)]" and "vb_msg_of (sm_msg m) = []"
    and "release_loop env s tk to as rem1 tr1 st1 (msgs @ [m]) = Inr res"
    and "\<And>k. release_to (sm_msg m) k = (if k = (tk, u) then x else 0)"
    and "\<exists>st0 w tx chain. HUB_QUEUE st0 = HUB_QUEUE st
          \<and> rt_to_msg st0 env (HI_ReleaseEscrow u s w tk (ccu_address (ccl_user a)) tx) chain to = Inr (st1, m)"
proof -
  define w where "w = min (if amount_at (ESCROW_BALANCES st) (tk, u) \<le> rem then amount_at (ESCROW_BALANCES st) (tk, u) else rem)
    (unwrap_or (ccl_limit a) (- 1))"
  have w: "unat w = x"
    unfolding w_def x_def limit_of_def by (rule unat_release_amount)
  note body = assms(1) [unfolded release_loop.simps Let_def amount_at_def [symmetric] u_def [symmetric]
      w_def [symmetric] if_not_P [OF assms(2)]]
  show thesis
  proof (cases "w = 0")
    case True
    then have "release_loop env s tk to as rem tr st msgs = Inr res"
      using body by (auto simp: bindR_eq_Inr)
    with that(1) w True show ?thesis by simp
  next
    case False
    define st0 where "st0 b = st\<lparr>ESCROW_BALANCES := map_save (ESCROW_BALANCES st) (tk, u) b\<rparr>" for b
    from body obtain chain b tr1 p rem1 where
        b: "unat (amount_at (ESCROW_BALANCES st) (tk, u)) = unat w + unat b" and tr1: "unat tr1 = unat tr + unat w"
      and p: "rt_to_msg (fst (rt_generate_tx (st0 b) env s)) env
          (HI_ReleaseEscrow u s w tk (ccu_address (ccl_user a)) (snd (rt_generate_tx (st0 b) env s))) chain to = Inr p"
      and rem1: "unat rem = unat w + unat rem1"
      and rest: "release_loop env s tk to as rem1 tr1 (fst p) (msgs @ [snd p]) = Inr res"
      unfolding st0_def if_not_P [OF False] split_beta bindR_eq_Inr checked_sub_eq_Inr checked_add_eq_Inr
      by blast
    define st1 m where "st1 = fst p" and "m = snd p"
    have msg: "rt_to_msg (fst (rt_generate_tx (st0 b) env s)) env
        (HI_ReleaseEscrow u s w tk (ccu_address (ccl_user a)) (snd (rt_generate_tx (st0 b) env s))) chain to = Inr (st1, m)"
      using p by (simp add: st1_def m_def)
    obtain n q where st1: "st1 = (st0 b)\<lparr>RT_TX_NONCE := n, HUB_QUEUE := q\<rparr>"
      using rt_to_msg_keeps(1) [OF msg] by (auto simp: rt_generate_tx_def Let_def split: prod.splits)
    have queue: "HUB_QUEUE (fst (rt_generate_tx (st0 b) env s)) = HUB_QUEUE st"
      by (simp add: rt_generate_tx_queue st0_def)
    show ?thesis
    proof (rule that(2) [of rem1 tr1 st1 m])
      show "x \<noteq> 0" using False by (simp flip: w)
      show "unat rem = unat rem1 + x" "unat tr1 = unat tr + x" using rem1 tr1 w by simp_all
      show "rt_same st st1"
        by (simp add: rt_same_def st1 st0_def map_has_def)
      show "escrow_of st1 = (escrow_of st)(tk := (escrow_of st tk)(u := escrow_of st tk u - x))"
        using b w by (auto simp: st1 st0_def fun_eq_iff)
      show "escrow_total st1 t + (if token_id tk = t then x else 0) = escrow_total st t" for t
      proof -
        have "escrow_total st1 t = escrow_total (st0 b) t" by (simp add: st1)
        with escrow_save [of st tk u b t] b w show ?thesis
          by (auto simp: st0_def split: if_splits)
      qed
      show "release_of (sm_msg m) = [(u, ccu_address (ccl_user a), x)]"
        using rt_to_msg_release [OF msg] w by simp
      show "vb_msg_of (sm_msg m) = []" by (rule rt_to_msg_keeps(2) [OF msg])
      show "release_loop env s tk to as rem1 tr1 st1 (msgs @ [m]) = Inr res"
        using rest by (simp add: st1_def m_def)
      show "release_to (sm_msg m) k = (if k = (tk, u) then x else 0)" for k
        using rt_to_msg_release_to [OF msg, of k] w by simp
      show "\<exists>st0 w tx chain. HUB_QUEUE st0 = HUB_QUEUE st
          \<and> rt_to_msg st0 env (HI_ReleaseEscrow u s w tk (ccu_address (ccl_user a)) tx) chain to = Inr (st1, m)"
        using msg by (intro exI conjI) (rule queue)
    qed
  qed
qed

lemma release_loop_spec:
  assumes "release_loop env s tk to as rem tr st msgs = Inr (rem', tr', st', msgs')"
  shows "\<exists>ms. msgs' = msgs @ ms \<and> releases ms = plan (escrow_of st tk) (unat rem) as
     \<and> concat (map (\<lambda>m. vb_msg_of (sm_msg m)) ms) = []
     \<and> unat tr' = unat tr + planned (releases ms) \<and> unat rem = unat rem' + planned (releases ms)
     \<and> rt_same st st' \<and> (\<forall>t. escrow_total st' t + (if token_id tk = t then planned (releases ms) else 0) = escrow_total st t)"
  using assms
proof (induction as arbitrary: rem tr st msgs)
  case Nil
  then show ?case by (simp add: rt_same_refl)
next
  case (Cons a as)
  let ?u = "ccu_chain_uid (ccl_user a)"
  show ?case
  proof (cases "rem = 0")
    case True
    with Cons.prems show ?thesis by (auto simp: rt_same_refl)
  next
    case False
    let ?x = "min (min (escrow_of st tk ?u) (unat rem)) (limit_of a)"
    from Cons.prems False show ?thesis
    proof (cases rule: release_loop_step)
      case 1
      from Cons.IH [OF 1(2)] show ?thesis
        using 1(1) by (simp add: Let_def del: min_less_iff_conj)
    next
      case (2 st1 rem1 tr1 m)
      have plan: "plan (escrow_of st tk) (unat rem) (a # as)
          = (?u, ccu_address (ccl_user a), ?x) # plan (escrow_of st1 tk) (unat rem1) as"
      proof -
        have "escrow_of st1 tk = (escrow_of st tk)(?u := escrow_of st tk ?u - ?x)"
          using fun_cong [OF 2(5), of tk] by (simp only: fun_upd_same)
        moreover have "unat rem1 = unat rem - ?x"
          using 2(2) by linarith
        moreover note 2(1)
        ultimately show ?thesis by (simp only: plan.simps Let_def if_False)
      qed
      from Cons.IH [OF 2(9)] obtain ms where ms: "msgs' = (msgs @ [m]) @ ms"
          "releases ms = plan (escrow_of st1 tk) (unat rem1) as"
          "concat (map (\<lambda>m. vb_msg_of (sm_msg m)) ms) = []"
          "unat tr' = unat tr1 + planned (releases ms)" "unat rem1 = unat rem' + planned (releases ms)"
          "rt_same st1 st'"
          "\<forall>t. escrow_total st' t + (if token_id tk = t then planned (releases ms) else 0) = escrow_total st1 t"
        by blast
      have rel: "releases (m # ms) = plan (escrow_of st tk) (unat rem) (a # as)"
        using 2(7) ms(2) by (simp only: plan) simp
      have sum: "planned (releases (m # ms)) = ?x + planned (releases ms)"
        using 2(7) by simp
      show ?thesis
      proof (intro exI [of _ "m # ms"] conjI allI rel)
        show "msgs' = msgs @ m # ms" "concat (map (\<lambda>m. vb_msg_of (sm_msg m)) (m # ms)) = []"
          using ms(1,3) 2(8) by simp_all
        show "unat tr' = unat tr + planned (releases (m # ms))"
          using ms(4) 2(3) unfolding sum by linarith
        show "unat rem = unat rem' + planned (releases (m # ms))"
          using ms(5) 2(2) unfolding sum by linarith
        show "rt_same st st'" using 2(4) ms(6) by (rule rt_same_trans)
        fix t
        show "escrow_total st' t + (if token_id tk = t then planned (releases (m # ms)) else 0) = escrow_total st t"
          using ms(7) [rule_format, of t] 2(6) [of t] unfolding sum by (cases "token_id tk = t") simp_all
      qed
    qed
  qed
qed

definition burn_msg :: "addr \<Rightarrow> CrossChainUser \<Rightarrow> Token \<Rightarrow> uint128 \<Rightarrow> SubMsg" where
  "burn_msg vb sender tk amount = reply_always
     (Wasm_Execute vb (To_VirtualBalance (VB_Burn \<lparr>burn_amount = amount, burn_balance_key =
        \<lparr>bk_cross_chain_user = sender, bk_token_id = token_id tk\<rparr>\<rparr>)) []) VIRTUAL_BALANCE_BURN_REPLY_ID"

lemma release_escrow_okE:
  assumes "execute_release_escrow q st env info sender tk amt addrs to tx = Inr (st', r)"
  obtains state vb bal w timeout rem tr msgs where
    "RT_STATE st = Some state" and "info_sender info = contract_address env"
    and "rs_virtual_balance_address state = Some vb"
    and "q vb \<lparr>bk_cross_chain_user = sender, bk_token_id = token_id tk\<rparr> = Inr bal"
    and "w = unwrap_or amt bal" and "w \<le> bal" and "get_timeout to = Inr timeout"
    and "release_loop env sender tk timeout addrs w 0 st [] = Inr (rem, tr, st', msgs)"
    and "unat w = unat tr + unat rem"
    and "r = \<lparr>r_messages = (if tr \<noteq> 0 then [burn_msg vb sender tk tr] else []) @ msgs, r_data = None\<rparr>"
proof -
  from assms show thesis
    unfolding execute_release_escrow_def Let_def split_beta bindR_eq_Inr ensure_eq_Inr item_load_eq_Inr ok_or_eq_Inr
      checked_add_eq_Inr response_simps burn_msg_def [symmetric]
    apply (elim exE conjE)
    subgoal for state vb bal timeout p s
      apply (rule that [of state vb bal "unwrap_or amt bal" timeout "fst p" "fst (snd p)" "snd (snd (snd p))"])
      apply (assumption | rule refl | (erule Inr_inject [THEN Pair_inject], hypsubst, simp (no_asm)) | simp)+
      done
    done
qed

lemma release_escrow_books:
  assumes "execute_release_escrow q st env info sender tk amt addrs to tx = Inr (st', r)"
  shows "keeps_books st (vb_msgs r) st'"
  using assms
proof (rule release_escrow_okE)
  fix state vb bal w timeout rem tr msgs
  assume loop: "release_loop env sender tk timeout addrs w 0 st [] = Inr (rem, tr, st', msgs)"
    and r: "r = \<lparr>r_messages = (if tr \<noteq> 0 then [burn_msg vb sender tk tr] else []) @ msgs, r_data = None\<rparr>"
  obtain ms where ms: "msgs = [] @ ms" "concat (map (\<lambda>m. vb_msg_of (sm_msg m)) ms) = []"
      "unat tr = unat (0 :: uint128) + planned (releases ms)"
      "\<forall>t. escrow_total st' t + (if token_id tk = t then planned (releases ms) else 0) = escrow_total st t"
    using release_loop_spec [OF loop] by blast
  have "vb_msgs r = (if tr \<noteq> 0 then vb_msg_of (sm_msg (burn_msg vb sender tk tr)) else [])"
    using ms(1,2) by (simp add: r vb_msgs_def)
  moreover have "escrow_total st t = escrow_total st' t + (if token_id tk = t then unat tr else 0)" for t
    using ms(3) ms(4) [rule_format, of t] by (simp split: if_splits)
  ultimately show ?thesis
    by (simp add: keeps_books_def burn_msg_def submsg_defs)
qed

section \<open>Every handler keeps the books\<close>

lemma vb_msg_of_mint_for_vlp:
  "vb_msg_of (mint_for_vlp vb u v tk a) = [VB_Mint \<lparr>mint_amount = a, mint_balance_key =
     \<lparr>bk_cross_chain_user = \<lparr>ccu_chain_uid = u, ccu_address = v\<rparr>, bk_token_id = token_id tk\<rparr>\<rparr>]"
  by (simp add: mint_for_vlp_def)

lemma vb_msg_of_release_internal [simp]: "vb_msg_of (release_internal env s tk a as to tx) = []"
  by (simp add: release_internal_def)

lemma swap_books:
  assumes "ibc_execute_swap st msg = Inr (st', r)"
  shows "keeps_books st (vb_msgs r) st'"
proof -
  let ?k = "(ccu_chain_uid (csw_sender msg), ccu_address (csw_sender msg), csw_tx_id msg)"
  from assms obtain vb v where
      esc: "add_escrow (st\<lparr>SWAP_ID_TO_MSG := map_save (SWAP_ID_TO_MSG st) ?k msg\<rparr>) (csw_asset_in msg)
          (ccu_chain_uid (csw_sender msg)) (csw_amount_in msg) = Inr st'"
    and "vb_msgs r = vb_msg_of (mint_for_vlp vb vsl v (csw_asset_in msg) (csw_amount_in msg))"
    unfolding ibc_execute_swap_def Let_def split_beta vsl_chain_uid_ok bindR_Inr bindR_eq_Inr ensure_eq_Inr
    by (auto simp: submsg_defs)
  with add_escrow_books(1) [OF esc] show ?thesis
    by (auto simp: keeps_books_def vb_msg_of_mint_for_vlp)
qed

lemma add_liquidity_books:
  assumes "ibc_execute_add_liquidity q st sender a1 a2 tol pair tx = Inr (st', r)"
  shows "keeps_books st (vb_msgs r) st'"
proof -
  from assms obtain vb v st1 and liq :: GetLiquidityResponse where
      e1: "add_escrow st (pair_token_1 (glr_pair liq)) (ccu_chain_uid sender) a1 = Inr st1"
    and e2: "add_escrow st1 (pair_token_2 (glr_pair liq)) (ccu_chain_uid sender) a2 = Inr st'"
    and "vb_msgs r = vb_msg_of (mint_for_vlp vb vsl v (pair_token_1 (glr_pair liq)) a1)
      @ vb_msg_of (mint_for_vlp vb vsl v (pair_token_2 (glr_pair liq)) a2)"
    unfolding ibc_execute_add_liquidity_def Let_def split_beta vsl_chain_uid_ok bindR_Inr bindR_eq_Inr ensure_eq_Inr
    by (auto simp: submsg_defs)
  with add_escrow_books(1) [OF e1] add_escrow_books(1) [OF e2] show ?thesis
    by (auto simp: keeps_books_def vb_msg_of_mint_for_vlp)
qed

lemma escrow_creation_books:
  assumes "execute_request_escrow_creation st sender tk tx = Inr (st', r)"
  shows "keeps_books st (vb_msgs r) st'"
proof -
  from assms have st': "st' = st\<lparr>ESCROW_BALANCES := map_save (ESCROW_BALANCES st) (tk, ccu_chain_uid sender) 0\<rparr>"
    and "vb_msgs r = []" and new: "\<not> map_has (ESCROW_BALANCES st) (tk, ccu_chain_uid sender)"
    by (auto simp: execute_request_escrow_creation_def bindR_eq_Inr ensure_eq_Inr)
  moreover have "escrow_total st' t = escrow_total st t" for t
    using escrow_save [of st tk "ccu_chain_uid sender" 0 t] new
    by (auto simp: st' map_has_def amount_at_def split: if_splits)
  ultimately show ?thesis by (auto simp: fun_eq_iff)
qed

lemma pool_creation_books:
  "execute_request_pool_creation st env sender pair tx = Inr (st', r) \<Longrightarrow> keeps_books st (vb_msgs r) st'"
  by (auto simp: execute_request_pool_creation_def Let_def bindR_eq_Inr submsg_defs split: option.splits)

lemma remove_liquidity_books:
  "ibc_execute_remove_liquidity st msg = Inr (st', r) \<Longrightarrow> keeps_books st (vb_msgs r) st'"
  by (auto simp: ibc_execute_remove_liquidity_def Let_def bindR_eq_Inr ensure_eq_Inr submsg_defs)

lemma internal_call_books:
  assumes "reusable_internal_call q st env msg u = Inr (st', r)"
  shows "keeps_books st (vb_msgs r) st'"
  using assms
  by (cases msg)
     (auto simp: reusable_internal_call_def bindR_eq_Inr ensure_eq_Inr submsg_defs
       intro: pool_creation_books escrow_creation_books add_liquidity_books remove_liquidity_books swap_books)

lemma ack_release_books:
  assumes "ibc_ack_release_escrow st u sender amount tk res = Inr (st', r)"
  shows "keeps_books st (vb_msgs r) st'"
proof (cases res)
  case (AckError e)
  with assms obtain vb b b' where b: "map_may_load (ESCROW_BALANCES st) (tk, u) = Some b" "unat b' = unat b + unat amount"
    and st': "st' = st\<lparr>ESCROW_BALANCES := map_save (ESCROW_BALANCES st) (tk, u) b'\<rparr>"
    and "vb_msgs r = [VB_Mint \<lparr>mint_amount = amount, mint_balance_key =
      \<lparr>bk_cross_chain_user = sender, bk_token_id = token_id tk\<rparr>\<rparr>]"
    unfolding ibc_ack_release_escrow_def Let_def
    by (auto simp: ok_simps submsg_defs)
  moreover have "escrow_total st' t = escrow_total st t + (if token_id tk = t then unat amount else 0)" for t
    using escrow_save [of st tk u b' t] b by (auto simp: st' amount_at_def split: if_splits)
  ultimately show ?thesis by (auto simp: keeps_books_def)
qed (use assms in \<open>auto simp: ibc_ack_release_escrow_def\<close>)

lemma old_channel_Inr:
  "(case chain_type c of Ibc i \<Rightarrow> Ok (from_hub_channel i) | NativeChain \<Rightarrow> Err NoChannelForLocalChain) = Inr ch \<longleftrightarrow>
     (\<exists>i. chain_type c = Ibc i \<and> ch = from_hub_channel i)"
  by (auto split: ChainType.splits)

lemma ack_register_books:
  "ibc_ack_register_factory st u c res = Inr (st', r) \<Longrightarrow> keeps_books st (vb_msgs r) st'"
  "ibc_ack_update_factory_channel st u c res = Inr (st', r) \<Longrightarrow> keeps_books st (vb_msgs r) st'"
  by (cases res; cases c; auto simp: ibc_ack_register_factory_def ibc_ack_update_factory_channel_def Let_def
      bindR_eq_Inr old_channel_Inr)+

lemma internal_ack_books:
  assumes "reusable_internal_ack_call st msg ack c = Inr (st', r)"
  shows "keeps_books st (vb_msgs r) st'"
  using assms
  by (cases msg) (auto simp: reusable_internal_ack_call_def bindR_eq_Inr intro: ack_register_books ack_release_books)

lemma admin_books:
  "execute_update_vlp_code_id st info c = Inr (st', r) \<Longrightarrow> keeps_books st (vb_msgs r) st'"
  "execute_update_lock st info = Inr (st', r) \<Longrightarrow> keeps_books st (vb_msgs r) st'"
  "execute_deregister_chain st info u = Inr (st', r) \<Longrightarrow> keeps_books st (vb_msgs r) st'"
  "execute_reregister_chain st info u = Inr (st', r) \<Longrightarrow> keeps_books st (vb_msgs r) st'"
  by (auto simp: execute_update_vlp_code_id_def execute_update_lock_def execute_deregister_chain_def
      execute_reregister_chain_def bindR_eq_Inr ensure_eq_Inr)

lemma escrow_total_generate_tx [simp]: "escrow_total (fst (rt_generate_tx st env u)) = escrow_total st"
  by (cases "rt_generate_tx st env u") simp

lemma register_factory_books:
  assumes "execute_register_factory st env info u c = Inr (st', r)"
  shows "keeps_books st (vb_msgs r) st'"
proof (cases c)
  case (RegisterNative f)
  with assms obtain s msg chain p where "rt_to_msg (fst (rt_generate_tx st env s)) env msg chain 0 = Inr p"
    and "st' = fst p" and "r = \<lparr>r_messages = [snd p], r_data = None\<rparr>"
    unfolding execute_register_factory_def Let_def split_beta bindR_eq_Inr ensure_eq_Inr
    by (auto simp: bindR_eq_Inr)
  then show ?thesis
    using rt_to_msg_escrow rt_to_msg_keeps(2) by (cases p) auto
next
  case (RegisterIbc ch to)
  with assms show ?thesis
    unfolding execute_register_factory_def Let_def split_beta bindR_eq_Inr ensure_eq_Inr
    by (auto simp: submsg_defs bindR_eq_Inr)
qed

lemma update_channel_books:
  assumes "execute_update_factory_channel st env info ch u = Inr (st', r)"
  shows "keeps_books st (vb_msgs r) st'"
  using assms
  unfolding execute_update_factory_channel_def Let_def split_beta bindR_eq_Inr ensure_eq_Inr
  by (auto simp: submsg_defs bindR_eq_Inr split: if_splits)

lemma voucher_books:
  assumes "execute_withdraw_voucher st env info tk a as to = Inr (st', r)"
  shows "keeps_books st (vb_msgs r) st'"
  using assms unfolding execute_withdraw_voucher_def Let_def split_beta bindR_eq_Inr
  by (auto simp: submsg_defs)

lemma callback_books:
  "ibc_receive_internal_call ql st env p = Inr (st', r) \<Longrightarrow> keeps_books st (vb_msgs r) st'"
  "execute_native_receive_callback ql st env info u m = Inr (st', r) \<Longrightarrow> keeps_books st (vb_msgs r) st'"
  "ibc_ack_packet_internal_call st a = Inr (st', r) \<Longrightarrow> keeps_books st (vb_msgs r) st'"
  by (auto simp: ibc_receive_internal_call_def execute_native_receive_callback_def ibc_ack_packet_internal_call_def
      bindR_eq_Inr ensure_eq_Inr intro: internal_call_books internal_ack_books)

lemmas rt_books = admin_books register_factory_books update_channel_books voucher_books callback_books release_escrow_books

lemma rt_execute_books:
  assumes "rt_execute qv ql st env info msg = Inr (st', r)"
  shows "keeps_books st (vb_msgs r) st'"
proof -
  obtain state where state: "RT_STATE st = Some state"
    using assms by (auto simp: rt_execute_def ok_simps)
  show ?thesis
    using assms by (cases msg; cases "rs_locked state") (auto simp: rt_execute_def state intro: rt_books)
qed

lemma native_reply_books:
  assumes "on_reply_native_ibc_wrapper_call st msg = Inr (st', r)"
  shows "keeps_books st (vb_msgs r) st'"
proof -
  from assms obtain q m ack where "reusable_internal_ack_call (st\<lparr>HUB_QUEUE := q\<rparr>) m ack NativeChain = Inr (st', r)"
    by (cases "reply_result msg") (auto simp: on_reply_native_ibc_wrapper_call_def bindR_eq_Inr Let_def)
  from internal_ack_books [OF this] show ?thesis
    by (simp add: keeps_books_def)
qed

lemma reply_ok_books:
  "on_pool_register_reply st msg = Inr (st', r) \<Longrightarrow> keeps_books st (vb_msgs r) st'"
  "on_add_liquidity_reply st msg = Inr (st', r) \<Longrightarrow> keeps_books st (vb_msgs r) st'"
  "on_remove_liquidity_reply st env msg = Inr (st', r) \<Longrightarrow> keeps_books st (vb_msgs r) st'"
  "on_swap_reply st env msg = Inr (st', r) \<Longrightarrow> keeps_books st (vb_msgs r) st'"
  "on_virtual_balance_instantiate_reply av st msg = Inr (st', r) \<Longrightarrow> keeps_books st (vb_msgs r) st'"
  "on_virtual_balance_mint_reply st msg = Inr (st', r) \<Longrightarrow> keeps_books st (vb_msgs r) st'"
  "on_virtual_balance_burn_reply st msg = Inr (st', r) \<Longrightarrow> keeps_books st (vb_msgs r) st'"
  "rt_on_virtual_balance_transfer_reply st msg = Inr (st', r) \<Longrightarrow> keeps_books st (vb_msgs r) st'"
  "on_ibc_ack_and_timeout_reply st msg = Inr (st', r) \<Longrightarrow> keeps_books st (vb_msgs r) st'"
  "on_ibc_receive_reply st msg = Inr (st', r) \<Longrightarrow> keeps_books st (vb_msgs r) st'"
  by (auto simp: on_pool_register_reply_def on_add_liquidity_reply_def on_remove_liquidity_reply_def on_swap_reply_def
      on_virtual_balance_instantiate_reply_def on_virtual_balance_mint_reply_def on_virtual_balance_burn_reply_def
      rt_on_virtual_balance_transfer_reply_def on_ibc_ack_and_timeout_reply_def on_ibc_receive_reply_def
      bindR_eq_Inr ensure_eq_Inr Let_def submsg_defs split: SubMsgResult.splits)

lemma vlp_instantiate_reply_books:
  assumes "on_vlp_instantiate_reply ql st msg = Inr (st', r)"
  shows "keeps_books st (vb_msgs r) st'"
proof -
  have split: "(case x of Inl e \<Rightarrow> Ok (a, b) | Inr y \<Rightarrow> Ok (a, c y)) = Ok (st', r) \<Longrightarrow>
      st' = a \<and> (r = b \<or> (\<exists>y. r = c y))" for x :: "'x result" and a b c
    by (cases x) auto
  from assms show ?thesis
    unfolding on_vlp_instantiate_reply_def Let_def split_beta
    by (cases "reply_result msg") (auto simp: bindR_eq_Inr dest!: split)
qed

lemma rt_reply_books:
  "rt_reply av ql st env msg = Inr (st', r) \<Longrightarrow> keeps_books st (vb_msgs r) st'"
  unfolding rt_reply_def
  by (auto split: if_splits intro: native_reply_books reply_ok_books vlp_instantiate_reply_books)

section \<open>Plans for different chains\<close>

abbreviation chains_of :: "CrossChainUserWithLimit list \<Rightarrow> ChainUid list" where
  "chains_of as \<equiv> map (\<lambda>a. ccu_chain_uid (ccl_user a)) as"

abbreviation caps :: "(ChainUid \<Rightarrow> nat) \<Rightarrow> CrossChainUserWithLimit list \<Rightarrow> nat list" where
  "caps bal as \<equiv> map (\<lambda>a. min (bal (ccu_chain_uid (ccl_user a))) (limit_of a)) as"

lemma plan_Cons:
  "w = ccu_chain_uid (ccl_user a) \<Longrightarrow> x = min (min (bal w) r) (limit_of a) \<Longrightarrow>
     plan bal r (a # as) =
       (if x = 0 then plan bal r as else (w, ccu_address (ccl_user a), x) # plan (bal(w := bal w - x)) (r - x) as)"
  by (simp only: plan.simps Let_def)

lemma plan_other: "u \<notin> set (chains_of as) \<Longrightarrow> plan (bal(u := v)) r as = plan bal r as"
proof (induction as arbitrary: bal r)
  case (Cons a as)
  define w where "w = ccu_chain_uid (ccl_user a)"
  define x where "x = min (min (bal w) r) (limit_of a)"
  have u: "u \<noteq> w" "u \<notin> set (chains_of as)" using Cons.prems by (auto simp: w_def)
  then have x: "x = min (min ((bal(u := v)) w) r) (limit_of a)" and same: "(bal(u := v)) w = bal w"
    by (simp_all add: x_def)
  have twist: "(bal(u := v))(w := y) = (bal(w := y))(u := v)" for y
    using u(1) by (rule fun_upd_twist)
  show ?case
    unfolding plan_Cons [of w a x bal, OF w_def x_def] plan_Cons [of w a x "bal(u := v)", OF w_def x] same twist Cons.IH [OF u(2)] ..
qed simp

lemma plan_greedy:
  "distinct (chains_of as) \<Longrightarrow>
     map (\<lambda>(u, to, x). x) (plan bal r as) = filter (\<lambda>x. x \<noteq> 0) (greedy r (caps bal as))"
proof (induction as arbitrary: r)
  case (Cons a as)
  define w where "w = ccu_chain_uid (ccl_user a)"
  define x where "x = min (min (bal w) r) (limit_of a)"
  have other: "plan (bal(w := v)) r' as = plan bal r' as" for v r'
    using Cons.prems by (intro plan_other) (simp add: w_def)
  have "min (min (bal w) (limit_of a)) r = x"
    by (simp add: x_def min.commute min.left_commute)
  then have "greedy r (caps bal (a # as)) = (if r = 0 then [] else x # greedy (r - x) (caps bal as))"
    by (simp only: list.map greedy.simps w_def)
  moreover have "map (\<lambda>(u, to, x). x) (plan bal r' as) = filter (\<lambda>x. x \<noteq> 0) (greedy r' (caps bal as))" for r'
    using Cons by simp
  moreover have "x \<le> r" by (simp add: x_def)
  ultimately show ?case
    unfolding plan_Cons [of w a x bal, OF w_def x_def] other by (cases "x = 0"; cases "r = 0") simp_all
qed simp

lemma planned_greedy:
  assumes "distinct (chains_of as)"
  shows "planned (plan bal r as) = min r (sum_list (caps bal as))"
proof -
  have nz: "sum_list (filter (\<lambda>x. x \<noteq> 0) xs) = sum_list xs" for xs :: "nat list"
    by (induction xs) simp_all
  show ?thesis
    unfolding plan_greedy [OF assms] nz by (simp add: sum_greedy)
qed

text \<open>The simulation computes the plan for balances that are not debited.\<close>

lemma simulate_release_plan:
  "distinct (chains_of as) \<Longrightarrow>
     \<exists>rem' l. simulate_release_loop st tk as rem acc = Ok (rem', acc @ l)
       \<and> map (\<lambda>(x, a). (ccu_chain_uid (ccl_user a), ccu_address (ccl_user a), unat x)) l
           = plan (escrow_of st tk) (unat rem) as
       \<and> unat rem = unat rem' + planned (plan (escrow_of st tk) (unat rem) as)"
proof (induction as arbitrary: rem acc)
  case (Cons a as)
  let ?u = "ccu_chain_uid (ccl_user a)"
  define b where "b = amount_at (ESCROW_BALANCES st) (tk, ?u)"
  define w where "w = min (if b \<le> rem then b else rem) (unwrap_or (ccl_limit a) (- 1))"
  define x where "x = min (min (unat b) (unat rem)) (limit_of a)"
  have w: "unat w = x"
    unfolding w_def x_def limit_of_def by (rule unat_release_amount)
  have other: "plan ((escrow_of st tk)(?u := v)) r as = plan (escrow_of st tk) r as" for v r
    using Cons.prems by (intro plan_other) simp
  have plan: "plan (escrow_of st tk) (unat rem) (a # as) =
      (if x = 0 then plan (escrow_of st tk) (unat rem) as
       else (?u, ccu_address (ccl_user a), x) # plan (escrow_of st tk) (unat rem - x) as)"
    by (simp only: plan.simps Let_def other x_def b_def)
  have loop: "simulate_release_loop st tk (a # as) rem acc =
      (if w = 0 then simulate_release_loop st tk as rem acc
       else bindR (checked_sub rem w) (\<lambda>rem. simulate_release_loop st tk as rem (acc @ [(w, a)])))"
    by (simp only: simulate_release_loop.simps Let_def amount_at_def [symmetric] b_def [symmetric] w_def [symmetric])
  show ?case
  proof (cases "w = 0")
    case True
    with Cons w show ?thesis unfolding loop plan by simp
  next
    case False
    then have "x \<noteq> 0" by (simp flip: w)
    have le: "w \<le> rem" using w by (simp add: word_le_nat_alt x_def)
    then have sub: "unat (rem - w) = unat rem - x" by (simp add: unat_sub w)
    obtain rem' l where IH: "simulate_release_loop st tk as (rem - w) (acc @ [(w, a)]) = Ok (rem', (acc @ [(w, a)]) @ l)"
        "map (\<lambda>(x, a). (ccu_chain_uid (ccl_user a), ccu_address (ccl_user a), unat x)) l
           = plan (escrow_of st tk) (unat (rem - w)) as"
        "unat (rem - w) = unat rem' + planned (plan (escrow_of st tk) (unat (rem - w)) as)"
      using Cons.IH [of "rem - w" "acc @ [(w, a)]"] Cons.prems by auto
    have "x \<le> unat rem" by (simp add: x_def)
    then show ?thesis
      using IH False \<open>x \<noteq> 0\<close> le w sub unfolding loop plan
      by (intro exI [of _ rem'] exI [of _ "(w, a) # l"]) (simp add: checked_sub_def)
  qed
qed simp

text \<open>What a plan takes from one chain.\<close>

definition paid :: "(ChainUid \<times> string \<times> nat) list \<Rightarrow> ChainUid \<Rightarrow> nat" where
  "paid p u = (\<Sum>(u', to, x)\<leftarrow>p. if u' = u then x else 0)"

lemma paid_Nil [simp]: "paid [] u = 0"
  by (simp add: paid_def)

lemma paid_Cons [simp]: "paid ((u', to, x) # p) u = (if u' = u then x else 0) + paid p u"
  by (simp add: paid_def)

lemma release_loop_escrow:
  assumes "release_loop env s tk to as rem tr st msgs = Inr (rem', tr', st', msgs')"
  shows "escrow_of st' k u + (if k = tk then paid (plan (escrow_of st tk) (unat rem) as) u else 0) = escrow_of st k u"
  using assms
proof (induction as arbitrary: rem tr st msgs)
  case Nil
  then show ?case by simp
next
  case (Cons a as)
  show ?case
  proof (cases "rem = 0")
    case True
    with Cons.prems show ?thesis by auto
  next
    case False
    define w where "w = ccu_chain_uid (ccl_user a)"
    define x where "x = min (min (escrow_of st tk w) (unat rem)) (limit_of a)"
    note plan = plan_Cons [of w a x "escrow_of st tk", OF w_def x_def]
    from Cons.prems False show ?thesis
    proof (cases rule: release_loop_step)
      case 1
      have "x = 0" using 1(1) by (simp only: x_def w_def)
      then have "plan (escrow_of st tk) (unat rem) (a # as) = plan (escrow_of st tk) (unat rem) as"
        unfolding plan by (rule if_P)
      with Cons.IH [OF 1(2)] show ?thesis by (simp only:)
    next
      case (2 st1 rem1 tr1 m)
      note 2 = 2 [folded w_def, folded x_def]
      have st1: "escrow_of st1 tk = (escrow_of st tk)(w := escrow_of st tk w - x)"
        using fun_cong [OF 2(5), of tk] by (simp only: fun_upd_same)
      have other: "k \<noteq> tk \<Longrightarrow> escrow_of st1 k = escrow_of st k"
        using fun_cong [OF 2(5), of k] by simp
      have "unat rem - x = unat rem1" using 2(2) by linarith
      then have p: "plan (escrow_of st tk) (unat rem) (a # as)
          = (w, ccu_address (ccl_user a), x) # plan (escrow_of st1 tk) (unat rem1) as"
        using 2(1) unfolding plan st1 by simp
      have "x \<le> escrow_of st tk w" by (simp add: x_def)
      then have "escrow_of st1 k u + (if k = tk \<and> w = u then x else 0) = escrow_of st k u"
        using fun_cong [OF st1, of u] fun_cong [OF other, of u] by (cases "k = tk"; cases "w = u") simp_all
      with Cons.IH [OF 2(9)] show ?thesis
        unfolding p paid_Cons by (cases "k = tk"; cases "w = u") simp_all
    qed
  qed
qed

section \<open>Releases\<close>

text \<open>What a successful release does, in terms of the plan.\<close>

lemma release_escrow_plan:
  assumes "execute_release_escrow q st env info sender tk amt addrs to tx = Inr (st', r)"
  obtains state vb bal p where
    "RT_STATE st = Some state" and "rs_virtual_balance_address state = Some vb"
    and "q vb \<lparr>bk_cross_chain_user = sender, bk_token_id = token_id tk\<rparr> = Inr bal"
    and "unwrap_or amt bal \<le> bal" and "p = plan (escrow_of st tk) (unat (unwrap_or amt bal)) addrs"
    and "releases (r_messages r) = p"
    and "vb_msgs r = (if planned p = 0 then [] else [VB_Burn \<lparr>burn_amount = of_nat (planned p), burn_balance_key =
        \<lparr>bk_cross_chain_user = sender, bk_token_id = token_id tk\<rparr>\<rparr>])"
    and "planned p \<le> unat (unwrap_or amt bal)"
    and "\<And>k u. escrow_of st' k u + (if k = tk then paid p u else 0) = escrow_of st k u" and "rt_same st st'"
proof (rule release_escrow_okE [OF assms])
  fix state vb bal w timeout rem tr msgs
  assume a: "RT_STATE st = Some state" "rs_virtual_balance_address state = Some vb"
      "q vb \<lparr>bk_cross_chain_user = sender, bk_token_id = token_id tk\<rparr> = Inr bal"
    and w: "w = unwrap_or amt bal" "w \<le> bal"
    and loop: "release_loop env sender tk timeout addrs w 0 st [] = Inr (rem, tr, st', msgs)"
    and r: "r = \<lparr>r_messages = (if tr \<noteq> 0 then [burn_msg vb sender tk tr] else []) @ msgs, r_data = None\<rparr>"
  define p where "p = plan (escrow_of st tk) (unat w) addrs"
  obtain ms where ms: "msgs = ms" "releases ms = p" "concat (map (\<lambda>m. vb_msg_of (sm_msg m)) ms) = []"
      "unat tr = planned (releases ms)"
    using release_loop_spec [OF loop] unfolding p_def append_Nil unat_0 add_0 by blast
  have tr: "unat tr = planned p" using ms(4) by (simp only: ms(2))
  then have tr': "tr = of_nat (planned p)" by (metis of_nat_unat ucast_id)
  have z: "planned p = 0 \<longleftrightarrow> tr = 0" by (metis tr unat_0 unat_eq_zero)
  show thesis
  proof (rule that [OF a, of p])
    show "unwrap_or amt bal \<le> bal" "p = plan (escrow_of st tk) (unat (unwrap_or amt bal)) addrs"
      using w by (simp_all add: p_def)
    show "releases (r_messages r) = p"
      using ms(1,2) by (simp add: r burn_msg_def submsg_defs)
    show "vb_msgs r = (if planned p = 0 then [] else [VB_Burn \<lparr>burn_amount = of_nat (planned p), burn_balance_key =
        \<lparr>bk_cross_chain_user = sender, bk_token_id = token_id tk\<rparr>\<rparr>])"
      unfolding z tr' [symmetric] using ms(1,3) by (simp add: r vb_msgs_def burn_msg_def submsg_defs)
    show "planned p \<le> unat (unwrap_or amt bal)"
      unfolding p_def w(1) [symmetric] by (rule planned_le)
    show "escrow_of st' k u + (if k = tk then paid p u else 0) = escrow_of st k u" for k u
      unfolding p_def using release_loop_escrow [OF loop] .
    show "rt_same st st'" using release_loop_spec [OF loop] by blast
  qed
qed

end
