(* ===== verification/Router_Properties.thy ===== *)
theory Router_Properties
  imports Router_Correct
begin

text \<open>
  The properties of the router: that releases go through, follow the plan and are as large as the escrow and
  the limits allow; that the simulation query agrees with them where it does; what acknowledgements, the lock,
  packets and swaps do.
\<close>

section \<open>A small hub\<close>

text \<open>
  The state the witnesses are evaluated on: two registered chains, with escrow of the token
  \<^verbatim>\<open>nibi\<close> on both of them, and a user on the first one.
\<close>

definition ex_tk :: Token where
  "ex_tk = Token ''nibi''"

abbreviation ex_uid :: "string \<Rightarrow> ChainUid" where
  "ex_uid \<equiv> ChainUid"

definition ex_user :: CrossChainUser where
  "ex_user = \<lparr>ccu_chain_uid = ex_uid ''osmosis'', ccu_address = ''alice''\<rparr>"

definition ex_chain :: "string \<Rightarrow> Chain" where
  "ex_chain c = \<lparr>factory_chain_id = c, factory_addr = ''factory'',
     chain_type = Ibc \<lparr>from_hub_channel = c @ ''-0'', from_factory_channel = ''channel-7''\<rparr>\<rparr>"

definition ex_state :: "bool \<Rightarrow> rt_State" where
  "ex_state locked = \<lparr>rs_admin = ''admin'', rs_vlp_code_id = 1, rs_virtual_balance_address = Some ''vb'',
     rs_locked = locked\<rparr>"

definition ex_hub :: "bool \<Rightarrow> rt_storage" where
  "ex_hub locked = \<lparr>RT_STATE = Some (ex_state locked),
      VLPS = [((Token ''eucl'', ex_tk), ''vlp'')],
      ESCROW_BALANCES = [((ex_tk, ex_uid ''osmosis''), 100), ((ex_tk, ex_uid ''juno''), 50)],
      CHAIN_UID_TO_CHAIN = [(ex_uid ''osmosis'', ex_chain ''osmosis''), (ex_uid ''juno'', ex_chain ''juno'')],
      CHANNEL_TO_CHAIN_UID = [(''osmosis-0'', ex_uid ''osmosis''), (''juno-0'', ex_uid ''juno'')],
      DEREGISTERED_CHAINS = Some [], SWAP_ID_TO_MSG = [], PENDING_REMOVE_LIQUIDITY = [],
      HUB_QUEUE = \<lparr>q_entries = [], q_count = None\<rparr>, RT_TX_NONCE = None,
      RT_CHANNELS = \<lparr>CONNECTION_COUNTS = [], TIMEOUT_COUNTS = []\<rparr>\<rparr>"

definition ex_env :: env where
  "ex_env = \<lparr>block_height = 10, block_time = 1000, block_chain_id = ''hub'', tx_index = None,
     contract_address = ''router''\<rparr>"

definition ex_info :: "string \<Rightarrow> message_info" where
  "ex_info s = \<lparr>info_sender = s, info_funds = []\<rparr>"

definition ex_to :: "string \<Rightarrow> uint128 option \<Rightarrow> CrossChainUserWithLimit" where
  "ex_to c l = \<lparr>ccl_user = \<lparr>ccu_chain_uid = ex_uid c, ccu_address = ''alice''\<rparr>, ccl_limit = l\<rparr>"

abbreviation ex_vb :: "uint128 \<Rightarrow> vb_querier" where
  "ex_vb b \<equiv> \<lambda>_ _. Ok b"

lemmas ex_hub_simps =
  ex_hub_def ex_state_def ex_tk_def ex_user_def ex_chain_def ex_env_def ex_info_def ex_to_def

section \<open>Releases to registered chains go through\<close>

definition ibc_chain :: "rt_storage \<Rightarrow> ChainUid \<Rightarrow> bool" where
  "ibc_chain st u = (case map_may_load (CHAIN_UID_TO_CHAIN st) u of
     None \<Rightarrow> False | Some c \<Rightarrow> (case chain_type c of Ibc _ \<Rightarrow> True | NativeChain \<Rightarrow> False))"

lemma ibc_chain_iff:
  "ibc_chain st u \<longleftrightarrow> (\<exists>c i. map_may_load (CHAIN_UID_TO_CHAIN st) u = Some c \<and> chain_type c = Ibc i)"
  by (auto simp: ibc_chain_def split: option.splits ChainType.splits)

lemma rt_generate_tx_chains: "CHAIN_UID_TO_CHAIN (fst (rt_generate_tx st env u)) = CHAIN_UID_TO_CHAIN st"
  unfolding rt_generate_tx_def Let_def by (cases "generate_tx (RT_TX_NONCE st) env u") simp

lemma release_loop_ok:
  assumes "\<forall>u\<in>set (chains_of as). ibc_chain st u" and "unat tr + unat rem < 2 ^ 128"
  shows "\<exists>v. release_loop env s tk to as rem tr st msgs = Ok v"
  using assms
proof (induction as arbitrary: rem tr st msgs)
  case Nil
  then show ?case by simp
next
  case (Cons a as)
  let ?u = "ccu_chain_uid (ccl_user a)"
  obtain c i where c: "map_may_load (CHAIN_UID_TO_CHAIN st) ?u = Some c" "chain_type c = Ibc i"
    using Cons.prems(1) by (auto simp: ibc_chain_iff)
  define b where "b = amount_at (ESCROW_BALANCES st) (tk, ?u)"
  define w where "w = min (if b \<le> rem then b else rem) (unwrap_or (ccl_limit a) (- 1))"
  have "w \<le> b" and "w \<le> rem" unfolding w_def by (auto simp: min_def)
  then have le: "unat w \<le> unat b" "unat w \<le> unat rem" by (simp_all add: word_le_nat_alt)
  define st0 where "st0 = st\<lparr>ESCROW_BALANCES := map_save (ESCROW_BALANCES st) (tk, ?u) (b - w)\<rparr>"
  define st1 where "st1 = fst (rt_generate_tx st0 env s)"
  define m where "m = SubMsg_new (Ibc_SendPacket (from_hub_channel i)
    (Json_HubIbc (HI_ReleaseEscrow ?u s w tk (ccu_address (ccl_user a)) (snd (rt_generate_tx st0 env s))))
    (plus_seconds (block_time env) to))"
  have sub: "checked_sub b w = Ok (b - w)" "checked_sub rem w = Ok (rem - w)"
    using \<open>w \<le> b\<close> \<open>w \<le> rem\<close> by (simp_all add: checked_sub_def)
  have add: "checked_add tr w = Ok (tr + w)" and "unat (tr + w) = unat tr + unat w"
    using Cons.prems(2) le(2) by (simp_all add: checked_add_def unat_add_u128)
  then have bound: "unat (tr + w) + unat (rem - w) < 2 ^ 128"
    using Cons.prems(2) le(2) \<open>w \<le> rem\<close> by (simp add: unat_sub)
  have msg: "rt_to_msg st1 env (HI_ReleaseEscrow ?u s w tk (ccu_address (ccl_user a)) (snd (rt_generate_tx st0 env s))) c to
      = Ok (st1, m)"
    by (simp add: rt_to_msg_def HubIbc_to_msg_def c m_def)
  have loop: "release_loop env s tk to (a # as) rem tr st msgs =
      (if rem = 0 then Ok (rem, tr, st, msgs)
       else if w = 0 then release_loop env s tk to as rem tr st msgs
       else release_loop env s tk to as (rem - w) (tr + w) st1 (msgs @ [m]))"
    unfolding release_loop.simps Let_def amount_at_def [symmetric] b_def [symmetric] w_def [symmetric] split_beta
      map_load_def c ok_or_def option.case bindR_Inr sub add st0_def [symmetric] st1_def [symmetric] msg fst_conv snd_conv ..
  have "\<exists>v. release_loop env s tk to as (rem - w) (tr + w) st1 (msgs @ [m]) = Ok v"
  proof (rule Cons.IH [OF _ bound])
    have "CHAIN_UID_TO_CHAIN st1 = CHAIN_UID_TO_CHAIN st"
      unfolding st1_def st0_def rt_generate_tx_chains by simp
    then show "\<forall>u\<in>set (chains_of as). ibc_chain st1 u"
      using Cons.prems(1) by (simp add: ibc_chain_def)
  qed
  moreover have "\<exists>v. release_loop env s tk to as rem tr st msgs = Ok v"
    using Cons.prems by (intro Cons.IH) simp_all
  ultimately show ?case unfolding loop by simp
qed

lemma release_escrow_ok:
  assumes "RT_STATE st = Some state" and "rs_virtual_balance_address state = Some vb"
    and "info_sender info = contract_address env"
    and "q vb \<lparr>bk_cross_chain_user = sender, bk_token_id = token_id tk\<rparr> = Ok bal"
    and "unwrap_or amt bal \<le> bal" and "get_timeout to = Ok timeout"
    and "\<forall>u\<in>set (chains_of addrs). ibc_chain st u"
  shows "\<exists>st' r. execute_release_escrow q st env info sender tk amt addrs to tx = Ok (st', r)"
proof -
  obtain rem tr st' msgs where
    loop: "release_loop env sender tk timeout addrs (unwrap_or amt bal) 0 st [] = Ok (rem, tr, st', msgs)"
    using release_loop_ok [OF assms(7), of 0 "unwrap_or amt bal" env sender tk timeout "[]"]
    using unat_lt_u128 [of "unwrap_or amt bal"] by auto
  have "unat (unwrap_or amt bal) = unat tr + unat rem"
    using release_loop_spec [OF loop] unfolding unat_0 add_0 by (elim exE conjE) linarith
  then have "checked_add tr rem = Ok (unwrap_or amt bal)"
    by (simp only: checked_add_eq_Inr)
  then show ?thesis
    using assms loop by (simp add: execute_release_escrow_def Let_def)
qed

lemma plan_pos: "e \<in> set (plan bal r as) \<Longrightarrow> snd (snd e) \<noteq> 0"
  by (induction bal r as rule: plan.induct) (auto simp: Let_def split: if_splits)

lemma release_escrow_releases:
  assumes "execute_release_escrow q st env info sender tk (Some w) addrs to tx = Inr (st', r)"
  shows "releases (r_messages r) = plan (escrow_of st tk) (unat w) addrs"
  by (rule release_escrow_plan [OF assms]) (simp only: unwrap_or_def option.case)

section \<open>Properties of releases\<close>

text \<open>
  C7: a successful release pays out along the greedy plan. The user's virtual balance covers the amount; the
  release messages are exactly the plan computed from the recorded escrow of the chains; the ledger is told to
  burn exactly the sum of the releases, which is at most the amount; and the record of every chain falls by
  exactly what that chain is told to release.
\<close>

theorem release_follows_plan:
  assumes "execute_release_escrow q st env info sender tk amt addrs to tx = Ok (st', r)"
  shows "\<exists>state vb bal p. RT_STATE st = Some state \<and> rs_virtual_balance_address state = Some vb
     \<and> q vb \<lparr>bk_cross_chain_user = sender, bk_token_id = token_id tk\<rparr> = Ok bal \<and> unwrap_or amt bal \<le> bal
     \<and> p = plan (escrow_of st tk) (unat (unwrap_or amt bal)) addrs
     \<and> releases (r_messages r) = p
     \<and> vb_msgs r = (if planned p = 0 then [] else [VB_Burn \<lparr>burn_amount = of_nat (planned p), burn_balance_key =
          \<lparr>bk_cross_chain_user = sender, bk_token_id = token_id tk\<rparr>\<rparr>])
     \<and> planned p \<le> unat (unwrap_or amt bal)
     \<and> (\<forall>k u. escrow_of st' k u + (if k = tk then paid p u else 0) = escrow_of st k u)"
  by (rule release_escrow_plan [OF assms]) blast

lemma ex_release:
  "\<exists>st' r. execute_release_escrow (ex_vb 120) (ex_hub False) ex_env (ex_info ''router'') ex_user ex_tk None
     [ex_to ''juno'' None, ex_to ''osmosis'' (Some 60)] None ''tx'' = Ok (st', r)"
  by (rule release_escrow_ok [where state = "ex_state False" and vb = "''vb''" and bal = 120])
    (simp_all add: ex_hub_simps get_timeout_def ibc_chain_def map_may_load_def)


lemma ex_plan:
  "plan (escrow_of (ex_hub l) ex_tk) 120 [ex_to ''juno'' None, ex_to ''osmosis'' (Some 60)]
     = [(ex_uid ''juno'', ''alice'', 50), (ex_uid ''osmosis'', ''alice'', 60)]"
  by (simp add: ex_hub_simps limit_of_def amount_at_def map_may_load_def unwrap_or_def)

theorem release_follows_plan_witness:
  "\<exists>st' r. execute_release_escrow (ex_vb 120) (ex_hub False) ex_env (ex_info ''router'') ex_user ex_tk None
       [ex_to ''juno'' None, ex_to ''osmosis'' (Some 60)] None ''tx'' = Ok (st', r)
     \<and> releases (r_messages r) = [(ex_uid ''juno'', ''alice'', 50), (ex_uid ''osmosis'', ''alice'', 60)]"
proof -
  obtain st' r where ok: "execute_release_escrow (ex_vb 120) (ex_hub False) ex_env (ex_info ''router'') ex_user ex_tk None
       [ex_to ''juno'' None, ex_to ''osmosis'' (Some 60)] None ''tx'' = Ok (st', r)"
    using ex_release by blast
  from release_follows_plan [OF this] have "releases (r_messages r)
      = plan (escrow_of (ex_hub False) ex_tk) 120 [ex_to ''juno'' None, ex_to ''osmosis'' (Some 60)]"
    by (auto simp: unwrap_or_def simp del: plan.simps)
  with ok show ?thesis unfolding ex_plan by blast
qed

text \<open>
  A release to addresses on different chains pays out as much as the recorded escrow and the limits of the
  addresses allow: the smaller of the amount asked for and the sum, over the addresses, of the lesser of what
  the chain holds and the limit of the address.
\<close>

theorem release_is_maximal:
  assumes "execute_release_escrow q st env info sender tk (Some w) addrs to tx = Ok (st', r)"
    and "distinct (chains_of addrs)"
  shows "planned (releases (r_messages r)) = min (unat w) (sum_list (caps (escrow_of st tk) addrs))"
  unfolding release_escrow_releases [OF assms(1)] by (rule planned_greedy [OF assms(2)])

lemma ex_release_some:
  "\<exists>st' r. execute_release_escrow (ex_vb 200) (ex_hub False) ex_env (ex_info ''router'') ex_user ex_tk (Some 200)
     [ex_to ''juno'' None, ex_to ''osmosis'' (Some 60)] None ''tx'' = Ok (st', r)"
  by (rule release_escrow_ok [where state = "ex_state False" and vb = "''vb''" and bal = 200])
    (simp_all add: ex_hub_simps get_timeout_def ibc_chain_def map_may_load_def unwrap_or_def)

theorem release_is_maximal_witness:
  "\<exists>st' r. execute_release_escrow (ex_vb 200) (ex_hub False) ex_env (ex_info ''router'') ex_user ex_tk (Some 200)
     [ex_to ''juno'' None, ex_to ''osmosis'' (Some 60)] None ''tx'' = Ok (st', r)
   \<and> planned (releases (r_messages r)) = 110"
proof -
  obtain st' r where ok: "execute_release_escrow (ex_vb 200) (ex_hub False) ex_env (ex_info ''router'') ex_user ex_tk (Some 200)
     [ex_to ''juno'' None, ex_to ''osmosis'' (Some 60)] None ''tx'' = Ok (st', r)"
    using ex_release_some by blast
  moreover have "distinct (chains_of [ex_to ''juno'' None, ex_to ''osmosis'' (Some 60)])"
    by (simp add: ex_to_def)
  ultimately have "planned (releases (r_messages r))
      = min 200 (sum_list (caps (escrow_of (ex_hub False) ex_tk) [ex_to ''juno'' None, ex_to ''osmosis'' (Some 60)]))"
    using release_is_maximal by fastforce
  then have "planned (releases (r_messages r)) = 110"
    by (simp add: ex_hub_simps limit_of_def amount_at_def map_may_load_def unwrap_or_def)
  with ok show ?thesis by blast
qed

text \<open>
  Releases are not held up. When the virtual balance contract is known, the user's balance covers the
  amount, the time-out is in range and every address is on a registered IBC chain, the release succeeds,
  whatever the escrow record says.
\<close>

theorem release_not_blocked:
  assumes "RT_STATE st = Some state" and "rs_virtual_balance_address state = Some vb" and "\<not> rs_locked state"
    and "info_sender info = contract_address env"
    and "query_vb vb \<lparr>bk_cross_chain_user = sender, bk_token_id = token_id tk\<rparr> = Ok bal"
    and "unwrap_or amt bal \<le> bal" and "get_timeout to = Ok timeout"
    and "\<forall>u\<in>set (chains_of addrs). ibc_chain st u"
  shows "\<exists>st' r. rt_execute query_vb ql st env info (R_ReleaseEscrowInternal sender tk amt addrs to tx) = Ok (st', r)"
  using release_escrow_ok [of st state vb info env query_vb sender tk bal amt to timeout addrs tx] assms
  by (simp add: rt_execute_def)

theorem release_not_blocked_witness:
  "\<exists>st' r. rt_execute (ex_vb 120) (\<lambda>_. parse_error) (ex_hub False) ex_env (ex_info ''router'')
     (R_ReleaseEscrowInternal ex_user ex_tk (Some 80) [ex_to ''juno'' None, ex_to ''osmosis'' (Some 5)] (Some 30) ''tx'')
     = Ok (st', r)"
  by (rule release_not_blocked [where state = "ex_state False" and vb = "''vb''" and bal = 120 and timeout = 30])
    (simp_all add: ex_hub_simps get_timeout_def ibc_chain_def map_may_load_def unwrap_or_def)

text \<open>
  For addresses on different chains the simulation query foretells the release: the amounts it lists, in
  order, are the releases of the execution, and what it reports as remaining is what is not burned.
\<close>

theorem release_simulation_agrees:
  assumes "execute_release_escrow q st env info sender tk (Some w) addrs to tx = Ok (st', r)"
    and "distinct (chains_of addrs)"
  shows "\<exists>rem l. query_simulate_escrow_release st tk w addrs = Ok (rem, l)
     \<and> map (\<lambda>(x, a). (ccu_chain_uid (ccl_user a), ccu_address (ccl_user a), unat x)) l = releases (r_messages r)
     \<and> unat rem + planned (releases (r_messages r)) = unat w"
  using simulate_release_plan [OF assms(2), of st tk w "[]"]
  unfolding query_simulate_escrow_release_def append_Nil release_escrow_releases [OF assms(1)]
  by (elim exE conjE) (intro exI conjI, assumption+, rule sym)

theorem release_simulation_agrees_witness:
  "\<exists>rem l. query_simulate_escrow_release (ex_hub False) ex_tk 200 [ex_to ''juno'' None, ex_to ''osmosis'' (Some 60)]
     = Ok (rem, l)"
proof -
  have "distinct (chains_of [ex_to ''juno'' None, ex_to ''osmosis'' (Some 60)])"
    by (simp add: ex_to_def)
  with ex_release_some show ?thesis
    using release_simulation_agrees by blast
qed

text \<open>
  With two addresses on the same chain the simulation promises more than the release delivers, since it
  never debits the chain's escrow: for a chain that holds 50, a release of 80 to two addresses there is
  simulated as 50 and 30, and executed as 50 alone.
\<close>

theorem release_simulation_differs:
  "map fst (snd (projr (query_simulate_escrow_release (ex_hub False) ex_tk 80
      [ex_to ''juno'' None, ex_to ''juno'' None]))) = [50, 30]
   \<and> (\<exists>st' r. execute_release_escrow (ex_vb 80) (ex_hub False) ex_env (ex_info ''router'') ex_user ex_tk (Some 80)
        [ex_to ''juno'' None, ex_to ''juno'' None] None ''tx'' = Ok (st', r)
      \<and> releases (r_messages r) = [(ex_uid ''juno'', ''alice'', 50)])"
proof (rule conjI)
  show "map fst (snd (projr (query_simulate_escrow_release (ex_hub False) ex_tk 80
      [ex_to ''juno'' None, ex_to ''juno'' None]))) = [50, 30]"
    by (simp add: query_simulate_escrow_release_def ex_hub_simps map_may_load_def unwrap_or_def checked_sub_def Let_def min_def)
  have "\<exists>st' r. execute_release_escrow (ex_vb 80) (ex_hub False) ex_env (ex_info ''router'') ex_user ex_tk (Some 80)
        [ex_to ''juno'' None, ex_to ''juno'' None] None ''tx'' = Ok (st', r)"
    by (rule release_escrow_ok [where state = "ex_state False" and vb = "''vb''" and bal = 80])
      (simp_all add: ex_hub_simps get_timeout_def ibc_chain_def map_may_load_def unwrap_or_def)
  then obtain st' r where ok: "execute_release_escrow (ex_vb 80) (ex_hub False) ex_env (ex_info ''router'') ex_user ex_tk
      (Some 80) [ex_to ''juno'' None, ex_to ''juno'' None] None ''tx'' = Ok (st', r)" by blast
  have "plan (escrow_of (ex_hub False) ex_tk) 80 [ex_to ''juno'' None, ex_to ''juno'' None]
      = [(ex_uid ''juno'', ''alice'', 50)]"
    by (simp add: ex_hub_simps limit_of_def amount_at_def map_may_load_def unwrap_or_def)
  then show "\<exists>st' r. execute_release_escrow (ex_vb 80) (ex_hub False) ex_env (ex_info ''router'') ex_user ex_tk (Some 80)
        [ex_to ''juno'' None, ex_to ''juno'' None] None ''tx'' = Ok (st', r)
      \<and> releases (r_messages r) = [(ex_uid ''juno'', ''alice'', 50)]"
    using ok release_escrow_releases [OF ok] by (intro exI [of _ st'] exI [of _ r] conjI) (simp_all del: plan.simps)
qed


section \<open>Acknowledgements\<close>

text \<open>
  C33: the acknowledgement handler trusts its caller. On a router that is not locked, whoever sends
  \<^verbatim>\<open>IbcCallbackAckAndTimeout\<close> with a made-up failed release of a token has the record of the chain raised
  and the ledger told to mint the amount to a user of the sender's choice; no packet needs to have been sent.
\<close>

theorem forged_ack_mints:
  assumes "RT_STATE st = Some state" and "rs_virtual_balance_address state = Some vb" and "\<not> rs_locked state"
    and "map_may_load (ESCROW_BALANCES st) (tk, u) = Some b" and "unat b + unat x < 2 ^ 128"
    and "packet_data pkt = Json_HubIbc (HI_ReleaseEscrow u thief x tk addr tx)"
  shows "\<exists>st' r. rt_execute qv ql st env anyone
       (R_IbcCallbackAckAndTimeout \<lparr>acknowledgement = Json_Ack (AckError e), original_packet = pkt\<rparr>) = Ok (st', r)
     \<and> escrow_of st' tk u = escrow_of st tk u + unat x
     \<and> vb_msgs r = [VB_Mint \<lparr>mint_amount = x, mint_balance_key =
          \<lparr>bk_cross_chain_user = thief, bk_token_id = token_id tk\<rparr>\<rparr>]"
  using assms
  by (simp add: rt_execute_def ibc_ack_packet_internal_call_def reusable_internal_ack_call_def from_json_ack_def
      ibc_ack_release_escrow_def item_load_def map_load_def checked_add_def submsg_defs Let_def amount_at_def
      unwrap_or_def unat_add_u128)

theorem forged_ack_mints_witness:
  "\<exists>st' r. rt_execute (ex_vb 0) (\<lambda>_. parse_error) (ex_hub False) ex_env (ex_info ''mallory'')
     (R_IbcCallbackAckAndTimeout \<lparr>acknowledgement = Json_Ack (AckError ''x''), original_packet =
        \<lparr>packet_data = Json_HubIbc (HI_ReleaseEscrow (ex_uid ''juno'') ex_user 1000 ex_tk ''alice'' ''tx''),
         packet_src = \<lparr>port_id = [], channel_id = []\<rparr>, packet_dest = \<lparr>port_id = [], channel_id = []\<rparr>\<rparr>\<rparr>) = Ok (st', r)
   \<and> escrow_of st' ex_tk (ex_uid ''juno'') = escrow_of (ex_hub False) ex_tk (ex_uid ''juno'') + unat (1000 :: uint128)"
  using forged_ack_mints [where st = "ex_hub False" and state = "ex_state False" and vb = "''vb''" and tk = ex_tk
      and u = "ex_uid ''juno''" and b = 50 and x = 1000 and thief = ex_user and addr = "''alice''" and tx = "''tx''"
      and qv = "ex_vb 0" and ql = "\<lambda>_. parse_error" and env = ex_env and anyone = "ex_info ''mallory''" and e = "''x''"
      and pkt = "\<lparr>packet_data = Json_HubIbc (HI_ReleaseEscrow (ex_uid ''juno'') ex_user 1000 ex_tk ''alice'' ''tx''),
         packet_src = \<lparr>port_id = [], channel_id = []\<rparr>, packet_dest = \<lparr>port_id = [], channel_id = []\<rparr>\<rparr>"]
  by (auto simp: ex_hub_simps map_may_load_def)

section \<open>The lock\<close>

text \<open>
  A locked router does nothing but what its administrator asks: a message that succeeds is one that
  toggles the lock or takes a chain off or back on the list of chains, and it comes from the administrator. It
  sends no message and touches no balance, pool or chain.
\<close>

theorem locked_router_only_admin:
  assumes "RT_STATE st = Some state" and "rs_locked state"
    and "rt_execute qv ql st env info msg = Ok (st', r)"
  shows "info_sender info = rs_admin state
     \<and> (msg = R_UpdateLock \<or> (\<exists>c. msg = R_DeregisterChain c) \<or> (\<exists>c. msg = R_ReregisterChain c))
     \<and> r = Response_new \<and> ESCROW_BALANCES st' = ESCROW_BALANCES st \<and> VLPS st' = VLPS st
     \<and> CHAIN_UID_TO_CHAIN st' = CHAIN_UID_TO_CHAIN st \<and> CHANNEL_TO_CHAIN_UID st' = CHANNEL_TO_CHAIN_UID st
     \<and> (rs_locked (the (RT_STATE st')) \<longleftrightarrow> msg \<noteq> R_UpdateLock)"
  using assms
  by (cases msg) (auto simp: rt_execute_def execute_update_lock_def execute_deregister_chain_def
      execute_reregister_chain_def item_load_def bindR_eq_Inr ensure_eq_Inr)

theorem locked_router_only_admin_witness:
  "\<exists>st' r. rt_execute (ex_vb 0) (\<lambda>_. parse_error) (ex_hub True) ex_env (ex_info ''admin'')
       (R_DeregisterChain (ex_uid ''juno'')) = Ok (st', r)
     \<and> r = Response_new \<and> rs_locked (the (RT_STATE st'))"
proof -
  have "\<exists>st' r. rt_execute (ex_vb 0) (\<lambda>_. parse_error) (ex_hub True) ex_env (ex_info ''admin'')
       (R_DeregisterChain (ex_uid ''juno'')) = Ok (st', r)"
    by (simp add: rt_execute_def execute_deregister_chain_def ex_hub_simps item_load_def)
  then obtain st' r where ok: "rt_execute (ex_vb 0) (\<lambda>_. parse_error) (ex_hub True) ex_env (ex_info ''admin'')
       (R_DeregisterChain (ex_uid ''juno'')) = Ok (st', r)" by blast
  from locked_router_only_admin [OF _ _ ok, of "ex_state True"] ok show ?thesis
    by (simp add: ex_hub_def ex_state_def)
qed

text \<open>
  C38: a release that fails while the router is locked is lost. The callback that the acknowledgement (or
  time-out) handler sends to the router fails with \<^verbatim>\<open>ContractLocked\<close>, and the reply handler answers that
  failure with success and an unchanged state: the virtual balance stays burned, the escrow stays debited, and
  the acknowledgement is consumed.
\<close>

theorem locked_router_loses_acks:
  assumes "RT_STATE st = Some state" and "rs_locked state"
  shows "ibc_packet_ack st env ack = Ok (st, \<lparr>r_messages = [reply_always (Wasm_Execute (contract_address env)
            (To_Router (R_IbcCallbackAckAndTimeout ack)) []) IBC_ACK_AND_TIMEOUT_REPLY_ID], r_data = None\<rparr>)
     \<and> rt_execute qv ql st env info (R_IbcCallbackAckAndTimeout ack) = Err ContractLocked
     \<and> rt_reply av ql st env \<lparr>reply_id = IBC_ACK_AND_TIMEOUT_REPLY_ID, reply_result = SubMsgErr e\<rparr>
         = Ok (st, Response_new)"
  using assms
  by (simp add: ibc_packet_ack_def rt_execute_def item_load_def rt_reply_def on_ibc_ack_and_timeout_reply_def
      rt_reply_ids HUB_IBC_EXECUTE_MSG_QUEUE_RANGE_def)

theorem locked_router_loses_acks_witness:
  "rt_execute (ex_vb 0) (\<lambda>_. parse_error) (ex_hub True) ex_env (ex_info ''router'') (R_IbcCallbackAckAndTimeout
     \<lparr>acknowledgement = Json_Ack (AckError ''Timeout''), original_packet =
        \<lparr>packet_data = Json_HubIbc (HI_ReleaseEscrow (ex_uid ''juno'') ex_user 50 ex_tk ''alice'' ''tx''),
         packet_src = \<lparr>port_id = [], channel_id = []\<rparr>, packet_dest = \<lparr>port_id = [], channel_id = []\<rparr>\<rparr>\<rparr>) = Err ContractLocked"
  using locked_router_loses_acks [of "ex_hub True" "ex_state True"] by (simp add: ex_hub_simps)


section \<open>Messages of the chains\<close>

lemma internal_call_gate:
  assumes "reusable_internal_call ql st env msg u = Inr v"
  shows "ccu_chain_uid (chain_sender msg) = u \<and> (\<exists>d. DEREGISTERED_CHAINS st = Some d \<and> u \<notin> set d)
     \<and> (\<exists>state. RT_STATE st = Some state \<and> \<not> rs_locked state)"
  using assms
  by (cases msg) (auto simp: reusable_internal_call_def item_load_def bindR_eq_Inr ensure_eq_Inr ok_or_eq_Inr)

text \<open>
  C30: a packet acts only for users of the chain it came from. When a packet is accepted, the channel it arrived
  on belongs to a registered chain, its source port is that chain's factory contract, the user it acts for is a
  user of that chain, the chain is not on the list of deregistered chains and the router is not locked.
\<close>

theorem packet_speaks_for_its_chain:
  assumes "rt_execute qv ql st env info (R_IbcCallbackReceive p) = Ok (st', r)"
  shows "\<exists>u chain msg d state. map_may_load (CHANNEL_TO_CHAIN_UID st) (channel_id (packet_dest p)) = Some u
     \<and> map_may_load (CHAIN_UID_TO_CHAIN st) u = Some chain
     \<and> port_id (packet_src p) = ''wasm.'' @ factory_addr chain
     \<and> packet_data p = Json_ChainIbc msg \<and> ccu_chain_uid (chain_sender msg) = u
     \<and> DEREGISTERED_CHAINS st = Some d \<and> u \<notin> set d \<and> RT_STATE st = Some state \<and> \<not> rs_locked state"
  using assms
  by (auto simp: rt_execute_def ibc_receive_internal_call_def bindR_eq_Inr ensure_eq_Inr map_load_eq_Inr from_json_Inr
      split: if_splits dest!: internal_call_gate)

definition ex_packet :: "string \<Rightarrow> ChainIbcExecuteMsg \<Rightarrow> IbcPacket" where
  "ex_packet c m = \<lparr>packet_data = Json_ChainIbc m, packet_src = \<lparr>port_id = ''wasm.factory'', channel_id = ''channel-7''\<rparr>,
     packet_dest = \<lparr>port_id = ''wasm.router'', channel_id = c @ ''-0''\<rparr>\<rparr>"

theorem packet_speaks_for_its_chain_witness:
  "\<exists>st' r. rt_execute (ex_vb 0) (\<lambda>_. parse_error) (ex_hub False) ex_env (ex_info ''router'') (R_IbcCallbackReceive
       (ex_packet ''osmosis'' (CI_RequestEscrowCreation ex_user ''tx'' (Token ''eucl'')))) = Ok (st', r)
     \<and> map_may_load (CHANNEL_TO_CHAIN_UID (ex_hub False)) ''osmosis-0'' = Some (ccu_chain_uid ex_user)"
proof -
  have "\<exists>st' r. rt_execute (ex_vb 0) (\<lambda>_. parse_error) (ex_hub False) ex_env (ex_info ''router'') (R_IbcCallbackReceive
       (ex_packet ''osmosis'' (CI_RequestEscrowCreation ex_user ''tx'' (Token ''eucl'')))) = Ok (st', r)"
    by (simp add: rt_execute_def ibc_receive_internal_call_def reusable_internal_call_def ex_packet_def
        execute_request_escrow_creation_def Token_validate_def ascii_defs ex_hub_simps map_load_def map_may_load_def
        map_has_def item_load_def)
  then obtain st' r where ok: "rt_execute (ex_vb 0) (\<lambda>_. parse_error) (ex_hub False) ex_env (ex_info ''router'')
       (R_IbcCallbackReceive (ex_packet ''osmosis'' (CI_RequestEscrowCreation ex_user ''tx'' (Token ''eucl'')))) = Ok (st', r)"
    by blast
  from packet_speaks_for_its_chain [OF this] ok show ?thesis
    by (auto simp: ex_packet_def)
qed

text \<open>
  An answered swap pays the user who asked for it, once. The reply of the first pool is accepted only if
  the swap it names is pending, gives the asset that was asked for and at least the minimum amount; then exactly
  that amount is released to the addresses of the stored request, for its sender; the request is gone; and the
  same reply is refused from then on.
\<close>

theorem swap_reply_pays_requester:
  assumes "on_swap_reply st env rep = Ok (st', r)"
  shows "\<exists>k m out. map_may_load (SWAP_ID_TO_MSG st) k = Some m \<and> csw_min_amount_out m \<le> out
     \<and> r_messages r = [SubMsg_new (release_internal env (csw_sender m) (csw_asset_out m) (Some out)
          (csw_cross_chain_addresses m) None (csw_tx_id m))]
     \<and> st' = st\<lparr>SWAP_ID_TO_MSG := map_remove (SWAP_ID_TO_MSG st) k\<rparr>
     \<and> on_swap_reply st' env rep = Err (Std NotFound)"
proof -
  obtain d resp m where res: "reply_result rep = SubMsgOk d"
      "lift_err Generic (parse_reply_execute_data rep) = Ok (Some (Json_VlpSwap resp))"
    and m: "map_may_load (SWAP_ID_TO_MSG st)
        (ccu_chain_uid (vsr_sender resp), ccu_address (vsr_sender resp), vsr_tx_id resp) = Some m"
    and le: "csw_min_amount_out m \<le> vsr_amount_out resp"
    and st': "st' = st\<lparr>SWAP_ID_TO_MSG := map_remove (SWAP_ID_TO_MSG st)
        (ccu_chain_uid (vsr_sender resp), ccu_address (vsr_sender resp), vsr_tx_id resp)\<rparr>"
    and r: "r_messages r = [SubMsg_new (release_internal env (csw_sender m) (csw_asset_out m) (Some (vsr_amount_out resp))
          (csw_cross_chain_addresses m) None (csw_tx_id m))]"
  proof (cases "reply_result rep")
    case (SubMsgOk d)
    with assms obtain x resp m where x: "lift_err Generic (parse_reply_execute_data rep) = Ok x"
        "unwrap_or x default_binary = Json_VlpSwap resp"
        "map_may_load (SWAP_ID_TO_MSG st)
          (ccu_chain_uid (vsr_sender resp), ccu_address (vsr_sender resp), vsr_tx_id resp) = Some m"
        "csw_min_amount_out m \<le> vsr_amount_out resp"
        "st' = st\<lparr>SWAP_ID_TO_MSG := map_remove (SWAP_ID_TO_MSG st)
          (ccu_chain_uid (vsr_sender resp), ccu_address (vsr_sender resp), vsr_tx_id resp)\<rparr>"
        "r_messages r = [SubMsg_new (release_internal env (csw_sender m) (csw_asset_out m) (Some (vsr_amount_out resp))
          (csw_cross_chain_addresses m) None (csw_tx_id m))]"
      by (auto simp: on_swap_reply_def bindR_eq_Inr ensure_eq_Inr map_load_eq_Inr from_json_Inr Let_def)
    then have "x = Some (Json_VlpSwap resp)"
      by (cases x) (auto simp: unwrap_or_def default_binary_def)
    with x SubMsgOk that show thesis by blast
  qed (use assms in \<open>simp add: on_swap_reply_def\<close>)
  moreover have "on_swap_reply st' env rep = Err (Std NotFound)"
    using res by (simp add: on_swap_reply_def unwrap_or_def st' map_load_def Let_def)
  ultimately show ?thesis by blast
qed


definition ex_swap :: "uint128 \<Rightarrow> ChainIbcSwapExecuteMsg" where
  "ex_swap min_out = \<lparr>csw_sender = ex_user, csw_asset_in = ex_tk, csw_amount_in = 10, csw_asset_out = Token ''eucl'',
     csw_min_amount_out = min_out,
     csw_swaps = [\<lparr>nsp_token_in = ex_tk, nsp_token_out = Token ''eucl'', nsp_test_fail = None\<rparr>],
     csw_cross_chain_addresses = [ex_to ''juno'' None], csw_tx_id = ''tx''\<rparr>"

definition ex_swap_key :: request_key where
  "ex_swap_key = (ex_uid ''osmosis'', ''alice'', ''tx'')"

theorem swap_reply_pays_requester_witness:
  "\<exists>st' r. on_swap_reply ((ex_hub False)\<lparr>SWAP_ID_TO_MSG := [(ex_swap_key, ex_swap 5)]\<rparr>) ex_env
       \<lparr>reply_id = SWAP_REPLY_ID, reply_result = SubMsgOk (Some (Pb_Execute (Some (Json_VlpSwap
          \<lparr>vsr_sender = ex_user, vsr_tx_id = ''tx'', vsr_asset_out = Token ''eucl'', vsr_amount_out = 7\<rparr>))))\<rparr>
       = Ok (st', r) \<and> SWAP_ID_TO_MSG st' = []"
proof -
  let ?st = "(ex_hub False)\<lparr>SWAP_ID_TO_MSG := [(ex_swap_key, ex_swap 5)]\<rparr>"
  let ?rep = "\<lparr>reply_id = SWAP_REPLY_ID, reply_result = SubMsgOk (Some (Pb_Execute (Some (Json_VlpSwap
          \<lparr>vsr_sender = ex_user, vsr_tx_id = ''tx'', vsr_asset_out = Token ''eucl'', vsr_amount_out = 7\<rparr>))))\<rparr>"
  have "\<exists>st' r. on_swap_reply ?st ex_env ?rep = Ok (st', r)"
    by (simp add: on_swap_reply_def parse_reply_execute_data_def parse_execute_response_data_def lift_err_def
        unwrap_or_def ex_hub_simps ex_swap_key_def ex_swap_def map_load_def map_may_load_def Let_def)
  then obtain st' r where ok: "on_swap_reply ?st ex_env ?rep = Ok (st', r)" by blast
  from swap_reply_pays_requester [OF this] obtain k m where
    "map_may_load (SWAP_ID_TO_MSG ?st) k = Some m" and "st' = ?st\<lparr>SWAP_ID_TO_MSG := map_remove (SWAP_ID_TO_MSG ?st) k\<rparr>"
    by blast
  then have "SWAP_ID_TO_MSG st' = []"
    by (auto simp: map_may_load_def map_remove_def split: if_splits)
  with ok show ?thesis by blast
qed

text \<open>
  An accepted swap is recorded once and paid for. The request is stored under its sender and transaction
  id, the escrow record of the sender's chain rises by the amount paid in there, the pool's virtual balance is
  minted before the pool is called, and a second request with the same sender and id is refused.
\<close>

theorem swap_request_recorded:
  assumes "ibc_execute_swap st msg = Ok (st', r)"
  shows "\<exists>k vb (pool :: NextSwapVlp) next. k = (ccu_chain_uid (csw_sender msg), ccu_address (csw_sender msg), csw_tx_id msg)
     \<and> \<not> map_has (SWAP_ID_TO_MSG st) k \<and> map_may_load (SWAP_ID_TO_MSG st') k = Some msg
     \<and> escrow_of st' (csw_asset_in msg) (ccu_chain_uid (csw_sender msg))
         = escrow_of st (csw_asset_in msg) (ccu_chain_uid (csw_sender msg)) + unat (csw_amount_in msg)
     \<and> map sm_msg (r_messages r) =
         [mint_for_vlp vb vsl (nsv_vlp_address pool) (csw_asset_in msg) (csw_amount_in msg),
          Wasm_Execute (nsv_vlp_address pool) (To_Vlp (VLP_Swap (csw_sender msg) (csw_tx_id msg) (csw_asset_in msg)
             (csw_amount_in msg) (csw_min_amount_out msg) next (nsv_test_fail pool))) []]
     \<and> (\<forall>msg'. csw_sender msg' = csw_sender msg \<and> csw_tx_id msg' = csw_tx_id msg \<longrightarrow>
          (\<exists>e. ibc_execute_swap st' msg' = Err e))"
proof -
  let ?k = "(ccu_chain_uid (csw_sender msg), ccu_address (csw_sender msg), csw_tx_id msg)"
  from assms obtain vb "next" and pool :: NextSwapVlp where new: "\<not> map_has (SWAP_ID_TO_MSG st) ?k"
    and esc: "add_escrow (st\<lparr>SWAP_ID_TO_MSG := map_save (SWAP_ID_TO_MSG st) ?k msg\<rparr>) (csw_asset_in msg)
          (ccu_chain_uid (csw_sender msg)) (csw_amount_in msg) = Inr st'"
    and r: "map sm_msg (r_messages r) =
         [mint_for_vlp vb vsl (nsv_vlp_address pool) (csw_asset_in msg) (csw_amount_in msg),
          Wasm_Execute (nsv_vlp_address pool) (To_Vlp (VLP_Swap (csw_sender msg) (csw_tx_id msg) (csw_asset_in msg)
             (csw_amount_in msg) (csw_min_amount_out msg) next (nsv_test_fail pool))) []]"
    unfolding ibc_execute_swap_def Let_def split_beta vsl_chain_uid_ok bindR_Inr bindR_eq_Inr ensure_eq_Inr
    by (auto simp: submsg_defs)
  from esc obtain b where b: "unat b = unat (amount_at (ESCROW_BALANCES st) (csw_asset_in msg, ccu_chain_uid (csw_sender msg)))
        + unat (csw_amount_in msg)"
    and "st' = st\<lparr>SWAP_ID_TO_MSG := map_save (SWAP_ID_TO_MSG st) ?k msg, ESCROW_BALANCES :=
        map_save (ESCROW_BALANCES st) (csw_asset_in msg, ccu_chain_uid (csw_sender msg)) b\<rparr>"
    unfolding add_escrow_def by (auto simp: bindR_eq_Inr checked_add_eq_Inr amount_at_def)
  then have st': "map_may_load (SWAP_ID_TO_MSG st') ?k = Some msg"
      "escrow_of st' (csw_asset_in msg) (ccu_chain_uid (csw_sender msg))
         = escrow_of st (csw_asset_in msg) (ccu_chain_uid (csw_sender msg)) + unat (csw_amount_in msg)"
    by simp_all
  have dup: "\<exists>e. ibc_execute_swap st' msg' = Err e"
    if "csw_sender msg' = csw_sender msg" "csw_tx_id msg' = csw_tx_id msg" for msg'
  proof -
    have "map_has (SWAP_ID_TO_MSG st') (ccu_chain_uid (csw_sender msg'), ccu_address (csw_sender msg'), csw_tx_id msg')"
      using st'(1) that by (simp add: map_has_def)
    then show ?thesis
      by (cases "csw_swaps msg' = []")
         (auto simp: ibc_execute_swap_def slice_first_def slice_last_def ensure_def Let_def split: list.splits)
  qed
  show ?thesis
    using dup by (intro exI conjI) (rule refl new st' r | blast)+
qed

lemma ex_pair: "Pair_new ex_tk (Token ''eucl'') = Ok \<lparr>pair_token_1 = Token ''eucl'', pair_token_2 = ex_tk\<rparr>"
  by (simp add: ex_tk_def Pair_new_def Pair_validate_def Token_validate_def ascii_defs less_eq_Token_def)

lemma ex_route:
  "VLPS st = [((Token ''eucl'', ex_tk), ''vlp'')] \<Longrightarrow>
     validate_swap_pairs st [\<lparr>nsp_token_in = ex_tk, nsp_token_out = Token ''eucl'', nsp_test_fail = None\<rparr>]
       = Ok [\<lparr>nsv_vlp_address = ''vlp'', nsv_test_fail = None\<rparr>]"
  by (simp add: validate_swap_pairs_def ex_pair get_tupple_def map_load_def map_may_load_def)
     (simp add: ex_tk_def less_eq_Token_def)

theorem swap_request_recorded_witness:
  "\<exists>st' r. ibc_execute_swap (ex_hub False) (ex_swap 5) = Ok (st', r)
     \<and> escrow_of st' ex_tk (ex_uid ''osmosis'') = escrow_of (ex_hub False) ex_tk (ex_uid ''osmosis'') + unat (10 :: uint128)"
proof -
  have "\<exists>st' r. ibc_execute_swap (ex_hub False) (ex_swap 5) = Ok (st', r)"
    by (simp add: ibc_execute_swap_def ex_swap_def ex_hub_def ex_state_def ex_user_def slice_first_def slice_last_def
        split_first_def ex_route map_has_def map_may_load_def item_load_def Let_def add_escrow_def checked_add_def
        unwrap_or_def map_err_def)
  then obtain st' r where ok: "ibc_execute_swap (ex_hub False) (ex_swap 5) = Ok (st', r)" by blast
  from swap_request_recorded [OF this] ok show ?thesis
    by (auto simp: ex_swap_def ex_user_def)
qed

text \<open>
  Taking a chain off the router is effective and can be undone. After the administrator deregisters a
  chain, every message from it is refused with \<^verbatim>\<open>DeregisteredChain\<close>; registering it again gives back the
  state before.
\<close>

theorem deregister_roundtrip:
  assumes "execute_deregister_chain st info u = Ok (st', r)"
  shows "reusable_internal_call ql st' env msg u = Err DeregisteredChain
     \<and> execute_reregister_chain st' info u = Ok (st, Response_new)"
proof -
  obtain state d where st: "RT_STATE st = Some state" "info_sender info = rs_admin state"
      "DEREGISTERED_CHAINS st = Some d" "u \<notin> set d" "st' = st\<lparr>DEREGISTERED_CHAINS := Some (d @ [u])\<rparr>"
    using assms
    by (auto simp: execute_deregister_chain_def item_load_def bindR_eq_Inr ensure_eq_Inr ok_or_eq_Inr)
  moreover from this have "filter (\<lambda>x. x \<noteq> u) d = d"
    by (auto simp: filter_id_conv)
  ultimately show ?thesis
    by (cases st) (simp add: execute_reregister_chain_def reusable_internal_call_def item_load_def)
qed

theorem deregister_roundtrip_witness:
  "\<exists>st' r. execute_deregister_chain (ex_hub False) (ex_info ''admin'') (ex_uid ''juno'') = Ok (st', r)
     \<and> execute_reregister_chain st' (ex_info ''admin'') (ex_uid ''juno'') = Ok (ex_hub False, Response_new)"
proof -
  obtain st' r where ok: "execute_deregister_chain (ex_hub False) (ex_info ''admin'') (ex_uid ''juno'') = Ok (st', r)"
    by (simp add: execute_deregister_chain_def ex_hub_simps item_load_def)
  with deregister_roundtrip [OF ok] show ?thesis by blast
qed

end
