(* ===== verification/Router_Escrow.thy ===== *)
theory Router_Escrow
  imports Router_Properties
begin

text \<open>
  The escrow record of the router, chain by chain: it goes up by what the packets of a chain bring in and by releases
  that failed, and down by what the chain is told to release, and by nothing else.
\<close>

section \<open>Credits and releases\<close>

abbreviation recorded :: "rt_storage \<Rightarrow> escrow_key \<Rightarrow> nat" where
  "recorded st k \<equiv> unat (amount_at (ESCROW_BALANCES st) k)"

definition released :: "Response \<Rightarrow> escrow_key \<Rightarrow> nat" where
  "released r k = (\<Sum>m\<leftarrow>r_messages r. release_to (sm_msg m) k)"

lemma released_simps [simp]:
  "released \<lparr>r_messages = [], r_data = d\<rparr> k = 0"
  "released \<lparr>r_messages = m # ms, r_data = d\<rparr> k = release_to (sm_msg m) k + released \<lparr>r_messages = ms, r_data = d\<rparr> k"
  by (simp_all add: released_def)

text \<open>
  What a message of a chain brings in: the input of a swap, or the two amounts of a deposit, which are booked on the
  tokens of the pool that the router finds for the pair.
\<close>

fun brought_in :: "liq_querier \<Rightarrow> rt_storage \<Rightarrow> ChainIbcExecuteMsg \<Rightarrow> escrow_key \<Rightarrow> nat" where
  "brought_in ql st (CI_Swap m) k =
     (if k = (csw_asset_in m, ccu_chain_uid (csw_sender m)) then unat (csw_amount_in m) else 0)"
| "brought_in ql st (CI_AddLiquidity s x y _ pair _) k =
     (case map_load (VLPS st) (get_tupple pair) of
        Inl _ \<Rightarrow> 0
      | Inr v \<Rightarrow>
          (case ql v of
             Inl _ \<Rightarrow> 0
           | Inr l \<Rightarrow> (if k = (pair_token_1 (glr_pair l), ccu_chain_uid s) then unat x else 0)
               + (if k = (pair_token_2 (glr_pair l), ccu_chain_uid s) then unat y else 0)))"
| "brought_in ql st _ k = 0"

text \<open>What the answer to a release gives back: all of it, if it failed.\<close>

definition given_back :: "HubIbcExecuteMsg \<Rightarrow> binary \<Rightarrow> escrow_key \<Rightarrow> nat" where
  "given_back m ack k = (case ack of Json_Ack (AckError _) \<Rightarrow> hub_release m k | _ \<Rightarrow> 0)"

definition exec_credit :: "liq_querier \<Rightarrow> rt_storage \<Rightarrow> router_ExecuteMsg \<Rightarrow> escrow_key \<Rightarrow> nat" where
  "exec_credit ql st msg k =
     (case msg of
        R_IbcCallbackReceive p \<Rightarrow> (case packet_data p of Json_ChainIbc m \<Rightarrow> brought_in ql st m k | _ \<Rightarrow> 0)
      | R_NativeReceiveCallback b u \<Rightarrow> (case b of Json_ChainIbc m \<Rightarrow> brought_in ql st m k | _ \<Rightarrow> 0)
      | R_IbcCallbackAckAndTimeout a \<Rightarrow>
          (case packet_data (original_packet a) of Json_HubIbc m \<Rightarrow> given_back m (acknowledgement a) k | _ \<Rightarrow> 0)
      | _ \<Rightarrow> 0)"

definition reply_credit :: "rt_storage \<Rightarrow> Reply \<Rightarrow> escrow_key \<Rightarrow> nat" where
  "reply_credit st rep k =
     (if fst HUB_IBC_EXECUTE_MSG_QUEUE_RANGE \<le> reply_id rep \<and> reply_id rep \<le> snd HUB_IBC_EXECUTE_MSG_QUEUE_RANGE
      then (case queue_take (HUB_QUEUE st) (reply_id rep) of
              Inl _ \<Rightarrow> 0
            | Inr (q, m) \<Rightarrow> given_back m (case reply_result rep of SubMsgErr e \<Rightarrow> make_ack_fail e | SubMsgOk d \<Rightarrow> reply_payload d) k)
      else 0)"

text \<open>A step whose credit is \<open>c\<close> and whose response releases what the record loses.\<close>

definition chain_books :: "rt_storage \<Rightarrow> (escrow_key \<Rightarrow> nat) \<Rightarrow> Response \<Rightarrow> rt_storage \<Rightarrow> bool" where
  "chain_books st c r st' \<longleftrightarrow> (\<forall>k. recorded st' k + released r k = recorded st k + c k)"

lemma chain_books_quiet:
  "ESCROW_BALANCES st' = ESCROW_BALANCES st \<Longrightarrow> (\<And>k. released r k = c k) \<Longrightarrow> chain_books st c r st'"
  by (simp add: chain_books_def)

section \<open>Releases\<close>

lemma release_loop_chain:
  assumes "release_loop env s tk to as rem tr st msgs = Inr (rem', tr', st', msgs')"
  shows "\<exists>ms. msgs' = msgs @ ms \<and> (\<forall>k. recorded st' k + (\<Sum>m\<leftarrow>ms. release_to (sm_msg m) k) = recorded st k)"
  using assms
proof (induction as arbitrary: rem tr st msgs)
  case (Cons a as)
  let ?u = "ccu_chain_uid (ccl_user a)"
  show ?case
  proof (cases "rem = 0")
    case False
    let ?x = "min (min (escrow_of st tk ?u) (unat rem)) (limit_of a)"
    from Cons.prems False show ?thesis
    proof (cases rule: release_loop_step)
      case 1
      from Cons.IH [OF 1(2)] show ?thesis .
    next
      case (2 st1 rem1 tr1 m)
      from Cons.IH [OF 2(9)] obtain ms where ms: "msgs' = (msgs @ [m]) @ ms"
          "\<And>k. recorded st' k + (\<Sum>m\<leftarrow>ms. release_to (sm_msg m) k) = recorded st1 k" by blast
      have step: "recorded st1 k + release_to (sm_msg m) k = recorded st k" for k
      proof (cases "k = (tk, ?u)")
        case True
        have "escrow_of st1 tk ?u = escrow_of st tk ?u - ?x"
          using fun_cong [OF fun_cong [OF 2(5), of tk], of ?u] by (simp only: fun_upd_same)
        moreover have "?x \<le> escrow_of st tk ?u" by simp
        ultimately show ?thesis using 2(10) [of k] True by simp
      next
        case False
        obtain t u where k: "k = (t, u)" by (cases k)
        have "escrow_of st1 t u = escrow_of st t u"
          using fun_cong [OF fun_cong [OF 2(5), of t], of u] False by (auto simp: k)
        then show ?thesis using 2(10) [of k] False by (auto simp: k)
      qed
      have "recorded st' k + (\<Sum>m\<leftarrow>m # ms. release_to (sm_msg m) k) = recorded st k" for k
        using ms(2) [of k] step [of k] by simp
      with ms(1) show ?thesis by (intro exI [of _ "m # ms"]) simp
    qed
  qed (use Cons.prems in auto)
qed simp

lemma release_escrow_chain:
  assumes "execute_release_escrow q st env info sender tk amt addrs to tx = Inr (st', r)"
  shows "chain_books st (\<lambda>_. 0) r st'"
  using assms
proof (rule release_escrow_okE)
  fix state vb bal w timeout rem tr msgs
  assume loop: "release_loop env sender tk timeout addrs w 0 st [] = Inr (rem, tr, st', msgs)"
    and r: "r = \<lparr>r_messages = (if tr \<noteq> 0 then [burn_msg vb sender tk tr] else []) @ msgs, r_data = None\<rparr>"
  from release_loop_chain [OF loop] show ?thesis
    by (auto simp: chain_books_def r released_def burn_msg_def submsg_defs)
qed

section \<open>Messages of the chains\<close>

lemma add_escrow_chain:
  assumes "add_escrow st tk u x = Inr st'"
  shows "recorded st' k = recorded st k + (if k = (tk, u) then unat x else 0)"
  using assms by (auto simp: add_escrow_def ok_simps amount_at_def)

lemma release_to_quiet [simp]:
  "release_to (mint_for_vlp vb u v tk a) k = 0" "release_to (release_internal env s tk a' as to tx) k = 0"
  by (simp_all add: mint_for_vlp_def release_internal_def)

lemma swap_chain:
  assumes "ibc_execute_swap st msg = Inr (st', r)"
  shows "chain_books st (brought_in ql st (CI_Swap msg)) r st'"
proof -
  from assms obtain b where
      "add_escrow (st\<lparr>SWAP_ID_TO_MSG := b\<rparr>) (csw_asset_in msg) (ccu_chain_uid (csw_sender msg)) (csw_amount_in msg) = Inr st'"
    and "\<And>k. released r k = 0"
    unfolding ibc_execute_swap_def Let_def split_beta vsl_chain_uid_ok bindR_Inr bindR_eq_Inr ensure_eq_Inr
    by (auto simp: submsg_defs)
  from add_escrow_chain [OF this(1)] this(2) show ?thesis by (simp add: chain_books_def)
qed

lemma add_liquidity_chain:
  assumes "ibc_execute_add_liquidity ql st sender x y tol pair tx = Inr (st', r)"
  shows "chain_books st (brought_in ql st (CI_AddLiquidity sender x y tol' pair tx')) r st'"
proof -
  from assms obtain v st1 and l :: GetLiquidityResponse where
      v: "map_load (VLPS st) (get_tupple pair) = Inr v" "ql v = Inr l"
    and e: "add_escrow st (pair_token_1 (glr_pair l)) (ccu_chain_uid sender) x = Inr st1"
      "add_escrow st1 (pair_token_2 (glr_pair l)) (ccu_chain_uid sender) y = Inr st'"
    and "\<And>k. released r k = 0"
    unfolding ibc_execute_add_liquidity_def Let_def split_beta vsl_chain_uid_ok bindR_Inr bindR_eq_Inr ensure_eq_Inr
    by (auto simp: submsg_defs)
  with add_escrow_chain [OF e(1)] add_escrow_chain [OF e(2)] show ?thesis by (simp add: chain_books_def)
qed

lemma escrow_creation_chain:
  assumes "execute_request_escrow_creation st sender tk tx = Inr (st', r)"
  shows "chain_books st (\<lambda>_. 0) r st'"
  using assms
  by (auto simp: execute_request_escrow_creation_def bindR_eq_Inr ensure_eq_Inr chain_books_def map_has_def amount_at_def)

lemma quiet_chain:
  "execute_request_pool_creation st env sender pair tx = Inr (st', r) \<Longrightarrow> chain_books st (\<lambda>_. 0) r st'"
  "ibc_execute_remove_liquidity st msg = Inr (st', r) \<Longrightarrow> chain_books st (\<lambda>_. 0) r st'"
  by (auto simp: execute_request_pool_creation_def ibc_execute_remove_liquidity_def Let_def bindR_eq_Inr ensure_eq_Inr submsg_defs
      intro!: chain_books_quiet split: option.splits)

lemma internal_call_chain:
  assumes "reusable_internal_call ql st env msg u = Inr (st', r)"
  shows "chain_books st (brought_in ql st msg) r st'"
proof (cases msg)
  case (CI_RequestPoolCreation x y z)
  with assms show ?thesis
    by (auto simp: reusable_internal_call_def bindR_eq_Inr ensure_eq_Inr fun_eq_iff intro: quiet_chain(1) [THEN back_subst [of "\<lambda>c. chain_books st c r st'"]])
next
  case (CI_RequestEscrowCreation x y z)
  with assms show ?thesis
    by (auto simp: reusable_internal_call_def bindR_eq_Inr ensure_eq_Inr fun_eq_iff intro: escrow_creation_chain [THEN back_subst [of "\<lambda>c. chain_books st c r st'"]])
next
  case (CI_RemoveLiquidity x)
  with assms show ?thesis
    by (auto simp: reusable_internal_call_def bindR_eq_Inr ensure_eq_Inr fun_eq_iff intro: quiet_chain(2) [THEN back_subst [of "\<lambda>c. chain_books st c r st'"]])
qed (use assms in \<open>auto simp: reusable_internal_call_def bindR_eq_Inr ensure_eq_Inr submsg_defs simp del: brought_in.simps(1,2)
    intro: swap_chain add_liquidity_chain chain_books_quiet\<close>)

section \<open>Answers of the chains\<close>

lemma ack_release_chain:
  assumes "ibc_ack_release_escrow st u sender amount tk res = Inr (st', r)"
  shows "chain_books st (\<lambda>k. case res of AckError _ \<Rightarrow> if k = (tk, u) then unat amount else 0 | AckOk _ \<Rightarrow> 0) r st'"
proof (cases res)
  case (AckError e)
  with assms obtain b b' where "map_may_load (ESCROW_BALANCES st) (tk, u) = Some b" "unat b' = unat b + unat amount"
    and "st' = st\<lparr>ESCROW_BALANCES := map_save (ESCROW_BALANCES st) (tk, u) b'\<rparr>" and "\<And>k. released r k = 0"
    unfolding ibc_ack_release_escrow_def Let_def by (auto simp: ok_simps submsg_defs)
  with AckError show ?thesis by (auto simp: chain_books_def amount_at_def)
qed (use assms in \<open>auto simp: ibc_ack_release_escrow_def intro: chain_books_quiet\<close>)

lemma ack_register_chain:
  "ibc_ack_register_factory st u c res = Inr (st', r) \<Longrightarrow> chain_books st (\<lambda>_. 0) r st'"
  "ibc_ack_update_factory_channel st u c res = Inr (st', r) \<Longrightarrow> chain_books st (\<lambda>_. 0) r st'"
  by (cases res; cases c; auto simp: ibc_ack_register_factory_def ibc_ack_update_factory_channel_def Let_def
      bindR_eq_Inr old_channel_Inr intro!: chain_books_quiet)+

lemma from_json_ack_cases:
  assumes "from_json_ack sel ack = Inr res"
  obtains (failed) e where "ack = Json_Ack (AckError e)" "res = AckError e"
  | (carried) d x where "ack = Json_Ack (AckOk d)" "res = AckOk x"
  using assms unfolding from_json_ack_def
  by (cases ack; simp) (auto split: AcknowledgementMsg.splits option.splits)

lemma given_back_none: "(\<And>k. hub_release m k = 0) \<Longrightarrow> given_back m (Json_Ack a) = (\<lambda>_. 0)"
  by (cases a) (simp_all add: given_back_def fun_eq_iff)

lemma internal_ack_chain:
  assumes "reusable_internal_ack_call st msg ack c = Inr (st', r)"
  shows "chain_books st (given_back msg ack) r st'"
proof (cases msg)
  case (HI_ReleaseEscrow u s x t to tx)
  with assms obtain res where res: "from_json_ack release_ack ack = Inr res"
    and run: "ibc_ack_release_escrow st u s x t res = Inr (st', r)"
    by (auto simp: reusable_internal_ack_call_def bindR_eq_Inr)
  from res have "given_back msg ack = (\<lambda>k. case res of AckError _ \<Rightarrow> if k = (t, u) then unat x else 0 | AckOk _ \<Rightarrow> 0)"
    by (cases rule: from_json_ack_cases) (simp_all add: given_back_def HI_ReleaseEscrow fun_eq_iff)
  with ack_release_chain [OF run] show ?thesis by simp
next
  case (HI_RegisterFactory u tx)
  with assms obtain res where res: "from_json_ack register_ack ack = Inr res" and "ibc_ack_register_factory st u c res = Inr (st', r)"
    by (auto simp: reusable_internal_ack_call_def bindR_eq_Inr)
  from res ack_register_chain(1) [OF this(2)] show ?thesis
    by (cases rule: from_json_ack_cases) (simp_all add: given_back_none HI_RegisterFactory)
next
  case (HI_UpdateFactoryChannel u tx)
  with assms obtain res where res: "from_json_ack register_ack ack = Inr res" and "ibc_ack_update_factory_channel st u c res = Inr (st', r)"
    by (auto simp: reusable_internal_ack_call_def bindR_eq_Inr)
  from res ack_register_chain(2) [OF this(2)] show ?thesis
    by (cases rule: from_json_ack_cases) (simp_all add: given_back_none HI_UpdateFactoryChannel)
qed

section \<open>Entry points\<close>

lemma admin_chain:
  "execute_update_vlp_code_id st info c = Inr (st', r) \<Longrightarrow> chain_books st (\<lambda>_. 0) r st'"
  "execute_update_lock st info = Inr (st', r) \<Longrightarrow> chain_books st (\<lambda>_. 0) r st'"
  "execute_deregister_chain st info u = Inr (st', r) \<Longrightarrow> chain_books st (\<lambda>_. 0) r st'"
  "execute_reregister_chain st info u = Inr (st', r) \<Longrightarrow> chain_books st (\<lambda>_. 0) r st'"
  by (auto simp: execute_update_vlp_code_id_def execute_update_lock_def execute_deregister_chain_def
      execute_reregister_chain_def bindR_eq_Inr ensure_eq_Inr intro!: chain_books_quiet)

lemma rt_to_msg_chain:
  assumes "rt_to_msg st env msg chain to = Inr p" and "\<And>k. hub_release msg k = 0"
  shows "ESCROW_BALANCES (fst p) = ESCROW_BALANCES st" and "release_to (sm_msg (snd p)) k = 0"
proof -
  have p: "rt_to_msg st env msg chain to = Inr (fst p, snd p)" using assms(1) by simp
  show "ESCROW_BALANCES (fst p) = ESCROW_BALANCES st" by (subst rt_to_msg_keeps(1) [OF p]) simp
  show "release_to (sm_msg (snd p)) k = 0" using rt_to_msg_release_to [OF p] assms(2) by simp
qed

lemma rt_generate_tx_fst: "ESCROW_BALANCES (fst (rt_generate_tx st env u)) = ESCROW_BALANCES st"
  by (cases "rt_generate_tx st env u") simp

lemma register_factory_chain:
  assumes "execute_register_factory st env info u c = Inr (st', r)"
  shows "chain_books st (\<lambda>_. 0) r st'"
proof (cases c)
  case (RegisterNative f)
  with assms obtain s u' tx chain p where p: "rt_to_msg (fst (rt_generate_tx st env s)) env (HI_RegisterFactory u' tx) chain 0 = Inr p"
    and "st' = fst p" and "r = \<lparr>r_messages = [snd p], r_data = None\<rparr>"
    unfolding execute_register_factory_def Let_def split_beta bindR_eq_Inr ensure_eq_Inr
    by (auto simp: bindR_eq_Inr)
  with rt_to_msg_chain [OF p] show ?thesis by (auto simp: rt_generate_tx_fst intro!: chain_books_quiet)
next
  case (RegisterIbc ch to)
  with assms show ?thesis
    unfolding execute_register_factory_def Let_def split_beta bindR_eq_Inr ensure_eq_Inr
    by (auto simp: submsg_defs bindR_eq_Inr rt_generate_tx_fst intro!: chain_books_quiet)
qed

lemma other_execute_chain:
  "execute_update_factory_channel st env info ch u = Inr (st', r) \<Longrightarrow> chain_books st (\<lambda>_. 0) r st'"
  "execute_withdraw_voucher st env info tk a as to = Inr (st', r) \<Longrightarrow> chain_books st (\<lambda>_. 0) r st'"
  unfolding execute_update_factory_channel_def execute_withdraw_voucher_def Let_def split_beta bindR_eq_Inr ensure_eq_Inr
  by (auto simp: submsg_defs bindR_eq_Inr rt_generate_tx_fst intro!: chain_books_quiet split: if_splits)

lemma callback_chain:
  "ibc_receive_internal_call ql st env p = Inr (st', r) \<Longrightarrow> chain_books st (exec_credit ql st (R_IbcCallbackReceive p)) r st'"
  "execute_native_receive_callback ql st env info u b = Inr (st', r) \<Longrightarrow>
     chain_books st (exec_credit ql st (R_NativeReceiveCallback b u)) r st'"
  "ibc_ack_packet_internal_call st a = Inr (st', r) \<Longrightarrow> chain_books st (exec_credit ql st (R_IbcCallbackAckAndTimeout a)) r st'"
proof -
  assume "ibc_receive_internal_call ql st env p = Inr (st', r)"
  then show "chain_books st (exec_credit ql st (R_IbcCallbackReceive p)) r st'"
    by (auto simp: ibc_receive_internal_call_def bindR_eq_Inr ensure_eq_Inr from_json_Inr exec_credit_def [abs_def] dest!: internal_call_chain)
next
  assume "execute_native_receive_callback ql st env info u b = Inr (st', r)"
  then show "chain_books st (exec_credit ql st (R_NativeReceiveCallback b u)) r st'"
    by (auto simp: execute_native_receive_callback_def bindR_eq_Inr ensure_eq_Inr from_json_Inr exec_credit_def [abs_def] dest!: internal_call_chain)
next
  assume "ibc_ack_packet_internal_call st a = Inr (st', r)"
  then show "chain_books st (exec_credit ql st (R_IbcCallbackAckAndTimeout a)) r st'"
    by (auto simp: ibc_ack_packet_internal_call_def bindR_eq_Inr from_json_Inr exec_credit_def [abs_def] dest!: internal_ack_chain)
qed

lemma exec_credit_none [simp]:
  "exec_credit ql st R_UpdateLock = (\<lambda>_. 0)" "exec_credit ql st (R_ReregisterChain u) = (\<lambda>_. 0)"
  "exec_credit ql st (R_DeregisterChain u) = (\<lambda>_. 0)" "exec_credit ql st (R_UpdateFactoryChannel u ch) = (\<lambda>_. 0)"
  "exec_credit ql st (R_UpdateVLPCodeId i) = (\<lambda>_. 0)" "exec_credit ql st (R_RegisterFactory u c) = (\<lambda>_. 0)"
  "exec_credit ql st (R_ReleaseEscrowInternal s t a as to tx) = (\<lambda>_. 0)" "exec_credit ql st (R_WithdrawVoucher t a as to) = (\<lambda>_. 0)"
  by (simp_all add: exec_credit_def fun_eq_iff)

lemmas rt_chain = admin_chain register_factory_chain other_execute_chain callback_chain release_escrow_chain

lemma rt_execute_chain:
  assumes "rt_execute qv ql st env info msg = Inr (st', r)"
  shows "chain_books st (exec_credit ql st msg) r st'"
proof -
  obtain state where "RT_STATE st = Some state" using assms by (auto simp: rt_execute_def ok_simps)
  with assms show ?thesis
    by (cases msg; cases "rs_locked state") (auto simp: rt_execute_def intro: rt_chain)
qed

lemma native_reply_chain:
  assumes "on_reply_native_ibc_wrapper_call st rep = Inr (st', r)"
  obtains q m ack where "queue_take (HUB_QUEUE st) (reply_id rep) = Inr (q, m)"
    and "ack = (case reply_result rep of SubMsgErr e \<Rightarrow> make_ack_fail e | SubMsgOk d \<Rightarrow> reply_payload d)"
    and "chain_books st (given_back m ack) r st'"
proof -
  obtain q m where q: "queue_take (HUB_QUEUE st) (reply_id rep) = Inr (q, m)"
    and run: "reusable_internal_ack_call (st\<lparr>HUB_QUEUE := q\<rparr>) m
      (case reply_result rep of SubMsgErr e \<Rightarrow> make_ack_fail e | SubMsgOk d \<Rightarrow> reply_payload d) NativeChain = Inr (st', r)"
    using assms by (cases "reply_result rep") (auto simp: on_reply_native_ibc_wrapper_call_def bindR_eq_Inr Let_def)
  show thesis
    using internal_ack_chain [OF run] by (intro that [OF q refl]) (simp add: chain_books_def)
qed

lemma reply_ok_chain:
  "on_pool_register_reply st msg = Inr (st', r) \<Longrightarrow> chain_books st (\<lambda>_. 0) r st'"
  "on_add_liquidity_reply st msg = Inr (st', r) \<Longrightarrow> chain_books st (\<lambda>_. 0) r st'"
  "on_remove_liquidity_reply st env msg = Inr (st', r) \<Longrightarrow> chain_books st (\<lambda>_. 0) r st'"
  "on_swap_reply st env msg = Inr (st', r) \<Longrightarrow> chain_books st (\<lambda>_. 0) r st'"
  "on_virtual_balance_instantiate_reply av st msg = Inr (st', r) \<Longrightarrow> chain_books st (\<lambda>_. 0) r st'"
  "on_virtual_balance_mint_reply st msg = Inr (st', r) \<Longrightarrow> chain_books st (\<lambda>_. 0) r st'"
  "on_virtual_balance_burn_reply st msg = Inr (st', r) \<Longrightarrow> chain_books st (\<lambda>_. 0) r st'"
  "rt_on_virtual_balance_transfer_reply st msg = Inr (st', r) \<Longrightarrow> chain_books st (\<lambda>_. 0) r st'"
  "on_ibc_ack_and_timeout_reply st msg = Inr (st', r) \<Longrightarrow> chain_books st (\<lambda>_. 0) r st'"
  "on_ibc_receive_reply st msg = Inr (st', r) \<Longrightarrow> chain_books st (\<lambda>_. 0) r st'"
  by (auto simp: on_pool_register_reply_def on_add_liquidity_reply_def on_remove_liquidity_reply_def on_swap_reply_def
      on_virtual_balance_instantiate_reply_def on_virtual_balance_mint_reply_def on_virtual_balance_burn_reply_def
      rt_on_virtual_balance_transfer_reply_def on_ibc_ack_and_timeout_reply_def on_ibc_receive_reply_def
      bindR_eq_Inr ensure_eq_Inr Let_def submsg_defs intro!: chain_books_quiet split: SubMsgResult.splits)

lemma vlp_instantiate_reply_chain:
  assumes "on_vlp_instantiate_reply ql st msg = Inr (st', r)"
  shows "chain_books st (\<lambda>_. 0) r st'"
proof -
  have split: "(case x of Inl e \<Rightarrow> Ok (a, b) | Inr y \<Rightarrow> Ok (a, c y)) = Ok (st', r) \<Longrightarrow>
      st' = a \<and> (r = b \<or> (\<exists>y. r = c y))" for x :: "'x result" and a b c
    by (cases x) auto
  from assms show ?thesis
    unfolding on_vlp_instantiate_reply_def Let_def split_beta
    by (cases "reply_result msg") (auto simp: bindR_eq_Inr dest!: split intro!: chain_books_quiet)
qed

lemma rt_reply_chain:
  assumes "rt_reply av ql st env rep = Inr (st', r)"
  shows "chain_books st (reply_credit st rep) r st'"
proof (cases "fst HUB_IBC_EXECUTE_MSG_QUEUE_RANGE \<le> reply_id rep \<and> reply_id rep \<le> snd HUB_IBC_EXECUTE_MSG_QUEUE_RANGE")
  case True
  with assms have "on_reply_native_ibc_wrapper_call st rep = Inr (st', r)" by (simp add: rt_reply_def)
  then show ?thesis
    by (rule native_reply_chain) (use True in \<open>simp add: reply_credit_def [abs_def]\<close>)
next
  case False
  then have "reply_credit st rep = (\<lambda>_. 0)" by (auto simp: reply_credit_def)
  moreover have "chain_books st (\<lambda>_. 0) r st'"
    using assms unfolding rt_reply_def if_not_P [OF False]
    by (auto split: if_splits intro: reply_ok_chain vlp_instantiate_reply_chain)
  ultimately show ?thesis by simp
qed

section \<open>Histories\<close>

text \<open>
  What a router has done since \<open>st0\<close>: any messages by anyone, replies, packets, acknowledgements and time-outs, in any
  order and with any answers to its queries, with the sums of the credits and of the releases.
\<close>

inductive rt_history :: "rt_storage \<Rightarrow> (escrow_key \<Rightarrow> nat) \<Rightarrow> (escrow_key \<Rightarrow> nat) \<Rightarrow> rt_storage \<Rightarrow> bool" for st0 where
  begun: "rt_history st0 (\<lambda>_. 0) (\<lambda>_. 0) st0"
| executed: "rt_history st0 c d st \<Longrightarrow> rt_execute qv ql st env info msg = Inr (st', r) \<Longrightarrow>
    rt_history st0 (\<lambda>k. c k + exec_credit ql st msg k) (\<lambda>k. d k + released r k) st'"
| replied: "rt_history st0 c d st \<Longrightarrow> rt_reply av ql st env rep = Inr (st', r) \<Longrightarrow>
    rt_history st0 (\<lambda>k. c k + reply_credit st rep k) (\<lambda>k. d k + released r k) st'"
| received: "rt_history st0 c d st \<Longrightarrow> ibc_packet_receive st env p = Inr (st', r) \<Longrightarrow>
    rt_history st0 c (\<lambda>k. d k + released r k) st'"
| acknowledged: "rt_history st0 c d st \<Longrightarrow> ibc_packet_ack st env a = Inr (st', r) \<Longrightarrow>
    rt_history st0 c (\<lambda>k. d k + released r k) st'"
| timed_out: "rt_history st0 c d st \<Longrightarrow> ibc_packet_timeout st env p = Inr (st', r) \<Longrightarrow>
    rt_history st0 c (\<lambda>k. d k + released r k) st'"

lemma packet_entry_chain:
  "ibc_packet_receive st env p = Inr (st', r) \<Longrightarrow> chain_books st (\<lambda>_. 0) r st'"
  "ibc_packet_ack st env a = Inr (st', r) \<Longrightarrow> chain_books st (\<lambda>_. 0) r st'"
  "ibc_packet_timeout st env p = Inr (st', r) \<Longrightarrow> chain_books st (\<lambda>_. 0) r st'"
  by (auto simp: ibc_packet_receive_def ibc_packet_ack_def ibc_packet_timeout_def bindR_eq_Inr Let_def submsg_defs
      intro!: chain_books_quiet)

lemma chain_booksD: "chain_books st c r st' \<Longrightarrow> recorded st' k + released r k = recorded st k + c k"
  unfolding chain_books_def by blast

lemma rt_history_books: "rt_history st0 c d st \<Longrightarrow> recorded st k + d k = recorded st0 k + c k"
proof (induction rule: rt_history.induct)
  case (executed c d st qv ql env info msg st' r)
  with chain_booksD [OF rt_execute_chain [OF executed.hyps(2)], of k] show ?case by simp
next
  case (replied c d st av ql env rep st' r)
  with chain_booksD [OF rt_reply_chain [OF replied.hyps(2)], of k] show ?case by simp
next
  case (received c d st env p st' r)
  with chain_booksD [OF packet_entry_chain(1) [OF received.hyps(2)], of k] show ?case by simp
next
  case (acknowledged c d st env a st' r)
  with chain_booksD [OF packet_entry_chain(2) [OF acknowledged.hyps(2)], of k] show ?case by simp
next
  case (timed_out c d st env p st' r)
  with chain_booksD [OF packet_entry_chain(3) [OF timed_out.hyps(2)], of k] show ?case by simp
qed simp

text \<open>
  C6: The escrow record of every chain follows its packets. Over any history of the router, for every token and every
  chain, what is recorded in escrow and what the chain was told to release are together what was recorded at the start,
  what messages in the name of that chain's users brought in with swaps and deposits, and the releases to that chain that
  were reported to have failed. A message of one chain raises no other chain's record, and the administrator's messages
  change none.
\<close>

theorem escrow_record_follows_packets:
  assumes "rt_history st0 c d st"
  shows "unat (amount_at (ESCROW_BALANCES st) (tk, u)) + d (tk, u)
     = unat (amount_at (ESCROW_BALANCES st0) (tk, u)) + c (tk, u)"
  using rt_history_books [OF assms] .

text \<open>A swap of ten from one chain: its record goes up by ten, the record of the other chain stays.\<close>

theorem escrow_record_follows_packets_witness:
  "\<exists>st c d. rt_history (ex_hub False) c d st \<and> st \<noteq> ex_hub False \<and> d (ex_tk, ex_uid ''osmosis'') = 0
     \<and> unat (amount_at (ESCROW_BALANCES st) (ex_tk, ex_uid ''osmosis'')) = 110
     \<and> unat (amount_at (ESCROW_BALANCES st) (ex_tk, ex_uid ''juno'')) = 50"
proof -
  let ?msg = "R_IbcCallbackReceive (ex_packet ''osmosis'' (CI_Swap (ex_swap 5)))"
  have "\<exists>st r. rt_execute (ex_vb 0) (\<lambda>_. parse_error) (ex_hub False) ex_env (ex_info ''router'') ?msg = Ok (st, r)
      \<and> SWAP_ID_TO_MSG st \<noteq> [] \<and> (\<forall>k. released r k = 0)"
    by (simp add: rt_execute_def ibc_receive_internal_call_def reusable_internal_call_def ex_packet_def ibc_execute_swap_def
        ex_swap_def ex_hub_def ex_state_def ex_chain_def ex_user_def slice_first_def slice_last_def split_first_def ex_route
        map_has_def map_load_def map_may_load_def map_save_def item_load_def Let_def add_escrow_def checked_add_def unwrap_or_def
        map_err_def submsg_defs)
  then obtain st r where run: "rt_execute (ex_vb 0) (\<lambda>_. parse_error) (ex_hub False) ex_env (ex_info ''router'') ?msg = Ok (st, r)"
    and st: "SWAP_ID_TO_MSG st \<noteq> []" and quiet: "\<And>k. released r k = 0" by blast
  note history = rt_history.executed [OF rt_history.begun run, unfolded quiet]
  have "st \<noteq> ex_hub False" using st by (auto simp: ex_hub_def)
  moreover have "unat (amount_at (ESCROW_BALANCES st) (ex_tk, ex_uid ''osmosis'')) = 110"
      "unat (amount_at (ESCROW_BALANCES st) (ex_tk, ex_uid ''juno'')) = 50"
    using escrow_record_follows_packets [OF history, of ex_tk "ex_uid ''osmosis''"]
      escrow_record_follows_packets [OF history, of ex_tk "ex_uid ''juno''"]
    by (simp_all add: exec_credit_def ex_packet_def ex_swap_def ex_user_def ex_hub_def amount_at_def map_may_load_def)
  ultimately show ?thesis using history by (intro exI conjI) (assumption | simp)+
qed

end
