(* ===== verification/Factory.thy ===== *)
theory Factory
  imports Ibc_Channel
begin

text \<open>
  The factory contract on each liquidity chain, \<^verbatim>\<open>contracts/liquidity/factory/src\<close>: users send their
  requests to it, it holds their funds while the request is pending, forwards the request to the router, and
  on the acknowledgement moves the funds to the escrow of the token or gives them back. It also obeys the
  router: it tells an escrow to release funds.

  Arguments that stand for code outside the repository: \<open>addr_validate\<close>, the address check of the chain;
  \<open>query_supply\<close>, the bank's supply of a denomination; \<open>validate_lp\<close>, the check of the LP token's instantiation
  message in the token library. \<open>token_allowed\<close> and \<open>allowed_denoms\<close> are the answers of an escrow contract to the
  queries of that name.
\<close>

section \<open>State\<close>

record fac_State =
  fs_router_contract :: string
  fs_admin :: string
  fs_escrow_code_id :: u64
  fs_cw20_code_id :: u64
  fs_chain_uid :: ChainUid
  fs_is_native :: bool
  fs_partner_fees_collected :: DenomFees

text \<open>
  The maps \<^verbatim>\<open>PENDING_POOL_REQUESTS\<close> and \<^verbatim>\<open>PENDING_ESCROW_REQUESTS\<close> have the same storage prefix, so they are
  one map; reading an entry of the other kind is a parse error.
\<close>

datatype pending_request = PendingPool PoolCreateRequest | PendingEscrow EscrowCreateRequest

type_synonym pending_key = "addr \<times> string"

record fac_storage =
  F_STATE :: "fac_State option"
  HUB_CHANNEL :: "string option"
  PAIR_TO_VLP :: "(Token \<times> Token, string) store"
  VLP_TO_LP_SHARES :: "(string, uint128) store"
  TOKEN_TO_ESCROW :: "(Token, addr) store"
  VLP_TO_CW20 :: "(string, addr) store"
  PENDING_REQUESTS :: "(pending_key, pending_request) store"
  PENDING_SWAPS :: "(pending_key, SwapRequest) store"
  PENDING_ADD_LIQUIDITY :: "(pending_key, AddLiquidityRequest) store"
  F_PENDING_REMOVE_LIQUIDITY :: "(pending_key, RemoveLiquidityRequest) store"
  CHAIN_QUEUE :: "ChainIbcExecuteMsg msg_queue"
  F_TX_NONCE :: "uint128 option"
  F_CHANNELS :: channel_counts

type_synonym fac_result = "(fac_storage \<times> Response) result"

type_synonym addr_validator = "string \<Rightarrow> addr result"

type_synonym allowed_querier = "addr \<Rightarrow> TokenType \<Rightarrow> bool result"

definition pool_request_may_load :: "fac_storage \<Rightarrow> pending_key \<Rightarrow> PoolCreateRequest option result" where
  "pool_request_may_load st k =
     (case map_may_load (PENDING_REQUESTS st) k of
        None \<Rightarrow> Ok None
      | Some (PendingPool r) \<Rightarrow> Ok (Some r)
      | Some (PendingEscrow _) \<Rightarrow> parse_error)"

definition escrow_request_may_load :: "fac_storage \<Rightarrow> pending_key \<Rightarrow> EscrowCreateRequest option result" where
  "escrow_request_may_load st k =
     (case map_may_load (PENDING_REQUESTS st) k of
        None \<Rightarrow> Ok None
      | Some (PendingEscrow r) \<Rightarrow> Ok (Some r)
      | Some (PendingPool _) \<Rightarrow> parse_error)"

definition ESCROW_INSTANTIATE_REPLY_ID :: u64 where
  "ESCROW_INSTANTIATE_REPLY_ID = 1"

definition F_IBC_ACK_AND_TIMEOUT_REPLY_ID :: u64 where
  "F_IBC_ACK_AND_TIMEOUT_REPLY_ID = 2"

definition F_IBC_RECEIVE_REPLY_ID :: u64 where
  "F_IBC_RECEIVE_REPLY_ID = 3"

definition CW20_INSTANTIATE_REPLY_ID :: u64 where
  "CW20_INSTANTIATE_REPLY_ID = 4"

lemmas fac_reply_ids =
  ESCROW_INSTANTIATE_REPLY_ID_def F_IBC_ACK_AND_TIMEOUT_REPLY_ID_def F_IBC_RECEIVE_REPLY_ID_def
  CW20_INSTANTIATE_REPLY_ID_def

text \<open>\<open>generate_tx\<close> and \<open>to_msg\<close> on the factory's own counter and queue.\<close>

definition fac_generate_tx :: "fac_storage \<Rightarrow> env \<Rightarrow> CrossChainUser \<Rightarrow> fac_storage \<times> string" where
  "fac_generate_tx st env sender =
     (let (nonce, tx_id) = generate_tx (F_TX_NONCE st) env sender in (st\<lparr>F_TX_NONCE := nonce\<rparr>, tx_id))"

definition fac_to_msg ::
    "fac_storage \<Rightarrow> env \<Rightarrow> ChainIbcExecuteMsg \<Rightarrow> fac_State \<Rightarrow> string \<Rightarrow> u64 \<Rightarrow> (fac_storage \<times> SubMsg) result" where
  "fac_to_msg st env msg state channel timeout =
     bindR (ChainIbc_to_msg (CHAIN_QUEUE st) env msg (fs_router_contract state) (fs_chain_uid state)
              (fs_is_native state) channel timeout)
       (\<lambda>(q, m). Ok (st\<lparr>CHAIN_QUEUE := q\<rparr>, m))"

section \<open>Requests of users\<close>

definition execute_update_hub_channel :: "fac_storage \<Rightarrow> message_info \<Rightarrow> string \<Rightarrow> fac_result" where
  "execute_update_hub_channel st info new_channel =
     bindR (item_load (F_STATE st)) (\<lambda>state.
     ensure (info_sender info = fs_admin state) Unauthorized
     (Ok (st\<lparr>HUB_CHANNEL := Some new_channel\<rparr>, Response_new)))"

definition fac_execute_request_pool_creation ::
    "(LpTokenInstantiateMsg \<Rightarrow> unit result) \<Rightarrow> allowed_querier \<Rightarrow> fac_storage \<Rightarrow> env \<Rightarrow> message_info \<Rightarrow> PairWithDenom
       \<Rightarrow> string \<Rightarrow> string \<Rightarrow> 8 word \<Rightarrow> string option \<Rightarrow> u64 option \<Rightarrow> fac_result" where
  "fac_execute_request_pool_creation validate_lp token_allowed st env info pair lp_token_name lp_token_symbol
       lp_token_decimal lp_token_marketing timeout =
     bindR (item_load (F_STATE st)) (\<lambda>state.
     let sender = \<lparr>ccu_chain_uid = fs_chain_uid state, ccu_address = info_sender info\<rparr>;
         (st, tx_id) = fac_generate_tx st env sender
     in ensure (\<not> map_has (PENDING_REQUESTS st) (info_sender info, tx_id)) TxAlreadyExist
        (bindR (get_pair pair) (\<lambda>p.
         ensure (\<not> map_has (PAIR_TO_VLP st) (get_tupple p)) PoolAlreadyExists
         (bindR (eachR (\<lambda>token.
             case map_may_load (TOKEN_TO_ESCROW st) (twd_token token) of
               None \<Rightarrow> Ok ()
             | Some escrow_address \<Rightarrow>
                 bindR (token_allowed escrow_address (twd_token_type token)) (\<lambda>allowed.
                 ensure allowed UnsupportedDenomination (Ok ())))
             (get_vec_token_info pair)) (\<lambda>_.
          bindR (item_load (HUB_CHANNEL st)) (\<lambda>channel.
          bindR (get_timeout timeout) (\<lambda>timeout.
          let lp_token_instantiate_msg =
                \<lparr>lpt_name = lp_token_name, lpt_symbol = lp_token_symbol, lpt_decimals = lp_token_decimal,
                 lpt_initial_balances = [], lpt_mint = Some \<lparr>minter = contract_address env, cap = None\<rparr>,
                 lpt_marketing = lp_token_marketing\<rparr>
          in bindR (validate_lp lp_token_instantiate_msg) (\<lambda>_.
             let req = \<lparr>pcq_sender = info_sender info, pcq_tx_id = tx_id, pcq_pair_info = pair,
                        pcq_lp_token_instantiate_msg = lp_token_instantiate_msg\<rparr>;
                 st = st\<lparr>PENDING_REQUESTS :=
                        map_save (PENDING_REQUESTS st) (info_sender info, tx_id) (PendingPool req)\<rparr>
             in bindR (get_pair pair) (\<lambda>p.
                bindR (fac_to_msg st env (CI_RequestPoolCreation sender tx_id p) state channel timeout)
                  (\<lambda>(st, pool_create_msg).
                Ok (st, add_submessage pool_create_msg Response_new)))))))))))"

definition execute_request_register_escrow ::
    "fac_storage \<Rightarrow> env \<Rightarrow> message_info \<Rightarrow> TokenWithDenom \<Rightarrow> u64 option \<Rightarrow> fac_result" where
  "execute_request_register_escrow st env info token timeout =
     bindR (item_load (F_STATE st)) (\<lambda>state.
     ensure (fs_admin state = info_sender info) Unauthorized
     (let sender = \<lparr>ccu_chain_uid = fs_chain_uid state, ccu_address = info_sender info\<rparr>;
          (st, tx_id) = fac_generate_tx st env sender
      in ensure (\<not> map_has (PENDING_REQUESTS st) (info_sender info, tx_id)) TxAlreadyExist
         (ensure (\<not> map_has (TOKEN_TO_ESCROW st) (twd_token token)) TokenAlreadyExist
         (bindR (item_load (HUB_CHANNEL st)) (\<lambda>channel.
          bindR (get_timeout timeout) (\<lambda>timeout.
          bindR (fac_to_msg st env (CI_RequestEscrowCreation sender tx_id (twd_token token)) state channel timeout)
            (\<lambda>(st, register_escrow_msg).
          let req = \<lparr>ecq_sender = info_sender info, ecq_tx_id = tx_id, ecq_token = token\<rparr> in
          Ok (st\<lparr>PENDING_REQUESTS := map_save (PENDING_REQUESTS st) (info_sender info, tx_id) (PendingEscrow req)\<rparr>,
              add_submessage register_escrow_msg Response_new))))))))"

text \<open>
  The funding of one side of a deposit: a contract token is pulled from the sender's allowance, a native one
  must be attached.
\<close>

definition fund_token ::
    "env \<Rightarrow> message_info \<Rightarrow> string \<Rightarrow> TokenWithDenom \<Rightarrow> uint128 \<Rightarrow> CosmosMsg list result" where
  "fund_token env info sender token liquidity =
     (if TokenType_is_smart (twd_token_type token)
      then Ok [create_transfer_msg (twd_token_type token) liquidity (contract_address env) (Some sender)]
      else ensure (info_funds info \<noteq> []) InsufficientDeposit
        (bindR (ok_or (find (\<lambda>x. coin_denom x = get_denom (twd_token_type token)) (info_funds info))
                  (Generic ''Denom not found'')) (\<lambda>amt.
         ensure (liquidity \<le> coin_amount amt) InsufficientDeposit
         (Ok []))))"

definition add_liquidity_request ::
    "allowed_querier \<Rightarrow> fac_storage \<Rightarrow> message_info \<Rightarrow> env \<Rightarrow> PairWithDenom \<Rightarrow> uint128 \<Rightarrow> uint128 \<Rightarrow> u64
       \<Rightarrow> u64 option \<Rightarrow> fac_result" where
  "add_liquidity_request token_allowed st info env pair_info token_1_liquidity token_2_liquidity slippage_tolerance
       timeout =
     bindR (PairWithDenom_validate pair_info) (\<lambda>_.
     bindR (get_pair pair_info) (\<lambda>pair.
     bindR (item_load (F_STATE st)) (\<lambda>state.
     let sender = \<lparr>ccu_chain_uid = fs_chain_uid state, ccu_address = info_sender info\<rparr>;
         (st, tx_id) = fac_generate_tx st env sender
     in ensure (1 \<le> slippage_tolerance \<and> slippage_tolerance \<le> 100) InvalidSlippageTolerance
        (ensure (\<not> map_has (PENDING_ADD_LIQUIDITY st) (info_sender info, tx_id)) TxAlreadyExist
        (ensure (map_has (PAIR_TO_VLP st) (get_tupple pair)) PoolDoesNotExists
        (bindR (item_load (HUB_CHANNEL st)) (\<lambda>channel.
         bindR (get_timeout timeout) (\<lambda>timeout.
         ensure (\<not> (token_1_liquidity = 0 \<or> token_2_liquidity = 0)) ZeroAssetAmount
         (bindR (eachR (\<lambda>token.
             bindR (map_err (map_load (TOKEN_TO_ESCROW st) (twd_token token)) EscrowDoesNotExist) (\<lambda>escrow_address.
             bindR (token_allowed escrow_address (twd_token_type token)) (\<lambda>allowed.
             ensure allowed UnsupportedDenomination (Ok ()))))
             (get_vec_token_info pair_info)) (\<lambda>_.
          bindR (fund_token env info (ccu_address sender) (pwd_token_1 pair_info) token_1_liquidity) (\<lambda>msgs_1.
          bindR (fund_token env info (ccu_address sender) (pwd_token_2 pair_info) token_2_liquidity) (\<lambda>msgs_2.
          let liquidity_tx_info =
                \<lparr>alr_sender = info_sender info, alr_tx_id = tx_id, alr_token_1_liquidity = token_1_liquidity,
                 alr_token_2_liquidity = token_2_liquidity, alr_pair_info = pair_info\<rparr>;
              st = st\<lparr>PENDING_ADD_LIQUIDITY :=
                map_save (PENDING_ADD_LIQUIDITY st) (info_sender info, tx_id) liquidity_tx_info\<rparr>
          in bindR (fac_to_msg st env
                      (CI_AddLiquidity sender token_1_liquidity token_2_liquidity slippage_tolerance pair tx_id)
                      state channel timeout) (\<lambda>(st, add_liq_msg).
             Ok (st, add_submessage add_liq_msg (add_messages (msgs_1 @ msgs_2) Response_new)))))))))))))))"

definition remove_liquidity_request ::
    "addr_validator \<Rightarrow> fac_storage \<Rightarrow> message_info \<Rightarrow> env \<Rightarrow> CrossChainUser \<Rightarrow> Pair \<Rightarrow> uint128 \<Rightarrow> u64 option
       \<Rightarrow> CrossChainUserWithLimit list \<Rightarrow> fac_result" where
  "remove_liquidity_request addr_validate st info env sender pair lp_allocation timeout cross_chain_addresses =
     bindR (item_load (F_STATE st)) (\<lambda>state.
     bindR (addr_validate (ccu_address sender)) (\<lambda>sender_addr.
     let (st, tx_id) = fac_generate_tx st env sender in
     ensure (\<not> map_has (F_PENDING_REMOVE_LIQUIDITY st) (sender_addr, tx_id)) TxAlreadyExist
     (bindR (map_load (PAIR_TO_VLP st) (get_tupple pair)) (\<lambda>vlp.
      bindR (map_load (VLP_TO_CW20 st) vlp) (\<lambda>cw20.
      ensure (cw20 = info_sender info) Unauthorized
      (ensure (map_has (PAIR_TO_VLP st) (get_tupple pair)) PoolDoesNotExists
      (bindR (item_load (HUB_CHANNEL st)) (\<lambda>channel.
       bindR (get_timeout timeout) (\<lambda>timeout.
       ensure (lp_allocation \<noteq> 0) ZeroAssetAmount
       (let liquidity_tx_info =
              \<lparr>rlr_sender = sender_addr, rlr_tx_id = tx_id, rlr_lp_allocation = lp_allocation, rlr_pair = pair,
               rlr_cw20 = cw20\<rparr>;
            st = st\<lparr>F_PENDING_REMOVE_LIQUIDITY :=
              map_save (F_PENDING_REMOVE_LIQUIDITY st) (sender_addr, tx_id) liquidity_tx_info\<rparr>
        in bindR (fac_to_msg st env
                    (CI_RemoveLiquidity \<lparr>crl_sender = sender, crl_lp_allocation = lp_allocation, crl_pair = pair,
                       crl_cross_chain_addresses = cross_chain_addresses, crl_tx_id = tx_id\<rparr>)
                    state channel timeout) (\<lambda>(st, remove_liq_msg).
           Ok (st, add_submessage remove_liq_msg Response_new))))))))))))"

definition execute_swap_request ::
    "('d, 'e) cw_math \<Rightarrow> addr_validator \<Rightarrow> (string \<Rightarrow> uint128 result) \<Rightarrow> allowed_querier \<Rightarrow> fac_storage \<Rightarrow> message_info
       \<Rightarrow> env \<Rightarrow> CrossChainUser \<Rightarrow> TokenWithDenom \<Rightarrow> Token \<Rightarrow> uint128 \<Rightarrow> uint128 \<Rightarrow> NextSwapPair list \<Rightarrow> u64 option
       \<Rightarrow> CrossChainUserWithLimit list \<Rightarrow> PartnerFee option \<Rightarrow> fac_result" where
  "execute_swap_request M addr_validate query_supply token_allowed st info env sender asset_in asset_out amount_in
       min_amount_out swaps timeout cross_chain_addresses partner_fee =
     bindR (item_load (F_STATE st)) (\<lambda>state.
     bindR (addr_validate (ccu_address sender)) (\<lambda>sender_addr.
     bindR (TokenWithDenom_validate query_supply asset_in) (\<lambda>_.
     let (st, tx_id) = fac_generate_tx st env sender;
         partner_fee_bps = (case partner_fee of Some fee \<Rightarrow> pf_partner_fee_bps fee | None \<Rightarrow> 0)
     in ensure (partner_fee_bps \<le> MAX_PARTNER_FEE_BPS) InvalidPartnerFee
        (bindR (checked_mul_ceil M amount_in (decimal_bps M partner_fee_bps)) (\<lambda>partner_fee_amount.
         bindR (checked_sub amount_in partner_fee_amount) (\<lambda>amount_in.
         ensure (amount_in \<noteq> 0) ZeroAssetAmount
         (ensure (min_amount_out \<noteq> 0) ZeroAssetAmount
         (ensure (\<not> map_has (PENDING_SWAPS st) (sender_addr, tx_id)) TxAlreadyExist
         (bindR (ok_or (slice_first swaps) (Generic ''Empty Swap not allowed'')) (\<lambda>first_swap.
          ensure (nsp_token_in first_swap = twd_token asset_in)
            (Generic (''Amount in doesn'' @ [CHR 0x27] @ ''t match swap route''))
          (bindR (ok_or (slice_last swaps) (Generic ''Empty Swap not allowed'')) (\<lambda>last_swap.
           ensure (nsp_token_out last_swap = asset_out)
             (Generic (''Amount out doesn'' @ [CHR 0x27] @ ''t match swap route''))
           (bindR (item_load (HUB_CHANNEL st)) (\<lambda>channel.
            bindR (get_timeout timeout) (\<lambda>timeout.
            bindR (map_load (TOKEN_TO_ESCROW st) (twd_token asset_in)) (\<lambda>escrow.
            bindR (token_allowed escrow (twd_token_type asset_in)) (\<lambda>allowed.
            ensure allowed UnsupportedDenomination
            (bindR (if TokenType_is_native (twd_token_type asset_in)
                    then bindR (ok_or (find (\<lambda>x. coin_denom x = get_denom (twd_token_type asset_in)) (info_funds info))
                                  (Generic ''Denom not found'')) (\<lambda>x.
                         if coin_amount x < amount_in then Err (Generic ''Funds attached are less than funds needed'')
                         else Ok ())
                    else ensure (info_sender info = get_denom (twd_token_type asset_in)) Unauthorized (Ok ())) (\<lambda>_.
             bindR (case partner_fee of
                      None \<Rightarrow> Ok None
                    | Some fee \<Rightarrow> bindR (addr_validate (pf_recipient fee)) (\<lambda>a. Ok (Some a))) (\<lambda>partner_fee_recipient.
             let swap_info =
                   \<lparr>sr_sender = sender_addr, sr_tx_id = tx_id, sr_asset_in = asset_in, sr_asset_out = asset_out,
                    sr_amount_in = amount_in, sr_min_amount_out = min_amount_out, sr_swaps = swaps,
                    sr_timeout = plus_seconds (block_time env) timeout,
                    sr_cross_chain_addresses = cross_chain_addresses, sr_partner_fee_amount = partner_fee_amount,
                    sr_partner_fee_recipient = partner_fee_recipient\<rparr>;
                 st = st\<lparr>PENDING_SWAPS := map_save (PENDING_SWAPS st) (sender_addr, tx_id) swap_info\<rparr>
             in bindR (fac_to_msg st env
                         (CI_Swap \<lparr>csw_sender = sender, csw_asset_in = twd_token asset_in, csw_amount_in = amount_in,
                            csw_asset_out = asset_out, csw_min_amount_out = min_amount_out, csw_swaps = swaps,
                            csw_cross_chain_addresses = cross_chain_addresses, csw_tx_id = tx_id\<rparr>)
                         state channel timeout) (\<lambda>(st, swap_msg).
                Ok (st, add_submessage swap_msg Response_new))))))))))))))))))))))"

definition fac_receive_cw20 ::
    "('d, 'e) cw_math \<Rightarrow> addr_validator \<Rightarrow> (string \<Rightarrow> uint128 result) \<Rightarrow> allowed_querier \<Rightarrow> fac_storage \<Rightarrow> env
       \<Rightarrow> message_info \<Rightarrow> Cw20ReceiveMsg \<Rightarrow> fac_result" where
  "fac_receive_cw20 M addr_validate query_supply token_allowed st env info cw20_msg =
     bindR (item_load (F_STATE st)) (\<lambda>state.
     let sender = \<lparr>ccu_chain_uid = fs_chain_uid state, ccu_address = crm_sender cw20_msg\<rparr> in
     bindR (from_json_hook (crm_msg cw20_msg)) (\<lambda>hook.
     case hook of
       Hook_Swap asset_in asset_out min_amount_out swaps timeout cross_chain_addresses partner_fee \<Rightarrow>
         ensure (info_sender info = get_denom (twd_token_type asset_in)) AssetDoesNotExist
         (execute_swap_request M addr_validate query_supply token_allowed st info env sender asset_in asset_out
            (crm_amount cw20_msg) min_amount_out swaps timeout cross_chain_addresses partner_fee)
     | Hook_RemoveLiquidity pair lp_allocation timeout cross_chain_addresses \<Rightarrow>
         remove_liquidity_request addr_validate st info env sender pair lp_allocation timeout cross_chain_addresses
     | Hook_Deposit \<Rightarrow> Err NotImplemented))"

definition execute_request_register_denom :: "fac_storage \<Rightarrow> message_info \<Rightarrow> TokenWithDenom \<Rightarrow> fac_result" where
  "execute_request_register_denom st info token =
     bindR (item_load (F_STATE st)) (\<lambda>state.
     ensure (fs_admin state = info_sender info) Unauthorized
     (bindR (map_err (map_load (TOKEN_TO_ESCROW st) (twd_token token)) EscrowDoesNotExist) (\<lambda>escrow_address.
      Ok (st, add_submessage (SubMsg_new (Wasm_Execute escrow_address
             (To_Escrow (ESC_AddAllowedDenom (twd_token_type token))) [])) Response_new))))"

definition execute_request_deregister_denom :: "fac_storage \<Rightarrow> message_info \<Rightarrow> TokenWithDenom \<Rightarrow> fac_result" where
  "execute_request_deregister_denom st info token =
     bindR (item_load (F_STATE st)) (\<lambda>state.
     ensure (fs_admin state = info_sender info) Unauthorized
     (bindR (map_err (map_load (TOKEN_TO_ESCROW st) (twd_token token)) EscrowDoesNotExist) (\<lambda>escrow_address.
      Ok (st, add_submessage (SubMsg_new (Wasm_Execute escrow_address
             (To_Escrow (ESC_DisallowDenom (twd_token_type token))) [])) Response_new))))"

definition execute_withdraw_virtual_balance ::
    "fac_storage \<Rightarrow> env \<Rightarrow> message_info \<Rightarrow> Token \<Rightarrow> uint128 \<Rightarrow> CrossChainUserWithLimit list \<Rightarrow> u64 option \<Rightarrow> fac_result" where
  "execute_withdraw_virtual_balance st env info token amount cross_chain_addresses timeout =
     bindR (item_load (F_STATE st)) (\<lambda>state.
     bindR (item_load (HUB_CHANNEL st)) (\<lambda>channel.
     let sender = \<lparr>ccu_chain_uid = fs_chain_uid state, ccu_address = info_sender info\<rparr>;
         (st, tx_id) = fac_generate_tx st env sender
     in bindR (get_timeout timeout) (\<lambda>timeout.
        bindR (fac_to_msg st env
                 (CI_Withdraw \<lparr>cwd_sender = sender, cwd_token = token, cwd_amount = amount,
                    cwd_cross_chain_addresses = cross_chain_addresses, cwd_tx_id = tx_id, cwd_timeout = Some timeout\<rparr>)
                 state channel timeout) (\<lambda>(st, withdraw_msg).
        Ok (st, add_submessage withdraw_msg Response_new)))))"

section \<open>Messages of the router\<close>

definition execute_register_router :: "fac_storage \<Rightarrow> env \<Rightarrow> ChainUid \<Rightarrow> string \<Rightarrow> fac_result" where
  "execute_register_router st env chain_uid tx_id =
     bindR (ChainUid_validate chain_uid) (\<lambda>chain_uid.
     let ack_msg = \<lparr>rfresp_factory_address = contract_address env, rfresp_chain_id = block_chain_id env\<rparr> in
     bindR (item_load (F_STATE st)) (\<lambda>state.
     ensure (fs_chain_uid state = chain_uid) (Generic ''Chain UID mismatch'')
     (Ok (st, set_data (Json_Ack (AckOk (FactoryRegistered ack_msg))) Response_new))))"

definition fac_execute_update_factory_channel :: "fac_storage \<Rightarrow> env \<Rightarrow> ChainUid \<Rightarrow> string \<Rightarrow> fac_result" where
  "fac_execute_update_factory_channel st env chain_uid tx_id =
     bindR (ChainUid_validate chain_uid) (\<lambda>chain_uid.
     let ack_msg = \<lparr>rfresp_factory_address = contract_address env, rfresp_chain_id = block_chain_id env\<rparr> in
     bindR (item_load (F_STATE st)) (\<lambda>state.
     ensure (fs_chain_uid state = chain_uid) (Generic ''Chain UID mismatch'')
     (Ok (st, set_data (Json_Ack (AckOk (FactoryRegistered ack_msg))) Response_new))))"

definition fac_execute_release_escrow ::
    "addr_validator \<Rightarrow> fac_storage \<Rightarrow> env \<Rightarrow> uint128 \<Rightarrow> Token \<Rightarrow> string \<Rightarrow> string \<Rightarrow> fac_result" where
  "fac_execute_release_escrow addr_validate st env amount token to_address tx_id =
     bindR (addr_validate to_address) (\<lambda>recipient.
     let withdraw_msg = ESC_Withdraw recipient amount;
         ack_msg = \<lparr>reresp_factory_address = contract_address env, reresp_chain_id = block_chain_id env,
                    reresp_amount = amount, reresp_token = token, reresp_to_address = to_address\<rparr>
     in bindR (Token_validate token) (\<lambda>t.
        bindR (map_load (TOKEN_TO_ESCROW st) t) (\<lambda>escrow_address.
        Ok (st, set_data (Json_Ack (AckOk (EscrowReleased ack_msg)))
                  (add_message (Wasm_Execute escrow_address (To_Escrow withdraw_msg) []) Response_new)))))"

definition fac_reusable_internal_call ::
    "addr_validator \<Rightarrow> fac_storage \<Rightarrow> env \<Rightarrow> HubIbcExecuteMsg \<Rightarrow> fac_result" where
  "fac_reusable_internal_call addr_validate st env msg =
     (case msg of
        HI_RegisterFactory chain_uid tx_id \<Rightarrow> execute_register_router st env chain_uid tx_id
      | HI_ReleaseEscrow _ _ amount token to_address tx_id \<Rightarrow>
          fac_execute_release_escrow addr_validate st env amount token to_address tx_id
      | HI_UpdateFactoryChannel chain_uid tx_id \<Rightarrow> fac_execute_update_factory_channel st env chain_uid tx_id)"

text \<open>\<open>s.replace(p, "")\<close> for a pattern that is not empty: every occurrence, from the left.\<close>

function replace_empty :: "string \<Rightarrow> string \<Rightarrow> string" where
  "replace_empty p s =
     (if p \<noteq> [] \<and> s \<noteq> [] \<and> take (length p) s = p then replace_empty p (drop (length p) s)
      else case s of [] \<Rightarrow> [] | c # cs \<Rightarrow> c # replace_empty p cs)"
  by pat_completeness auto
termination
  by (relation "measure (\<lambda>(p, s). length s)") auto

declare replace_empty.simps [simp del]

definition fac_ibc_receive_internal_call :: "addr_validator \<Rightarrow> fac_storage \<Rightarrow> env \<Rightarrow> IbcPacket \<Rightarrow> fac_result" where
  "fac_ibc_receive_internal_call addr_validate st env packet =
     (let router = replace_empty ''wasm.'' (port_id (packet_src packet)) in
      bindR (item_load (F_STATE st)) (\<lambda>state.
      ensure (fs_router_contract state = router) Unauthorized
      (bindR (item_load (HUB_CHANNEL st)) (\<lambda>hub_channel.
       ensure (hub_channel = channel_id (packet_dest packet)) Unauthorized
       (bindR (from_json_hub_ibc (packet_data packet)) (\<lambda>msg.
        fac_reusable_internal_call addr_validate st env msg))))))"

definition fac_ibc_packet_receive :: "fac_storage \<Rightarrow> env \<Rightarrow> IbcPacket \<Rightarrow> fac_result" where
  "fac_ibc_packet_receive st env packet =
     Ok (st, add_submessage (reply_always
          (Wasm_Execute (contract_address env) (To_Factory (F_IbcCallbackReceive packet)) []) F_IBC_RECEIVE_REPLY_ID)
        (set_data (make_ack_fail ''deafult_fail'') Response_new))"

definition fac_execute_native_receive_callback ::
    "addr_validator \<Rightarrow> fac_storage \<Rightarrow> env \<Rightarrow> message_info \<Rightarrow> binary \<Rightarrow> fac_result" where
  "fac_execute_native_receive_callback addr_validate st env info msg =
     bindR (from_json_hub_ibc msg) (\<lambda>msg.
     bindR (item_load (F_STATE st)) (\<lambda>state.
     ensure (fs_is_native state) Unauthorized
     (ensure (fs_router_contract state = info_sender info) Unauthorized
     (fac_reusable_internal_call addr_validate st env msg))))"

section \<open>Acknowledgements and time-outs\<close>

definition pool_ack :: "ack_data \<Rightarrow> PoolCreationResponse option" where
  "pool_ack d = (case d of PoolCreated r \<Rightarrow> Some r | _ \<Rightarrow> None)"

definition escrow_ack :: "ack_data \<Rightarrow> unit option" where
  "escrow_ack d = (case d of EscrowCreated \<Rightarrow> Some () | _ \<Rightarrow> None)"

definition add_ack :: "ack_data \<Rightarrow> AddLiquidityResponse option" where
  "add_ack d = (case d of LiquidityAdded r \<Rightarrow> Some r | _ \<Rightarrow> None)"

definition remove_ack :: "ack_data \<Rightarrow> RemoveLiquidityResponse option" where
  "remove_ack d = (case d of LiquidityRemoved r \<Rightarrow> Some r | _ \<Rightarrow> None)"

definition swap_ack :: "ack_data \<Rightarrow> SwapResponse option" where
  "swap_ack d = (case d of Swapped r \<Rightarrow> Some r | _ \<Rightarrow> None)"

definition withdraw_ack :: "ack_data \<Rightarrow> WithdrawResponse option" where
  "withdraw_ack d = (case d of WithdrawAccepted r \<Rightarrow> Some r | _ \<Rightarrow> None)"

text \<open>The message that instantiates the escrow of a token.\<close>

definition new_escrow :: "fac_State \<Rightarrow> TokenWithDenom \<Rightarrow> SubMsg" where
  "new_escrow state token = reply_always
     (Wasm_Instantiate (Some (fs_admin state)) (fs_escrow_code_id state)
        (New_Escrow (twd_token token) (Some (twd_token_type token))) [] ''escrow'')
     ESCROW_INSTANTIATE_REPLY_ID"

definition ack_pool_creation ::
    "addr_validator \<Rightarrow> fac_storage \<Rightarrow> env \<Rightarrow> string \<Rightarrow> PoolCreationResponse AcknowledgementMsg \<Rightarrow> string \<Rightarrow> bool
       \<Rightarrow> fac_result" where
  "ack_pool_creation addr_validate st env sender res tx_id is_native =
     bindR (addr_validate sender) (\<lambda>sender.
     let req_key = (sender, tx_id) in
     bindR (pool_request_may_load st req_key) (\<lambda>req.
     bindR (ok_or req (PoolRequestDoesNotExists tx_id)) (\<lambda>existing_req.
     let st = st\<lparr>PENDING_REQUESTS := map_remove (PENDING_REQUESTS st) req_key\<rparr> in
     case res of
       AckOk data \<Rightarrow>
         bindR (item_load (F_STATE st)) (\<lambda>state.
         bindR (get_pair (pcq_pair_info existing_req)) (\<lambda>pair.
         let st = st\<lparr>PAIR_TO_VLP := map_save (PAIR_TO_VLP st) (get_tupple pair) (pcr_vlp_contract data)\<rparr>;
             escrow_msgs = map (new_escrow state)
               (filter (\<lambda>token. \<not> map_has (TOKEN_TO_ESCROW st) (twd_token token))
                  (get_vec_token_info (pcq_pair_info existing_req)))
         in bindR (get_pair (pcq_pair_info existing_req)) (\<lambda>pair.
            let lp_token_instantiate_data = pcq_lp_token_instantiate_msg existing_req;
                init_cw20_msg = Wasm_Instantiate (Some (fs_admin state)) (fs_cw20_code_id state)
                  (New_Cw20 \<lparr>cim_name = lpt_name lp_token_instantiate_data,
                     cim_symbol = lpt_symbol lp_token_instantiate_data,
                     cim_decimals = lpt_decimals lp_token_instantiate_data, cim_initial_balances = [],
                     cim_mint = lpt_mint lp_token_instantiate_data,
                     cim_marketing = lpt_marketing lp_token_instantiate_data, cim_vlp = pcr_vlp_contract data,
                     cim_factory = contract_address env, cim_token_pair = pair\<rparr>) [] ''cw20''
            in Ok (st, add_submessage (reply_always init_cw20_msg CW20_INSTANTIATE_REPLY_ID)
                     (add_submessages escrow_msgs Response_new)))))
     | AckError err \<Rightarrow> if is_native then Err (Generic err) else Ok (st, Response_new))))"

definition ack_escrow_creation ::
    "addr_validator \<Rightarrow> fac_storage \<Rightarrow> string \<Rightarrow> unit AcknowledgementMsg \<Rightarrow> string \<Rightarrow> bool \<Rightarrow> fac_result" where
  "ack_escrow_creation addr_validate st sender res tx_id is_native =
     bindR (addr_validate sender) (\<lambda>sender.
     let req_key = (sender, tx_id) in
     bindR (escrow_request_may_load st req_key) (\<lambda>req.
     bindR (ok_or req (PoolRequestDoesNotExists tx_id)) (\<lambda>existing_req.
     let st = st\<lparr>PENDING_REQUESTS := map_remove (PENDING_REQUESTS st) req_key\<rparr> in
     case res of
       AckOk _ \<Rightarrow>
         bindR (item_load (F_STATE st)) (\<lambda>state.
         Ok (st, add_submessage (new_escrow state (ecq_token existing_req)) Response_new))
     | AckError err \<Rightarrow> if is_native then Err (Generic err) else Ok (st, Response_new))))"

definition ack_add_liquidity ::
    "addr_validator \<Rightarrow> fac_storage \<Rightarrow> AddLiquidityResponse AcknowledgementMsg \<Rightarrow> string \<Rightarrow> string \<Rightarrow> bool \<Rightarrow> fac_result" where
  "ack_add_liquidity addr_validate st res sender tx_id is_native =
     bindR (addr_validate sender) (\<lambda>sender.
     let req_key = (sender, tx_id) in
     bindR (map_load (PENDING_ADD_LIQUIDITY st) req_key) (\<lambda>liquidity_info.
     let st = st\<lparr>PENDING_ADD_LIQUIDITY := map_remove (PENDING_ADD_LIQUIDITY st) req_key\<rparr>;
         token_1 = pwd_token_1 (alr_pair_info liquidity_info);
         token_2 = pwd_token_2 (alr_pair_info liquidity_info)
     in case res of
          AckOk data \<Rightarrow>
            let shares = unwrap_or (map_may_load (VLP_TO_LP_SHARES st) (alresp_vlp_address data)) 0 in
            bindR (checked_add shares (alresp_mint_lp_tokens data)) (\<lambda>shares.
            let st = st\<lparr>VLP_TO_LP_SHARES := map_save (VLP_TO_LP_SHARES st) (alresp_vlp_address data) shares\<rparr> in
            bindR (map_load (TOKEN_TO_ESCROW st) (twd_token token_1)) (\<lambda>escrow_1.
            bindR (map_load (TOKEN_TO_ESCROW st) (twd_token token_2)) (\<lambda>escrow_2.
            bindR (map_load (VLP_TO_CW20 st) (alresp_vlp_address data)) (\<lambda>cw20_address.
            Ok (st, add_messages
                 [create_escrow_msg (twd_token_type token_1) (alr_token_1_liquidity liquidity_info) escrow_1,
                  create_escrow_msg (twd_token_type token_2) (alr_token_2_liquidity liquidity_info) escrow_2,
                  Wasm_Execute cw20_address
                    (To_Cw20 (CW20_Mint (alr_sender liquidity_info) (alresp_mint_lp_tokens data))) []]
                 Response_new)))))
        | AckError err \<Rightarrow>
            if is_native then Err (Generic err)
            else Ok (st, add_messages
                   [create_transfer_msg (twd_token_type token_1) (alr_token_1_liquidity liquidity_info) sender None,
                    create_transfer_msg (twd_token_type token_2) (alr_token_2_liquidity liquidity_info) sender None]
                   Response_new)))"

definition ack_remove_liquidity ::
    "addr_validator \<Rightarrow> fac_storage \<Rightarrow> RemoveLiquidityResponse AcknowledgementMsg \<Rightarrow> string \<Rightarrow> string \<Rightarrow> bool
       \<Rightarrow> fac_result" where
  "ack_remove_liquidity addr_validate st res sender tx_id is_native =
     bindR (addr_validate sender) (\<lambda>sender.
     let req_key = (sender, tx_id) in
     bindR (map_load (F_PENDING_REMOVE_LIQUIDITY st) req_key) (\<lambda>liquidity_info.
     let st = st\<lparr>F_PENDING_REMOVE_LIQUIDITY := map_remove (F_PENDING_REMOVE_LIQUIDITY st) req_key\<rparr> in
     case res of
       AckOk data \<Rightarrow>
         let shares = unwrap_or (map_may_load (VLP_TO_LP_SHARES st) (rlresp_vlp_address data)) 0 in
         bindR (checked_sub shares (rlresp_burn_lp_tokens data)) (\<lambda>shares.
         let st = st\<lparr>VLP_TO_LP_SHARES := map_save (VLP_TO_LP_SHARES st) (rlresp_vlp_address data) shares\<rparr> in
         bindR (map_load (VLP_TO_CW20 st) (rlresp_vlp_address data)) (\<lambda>cw20_address.
         Ok (st, add_message (Wasm_Execute cw20_address (To_Cw20 (CW20_Burn (rlr_lp_allocation liquidity_info))) [])
                   Response_new)))
     | AckError err \<Rightarrow>
         if is_native then Err (Generic err)
         else Ok (st, add_message (Wasm_Execute (rlr_cw20 liquidity_info)
                   (To_Cw20 (CW20_Transfer sender (rlr_lp_allocation liquidity_info))) []) Response_new)))"

definition ack_swap_request ::
    "addr_validator \<Rightarrow> fac_storage \<Rightarrow> SwapResponse AcknowledgementMsg \<Rightarrow> string \<Rightarrow> string \<Rightarrow> bool \<Rightarrow> fac_result" where
  "ack_swap_request addr_validate st res sender tx_id is_native =
     bindR (addr_validate sender) (\<lambda>sender.
     bindR (map_load (PENDING_SWAPS st) (sender, tx_id)) (\<lambda>swap_info.
     let st = st\<lparr>PENDING_SWAPS := map_remove (PENDING_SWAPS st) (sender, tx_id)\<rparr>;
         asset_in = sr_asset_in swap_info
     in case res of
          AckOk data \<Rightarrow>
            bindR (map_load (TOKEN_TO_ESCROW st) (twd_token asset_in)) (\<lambda>escrow_address.
            let send_msg = create_escrow_msg (twd_token_type asset_in) (sr_amount_in swap_info) escrow_address;
                response = add_message send_msg Response_new
            in if sr_partner_fee_amount swap_info \<noteq> 0
               then bindR (item_load (F_STATE st)) (\<lambda>state.
                    bindR (add_fee (fs_partner_fees_collected state) (token_id (twd_token asset_in))
                             (sr_partner_fee_amount swap_info)) (\<lambda>fees.
                    let st = st\<lparr>F_STATE := Some (state\<lparr>fs_partner_fees_collected := fees\<rparr>)\<rparr>;
                        partner_fee_recipient = unwrap_or (sr_partner_fee_recipient swap_info) sender
                    in Ok (st, add_message (create_transfer_msg (twd_token_type asset_in)
                             (sr_partner_fee_amount swap_info) partner_fee_recipient None) response)))
               else Ok (st, response))
        | AckError err \<Rightarrow>
            if is_native then Err (Generic err)
            else bindR (checked_add (sr_amount_in swap_info) (sr_partner_fee_amount swap_info)) (\<lambda>refund.
                 Ok (st, add_message (create_transfer_msg (twd_token_type asset_in) refund sender None)
                           Response_new))))"

definition ack_withdraw_request :: "fac_storage \<Rightarrow> WithdrawResponse AcknowledgementMsg \<Rightarrow> bool \<Rightarrow> fac_result" where
  "ack_withdraw_request st res is_native =
     (case res of
        AckOk _ \<Rightarrow> Ok (st, Response_new)
      | AckError err \<Rightarrow> if is_native then Err (Generic err) else Ok (st, Response_new))"

definition fac_reusable_internal_ack_call ::
    "addr_validator \<Rightarrow> fac_storage \<Rightarrow> env \<Rightarrow> ChainIbcExecuteMsg \<Rightarrow> binary \<Rightarrow> bool \<Rightarrow> fac_result" where
  "fac_reusable_internal_ack_call addr_validate st env msg ack is_native =
     (case msg of
        CI_RequestPoolCreation sender tx_id _ \<Rightarrow>
          bindR (from_json_ack pool_ack ack) (\<lambda>res.
          ack_pool_creation addr_validate st env (ccu_address sender) res tx_id is_native)
      | CI_RequestEscrowCreation sender tx_id _ \<Rightarrow>
          bindR (from_json_ack escrow_ack ack) (\<lambda>res.
          ack_escrow_creation addr_validate st (ccu_address sender) res tx_id is_native)
      | CI_AddLiquidity sender _ _ _ _ tx_id \<Rightarrow>
          bindR (from_json_ack add_ack ack) (\<lambda>res.
          ack_add_liquidity addr_validate st res (ccu_address sender) tx_id is_native)
      | CI_RemoveLiquidity m \<Rightarrow>
          bindR (from_json_ack remove_ack ack) (\<lambda>res.
          ack_remove_liquidity addr_validate st res (ccu_address (crl_sender m)) (crl_tx_id m) is_native)
      | CI_Swap m \<Rightarrow>
          bindR (from_json_ack swap_ack ack) (\<lambda>res.
          ack_swap_request addr_validate st res (ccu_address (csw_sender m)) (csw_tx_id m) is_native)
      | CI_Withdraw m \<Rightarrow>
          bindR (from_json_ack withdraw_ack ack) (\<lambda>res. ack_withdraw_request st res is_native))"

definition fac_ibc_ack_packet_internal_call :: "addr_validator \<Rightarrow> fac_storage \<Rightarrow> env \<Rightarrow> IbcPacketAckMsg \<Rightarrow> fac_result" where
  "fac_ibc_ack_packet_internal_call addr_validate st env ack =
     bindR (from_json_chain_ibc (packet_data (original_packet ack))) (\<lambda>msg.
     fac_reusable_internal_ack_call addr_validate st env msg (acknowledgement ack) False)"

definition fac_ibc_packet_ack :: "fac_storage \<Rightarrow> env \<Rightarrow> IbcPacketAckMsg \<Rightarrow> fac_result" where
  "fac_ibc_packet_ack st env ack =
     Ok (st, add_submessage (reply_always
          (Wasm_Execute (contract_address env) (To_Factory (F_IbcCallbackAckAndTimeout ack)) [])
          F_IBC_ACK_AND_TIMEOUT_REPLY_ID) Response_new)"

definition fac_ibc_packet_timeout :: "fac_storage \<Rightarrow> env \<Rightarrow> IbcPacket \<Rightarrow> fac_result" where
  "fac_ibc_packet_timeout st env packet =
     bindR (count_timeout (F_CHANNELS st) (channel_id (packet_src packet))) (\<lambda>counts.
     let st = st\<lparr>F_CHANNELS := counts\<rparr>;
         failed_ack = \<lparr>acknowledgement = Json_Ack (AckError ''Timeout''), original_packet = packet\<rparr>
     in case fac_ibc_packet_ack st env failed_ack of Inl _ \<Rightarrow> Ok (st, Response_new) | Inr res \<Rightarrow> Ok res)"

section \<open>Replies\<close>

definition on_escrow_instantiate_reply :: "addr_validator \<Rightarrow> fac_storage \<Rightarrow> Reply \<Rightarrow> fac_result" where
  "on_escrow_instantiate_reply addr_validate st msg =
     (case reply_result msg of
        SubMsgErr err \<Rightarrow> Err (PoolInstantiateFailed err)
      | SubMsgOk _ \<Rightarrow>
          bindR (lift_err Generic (parse_reply_instantiate_data msg)) (\<lambda>(address, data).
          bindR (addr_validate address) (\<lambda>escrow_address.
          bindR (from_json_escrow_instantiate (unwrap_or data default_binary)) (\<lambda>escrow_data.
          Ok (st\<lparr>TOKEN_TO_ESCROW := map_save (TOKEN_TO_ESCROW st) (eir_token escrow_data) escrow_address\<rparr>,
              Response_new)))))"

definition on_cw20_instantiate_reply :: "addr_validator \<Rightarrow> fac_storage \<Rightarrow> Reply \<Rightarrow> fac_result" where
  "on_cw20_instantiate_reply addr_validate st msg =
     (case reply_result msg of
        SubMsgErr err \<Rightarrow> Err (PoolInstantiateFailed err)
      | SubMsgOk _ \<Rightarrow>
          bindR (lift_err Generic (parse_reply_instantiate_data msg)) (\<lambda>(address, data).
          bindR (addr_validate address) (\<lambda>cw20_address.
          bindR (from_json_cw20_instantiate (unwrap_or data default_binary)) (\<lambda>cw20_data.
          Ok (st\<lparr>VLP_TO_CW20 := map_save (VLP_TO_CW20 st) (cir_vlp cw20_data) cw20_address\<rparr>, Response_new)))))"

definition fac_on_ibc_ack_and_timeout_reply :: "fac_storage \<Rightarrow> Reply \<Rightarrow> fac_result" where
  "fac_on_ibc_ack_and_timeout_reply st msg =
     (case reply_result msg of
        SubMsgErr err \<Rightarrow> Ok (st, Response_new)
      | SubMsgOk data \<Rightarrow> Ok (st, set_data (reply_payload data) Response_new))"

definition fac_on_ibc_receive_reply :: "fac_storage \<Rightarrow> Reply \<Rightarrow> fac_result" where
  "fac_on_ibc_receive_reply st msg =
     (case reply_result msg of
        SubMsgErr err \<Rightarrow> Ok (st, set_data (make_ack_fail err) Response_new)
      | SubMsgOk data \<Rightarrow> Ok (st, set_data (reply_payload data) Response_new))"

definition fac_on_reply_native_ibc_wrapper_call :: "addr_validator \<Rightarrow> fac_storage \<Rightarrow> env \<Rightarrow> Reply \<Rightarrow> fac_result" where
  "fac_on_reply_native_ibc_wrapper_call addr_validate st env msg =
     bindR (queue_take (CHAIN_QUEUE st) (reply_id msg)) (\<lambda>(q, original_msg).
     let st = st\<lparr>CHAIN_QUEUE := q\<rparr> in
     case reply_result msg of
       SubMsgErr err \<Rightarrow> fac_reusable_internal_ack_call addr_validate st env original_msg (make_ack_fail err) True
     | SubMsgOk data \<Rightarrow> fac_reusable_internal_ack_call addr_validate st env original_msg (reply_payload data) True)"

definition fac_reply :: "addr_validator \<Rightarrow> fac_storage \<Rightarrow> env \<Rightarrow> Reply \<Rightarrow> fac_result" where
  "fac_reply addr_validate st env msg =
     (if fst CHAIN_IBC_EXECUTE_MSG_QUEUE_RANGE \<le> reply_id msg \<and> reply_id msg \<le> snd CHAIN_IBC_EXECUTE_MSG_QUEUE_RANGE
      then fac_on_reply_native_ibc_wrapper_call addr_validate st env msg
      else if reply_id msg = ESCROW_INSTANTIATE_REPLY_ID then on_escrow_instantiate_reply addr_validate st msg
      else if reply_id msg = CW20_INSTANTIATE_REPLY_ID then on_cw20_instantiate_reply addr_validate st msg
      else if reply_id msg = F_IBC_ACK_AND_TIMEOUT_REPLY_ID then fac_on_ibc_ack_and_timeout_reply st msg
      else if reply_id msg = F_IBC_RECEIVE_REPLY_ID then fac_on_ibc_receive_reply st msg
      else Err (Std (GenericErr (''Unknown reply id: '' @ show_nat (unat (reply_id msg))))))"

section \<open>Entry points\<close>

record fac_InstantiateMsg =
  fim_router_contract :: string
  fim_chain_uid :: ChainUid
  fim_escrow_code_id :: u64
  fim_cw20_code_id :: u64
  fim_is_native :: bool

definition fac_instantiate :: "message_info \<Rightarrow> fac_InstantiateMsg \<Rightarrow> fac_result" where
  "fac_instantiate info msg =
     bindR (ChainUid_validate (fim_chain_uid msg)) (\<lambda>chain_uid.
     Ok (\<lparr>F_STATE = Some \<lparr>fs_router_contract = fim_router_contract msg, fs_admin = info_sender info,
            fs_escrow_code_id = fim_escrow_code_id msg, fs_cw20_code_id = fim_cw20_code_id msg,
            fs_chain_uid = chain_uid, fs_is_native = fim_is_native msg, fs_partner_fees_collected = []\<rparr>,
          HUB_CHANNEL = None, PAIR_TO_VLP = [], VLP_TO_LP_SHARES = [], TOKEN_TO_ESCROW = [], VLP_TO_CW20 = [],
          PENDING_REQUESTS = [], PENDING_SWAPS = [], PENDING_ADD_LIQUIDITY = [], F_PENDING_REMOVE_LIQUIDITY = [],
          CHAIN_QUEUE = \<lparr>q_entries = [], q_count = None\<rparr>, F_TX_NONCE = None,
          F_CHANNELS = \<lparr>CONNECTION_COUNTS = [], TIMEOUT_COUNTS = []\<rparr>\<rparr>, Response_new))"

text \<open>The outside world of the factory: everything a handler asks for beyond its own storage.\<close>

record ('d, 'e) fac_world =
  w_math :: "('d, 'e) cw_math"
  w_addr_validate :: addr_validator
  w_query_supply :: "string \<Rightarrow> uint128 result"
  w_token_allowed :: allowed_querier
  w_validate_lp :: "LpTokenInstantiateMsg \<Rightarrow> unit result"

definition fac_execute ::
    "('d, 'e) fac_world \<Rightarrow> fac_storage \<Rightarrow> env \<Rightarrow> message_info \<Rightarrow> factory_ExecuteMsg \<Rightarrow> fac_result" where
  "fac_execute w st env info msg =
     (case msg of
        F_AddLiquidityRequest pair_info token_1_liquidity token_2_liquidity slippage_tolerance timeout \<Rightarrow>
          add_liquidity_request (w_token_allowed w) st info env pair_info token_1_liquidity token_2_liquidity
            slippage_tolerance timeout
      | F_ExecuteSwapRequest asset_in asset_out amount_in min_amount_out timeout swaps cross_chain_addresses partner_fee \<Rightarrow>
          bindR (item_load (F_STATE st)) (\<lambda>state.
          let sender = \<lparr>ccu_chain_uid = fs_chain_uid state, ccu_address = info_sender info\<rparr> in
          execute_swap_request (w_math w) (w_addr_validate w) (w_query_supply w) (w_token_allowed w) st info env sender
            asset_in asset_out amount_in min_amount_out swaps timeout cross_chain_addresses partner_fee)
      | F_UpdateHubChannel new_channel \<Rightarrow> execute_update_hub_channel st info new_channel
      | F_RequestRegisterDenom token \<Rightarrow> execute_request_register_denom st info token
      | F_RequestDeregisterDenom token \<Rightarrow> execute_request_deregister_denom st info token
      | F_RequestPoolCreation pair timeout lp_token_name lp_token_symbol lp_token_decimal lp_token_marketing \<Rightarrow>
          fac_execute_request_pool_creation (w_validate_lp w) (w_token_allowed w) st env info pair lp_token_name
            lp_token_symbol lp_token_decimal lp_token_marketing timeout
      | F_RequestRegisterEscrow token timeout \<Rightarrow> execute_request_register_escrow st env info token timeout
      | F_WithdrawVirtualBalance token amount cross_chain_addresses timeout \<Rightarrow>
          execute_withdraw_virtual_balance st env info token amount cross_chain_addresses timeout
      | F_Receive m \<Rightarrow>
          fac_receive_cw20 (w_math w) (w_addr_validate w) (w_query_supply w) (w_token_allowed w) st env info m
      | F_IbcCallbackAckAndTimeout ack \<Rightarrow> fac_ibc_ack_packet_internal_call (w_addr_validate w) st env ack
      | F_IbcCallbackReceive packet \<Rightarrow> fac_ibc_receive_internal_call (w_addr_validate w) st env packet
      | F_NativeReceiveCallback m \<Rightarrow> fac_execute_native_receive_callback (w_addr_validate w) st env info m)"

section \<open>Queries\<close>

definition get_vlp :: "fac_storage \<Rightarrow> Pair \<Rightarrow> string result" where
  "get_vlp st pair = map_load (PAIR_TO_VLP st) (get_tupple pair)"

definition get_partner_fees_collected :: "fac_storage \<Rightarrow> DenomFees result" where
  "get_partner_fees_collected st = bindR (item_load (F_STATE st)) (\<lambda>state. Ok (fs_partner_fees_collected state))"

definition get_partner_fees_collected_per_denom :: "fac_storage \<Rightarrow> string \<Rightarrow> uint128 result" where
  "get_partner_fees_collected_per_denom st denom =
     bindR (item_load (F_STATE st)) (\<lambda>state. Ok (get_fee (fs_partner_fees_collected state) denom))"

definition get_lp_token_address :: "fac_storage \<Rightarrow> string \<Rightarrow> addr result" where
  "get_lp_token_address st vlp = map_load (VLP_TO_CW20 st) vlp"

definition get_escrow ::
    "(addr \<Rightarrow> TokenType list result) \<Rightarrow> fac_storage \<Rightarrow> string \<Rightarrow> (addr option \<times> TokenType list) result" where
  "get_escrow allowed_denoms st tid =
     bindR (Token_create tid) (\<lambda>token.
     case map_may_load (TOKEN_TO_ESCROW st) token of
       None \<Rightarrow> Ok (None, [])
     | Some escrow_address \<Rightarrow>
         bindR (allowed_denoms escrow_address) (\<lambda>denoms. Ok (Some escrow_address, denoms)))"

definition fac_query_state :: "fac_storage \<Rightarrow> (fac_State \<times> string option) result" where
  "fac_query_state st = bindR (item_load (F_STATE st)) (\<lambda>state. Ok (state, HUB_CHANNEL st))"

text \<open>The pools in the order of their encoded keys (\<open>raw\<close>); a pair that does not validate is skipped.\<close>

definition fac_query_all_pools :: "(Token \<times> Token \<Rightarrow> bytes) \<Rightarrow> fac_storage \<Rightarrow> (Pair \<times> string) list result" where
  "fac_query_all_pools raw st =
     Ok (concat (map (\<lambda>((a, b), vlp). case Pair_new a b of Inr pair \<Rightarrow> [(pair, vlp)] | Inl _ \<Rightarrow> [])
       (sort_key (\<lambda>(k, _). raw k) (AList.clearjunk (PAIR_TO_VLP st)))))"

definition fac_query_all_tokens :: "fac_storage \<Rightarrow> Token list result" where
  "fac_query_all_tokens st = Ok (map fst (map_range (TOKEN_TO_ESCROW st)))"

text \<open>
  A page of the requests of a user, in the order of their transaction ids. The bounds are numbers; they are
  compared as their decimal strings, both inclusive.
\<close>

definition user_page :: "addr \<Rightarrow> uint128 Pagination \<Rightarrow> (pending_key, 'v) store \<Rightarrow> 'v list" where
  "user_page user p m =
     map snd (take (unat (ucast (unwrap_or (page_limit p) 10) :: u32))
       (drop (unat (ucast (unwrap_or (page_skip p) 0) :: u32))
          (filter (\<lambda>(tx, _). (case page_min p of None \<Rightarrow> True | Some lo \<Rightarrow> show_nat (unat lo) \<le> tx)
                        \<and> (case page_max p of None \<Rightarrow> True | Some hi \<Rightarrow> tx \<le> show_nat (unat hi)))
             (map_range (map (\<lambda>((_, tx), v). (tx, v)) (filter (\<lambda>((u, _), _). u = user) m))))))"

definition pending_swaps :: "fac_storage \<Rightarrow> addr \<Rightarrow> uint128 Pagination \<Rightarrow> SwapRequest list result" where
  "pending_swaps st user p = Ok (user_page user p (PENDING_SWAPS st))"

definition pending_liquidity :: "fac_storage \<Rightarrow> addr \<Rightarrow> uint128 Pagination \<Rightarrow> AddLiquidityRequest list result" where
  "pending_liquidity st user p = Ok (user_page user p (PENDING_ADD_LIQUIDITY st))"

definition pending_remove_liquidity ::
    "fac_storage \<Rightarrow> addr \<Rightarrow> uint128 Pagination \<Rightarrow> RemoveLiquidityRequest list result" where
  "pending_remove_liquidity st user p = Ok (user_page user p (F_PENDING_REMOVE_LIQUIDITY st))"

end
