(* ===== verification/Requests.thy ===== *)
theory Requests
  imports Prelude
begin

text \<open>
  Pending requests. A contract that sends a request to another chain stores it under a key, and the handler of
  the answer takes it out again. The locale \<open>request_store\<close> is the contract of such a pair of operations; it is
  interpreted for the swaps, deposits and withdrawals of the factory. \<open>weight\<close>
  sums a measure over the entries of a storage map.
\<close>

section \<open>The weight of a map\<close>

definition weight :: "('v \<Rightarrow> nat) \<Rightarrow> ('k, 'v) store \<Rightarrow> nat" where
  "weight f m = (\<Sum>k\<in>dom (map_may_load m). f (the (map_may_load m k)))"

lemma finite_keys [simp]: "finite (dom (map_may_load m))"
  by (simp add: map_may_load_def [abs_def] finite_dom_map_of)

lemma weight_Nil [simp]: "weight f [] = 0"
  by (simp add: weight_def map_may_load_def [abs_def])

lemma weight_add:
  fixes f :: "'v \<Rightarrow> nat"
  assumes "finite (dom l)" and "k \<notin> dom l"
  shows "(\<Sum>x\<in>dom (l(k \<mapsto> v)). f (the ((l(k \<mapsto> v)) x))) = f v + (\<Sum>x\<in>dom l. f (the (l x)))"
proof -
  have "(\<Sum>x\<in>dom l. f (the ((l(k \<mapsto> v)) x))) = (\<Sum>x\<in>dom l. f (the (l x)))"
    using assms(2) by (intro sum.cong) auto
  with assms show ?thesis by simp
qed

lemma weight_save: "\<not> map_has m k \<Longrightarrow> weight f (map_save m k v) = f v + weight f m"
proof -
  assume "\<not> map_has m k"
  then have "k \<notin> dom (map_may_load m)" by (simp add: map_has_def domIff)
  moreover have "map_may_load (map_save m k v) = (map_may_load m)(k \<mapsto> v)" by (auto simp: fun_eq_iff)
  ultimately show ?thesis
    unfolding weight_def using weight_add [of "map_may_load m" k f v] by simp
qed

lemma weight_remove: "map_may_load m k = Some v \<Longrightarrow> f v + weight f (map_remove m k) = weight f m"
proof -
  assume k: "map_may_load m k = Some v"
  have rem: "map_may_load (map_remove m k) = (map_may_load m)(k := None)" by (auto simp: fun_eq_iff)
  then have "(map_may_load (map_remove m k))(k \<mapsto> v) = map_may_load m"
    using k by (auto simp: fun_eq_iff)
  moreover have "k \<notin> dom (map_may_load (map_remove m k))" by (simp add: rem)
  ultimately show ?thesis
    unfolding weight_def using weight_add [of "map_may_load (map_remove m k)" k f v] by simp
qed

section \<open>The contract of a store of requests\<close>

text \<open>
  \<open>opened s k r s'\<close> says that an operation took \<open>s\<close> to \<open>s'\<close> and stored request \<open>r\<close> under \<open>k\<close>;
  \<open>closed s k r s'\<close> that one took it out.
\<close>

locale request_store =
  fixes pending :: "'s \<Rightarrow> 'k \<Rightarrow> 'r option"
    and opened closed :: "'s \<Rightarrow> 'k \<Rightarrow> 'r \<Rightarrow> 's \<Rightarrow> bool"
  assumes opened_law: "opened s k r s' \<Longrightarrow> pending s k = None \<and> pending s' = (pending s)(k \<mapsto> r)"
    and closed_law: "closed s k r s' \<Longrightarrow> pending s k = Some r \<and> pending s' = (pending s)(k := None)"
begin

lemma open_close: "opened s k r s' \<Longrightarrow> closed s' k r' s'' \<Longrightarrow> r' = r \<and> pending s'' = pending s"
  using opened_law closed_law by (metis fun_upd_same fun_upd_triv fun_upd_upd option.inject)

lemma close_once: "closed s k r s' \<Longrightarrow> \<not> closed s' k r' s''"
  by (auto dest!: closed_law)

lemma open_once: "opened s k r s' \<Longrightarrow> \<not> opened s' k r' s''"
  by (auto dest!: opened_law)

lemma close_keeps_others: "closed s k r s' \<Longrightarrow> k' \<noteq> k \<Longrightarrow> pending s' k' = pending s k'"
  by (auto dest!: closed_law)

end

end
