(* ===== verification/Factory_Correct.thy ===== *)
theory Factory_Correct
  imports Factory Requests
begin

text \<open>
  Lemmas on the factory: what a successful request stores and sends, what an acknowledgement takes out and pays,
  and the books of the native coins it holds for its users.
\<close>

section \<open>What a message sends\<close>

text \<open>The request to the router in a message, and the native coins of a denomination that leave with it.\<close>

fun request_of :: "CosmosMsg \<Rightarrow> ChainIbcExecuteMsg list" where
  "request_of (Ibc_SendPacket _ (Json_ChainIbc m) _) = [m]"
| "request_of (Wasm_Execute _ (To_Router (R_NativeReceiveCallback (Json_ChainIbc m) _)) _) = [m]"
| "request_of _ = []"

definition requests :: "Response \<Rightarrow> ChainIbcExecuteMsg list" where
  "requests r = concat (map (\<lambda>m. request_of (sm_msg m)) (r_messages r))"

definition coins_of :: "coin list \<Rightarrow> string \<Rightarrow> nat" where
  "coins_of cs d = (\<Sum>c\<leftarrow>cs. if coin_denom c = d then unat (coin_amount c) else 0)"

fun coins_out :: "CosmosMsg \<Rightarrow> string \<Rightarrow> nat" where
  "coins_out (Bank_Send _ cs) d = coins_of cs d"
| "coins_out (Wasm_Execute _ _ cs) d = coins_of cs d"
| "coins_out (Wasm_Instantiate _ _ _ cs _) d = coins_of cs d"
| "coins_out (Ibc_SendPacket _ _ _) d = 0"

definition outflow :: "Response \<Rightarrow> string \<Rightarrow> nat" where
  "outflow r d = (\<Sum>m\<leftarrow>r_messages r. coins_out (sm_msg m) d)"

lemma coins_of_simps [simp]:
  "coins_of [] d = 0"
  "coins_of (c # cs) d = (if coin_denom c = d then unat (coin_amount c) else 0) + coins_of cs d"
  by (simp_all add: coins_of_def)

lemma outflow_simps [simp]:
  "outflow \<lparr>r_messages = [], r_data = x\<rparr> d = 0"
  "outflow \<lparr>r_messages = m # ms, r_data = x\<rparr> d = coins_out (sm_msg m) d + outflow \<lparr>r_messages = ms, r_data = x\<rparr> d"
  "outflow \<lparr>r_messages = ms @ ms', r_data = x\<rparr> d
     = outflow \<lparr>r_messages = ms, r_data = x\<rparr> d + outflow \<lparr>r_messages = ms', r_data = x\<rparr> d"
  by (simp_all add: outflow_def)

lemma requests_simps [simp]:
  "requests \<lparr>r_messages = [], r_data = x\<rparr> = []"
  "requests \<lparr>r_messages = m # ms, r_data = x\<rparr> = request_of (sm_msg m) @ requests \<lparr>r_messages = ms, r_data = x\<rparr>"
  "requests \<lparr>r_messages = ms @ ms', r_data = x\<rparr> = requests \<lparr>r_messages = ms, r_data = x\<rparr> @ requests \<lparr>r_messages = ms', r_data = x\<rparr>"
  by (simp_all add: requests_def)

text \<open>The native amount a transfer or a deposit of a denomination moves.\<close>

definition native_amount :: "TokenType \<Rightarrow> string \<Rightarrow> nat \<Rightarrow> nat" where
  "native_amount t d n = (if t = Native d then n else 0)"

lemma coins_out_transfer [simp]:
  "coins_out (create_transfer_msg t a to own) d = native_amount t d (unat a)"
  by (cases t) (simp_all add: create_transfer_msg_def native_amount_def)

lemma coins_out_escrow [simp]: "coins_out (create_escrow_msg t a e) d = native_amount t d (unat a)"
  by (cases t) (simp_all add: create_escrow_msg_def native_amount_def)

lemma native_amount_add: "native_amount t d (m + n) = native_amount t d m + native_amount t d n"
  by (simp add: native_amount_def)

lemma request_of_transfer [simp]:
  "request_of (create_transfer_msg t a to own) = []" "request_of (create_escrow_msg t a e) = []"
  by (cases t; simp add: create_transfer_msg_def create_escrow_msg_def)+

section \<open>The books of the factory\<close>

text \<open>What the factory holds in native coins of a denomination for requests that are pending.\<close>

definition swap_hold :: "string \<Rightarrow> SwapRequest \<Rightarrow> nat" where
  "swap_hold d r = native_amount (twd_token_type (sr_asset_in r)) d
     (unat (sr_amount_in r) + unat (sr_partner_fee_amount r))"

definition deposit_hold :: "string \<Rightarrow> AddLiquidityRequest \<Rightarrow> nat" where
  "deposit_hold d r =
     native_amount (twd_token_type (pwd_token_1 (alr_pair_info r))) d (unat (alr_token_1_liquidity r))
     + native_amount (twd_token_type (pwd_token_2 (alr_pair_info r))) d (unat (alr_token_2_liquidity r))"

definition owed :: "fac_storage \<Rightarrow> string \<Rightarrow> nat" where
  "owed st d = weight (swap_hold d) (PENDING_SWAPS st) + weight (deposit_hold d) (PENDING_ADD_LIQUIDITY st)"

lemma owed_other [simp]:
  "owed (st\<lparr>F_STATE := a\<rparr>) = owed st" "owed (st\<lparr>HUB_CHANNEL := b\<rparr>) = owed st" "owed (st\<lparr>PAIR_TO_VLP := c\<rparr>) = owed st"
  "owed (st\<lparr>VLP_TO_LP_SHARES := e\<rparr>) = owed st" "owed (st\<lparr>TOKEN_TO_ESCROW := f\<rparr>) = owed st"
  "owed (st\<lparr>VLP_TO_CW20 := g\<rparr>) = owed st" "owed (st\<lparr>PENDING_REQUESTS := h\<rparr>) = owed st"
  "owed (st\<lparr>F_PENDING_REMOVE_LIQUIDITY := i\<rparr>) = owed st" "owed (st\<lparr>CHAIN_QUEUE := j\<rparr>) = owed st"
  "owed (st\<lparr>F_TX_NONCE := k\<rparr>) = owed st" "owed (st\<lparr>F_CHANNELS := l\<rparr>) = owed st"
  by (simp_all add: owed_def fun_eq_iff)

text \<open>The native coins of a denomination that a message asks the factory to take on.\<close>

fun asked :: "factory_ExecuteMsg \<Rightarrow> string \<Rightarrow> nat" where
  "asked (F_AddLiquidityRequest p a b _ _) d =
     native_amount (twd_token_type (pwd_token_1 p)) d (unat a) + native_amount (twd_token_type (pwd_token_2 p)) d (unat b)"
| "asked (F_ExecuteSwapRequest a _ x _ _ _ _ _) d = native_amount (twd_token_type a) d (unat x)"
| "asked (F_Receive m) d =
     (case crm_msg m of
        Json_Hook (Hook_Swap a _ _ _ _ _ _) \<Rightarrow> native_amount (twd_token_type a) d (unat (crm_amount m))
      | _ \<Rightarrow> 0)"
| "asked _ d = 0"

lemma fac_generate_tx_fst:
  "fst (fac_generate_tx st env u) = st\<lparr>F_TX_NONCE := fst (generate_tx (F_TX_NONCE st) env u)\<rparr>"
  unfolding fac_generate_tx_def Let_def split_beta by simp

lemma fac_to_msg_keeps:
  assumes "fac_to_msg st env msg state channel timeout = Inr (st', m)"
  shows "st' = st\<lparr>CHAIN_QUEUE := CHAIN_QUEUE st'\<rparr>" and "request_of (sm_msg m) = [msg]" and "coins_out (sm_msg m) d = 0"
  using assms by (auto simp: fac_to_msg_def ChainIbc_to_msg_def bindR_eq_Inr submsg_defs split: if_splits)

section \<open>Requests that succeed\<close>

abbreviation partner_bps :: "PartnerFee option \<Rightarrow> u64" where
  "partner_bps pf \<equiv> (case pf of Some fee \<Rightarrow> pf_partner_fee_bps fee | None \<Rightarrow> 0)"

text \<open>The funds check of a swap.\<close>

definition swap_funded :: "message_info \<Rightarrow> TokenType \<Rightarrow> uint128 \<Rightarrow> bool" where
  "swap_funded info t net =
     (if TokenType_is_native t
      then (case find (\<lambda>x. coin_denom x = get_denom t) (info_funds info) of
              None \<Rightarrow> False | Some x \<Rightarrow> net \<le> coin_amount x)
      else info_sender info = get_denom t)"

lemma swap_funded_Inr:
  "(if TokenType_is_native t
    then bindR (ok_or (find (\<lambda>x. coin_denom x = get_denom t) (info_funds info)) (Generic e)) (\<lambda>x.
         if coin_amount x < net then Err (Generic e') else Ok ())
    else ensure (info_sender info = get_denom t) Unauthorized (Ok ())) = Inr u \<longleftrightarrow> swap_funded info t net"
  by (auto simp: swap_funded_def bindR_eq_Inr ok_or_eq_Inr ensure_eq_Inr not_less split: option.splits)

lemma swap_recipient_Inr:
  "(case pf of None \<Rightarrow> Ok None | Some fee \<Rightarrow> bindR (av (pf_recipient fee)) (\<lambda>a. Ok (Some a))) = Inr x \<longleftrightarrow>
     (case pf of None \<Rightarrow> x = None | Some fee \<Rightarrow> \<exists>a. av (pf_recipient fee) = Inr a \<and> x = Some a)"
  by (cases pf) (auto simp: bindR_eq_Inr)

lemma swap_request_ok1:
  assumes "execute_swap_request M av qs ta st info env sender a out amt min_out swaps to addrs pf = Inr (st', r)"
    (is "?run = _")
  shows "\<exists>state saddr fee net channel timeout recipient m.
     F_STATE st = Some state \<and> av (ccu_address sender) = Inr saddr \<and> partner_bps pf \<le> MAX_PARTNER_FEE_BPS
     \<and> checked_mul_ceil M amt (decimal_bps M (partner_bps pf)) = Inr fee \<and> unat amt = unat fee + unat net \<and> net \<noteq> 0
     \<and> \<not> map_has (PENDING_SWAPS st) (saddr, snd (fac_generate_tx st env sender))
     \<and> map_has (TOKEN_TO_ESCROW st) (twd_token a) \<and> swap_funded info (twd_token_type a) net
     \<and> (case pf of None \<Rightarrow> recipient = None | Some fee \<Rightarrow> \<exists>a. av (pf_recipient fee) = Inr a \<and> recipient = Some a)
     \<and> fac_to_msg (st\<lparr>F_TX_NONCE := fst (generate_tx (F_TX_NONCE st) env sender),
          PENDING_SWAPS := map_save (PENDING_SWAPS st) (saddr, snd (fac_generate_tx st env sender))
            \<lparr>sr_sender = saddr, sr_tx_id = snd (fac_generate_tx st env sender), sr_asset_in = a, sr_asset_out = out,
             sr_amount_in = net, sr_min_amount_out = min_out, sr_swaps = swaps,
             sr_timeout = plus_seconds (block_time env) timeout, sr_cross_chain_addresses = addrs,
             sr_partner_fee_amount = fee, sr_partner_fee_recipient = recipient\<rparr>\<rparr>) env
          (CI_Swap \<lparr>csw_sender = sender, csw_asset_in = twd_token a, csw_amount_in = net,
            csw_asset_out = out, csw_min_amount_out = min_out, csw_swaps = swaps,
            csw_cross_chain_addresses = addrs, csw_tx_id = snd (fac_generate_tx st env sender)\<rparr>)
          state channel timeout = Inr (st', m)
     \<and> r = \<lparr>r_messages = [m], r_data = None\<rparr>"
proof -
  note keep = bindR_eq_Inr ensure_eq_Inr item_load_eq_Inr map_load_eq_Inr checked_sub_eq_Inr swap_funded_Inr
    swap_recipient_Inr
  from assms show ?thesis
    unfolding execute_swap_request_def Let_def split_beta fac_generate_tx_fst response_simps keep map_has_def
    apply (elim exE conjE)
    subgoal for state saddr u fee net f l channel timeout escrow allowed funds recipient p
      apply (erule Inr_inject [THEN Pair_inject], hypsubst)
      apply (rule exI [of _ state], rule exI [of _ saddr], rule exI [of _ fee], rule exI [of _ net],
          rule exI [of _ channel], rule exI [of _ timeout], rule exI [of _ recipient], rule exI [of _ "snd p"])
      apply (intro conjI)
      apply (assumption | simp)+
      done
    done
qed


definition fac_keeps_books :: "fac_storage \<Rightarrow> nat \<Rightarrow> Response \<Rightarrow> fac_storage \<Rightarrow> string \<Rightarrow> bool" where
  "fac_keeps_books st taken r st' d \<longleftrightarrow> owed st' d + outflow r d = owed st d + taken"

lemma swap_request_books:
  assumes "execute_swap_request M av qs ta st info env sender a out amt min_out swaps to addrs pf = Inr (st', r)"
  shows "fac_keeps_books st (native_amount (twd_token_type a) d (unat amt)) r st' d"
proof -
  obtain st1 env' msg state channel timeout m k req where
      msg: "fac_to_msg (st\<lparr>F_TX_NONCE := st1, PENDING_SWAPS := map_save (PENDING_SWAPS st) k req\<rparr>) env' msg state channel timeout
        = Inr (st', m)"
    and r: "r = \<lparr>r_messages = [m], r_data = None\<rparr>" and new: "\<not> map_has (PENDING_SWAPS st) k"
    and hold: "swap_hold d req = native_amount (twd_token_type a) d (unat amt)"
    using swap_request_ok1 [OF assms] by (fastforce simp: swap_hold_def add.commute)
  have "owed st' d = owed st d + swap_hold d req"
  proof -
    have "owed st' d = owed (st\<lparr>F_TX_NONCE := st1, PENDING_SWAPS := map_save (PENDING_SWAPS st) k req\<rparr>) d"
      by (subst fac_to_msg_keeps(1) [OF msg]) simp
    then show ?thesis by (simp add: owed_def weight_save [OF new])
  qed
  then show ?thesis
    using fac_to_msg_keeps(3) [OF msg] hold by (simp add: fac_keeps_books_def r)
qed

lemma fund_token_Inr:
  assumes "fund_token env info sender t x = Inr ms"
  shows "(\<Sum>m\<leftarrow>ms. coins_out m d) = 0" and "concat (map request_of ms) = []"
  using assms
  by (cases "twd_token_type t"; auto simp: fund_token_def TokenType_is_smart_def TokenType_is_native_def ensure_eq_Inr
      bindR_eq_Inr native_amount_def split: if_splits)+

lemma add_request_ok1:
  assumes "add_liquidity_request ta st info env p a b slip to = Inr (st', r)"
  shows "\<exists>state pair channel timeout m ms1 ms2 n req.
     F_STATE st = Some state \<and> get_pair p = Inr pair \<and> fund_token env info (info_sender info) (pwd_token_1 p) a = Inr ms1
     \<and> fund_token env info (info_sender info) (pwd_token_2 p) b = Inr ms2
     \<and> \<not> map_has (PENDING_ADD_LIQUIDITY st) (info_sender info, snd (fac_generate_tx st env
          \<lparr>ccu_chain_uid = fs_chain_uid state, ccu_address = info_sender info\<rparr>))
     \<and> req = \<lparr>alr_sender = info_sender info, alr_tx_id = snd (fac_generate_tx st env
          \<lparr>ccu_chain_uid = fs_chain_uid state, ccu_address = info_sender info\<rparr>), alr_token_1_liquidity = a,
          alr_token_2_liquidity = b, alr_pair_info = p\<rparr>
     \<and> fac_to_msg (st\<lparr>F_TX_NONCE := n,
          PENDING_ADD_LIQUIDITY := map_save (PENDING_ADD_LIQUIDITY st) (info_sender info, snd (fac_generate_tx st env
            \<lparr>ccu_chain_uid = fs_chain_uid state, ccu_address = info_sender info\<rparr>)) req\<rparr>) env
          (CI_AddLiquidity \<lparr>ccu_chain_uid = fs_chain_uid state, ccu_address = info_sender info\<rparr> a b slip pair
             (snd (fac_generate_tx st env \<lparr>ccu_chain_uid = fs_chain_uid state, ccu_address = info_sender info\<rparr>)))
          state channel timeout = Inr (st', m)
     \<and> r = \<lparr>r_messages = map SubMsg_new (ms1 @ ms2) @ [m], r_data = None\<rparr>"
proof -
  note keep = bindR_eq_Inr ensure_eq_Inr item_load_eq_Inr
  from assms show ?thesis
    unfolding add_liquidity_request_def Let_def split_beta fac_generate_tx_fst response_simps keep map_has_def
      CrossChainUser.select_convs
    apply (elim exE conjE)
    subgoal for v pair state channel timeout u ms1 ms2 p'
      apply (erule Inr_inject [THEN Pair_inject], hypsubst)
      apply (rule exI [of _ state], rule exI [of _ pair], rule exI [of _ channel], rule exI [of _ timeout],
          rule exI [of _ "snd p'"], rule exI [of _ ms1], rule exI [of _ ms2], rule exI, rule exI)
      apply (intro conjI)
      apply (assumption | rule refl | simp)+
      done
    done
qed


lemma fac_to_msg_owed:
  "fac_to_msg st env msg state channel timeout = Inr (st', m) \<Longrightarrow> owed st' d = owed st d"
  by (subst fac_to_msg_keeps(1)) simp_all

lemma fac_to_msg_quiet:
  "fac_to_msg st env msg state channel timeout = Inr p \<Longrightarrow> owed (fst p) d = owed st d \<and> coins_out (sm_msg (snd p)) d = 0"
  by (cases p) (auto dest: fac_to_msg_owed fac_to_msg_keeps(3))

lemma add_request_books:
  assumes "add_liquidity_request ta st info env p a b slip to = Inr (st', r)"
  shows "fac_keeps_books st (native_amount (twd_token_type (pwd_token_1 p)) d (unat a)
      + native_amount (twd_token_type (pwd_token_2 p)) d (unat b)) r st' d"
proof -
  obtain n k req env' msg state channel timeout m ms1 ms2 where
      msg: "fac_to_msg (st\<lparr>F_TX_NONCE := n, PENDING_ADD_LIQUIDITY := map_save (PENDING_ADD_LIQUIDITY st) k req\<rparr>)
        env' msg state channel timeout = Inr (st', m)"
    and funds: "fund_token env info (info_sender info) (pwd_token_1 p) a = Inr ms1"
      "fund_token env info (info_sender info) (pwd_token_2 p) b = Inr ms2"
    and r: "r = \<lparr>r_messages = map SubMsg_new (ms1 @ ms2) @ [m], r_data = None\<rparr>"
    and new: "\<not> map_has (PENDING_ADD_LIQUIDITY st) k"
    and hold: "deposit_hold d req = native_amount (twd_token_type (pwd_token_1 p)) d (unat a)
      + native_amount (twd_token_type (pwd_token_2 p)) d (unat b)"
    using add_request_ok1 [OF assms] by (fastforce simp: deposit_hold_def)
  have "outflow \<lparr>r_messages = map SubMsg_new ms, r_data = None\<rparr> d = (\<Sum>m\<leftarrow>ms. coins_out m d)" for ms
    by (induction ms) (simp_all add: submsg_defs)
  then have "outflow r d = 0"
    using funds [THEN fund_token_Inr(1)] fac_to_msg_keeps(3) [OF msg] by (simp add: r)
  moreover have "owed st' d = owed st d + deposit_hold d req"
    using fac_to_msg_owed [OF msg, of d] by (simp add: owed_def weight_save [OF new])
  ultimately show ?thesis by (simp add: fac_keeps_books_def hold)
qed

text \<open>The handlers that move no native coin.\<close>

lemmas quiet_simps = fac_keeps_books_def Let_def split_beta bindR_eq_Inr ensure_eq_Inr response_simps fac_generate_tx_fst

lemma pool_request_quiet:
  "fac_execute_request_pool_creation vl ta st env info pair nm sy dec mk to = Inr (st', r) \<Longrightarrow>
   fac_keeps_books st 0 r st' d"
  unfolding fac_execute_request_pool_creation_def quiet_simps
  by (auto dest!: fac_to_msg_quiet [where d = d])

lemma escrow_request_quiet:
  "execute_request_register_escrow st env info token to = Inr (st', r) \<Longrightarrow> fac_keeps_books st 0 r st' d"
  unfolding execute_request_register_escrow_def quiet_simps
  by (auto dest!: fac_to_msg_quiet [where d = d])

lemma remove_request_quiet:
  "remove_liquidity_request av st info env sender pair x to addrs = Inr (st', r) \<Longrightarrow> fac_keeps_books st 0 r st' d"
  unfolding remove_liquidity_request_def quiet_simps
  by (auto dest!: fac_to_msg_quiet [where d = d])

lemma withdraw_request_quiet:
  "execute_withdraw_virtual_balance st env info token amt addrs to = Inr (st', r) \<Longrightarrow> fac_keeps_books st 0 r st' d"
  unfolding execute_withdraw_virtual_balance_def quiet_simps
  by (auto dest!: fac_to_msg_quiet [where d = d])


lemma admin_request_quiet:
  "execute_update_hub_channel st info ch = Inr (st', r) \<Longrightarrow> fac_keeps_books st 0 r st' d"
  "execute_request_register_denom st info token = Inr (st', r) \<Longrightarrow> fac_keeps_books st 0 r st' d"
  "execute_request_deregister_denom st info token = Inr (st', r) \<Longrightarrow> fac_keeps_books st 0 r st' d"
  by (auto simp: execute_update_hub_channel_def execute_request_register_denom_def
      execute_request_deregister_denom_def quiet_simps submsg_defs)

lemma router_message_quiet:
  "fac_reusable_internal_call av st env msg = Inr (st', r) \<Longrightarrow> st' = st \<and> outflow r d = 0"
  by (auto simp: fac_reusable_internal_call_def execute_register_router_def fac_execute_release_escrow_def
      fac_execute_update_factory_channel_def Let_def bindR_eq_Inr ensure_eq_Inr response_simps submsg_defs
      split: HubIbcExecuteMsg.splits)

section \<open>Answers\<close>

text \<open>A request that was pending is no longer there, and what was held for it leaves with the messages.\<close>

lemma owed_close_swap:
  "map_may_load (PENDING_SWAPS st) k = Some req \<Longrightarrow>
   swap_hold d req + owed (st\<lparr>PENDING_SWAPS := map_remove (PENDING_SWAPS st) k\<rparr>) d = owed st d"
  using weight_remove [of "PENDING_SWAPS st" k req "swap_hold d"] by (simp add: owed_def)

lemma owed_close_deposit:
  "map_may_load (PENDING_ADD_LIQUIDITY st) k = Some req \<Longrightarrow>
   deposit_hold d req + owed (st\<lparr>PENDING_ADD_LIQUIDITY := map_remove (PENDING_ADD_LIQUIDITY st) k\<rparr>) d = owed st d"
  using weight_remove [of "PENDING_ADD_LIQUIDITY st" k req "deposit_hold d"] by (simp add: owed_def)

lemma ack_swap_books:
  assumes "ack_swap_request av st res sender tx native = Inr (st', r)"
  shows "fac_keeps_books st 0 r st' d"
  using assms
  by (cases res) (auto simp: ack_swap_request_def fac_keeps_books_def Let_def bindR_eq_Inr map_load_eq_Inr
      checked_add_eq_Inr response_simps submsg_defs swap_hold_def native_amount_def
      dest!: owed_close_swap [where d = d] split: if_splits)

lemma ack_add_books:
  assumes "ack_add_liquidity av st res sender tx native = Inr (st', r)"
  shows "fac_keeps_books st 0 r st' d"
  using assms
  by (cases res) (auto simp: ack_add_liquidity_def fac_keeps_books_def Let_def bindR_eq_Inr map_load_eq_Inr
      response_simps submsg_defs deposit_hold_def dest!: owed_close_deposit [where d = d] split: if_splits)

lemma ack_remove_quiet:
  "ack_remove_liquidity av st res sender tx native = Inr (st', r) \<Longrightarrow> fac_keeps_books st 0 r st' d"
  by (cases res) (auto simp: ack_remove_liquidity_def fac_keeps_books_def Let_def bindR_eq_Inr response_simps submsg_defs
      split: if_splits)

lemma outflow_new_escrow: "outflow \<lparr>r_messages = map (new_escrow state) ts, r_data = x\<rparr> d = 0"
  by (induction ts) (simp_all add: new_escrow_def submsg_defs)

lemma ack_pool_quiet:
  "ack_pool_creation av st env sender res tx native = Inr (st', r) \<Longrightarrow> fac_keeps_books st 0 r st' d"
  by (cases res) (auto simp: ack_pool_creation_def fac_keeps_books_def Let_def bindR_eq_Inr response_simps submsg_defs
      outflow_new_escrow split: if_splits)

lemma ack_escrow_quiet:
  "ack_escrow_creation av st sender res tx native = Inr (st', r) \<Longrightarrow> fac_keeps_books st 0 r st' d"
  by (cases res) (auto simp: ack_escrow_creation_def fac_keeps_books_def Let_def bindR_eq_Inr response_simps submsg_defs
      new_escrow_def split: if_splits)

lemma ack_withdraw_quiet:
  "ack_withdraw_request st res native = Inr (st', r) \<Longrightarrow> fac_keeps_books st 0 r st' d"
  by (auto simp: ack_withdraw_request_def fac_keeps_books_def response_simps split: AcknowledgementMsg.splits if_splits)

lemma fac_ack_books:
  "fac_reusable_internal_ack_call av st env msg ack native = Inr (st', r) \<Longrightarrow> fac_keeps_books st 0 r st' d"
  by (auto simp: fac_reusable_internal_ack_call_def bindR_eq_Inr ack_withdraw_quiet
      intro: ack_swap_books ack_add_books ack_remove_quiet ack_pool_quiet ack_escrow_quiet
      split: ChainIbcExecuteMsg.splits)


lemma receive_cw20_books:
  assumes "fac_receive_cw20 M av qs ta st env info m = Inr (st', r)"
  shows "fac_keeps_books st (asked (F_Receive m) d) r st' d"
proof -
  from assms obtain hook where hook: "from_json_hook (crm_msg m) = Inr hook"
    by (auto simp: fac_receive_cw20_def Let_def bindR_eq_Inr)
  with assms show ?thesis
    by (cases hook) (auto simp: fac_receive_cw20_def Let_def bindR_eq_Inr ensure_eq_Inr from_json_Inr
        intro: swap_request_books remove_request_quiet)
qed

lemma callback_quiet:
  "fac_ibc_receive_internal_call av st env packet = Inr (st', r) \<Longrightarrow> fac_keeps_books st 0 r st' d"
  "fac_execute_native_receive_callback av st env info b = Inr (st', r) \<Longrightarrow> fac_keeps_books st 0 r st' d"
  by (auto simp: fac_ibc_receive_internal_call_def fac_execute_native_receive_callback_def Let_def bindR_eq_Inr
      ensure_eq_Inr fac_keeps_books_def dest!: router_message_quiet [where d = d])

lemma fac_execute_books:
  assumes "fac_execute w st env info msg = Inr (st', r)"
  shows "fac_keeps_books st (asked msg d) r st' d"
proof (cases msg)
  case (F_Receive m)
  with assms show ?thesis by (auto simp: fac_execute_def simp del: asked.simps intro: receive_cw20_books)
next
  case (F_IbcCallbackAckAndTimeout ack)
  with assms show ?thesis
    by (auto simp: fac_execute_def fac_ibc_ack_packet_internal_call_def bindR_eq_Inr intro: fac_ack_books)
qed (use assms in \<open>auto simp: fac_execute_def bindR_eq_Inr Let_def intro: add_request_books swap_request_books
      admin_request_quiet pool_request_quiet escrow_request_quiet withdraw_request_quiet callback_quiet\<close>)

lemma fac_reply_books:
  assumes "fac_reply av st env msg = Inr (st', r)"
  shows "fac_keeps_books st 0 r st' d"
proof -
  have native: "fac_keeps_books st 0 r st' d" if "fac_on_reply_native_ibc_wrapper_call av st env msg = Inr (st', r)"
    using that by (cases "reply_result msg") (auto simp: fac_on_reply_native_ibc_wrapper_call_def bindR_eq_Inr Let_def
        fac_keeps_books_def dest!: fac_ack_books [where d = d])
  have rest: "fac_keeps_books st 0 r st' d"
    if "on_escrow_instantiate_reply av st msg = Inr (st', r) \<or> on_cw20_instantiate_reply av st msg = Inr (st', r)
      \<or> fac_on_ibc_ack_and_timeout_reply st msg = Inr (st', r) \<or> fac_on_ibc_receive_reply st msg = Inr (st', r)"
    using that by (auto simp: on_escrow_instantiate_reply_def on_cw20_instantiate_reply_def bindR_eq_Inr
        fac_on_ibc_ack_and_timeout_reply_def fac_on_ibc_receive_reply_def fac_keeps_books_def response_simps
        split: SubMsgResult.splits)
  from assms show ?thesis
    unfolding fac_reply_def using native rest by (auto split: if_splits)
qed

section \<open>Runs\<close>

text \<open>The calls of the chain: a transaction, a reply, and the three packet entry points.\<close>

datatype fac_call =
  Do_Execute env message_info factory_ExecuteMsg
| Do_Reply env Reply
| Do_Ack env IbcPacketAckMsg
| Do_Receive env IbcPacket
| Do_Timeout env IbcPacket

fun fac_do :: "('d, 'e) fac_world \<Rightarrow> fac_storage \<Rightarrow> fac_call \<Rightarrow> fac_result" where
  "fac_do w st (Do_Execute env info msg) = fac_execute w st env info msg"
| "fac_do w st (Do_Reply env msg) = fac_reply (w_addr_validate w) st env msg"
| "fac_do w st (Do_Ack env ack) = fac_ibc_packet_ack st env ack"
| "fac_do w st (Do_Receive env packet) = fac_ibc_packet_receive st env packet"
| "fac_do w st (Do_Timeout env packet) = fac_ibc_packet_timeout st env packet"

text \<open>A run: the final state, and the calls that succeeded with their responses; a call that fails is rolled back.\<close>

fun fac_run :: "('d, 'e) fac_world \<Rightarrow> fac_storage \<Rightarrow> fac_call list \<Rightarrow> fac_storage \<times> (fac_call \<times> Response) list" where
  "fac_run w st [] = (st, [])"
| "fac_run w st (c # cs) =
     (case fac_do w st c of
        Inl _ \<Rightarrow> fac_run w st cs
      | Inr (st', r) \<Rightarrow> let (st'', oks) = fac_run w st' cs in (st'', (c, r) # oks))"

fun call_asked :: "fac_call \<Rightarrow> string \<Rightarrow> nat" where
  "call_asked (Do_Execute _ _ msg) d = asked msg d"
| "call_asked _ d = 0"

text \<open>The coins the sender of a call attaches to it.\<close>

fun attached :: "fac_call \<Rightarrow> string \<Rightarrow> nat" where
  "attached (Do_Execute _ info _) d = coins_of (info_funds info) d"
| "attached _ d = 0"

text \<open>A request without partner fee, and with two different denominations if it is a deposit.\<close>

fun plain_request :: "factory_ExecuteMsg \<Rightarrow> bool" where
  "plain_request (F_AddLiquidityRequest p _ _ _ _) \<longleftrightarrow>
     twd_token_type (pwd_token_1 p) \<noteq> twd_token_type (pwd_token_2 p)"
| "plain_request (F_ExecuteSwapRequest _ _ _ _ _ _ _ pf) \<longleftrightarrow> partner_bps pf = 0"
| "plain_request (F_Receive m) \<longleftrightarrow>
     (case crm_msg m of Json_Hook (Hook_Swap _ _ _ _ _ _ pf) \<Rightarrow> partner_bps pf = 0 | _ \<Rightarrow> True)"
| "plain_request _ \<longleftrightarrow> True"

fun plain_call :: "fac_call \<Rightarrow> bool" where
  "plain_call (Do_Execute _ _ msg) \<longleftrightarrow> plain_request msg"
| "plain_call _ \<longleftrightarrow> True"

lemma fac_do_books:
  assumes "fac_do w st c = Inr (st', r)"
  shows "owed st' d + outflow r d = owed st d + call_asked c d"
  using assms fac_execute_books [of w st _ _ _ st' r d] fac_reply_books [of "w_addr_validate w" st _ _ st' r d]
  by (cases c) (auto simp: fac_keeps_books_def fac_ibc_packet_ack_def fac_ibc_packet_receive_def
      fac_ibc_packet_timeout_def bindR_eq_Inr Let_def response_simps submsg_defs)

lemma fac_run_books:
  "fac_run w st cs = (st', oks) \<Longrightarrow>
   owed st' d + (\<Sum>(c, r)\<leftarrow>oks. outflow r d) = owed st d + (\<Sum>(c, r)\<leftarrow>oks. call_asked c d)"
proof (induction cs arbitrary: st st' oks)
  case (Cons c cs)
  show ?case
  proof (cases "fac_do w st c")
    case (Inr p)
    obtain st1 r where p: "p = (st1, r)" by (cases p)
    obtain st2 oks' where run: "fac_run w st1 cs = (st2, oks')" by (cases "fac_run w st1 cs")
    from Cons.IH [OF run] fac_do_books [of w st c st1 r d] Cons.prems Inr run p show ?thesis by auto
  qed (use Cons in auto)
qed simp


text \<open>What a plain request asks for is attached to it.\<close>

lemma find_coins: "find (\<lambda>x. coin_denom x = d) cs = Some c \<Longrightarrow> unat (coin_amount c) \<le> coins_of cs d"
  by (induction cs) (auto split: if_splits)

lemma fund_token_attached:
  assumes "fund_token env info sender t x = Inr ms"
  shows "native_amount (twd_token_type t) d (unat x) \<le> coins_of (info_funds info) d"
proof (cases "twd_token_type t = Native d")
  case True
  with assms obtain c where "find (\<lambda>x. coin_denom x = d) (info_funds info) = Some c" "x \<le> coin_amount c"
    by (auto simp: fund_token_def TokenType_is_smart_def TokenType_is_native_def get_denom_def ensure_eq_Inr bindR_eq_Inr
        ok_or_eq_Inr)
  then show ?thesis using find_coins [of d "info_funds info" c] by (simp add: True native_amount_def word_le_nat_alt)
qed (simp add: native_amount_def)

lemma swap_funded_attached:
  assumes "swap_funded info t net"
  shows "native_amount t d (unat net) \<le> coins_of (info_funds info) d"
proof (cases "t = Native d")
  case True
  with assms obtain c where "find (\<lambda>x. coin_denom x = d) (info_funds info) = Some c" "net \<le> coin_amount c"
    by (auto simp: swap_funded_def TokenType_is_native_def get_denom_def split: option.splits)
  then show ?thesis using find_coins [of d "info_funds info" c] by (simp add: True native_amount_def word_le_nat_alt)
qed (simp add: native_amount_def)

lemma swap_request_attached:
  assumes math: "cosmwasm_math M"
    and run: "execute_swap_request M av qs ta st info env sender a out amt min_out swaps to addrs pf = Inr (st', r)"
    and plain: "partner_bps pf = 0"
  shows "native_amount (twd_token_type a) d (unat amt) \<le> coins_of (info_funds info) d"
proof -
  from swap_request_ok1 [OF run] obtain fee net where
      "checked_mul_ceil M amt (decimal_bps M (partner_bps pf)) = Inr fee" and net: "unat amt = unat fee + unat net"
    and funded: "swap_funded info (twd_token_type a) net" by blast
  then have "unat fee = 0"
    by (simp add: plain cosmwasm_math.mul_ceil_bps [OF math] ceil_div_def)
  with net have "unat amt = unat net" by simp
  then show ?thesis using swap_funded_attached [OF funded, of d] by simp
qed

lemma add_request_attached:
  assumes "add_liquidity_request ta st info env p a b slip to = Inr (st', r)"
    and "twd_token_type (pwd_token_1 p) \<noteq> twd_token_type (pwd_token_2 p)"
  shows "native_amount (twd_token_type (pwd_token_1 p)) d (unat a) + native_amount (twd_token_type (pwd_token_2 p)) d (unat b)
      \<le> coins_of (info_funds info) d"
proof -
  from add_request_ok1 [OF assms(1)] obtain ms1 ms2 where
      "fund_token env info (info_sender info) (pwd_token_1 p) a = Inr ms1"
      "fund_token env info (info_sender info) (pwd_token_2 p) b = Inr ms2" by blast
  from fund_token_attached [OF this(1), of d] fund_token_attached [OF this(2), of d] assms(2)
  show ?thesis by (auto simp: native_amount_def split: if_splits)
qed

lemma receive_attached:
  assumes math: "cosmwasm_math M" and run: "fac_receive_cw20 M av qs ta st env info m = Inr (st', r)"
    and plain: "plain_request (F_Receive m)"
  shows "asked (F_Receive m) d \<le> coins_of (info_funds info) d"
proof -
  from run obtain hook where hook: "crm_msg m = Json_Hook hook"
    by (auto simp: fac_receive_cw20_def Let_def bindR_eq_Inr from_json_Inr)
  with run plain show ?thesis
    by (cases hook) (auto simp: fac_receive_cw20_def Let_def bindR_eq_Inr ensure_eq_Inr from_json_Inr
        intro: swap_request_attached [OF math])
qed

lemma plain_request_attached:
  assumes math: "cosmwasm_math (w_math w)" and run: "fac_execute w st env info msg = Inr (st', r)"
    and plain: "plain_request msg"
  shows "asked msg d \<le> coins_of (info_funds info) d"
proof (cases msg)
  case (F_Receive m)
  with run plain receive_attached [OF math] show ?thesis by (simp add: fac_execute_def del: asked.simps plain_request.simps)
qed (use run plain in \<open>auto simp: fac_execute_def bindR_eq_Inr Let_def intro: swap_request_attached [OF math]
      add_request_attached\<close>)

lemma fac_run_attached:
  assumes math: "cosmwasm_math (w_math w)"
  shows "\<forall>c\<in>set cs. plain_call c \<Longrightarrow> fac_run w st cs = (st', oks) \<Longrightarrow>
    (\<Sum>(c, r)\<leftarrow>oks. call_asked c d) \<le> (\<Sum>(c, r)\<leftarrow>oks. attached c d)"
proof (induction cs arbitrary: st st' oks)
  case (Cons c cs)
  show ?case
  proof (cases "fac_do w st c")
    case (Inr p)
    obtain st1 r where p: "p = (st1, r)" by (cases p)
    obtain st2 oks' where run: "fac_run w st1 cs = (st2, oks')" by (cases "fac_run w st1 cs")
    have "call_asked c d \<le> attached c d"
      using Inr p Cons.prems(1) by (cases c) (auto intro: plain_request_attached [OF math])
    with Cons.IH [OF _ run] Cons.prems Inr run p show ?thesis by auto
  qed (use Cons in auto)
qed simp


section \<open>Each request is answered once\<close>

text \<open>
  The swaps of the factory as a store of requests: \<open>execute_swap_request\<close> opens one under its sender and
  transaction id, \<open>ack_swap_request\<close> closes it. The same for deposits and withdrawals of liquidity.
\<close>

definition swap_opened :: "('d, 'e) cw_math \<Rightarrow> fac_storage \<Rightarrow> pending_key \<Rightarrow> SwapRequest \<Rightarrow> fac_storage \<Rightarrow> bool" where
  "swap_opened M st k req st' \<longleftrightarrow>
     (\<exists>av qs ta info env sender a out amt min_out swaps to addrs pf r saddr.
        execute_swap_request M av qs ta st info env sender a out amt min_out swaps to addrs pf = Inr (st', r)
        \<and> av (ccu_address sender) = Inr saddr \<and> k = (saddr, snd (fac_generate_tx st env sender))
        \<and> map_may_load (PENDING_SWAPS st') k = Some req)"

definition swap_closed :: "fac_storage \<Rightarrow> pending_key \<Rightarrow> SwapRequest \<Rightarrow> fac_storage \<Rightarrow> bool" where
  "swap_closed st k req st' \<longleftrightarrow>
     (\<exists>av res sender tx native r. ack_swap_request av st res sender tx native = Inr (st', r)
        \<and> av sender = Inr (fst k) \<and> tx = snd k \<and> map_may_load (PENDING_SWAPS st) k = Some req)"

lemma ack_swap_closes:
  assumes "ack_swap_request av st res sender tx native = Inr (st', r)"
  shows "\<exists>a req. av sender = Inr a \<and> map_may_load (PENDING_SWAPS st) (a, tx) = Some req
     \<and> PENDING_SWAPS st' = map_remove (PENDING_SWAPS st) (a, tx)"
  using assms
  by (cases res) (auto simp: ack_swap_request_def Let_def bindR_eq_Inr map_load_eq_Inr split: if_splits)

lemma swap_request_opens:
  assumes "execute_swap_request M av qs ta st info env sender a out amt min_out swaps to addrs pf = Inr (st', r)"
  shows "\<exists>saddr req. av (ccu_address sender) = Inr saddr
     \<and> \<not> map_has (PENDING_SWAPS st) (saddr, snd (fac_generate_tx st env sender))
     \<and> PENDING_SWAPS st' = map_save (PENDING_SWAPS st) (saddr, snd (fac_generate_tx st env sender)) req"
proof -
  obtain saddr n req msg state channel timeout m where av: "av (ccu_address sender) = Inr saddr"
    and new: "\<not> map_has (PENDING_SWAPS st) (saddr, snd (fac_generate_tx st env sender))"
    and msg: "fac_to_msg (st\<lparr>F_TX_NONCE := n, PENDING_SWAPS := map_save (PENDING_SWAPS st)
        (saddr, snd (fac_generate_tx st env sender)) req\<rparr>) env msg state channel timeout = Inr (st', m)"
    using swap_request_ok1 [OF assms] by blast
  have "PENDING_SWAPS st' = map_save (PENDING_SWAPS st) (saddr, snd (fac_generate_tx st env sender)) req"
    by (subst fac_to_msg_keeps(1) [OF msg]) simp
  with av new show ?thesis by blast
qed

interpretation swaps: request_store "\<lambda>st. map_may_load (PENDING_SWAPS st)" "swap_opened M" swap_closed
  for M :: "('d, 'e) cw_math"
proof
  fix st k req st'
  assume "swap_opened M st k req st'"
  then show "map_may_load (PENDING_SWAPS st) k = None
      \<and> map_may_load (PENDING_SWAPS st') = (map_may_load (PENDING_SWAPS st))(k \<mapsto> req)"
    unfolding swap_opened_def by (force dest!: swap_request_opens simp: map_has_def fun_eq_iff)
next
  fix st k req st'
  assume "swap_closed st k req st'"
  then show "map_may_load (PENDING_SWAPS st) k = Some req
      \<and> map_may_load (PENDING_SWAPS st') = (map_may_load (PENDING_SWAPS st))(k := None)"
    unfolding swap_closed_def by (cases k) (force dest!: ack_swap_closes simp: fun_eq_iff)
qed

definition deposit_opened :: "fac_storage \<Rightarrow> pending_key \<Rightarrow> AddLiquidityRequest \<Rightarrow> fac_storage \<Rightarrow> bool" where
  "deposit_opened st k req st' \<longleftrightarrow>
     (\<exists>ta info env p a b slip to r state. add_liquidity_request ta st info env p a b slip to = Inr (st', r)
        \<and> F_STATE st = Some state
        \<and> k = (info_sender info, snd (fac_generate_tx st env
             \<lparr>ccu_chain_uid = fs_chain_uid state, ccu_address = info_sender info\<rparr>))
        \<and> map_may_load (PENDING_ADD_LIQUIDITY st') k = Some req)"

definition deposit_closed :: "fac_storage \<Rightarrow> pending_key \<Rightarrow> AddLiquidityRequest \<Rightarrow> fac_storage \<Rightarrow> bool" where
  "deposit_closed st k req st' \<longleftrightarrow>
     (\<exists>av res sender tx native r. ack_add_liquidity av st res sender tx native = Inr (st', r)
        \<and> av sender = Inr (fst k) \<and> tx = snd k \<and> map_may_load (PENDING_ADD_LIQUIDITY st) k = Some req)"

lemma ack_add_closes:
  assumes "ack_add_liquidity av st res sender tx native = Inr (st', r)"
  shows "\<exists>a req. av sender = Inr a \<and> map_may_load (PENDING_ADD_LIQUIDITY st) (a, tx) = Some req
     \<and> PENDING_ADD_LIQUIDITY st' = map_remove (PENDING_ADD_LIQUIDITY st) (a, tx)"
  using assms
  by (cases res) (auto simp: ack_add_liquidity_def Let_def bindR_eq_Inr map_load_eq_Inr split: if_splits)

lemma add_request_opens:
  assumes "add_liquidity_request ta st info env p a b slip to = Inr (st', r)" and "F_STATE st = Some state"
    and "k = (info_sender info, snd (fac_generate_tx st env
             \<lparr>ccu_chain_uid = fs_chain_uid state, ccu_address = info_sender info\<rparr>))"
  shows "\<exists>req. \<not> map_has (PENDING_ADD_LIQUIDITY st) k
     \<and> PENDING_ADD_LIQUIDITY st' = map_save (PENDING_ADD_LIQUIDITY st) k req"
proof -
  obtain n req msg state' channel timeout m where new: "\<not> map_has (PENDING_ADD_LIQUIDITY st) k"
    and msg: "fac_to_msg (st\<lparr>F_TX_NONCE := n, PENDING_ADD_LIQUIDITY := map_save (PENDING_ADD_LIQUIDITY st) k req\<rparr>)
       env msg state' channel timeout = Inr (st', m)"
    using add_request_ok1 [OF assms(1)] assms(2,3) by auto
  have "PENDING_ADD_LIQUIDITY st' = map_save (PENDING_ADD_LIQUIDITY st) k req"
    by (subst fac_to_msg_keeps(1) [OF msg]) simp
  with new show ?thesis by blast
qed

interpretation deposits: request_store "\<lambda>st. map_may_load (PENDING_ADD_LIQUIDITY st)" deposit_opened deposit_closed
proof
  fix st k req st'
  assume "deposit_opened st k req st'"
  then show "map_may_load (PENDING_ADD_LIQUIDITY st) k = None
      \<and> map_may_load (PENDING_ADD_LIQUIDITY st') = (map_may_load (PENDING_ADD_LIQUIDITY st))(k \<mapsto> req)"
    unfolding deposit_opened_def by (force dest!: add_request_opens simp: map_has_def fun_eq_iff)
next
  fix st k req st'
  assume "deposit_closed st k req st'"
  then show "map_may_load (PENDING_ADD_LIQUIDITY st) k = Some req
      \<and> map_may_load (PENDING_ADD_LIQUIDITY st') = (map_may_load (PENDING_ADD_LIQUIDITY st))(k := None)"
    unfolding deposit_closed_def by (cases k) (force dest!: ack_add_closes simp: fun_eq_iff)
qed


definition withdrawal_opened :: "fac_storage \<Rightarrow> pending_key \<Rightarrow> RemoveLiquidityRequest \<Rightarrow> fac_storage \<Rightarrow> bool" where
  "withdrawal_opened st k req st' \<longleftrightarrow>
     (\<exists>av info env sender pair x to addrs r saddr.
        remove_liquidity_request av st info env sender pair x to addrs = Inr (st', r)
        \<and> av (ccu_address sender) = Inr saddr \<and> k = (saddr, snd (fac_generate_tx st env sender))
        \<and> map_may_load (F_PENDING_REMOVE_LIQUIDITY st') k = Some req)"

definition withdrawal_closed :: "fac_storage \<Rightarrow> pending_key \<Rightarrow> RemoveLiquidityRequest \<Rightarrow> fac_storage \<Rightarrow> bool" where
  "withdrawal_closed st k req st' \<longleftrightarrow>
     (\<exists>av res sender tx native r. ack_remove_liquidity av st res sender tx native = Inr (st', r)
        \<and> av sender = Inr (fst k) \<and> tx = snd k \<and> map_may_load (F_PENDING_REMOVE_LIQUIDITY st) k = Some req)"

lemma ack_remove_closes:
  assumes "ack_remove_liquidity av st res sender tx native = Inr (st', r)"
  shows "\<exists>a req. av sender = Inr a \<and> map_may_load (F_PENDING_REMOVE_LIQUIDITY st) (a, tx) = Some req
     \<and> F_PENDING_REMOVE_LIQUIDITY st' = map_remove (F_PENDING_REMOVE_LIQUIDITY st) (a, tx)"
  using assms
  by (cases res) (auto simp: ack_remove_liquidity_def Let_def bindR_eq_Inr map_load_eq_Inr split: if_splits)

lemma remove_request_ok1:
  assumes "remove_liquidity_request av st info env sender pair x to addrs = Inr (st', r)"
  shows "\<exists>state saddr vlp channel timeout m n.
     F_STATE st = Some state \<and> av (ccu_address sender) = Inr saddr
     \<and> \<not> map_has (F_PENDING_REMOVE_LIQUIDITY st) (saddr, snd (fac_generate_tx st env sender))
     \<and> map_may_load (PAIR_TO_VLP st) (get_tupple pair) = Some vlp
     \<and> map_may_load (VLP_TO_CW20 st) vlp = Some (info_sender info) \<and> x \<noteq> 0
     \<and> fac_to_msg (st\<lparr>F_TX_NONCE := n,
          F_PENDING_REMOVE_LIQUIDITY := map_save (F_PENDING_REMOVE_LIQUIDITY st) (saddr, snd (fac_generate_tx st env sender))
            \<lparr>rlr_sender = saddr, rlr_tx_id = snd (fac_generate_tx st env sender), rlr_lp_allocation = x, rlr_pair = pair,
             rlr_cw20 = info_sender info\<rparr>\<rparr>) env
          (CI_RemoveLiquidity \<lparr>crl_sender = sender, crl_lp_allocation = x, crl_pair = pair,
            crl_cross_chain_addresses = addrs, crl_tx_id = snd (fac_generate_tx st env sender)\<rparr>)
          state channel timeout = Inr (st', m)
     \<and> r = \<lparr>r_messages = [m], r_data = None\<rparr>"
proof -
  note keep = bindR_eq_Inr ensure_eq_Inr item_load_eq_Inr map_load_eq_Inr
  from assms show ?thesis
    unfolding remove_liquidity_request_def Let_def split_beta fac_generate_tx_fst response_simps keep map_has_def
    apply (elim exE conjE)
    subgoal for state saddr vlp cw20 channel timeout p
      apply (erule Inr_inject [THEN Pair_inject], hypsubst)
      apply (rule exI [of _ state], rule exI [of _ saddr], rule exI [of _ vlp], rule exI [of _ channel],
          rule exI [of _ timeout], rule exI [of _ "snd p"], rule exI)
      apply (intro conjI)
      apply (assumption | rule refl | simp)+
      done
    done
qed

lemma remove_request_opens:
  assumes "remove_liquidity_request av st info env sender pair x to addrs = Inr (st', r)"
  shows "\<exists>saddr req. av (ccu_address sender) = Inr saddr
     \<and> \<not> map_has (F_PENDING_REMOVE_LIQUIDITY st) (saddr, snd (fac_generate_tx st env sender))
     \<and> F_PENDING_REMOVE_LIQUIDITY st'
         = map_save (F_PENDING_REMOVE_LIQUIDITY st) (saddr, snd (fac_generate_tx st env sender)) req"
proof -
  obtain saddr n req msg state channel timeout m where av: "av (ccu_address sender) = Inr saddr"
    and new: "\<not> map_has (F_PENDING_REMOVE_LIQUIDITY st) (saddr, snd (fac_generate_tx st env sender))"
    and msg: "fac_to_msg (st\<lparr>F_TX_NONCE := n, F_PENDING_REMOVE_LIQUIDITY := map_save (F_PENDING_REMOVE_LIQUIDITY st)
        (saddr, snd (fac_generate_tx st env sender)) req\<rparr>) env msg state channel timeout = Inr (st', m)"
    using remove_request_ok1 [OF assms] by blast
  have "F_PENDING_REMOVE_LIQUIDITY st'
      = map_save (F_PENDING_REMOVE_LIQUIDITY st) (saddr, snd (fac_generate_tx st env sender)) req"
    by (subst fac_to_msg_keeps(1) [OF msg]) simp
  with av new show ?thesis by blast
qed

interpretation withdrawals: request_store "\<lambda>st. map_may_load (F_PENDING_REMOVE_LIQUIDITY st)" withdrawal_opened withdrawal_closed
proof
  fix st k req st'
  assume "withdrawal_opened st k req st'"
  then show "map_may_load (F_PENDING_REMOVE_LIQUIDITY st) k = None
      \<and> map_may_load (F_PENDING_REMOVE_LIQUIDITY st') = (map_may_load (F_PENDING_REMOVE_LIQUIDITY st))(k \<mapsto> req)"
    unfolding withdrawal_opened_def by (force dest!: remove_request_opens simp: map_has_def fun_eq_iff)
next
  fix st k req st'
  assume "withdrawal_closed st k req st'"
  then show "map_may_load (F_PENDING_REMOVE_LIQUIDITY st) k = Some req
      \<and> map_may_load (F_PENDING_REMOVE_LIQUIDITY st') = (map_may_load (F_PENDING_REMOVE_LIQUIDITY st))(k := None)"
    unfolding withdrawal_closed_def by (cases k) (force dest!: ack_remove_closes simp: fun_eq_iff)
qed

end
