(* ===== verification/Factory_Properties.thy ===== *)
theory Factory_Properties
  imports Factory_Correct
begin

text \<open>
  The properties of the factory: custody of its users' funds, settlement of their requests, for whom it speaks,
  whom it obeys, and what its missing checks allow.
\<close>

section \<open>Example\<close>

definition xf_in :: TokenWithDenom where
  "xf_in = \<lparr>twd_token = Token ''atom'', twd_token_type = Native ''uatom''\<rparr>"

definition xf_smart :: TokenWithDenom where
  "xf_smart = \<lparr>twd_token = Token ''eucl'', twd_token_type = Smart ''eucltoken''\<rparr>"

definition xf_state :: fac_State where
  "xf_state = \<lparr>fs_router_contract = ''router'', fs_admin = ''admin'', fs_escrow_code_id = 1, fs_cw20_code_id = 2,
     fs_chain_uid = ChainUid ''osmosis'', fs_is_native = False, fs_partner_fees_collected = []\<rparr>"

definition xf_fac :: fac_storage where
  "xf_fac = \<lparr>F_STATE = Some xf_state, HUB_CHANNEL = Some ''channel-7'',
     PAIR_TO_VLP = [((Token ''atom'', Token ''eucl''), ''vlp'')], VLP_TO_LP_SHARES = [],
     TOKEN_TO_ESCROW = [(Token ''atom'', ''escrow1''), (Token ''eucl'', ''escrow2'')],
     VLP_TO_CW20 = [(''vlp'', ''lptoken'')], PENDING_REQUESTS = [], PENDING_SWAPS = [], PENDING_ADD_LIQUIDITY = [],
     F_PENDING_REMOVE_LIQUIDITY = [], CHAIN_QUEUE = \<lparr>q_entries = [], q_count = None\<rparr>, F_TX_NONCE = None,
     F_CHANNELS = \<lparr>CONNECTION_COUNTS = [], TIMEOUT_COUNTS = []\<rparr>\<rparr>"

definition xf_env :: env where
  "xf_env = \<lparr>block_height = 10, block_time = 1000, block_chain_id = ''osmosis-1'', tx_index = None,
     contract_address = ''factory''\<rparr>"

definition xf_user :: CrossChainUser where
  "xf_user = \<lparr>ccu_chain_uid = ChainUid ''osmosis'', ccu_address = ''alice''\<rparr>"

definition xf_world :: "(nat, nat) fac_world" where
  "xf_world = \<lparr>w_math = std_math, w_addr_validate = Ok, w_query_supply = (\<lambda>_. Ok 1000000),
     w_token_allowed = (\<lambda>_ _. Ok True), w_validate_lp = (\<lambda>_. Ok ())\<rparr>"

definition xf_pays :: "uint128 \<Rightarrow> message_info" where
  "xf_pays n = \<lparr>info_sender = ''alice'', info_funds = [\<lparr>coin_denom = ''uatom'', coin_amount = n\<rparr>]\<rparr>"

definition xf_swap :: "PartnerFee option \<Rightarrow> factory_ExecuteMsg" where
  "xf_swap pf = F_ExecuteSwapRequest xf_in (Token ''eucl'') 1000 1 None
     [\<lparr>nsp_token_in = Token ''atom'', nsp_token_out = Token ''eucl'', nsp_test_fail = None\<rparr>] [] pf"

definition xf_tx :: string where
  "xf_tx = snd (fac_generate_tx xf_fac xf_env xf_user)"

lemmas xf_defs = xf_in_def xf_smart_def xf_state_def xf_fac_def xf_env_def xf_user_def xf_world_def xf_pays_def xf_swap_def

text \<open>A swap of 1000 with a fee of \<open>n\<close> basis points for a partner, and what it stores.\<close>

definition xf_partner :: "u64 \<Rightarrow> PartnerFee option" where
  "xf_partner n = (if n = 0 then None else Some \<lparr>pf_partner_fee_bps = n, pf_recipient = ''partner''\<rparr>)"

lemma xf_fee:
  "checked_mul_ceil std_math 1000 (decimal_bps std_math 0) = Ok 0"
  "checked_mul_ceil std_math 1000 (decimal_bps std_math 30) = Ok 3"
  by (simp_all add: std.mul_ceil_bps ceil_div_def)

lemma xf_swap_ok:
  "\<exists>st r. fac_execute xf_world xf_fac xf_env (xf_pays 1000) (xf_swap None) = Ok (st, r)"
  by (simp add: xf_defs fac_execute_def execute_swap_request_def Let_def split_beta fac_generate_tx_def xf_fee
      TokenWithDenom_validate_def TokenType_is_native_def get_denom_def MAX_PARTNER_FEE_BPS_def checked_sub_def
      map_has_def slice_first_def slice_last_def get_timeout_def map_load_def map_may_load_def fac_to_msg_def
      ChainIbc_to_msg_def)

section \<open>Custody\<close>

text \<open>
  C4: the factory accounts for every native coin it takes on. Over any sequence of transactions, replies and
  packets, in any order and by anyone, what it owes to pending requests and what it has sent out are together
  what it owed at the start and what the accepted requests asked it to take on. So whatever is paid is no longer owed.
\<close>

theorem factory_custody:
  "owed (fst (fac_run w st cs)) d + (\<Sum>(c, r)\<leftarrow>snd (fac_run w st cs). outflow r d)
     = owed st d + (\<Sum>(c, r)\<leftarrow>snd (fac_run w st cs). call_asked c d)"
  by (rule fac_run_books [OF prod.collapse [symmetric]])

text \<open>
  As long as no request has a partner fee or deposits one denomination as both tokens of a pair, the factory
  is solvent: what it owes and what it has sent out never exceed what it owed at the start and the coins that were
  attached to the accepted calls.
\<close>

theorem factory_solvent:
  assumes "cosmwasm_math (w_math w)" and "\<forall>c\<in>set cs. plain_call c"
  shows "owed (fst (fac_run w st cs)) d + (\<Sum>(c, r)\<leftarrow>snd (fac_run w st cs). outflow r d)
     \<le> owed st d + (\<Sum>(c, r)\<leftarrow>snd (fac_run w st cs). attached c d)"
  using fac_run_books [of w st cs _ _ d, OF prod.collapse [symmetric]]
    fac_run_attached [where st = st and d = d, OF assms prod.collapse [symmetric]] by simp

definition xf_calls :: "fac_call list" where
  "xf_calls = [Do_Execute xf_env (xf_pays 1000) (xf_swap None)]"

theorem factory_solvent_witness:
  "length (snd (fac_run xf_world xf_fac xf_calls)) = 1
   \<and> owed (fst (fac_run xf_world xf_fac xf_calls)) ''uatom''
       + (\<Sum>(c, r)\<leftarrow>snd (fac_run xf_world xf_fac xf_calls). outflow r ''uatom'') \<le> 1000"
proof -
  obtain st r where ok: "fac_execute xf_world xf_fac xf_env (xf_pays 1000) (xf_swap None) = Ok (st, r)"
    using xf_swap_ok by blast
  have run: "fac_run xf_world xf_fac xf_calls = (st, [(Do_Execute xf_env (xf_pays 1000) (xf_swap None), r)])"
    by (simp add: xf_calls_def ok)
  have math: "cosmwasm_math (w_math xf_world)" by (simp add: xf_world_def std.cosmwasm_math_axioms)
  have plain: "\<forall>c\<in>set xf_calls. plain_call c" by (simp add: xf_calls_def xf_swap_def)
  have "owed xf_fac ''uatom'' = 0" by (simp add: owed_def xf_fac_def)
  then show ?thesis
    using factory_solvent [OF math plain, of xf_fac "''uatom''"] by (simp add: run xf_pays_def)
qed

section \<open>Settlement\<close>

lemma ack_unknown:
  "av sender = Inr a \<Longrightarrow> map_may_load (PENDING_SWAPS st) (a, tx) = None \<Longrightarrow>
     \<exists>e. ack_swap_request av st res sender tx native = Err e"
  "av sender = Inr a \<Longrightarrow> map_may_load (PENDING_ADD_LIQUIDITY st) (a, tx) = None \<Longrightarrow>
     \<exists>e. ack_add_liquidity av st res' sender tx native = Err e"
  "av sender = Inr a \<Longrightarrow> map_may_load (F_PENDING_REMOVE_LIQUIDITY st) (a, tx) = None \<Longrightarrow>
     \<exists>e. ack_remove_liquidity av st res'' sender tx native = Err e"
  by (simp_all add: ack_swap_request_def ack_add_liquidity_def ack_remove_liquidity_def map_load_def)

lemma swap_request_stores:
  assumes run: "execute_swap_request M av qs ta st info env sender a out amt min_out swaps to addrs pf = Inr (st1, r1)"
    and k: "av (ccu_address sender) = Inr saddr" "tx = snd (fac_generate_tx st env sender)"
  shows "\<exists>fee net recipient (q :: SwapRequest) (c :: ChainIbcSwapExecuteMsg) n state channel timeout m.
     fac_to_msg (st\<lparr>F_TX_NONCE := n, PENDING_SWAPS := map_save (PENDING_SWAPS st) (saddr, tx) q\<rparr>) env (CI_Swap c)
        state channel timeout = Inr (st1, m) \<and> r1 = \<lparr>r_messages = [m], r_data = None\<rparr>
     \<and> checked_mul_ceil M amt (decimal_bps M (partner_bps pf)) = Inr fee \<and> unat amt = unat fee + unat net
     \<and> (case pf of None \<Rightarrow> recipient = None | Some fee \<Rightarrow> \<exists>a. av (pf_recipient fee) = Inr a \<and> recipient = Some a)
     \<and> sr_asset_in q = a \<and> sr_amount_in q = net \<and> sr_partner_fee_amount q = fee \<and> sr_partner_fee_recipient q = recipient
     \<and> csw_sender c = sender \<and> csw_amount_in c = net \<and> csw_tx_id c = tx \<and> csw_asset_in c = twd_token a"
  using swap_request_ok1 [OF run] unfolding k(1) k(2) [symmetric] sum.inject
  apply (elim exE conjE)
  apply hypsubst
  apply (intro exI conjI, assumption)
  apply (rule refl | assumption | simp)+
  done

lemma failed_swap_refunds:
  assumes run: "execute_swap_request M av qs ta st info env sender a out amt min_out swaps to addrs pf = Inr (st1, r1)"
    and k: "av (ccu_address sender) = Inr saddr" "tx = snd (fac_generate_tx st env sender)"
  shows "\<exists>st2. ack_swap_request av st1 (AckError err) (ccu_address sender) tx False
     = Ok (st2, \<lparr>r_messages = [SubMsg_new (create_transfer_msg (twd_token_type a) amt saddr None)], r_data = None\<rparr>)"
proof -
  from swap_request_stores [OF run k] obtain fee net and q :: SwapRequest and n c state channel timeout m where
      msg: "fac_to_msg (st\<lparr>F_TX_NONCE := n, PENDING_SWAPS := map_save (PENDING_SWAPS st) (saddr, tx) q\<rparr>) env (CI_Swap c)
        state channel timeout = Inr (st1, m)" and sum: "unat amt = unat fee + unat net"
    and q: "sr_asset_in q = a" "sr_amount_in q = net" "sr_partner_fee_amount q = fee" by blast
  have pend: "PENDING_SWAPS st1 = map_save (PENDING_SWAPS st) (saddr, tx) q"
    by (subst fac_to_msg_keeps(1) [OF msg]) simp
  have "checked_add net fee = Inr amt" using sum by (simp add: checked_add_eq_Inr)
  then show ?thesis by (simp add: ack_swap_request_def Let_def map_load_def k(1) pend q)
qed

text \<open>
  C14: a swap is settled once and for the amount that was put in. The partner fee is the rounded-up share of the
  amount, the router is asked to swap the rest, and while the request is pending nothing changes it. A successful
  acknowledgement deposits the rest with the escrow of the token and pays the fee to the partner; a failed one
  returns both to the sender. Either takes the request out and no other, and any further acknowledgement of it
  is refused.
\<close>

theorem swap_settled_once:
  fixes M :: "('d, 'e) cw_math" and st1 st2 st3 :: fac_storage
  assumes math: "cosmwasm_math M"
    and req: "execute_swap_request M av qs ta st info env sender a out amt min_out swaps to addrs pf = Ok (st1, r1)"
    and k: "av (ccu_address sender) = Ok saddr" "tx = snd (fac_generate_tx st env sender)"
    and same: "map_may_load (PENDING_SWAPS st2) (saddr, tx) = map_may_load (PENDING_SWAPS st1) (saddr, tx)"
    and ack: "ack_swap_request av st2 res (ccu_address sender) tx False = Ok (st3, r)"
  shows "\<exists>fee net m recipient.
     unat fee = ceil_div (unat amt * unat (partner_bps pf)) 10000 \<and> unat fee + unat net = unat amt
     \<and> requests r1 = [CI_Swap m] \<and> csw_sender m = sender \<and> csw_amount_in m = net \<and> csw_tx_id m = tx
     \<and> (\<forall>p. pf = Some p \<longrightarrow> av (pf_recipient p) = Ok recipient)
     \<and> map sm_msg (r_messages r) =
         (case res of
            AckOk _ \<Rightarrow>
              create_escrow_msg (twd_token_type a) net (the (map_may_load (TOKEN_TO_ESCROW st2) (twd_token a)))
                # (if fee = 0 then [] else [create_transfer_msg (twd_token_type a) fee recipient None])
          | AckError _ \<Rightarrow> [create_transfer_msg (twd_token_type a) amt saddr None])
     \<and> map_may_load (PENDING_SWAPS st3) = (map_may_load (PENDING_SWAPS st2))((saddr, tx) := None)
     \<and> (\<forall>res' native. \<exists>e. ack_swap_request av st3 res' (ccu_address sender) tx native = Err e)"
proof -
  let ?k = "(saddr, tx)"
  from swap_request_stores [OF req k] obtain n state fee net channel timeout recipient m and q :: SwapRequest and c where
      fee: "checked_mul_ceil M amt (decimal_bps M (partner_bps pf)) = Inr fee" "unat amt = unat fee + unat net"
    and rcp: "case pf of None \<Rightarrow> recipient = None | Some fee \<Rightarrow> \<exists>a. av (pf_recipient fee) = Inr a \<and> recipient = Some a"
    and q: "sr_asset_in q = a" "sr_amount_in q = net" "sr_partner_fee_amount q = fee" "sr_partner_fee_recipient q = recipient"
    and c: "csw_sender c = sender" "csw_amount_in c = net" "csw_tx_id c = tx"
    and msg: "fac_to_msg (st\<lparr>F_TX_NONCE := n, PENDING_SWAPS := map_save (PENDING_SWAPS st) ?k q\<rparr>) env (CI_Swap c)
        state channel timeout = Inr (st1, m)" and r1: "r1 = \<lparr>r_messages = [m], r_data = None\<rparr>"
    by blast
  have "PENDING_SWAPS st1 = map_save (PENDING_SWAPS st) ?k q"
    by (subst fac_to_msg_keeps(1) [OF msg]) simp
  with same have pend: "map_may_load (PENDING_SWAPS st2) ?k = Some q" by simp
  have closed: "swap_closed st2 ?k q st3"
    unfolding swap_closed_def using ack k(1) pend by (intro exI) auto
  have again: "\<exists>e. ack_swap_request av st3 res' (ccu_address sender) tx native = Err e" for res' native
    using swaps.closed_law [OF closed] k(1) by (intro ack_unknown(1) [of _ _ saddr]) simp_all
  have refund: "checked_add net fee = Inr amt" using fee(2) by (simp add: checked_add_eq_Inr)
  have paid: "map sm_msg (r_messages r) =
         (case res of
            AckOk _ \<Rightarrow>
              create_escrow_msg (twd_token_type a) net (the (map_may_load (TOKEN_TO_ESCROW st2) (twd_token a)))
                # (if fee = 0 then [] else [create_transfer_msg (twd_token_type a) fee (unwrap_or recipient saddr) None])
          | AckError _ \<Rightarrow> [create_transfer_msg (twd_token_type a) amt saddr None])"
    using ack pend refund by (cases res) (auto simp: ack_swap_request_def Let_def bindR_eq_Inr map_load_eq_Inr k(1) q
        submsg_defs split: if_splits)
  show ?thesis
    using fee rcp fac_to_msg_keeps(2) [OF msg] swaps.closed_law [OF closed] again paid c
    by (intro exI [of _ fee] exI [of _ net] exI [of _ c] exI [of _ "unwrap_or recipient saddr"] conjI)
       (auto simp: cosmwasm_math.mul_ceil_bps [OF math] r1 split: option.splits)
qed


lemma fac_execute_swap:
  assumes "F_STATE st = Some state"
  shows "fac_execute w st env info (F_ExecuteSwapRequest a out amt min_out to swaps addrs pf)
     = execute_swap_request (w_math w) (w_addr_validate w) (w_query_supply w) (w_token_allowed w) st info env
         \<lparr>ccu_chain_uid = fs_chain_uid state, ccu_address = info_sender info\<rparr> a out amt min_out swaps to addrs pf"
  by (simp add: fac_execute_def assms)

text \<open>A swap of 1000 with a partner fee of 30 basis points.\<close>

abbreviation xf_fee_swap :: "message_info \<Rightarrow> fac_result" where
  "xf_fee_swap info \<equiv> execute_swap_request std_math Ok (\<lambda>_. Ok 1000000) (\<lambda>_ _. Ok True) xf_fac info xf_env xf_user xf_in
     (Token ''eucl'') 1000 1 [\<lparr>nsp_token_in = Token ''atom'', nsp_token_out = Token ''eucl'', nsp_test_fail = None\<rparr>] None []
     (xf_partner 30)"

lemma xf_fee_swap_ok: "\<exists>st r. xf_fee_swap (xf_pays 997) = Ok (st, r)"
  by (simp add: xf_defs xf_partner_def execute_swap_request_def Let_def split_beta fac_generate_tx_def xf_fee
      TokenWithDenom_validate_def TokenType_is_native_def get_denom_def MAX_PARTNER_FEE_BPS_def checked_sub_def
      map_has_def slice_first_def slice_last_def get_timeout_def map_load_def map_may_load_def fac_to_msg_def
      ChainIbc_to_msg_def)


theorem swap_settled_once_witness:
  "\<exists>st1 r1 st2 r. xf_fee_swap (xf_pays 997) = Ok (st1, r1)
     \<and> ack_swap_request Ok st1 (AckError ''slippage'') ''alice'' xf_tx False = Ok (st2, r)
     \<and> map sm_msg (r_messages r) = [create_transfer_msg (Native ''uatom'') 1000 ''alice'' None]
     \<and> (\<exists>e. ack_swap_request Ok st2 (AckError ''slippage'') ''alice'' xf_tx False = Err e)"
proof -
  have alice: "ccu_address xf_user = ''alice''" by (simp add: xf_user_def)
  obtain st1 r1 where ok: "xf_fee_swap (xf_pays 997) = Ok (st1, r1)" using xf_fee_swap_ok by blast
  from failed_swap_refunds [OF this refl xf_tx_def] obtain st2 r where
      ack: "ack_swap_request Ok st1 (AckError ''slippage'') (ccu_address xf_user) xf_tx False = Ok (st2, r)" by blast
  from swap_settled_once [OF std.cosmwasm_math_axioms ok refl xf_tx_def refl ack] ok ack show ?thesis
    by (auto simp: alice xf_in_def)
qed

text \<open>
  C36: the partner fee need not be paid. A swap with a partner fee checks the attached coins against the amount
  without the fee, so the same request succeeds when only that is attached; if the swap then fails, the whole
  amount is sent back, and the sender gains the fee from the coins of others.
\<close>

theorem partner_fee_not_collected:
  fixes M :: "('d, 'e) cw_math" and st1 :: fac_storage
  assumes math: "cosmwasm_math M" and native: "twd_token_type a = Native d"
    and req: "execute_swap_request M av qs ta st info env sender a out amt min_out swaps to addrs pf = Ok (st1, r1)"
    and k: "av (ccu_address sender) = Ok saddr" "tx = snd (fac_generate_tx st env sender)"
    and less: "unat n + ceil_div (unat amt * unat (partner_bps pf)) 10000 = unat amt"
  shows "execute_swap_request M av qs ta st (info\<lparr>info_funds := [\<lparr>coin_denom = d, coin_amount = n\<rparr>]\<rparr>) env sender a out
           amt min_out swaps to addrs pf = Ok (st1, r1)
     \<and> (\<exists>st2. ack_swap_request av st1 (AckError err) (ccu_address sender) tx False
          = Ok (st2, \<lparr>r_messages = [SubMsg_new (create_transfer_msg (Native d) amt saddr None)], r_data = None\<rparr>))"
    (is "?cheap \<and> ?refund")
proof
  show ?refund using failed_swap_refunds [OF req k] by (simp add: native)
next
  have funded: "swap_funded (info\<lparr>info_funds := [\<lparr>coin_denom = d, coin_amount = n\<rparr>]\<rparr>) (twd_token_type a) net"
    if "checked_mul_ceil M amt (decimal_bps M (partner_bps pf)) = Inr fee" "checked_sub amt fee = Inr net" for fee net
    using that less by (simp add: swap_funded_def native TokenType_is_native_def get_denom_def word_le_nat_alt
        cosmwasm_math.mul_ceil_bps [OF math] checked_sub_eq_Inr)
  note keep = bindR_eq_Inr ensure_eq_Inr item_load_eq_Inr map_load_eq_Inr swap_funded_Inr swap_recipient_Inr
  from req show ?cheap
    unfolding execute_swap_request_def Let_def split_beta fac_generate_tx_fst response_simps keep map_has_def
    apply (elim exE conjE)
    apply (intro exI conjI)
    apply (assumption | erule (1) funded)+
    done
qed


theorem partner_fee_not_collected_witness:
  "\<exists>st1 r1 st2. xf_fee_swap (xf_pays 997) = Ok (st1, r1)
     \<and> ack_swap_request Ok st1 (AckError ''slippage'') ''alice'' xf_tx False
         = Ok (st2, \<lparr>r_messages = [SubMsg_new (create_transfer_msg (Native ''uatom'') 1000 ''alice'' None)], r_data = None\<rparr>)"
proof -
  obtain st1 r1 where ok: "xf_fee_swap (xf_pays 997) = Ok (st1, r1)" using xf_fee_swap_ok by blast
  have "unat (997 :: uint128) + ceil_div (unat (1000 :: uint128) * unat (partner_bps (xf_partner 30))) 10000
      = unat (1000 :: uint128)"
    by (simp add: xf_partner_def ceil_div_def)
  from partner_fee_not_collected [OF std.cosmwasm_math_axioms _ ok refl xf_tx_def this, of "''uatom''" "''slippage''"] ok
  show ?thesis by (auto simp: xf_in_def xf_user_def xf_pays_def)
qed


lemma add_request_stores:
  assumes run: "add_liquidity_request ta st info env p a b slip to = Inr (st1, r1)" and state: "F_STATE st = Some state"
    and k: "sender = \<lparr>ccu_chain_uid = fs_chain_uid state, ccu_address = info_sender info\<rparr>"
      "tx = snd (fac_generate_tx st env sender)"
  shows "\<exists>pair. get_pair p = Inr pair \<and> requests r1 = [CI_AddLiquidity sender a b slip pair tx]
     \<and> PENDING_ADD_LIQUIDITY st1 = map_save (PENDING_ADD_LIQUIDITY st) (info_sender info, tx)
          \<lparr>alr_sender = info_sender info, alr_tx_id = tx, alr_token_1_liquidity = a, alr_token_2_liquidity = b,
           alr_pair_info = p\<rparr>"
proof -
  from add_request_ok1 [OF run] state k obtain pair channel timeout m ms1 ms2 n where
      pair: "get_pair p = Inr pair" and funds: "fund_token env info (info_sender info) (pwd_token_1 p) a = Inr ms1"
        "fund_token env info (info_sender info) (pwd_token_2 p) b = Inr ms2"
    and msg: "fac_to_msg (st\<lparr>F_TX_NONCE := n, PENDING_ADD_LIQUIDITY := map_save (PENDING_ADD_LIQUIDITY st)
        (info_sender info, tx) \<lparr>alr_sender = info_sender info, alr_tx_id = tx, alr_token_1_liquidity = a,
         alr_token_2_liquidity = b, alr_pair_info = p\<rparr>\<rparr>) env (CI_AddLiquidity sender a b slip pair tx)
         state channel timeout = Inr (st1, m)"
    and r1: "r1 = \<lparr>r_messages = map SubMsg_new (ms1 @ ms2) @ [m], r_data = None\<rparr>"
    by auto
  have none: "requests \<lparr>r_messages = map SubMsg_new ms, r_data = None\<rparr> = concat (map request_of ms)" for ms
    by (induction ms) (simp_all add: submsg_defs)
  have "requests r1 = [CI_AddLiquidity sender a b slip pair tx]"
    using funds [THEN fund_token_Inr(2)] fac_to_msg_keeps(2) [OF msg] by (simp add: r1 none)
  moreover have "PENDING_ADD_LIQUIDITY st1 = map_save (PENDING_ADD_LIQUIDITY st) (info_sender info, tx)
          \<lparr>alr_sender = info_sender info, alr_tx_id = tx, alr_token_1_liquidity = a, alr_token_2_liquidity = b,
           alr_pair_info = p\<rparr>"
    by (subst fac_to_msg_keeps(1) [OF msg]) simp
  ultimately show ?thesis using pair by blast
qed

text \<open>
  C19: a deposit of liquidity is settled once. The router is told the two amounts, and while the request is pending
  nothing changes it. A successful acknowledgement moves exactly these amounts to the escrows of the two tokens,
  mints the LP tokens the pool granted to the depositor and adds them to the shares of that pool on this chain; a
  failed one returns both amounts. Any further acknowledgement of it is refused.
\<close>

theorem deposit_settled_once:
  assumes req: "add_liquidity_request ta st info env p a b slip to = Ok (st1, r1)" and state: "F_STATE st = Some state"
    and k: "sender = \<lparr>ccu_chain_uid = fs_chain_uid state, ccu_address = info_sender info\<rparr>"
      "tx = snd (fac_generate_tx st env sender)" and av: "av (info_sender info) = Ok (info_sender info)"
    and same: "map_may_load (PENDING_ADD_LIQUIDITY st2) (info_sender info, tx)
        = map_may_load (PENDING_ADD_LIQUIDITY st1) (info_sender info, tx)"
    and ack: "ack_add_liquidity av st2 res (info_sender info) tx False = Ok (st3, r)"
  shows "(\<exists>pair. requests r1 = [CI_AddLiquidity sender a b slip pair tx])
     \<and> map_may_load (PENDING_ADD_LIQUIDITY st3) = (map_may_load (PENDING_ADD_LIQUIDITY st2))((info_sender info, tx) := None)
     \<and> (case res of
          AckOk data \<Rightarrow> \<exists>escrow_1 escrow_2 lp.
            map_may_load (TOKEN_TO_ESCROW st2) (twd_token (pwd_token_1 p)) = Some escrow_1
            \<and> map_may_load (TOKEN_TO_ESCROW st2) (twd_token (pwd_token_2 p)) = Some escrow_2
            \<and> map_may_load (VLP_TO_CW20 st2) (alresp_vlp_address data) = Some lp
            \<and> map sm_msg (r_messages r) =
                [create_escrow_msg (twd_token_type (pwd_token_1 p)) a escrow_1,
                 create_escrow_msg (twd_token_type (pwd_token_2 p)) b escrow_2,
                 Wasm_Execute lp (To_Cw20 (CW20_Mint (info_sender info) (alresp_mint_lp_tokens data))) []]
            \<and> unat (amount_at (VLP_TO_LP_SHARES st3) (alresp_vlp_address data))
                = unat (amount_at (VLP_TO_LP_SHARES st2) (alresp_vlp_address data)) + unat (alresp_mint_lp_tokens data)
        | AckError _ \<Rightarrow>
            map sm_msg (r_messages r) =
              [create_transfer_msg (twd_token_type (pwd_token_1 p)) a (info_sender info) None,
               create_transfer_msg (twd_token_type (pwd_token_2 p)) b (info_sender info) None]
            \<and> VLP_TO_LP_SHARES st3 = VLP_TO_LP_SHARES st2)
     \<and> (\<forall>res' native. \<exists>e. ack_add_liquidity av st3 res' (info_sender info) tx native = Err e)"
proof -
  let ?k = "(info_sender info, tx)"
  let ?q = "\<lparr>alr_sender = info_sender info, alr_tx_id = tx, alr_token_1_liquidity = a, alr_token_2_liquidity = b,
       alr_pair_info = p\<rparr>"
  from add_request_stores [OF req state k] obtain pair where sent: "requests r1 = [CI_AddLiquidity sender a b slip pair tx]"
    and "PENDING_ADD_LIQUIDITY st1 = map_save (PENDING_ADD_LIQUIDITY st) ?k ?q" by blast
  with same have pend: "map_may_load (PENDING_ADD_LIQUIDITY st2) ?k = Some ?q" by simp
  have "deposit_closed st2 ?k ?q st3"
    unfolding deposit_closed_def using ack av pend by (intro exI) auto
  note closed = deposits.closed_law [OF this]
  have again: "\<exists>e. ack_add_liquidity av st3 res' (info_sender info) tx native = Err e" for res' native
    using closed av by (intro ack_unknown(2) [of _ _ "info_sender info"]) simp_all
  show ?thesis
    using sent closed again ack pend
    by (cases res) (auto simp: ack_add_liquidity_def Let_def bindR_eq_Inr map_load_eq_Inr av checked_add_eq_Inr
        submsg_defs amount_at_def)
qed


definition xf_pair :: PairWithDenom where
  "xf_pair = \<lparr>pwd_token_1 = xf_in, pwd_token_2 = xf_smart\<rparr>"

lemma xf_get_pair: "get_pair xf_pair = Ok \<lparr>pair_token_1 = Token ''atom'', pair_token_2 = Token ''eucl''\<rparr>"
  by (simp add: xf_pair_def xf_in_def xf_smart_def get_pair_def Pair_new_def Pair_validate_def Token_validate_def ascii_defs
      less_eq_Token_def)

abbreviation xf_deposit :: fac_result where
  "xf_deposit \<equiv> add_liquidity_request (\<lambda>_ _. Ok True) xf_fac (xf_pays 100) xf_env xf_pair 100 50 2 None"

lemma xf_deposit_ok: "\<exists>st r. xf_deposit = Ok (st, r)"
  unfolding add_liquidity_request_def PairWithDenom_validate_def xf_get_pair
  by (simp add: xf_pair_def xf_defs Let_def split_beta fac_generate_tx_def map_has_def
      get_timeout_def map_load_def map_may_load_def fac_to_msg_def ChainIbc_to_msg_def get_tupple_def
      get_vec_token_info_def less_eq_Token_def fund_token_def TokenType_is_smart_def TokenType_is_native_def get_denom_def)

theorem deposit_settled_once_witness:
  "\<exists>st1 r1 st3 r. xf_deposit = Ok (st1, r1)
     \<and> ack_add_liquidity Ok st1 (AckOk \<lparr>alresp_mint_lp_tokens = 70, alresp_vlp_address = ''vlp''\<rparr>) ''alice'' xf_tx False
         = Ok (st3, r)
     \<and> map sm_msg (r_messages r) =
         [create_escrow_msg (Native ''uatom'') 100 ''escrow1'', create_escrow_msg (Smart ''eucltoken'') 50 ''escrow2'',
          Wasm_Execute ''lptoken'' (To_Cw20 (CW20_Mint ''alice'' 70)) []]"
proof -
  let ?info = "xf_pays 100"
  have alice: "info_sender ?info = ''alice''" and state: "F_STATE xf_fac = Some xf_state"
    and user: "xf_user = \<lparr>ccu_chain_uid = fs_chain_uid xf_state, ccu_address = info_sender ?info\<rparr>"
    by (simp_all add: xf_defs)
  obtain st1 r1 where ok: "xf_deposit = Ok (st1, r1)" using xf_deposit_ok by blast
  have pend: "PENDING_ADD_LIQUIDITY st1 = map_save (PENDING_ADD_LIQUIDITY xf_fac) (''alice'', xf_tx)
          \<lparr>alr_sender = ''alice'', alr_tx_id = xf_tx, alr_token_1_liquidity = 100, alr_token_2_liquidity = 50,
           alr_pair_info = xf_pair\<rparr>"
    using add_request_stores [OF ok state user xf_tx_def] by (auto simp: alice)
  from add_request_ok1 [OF ok] obtain n q msg st channel timeout m where
      msg: "fac_to_msg (xf_fac\<lparr>F_TX_NONCE := n, PENDING_ADD_LIQUIDITY := q\<rparr>) xf_env msg st channel timeout = Inr (st1, m)"
    by blast
  have keep: "TOKEN_TO_ESCROW st1 = TOKEN_TO_ESCROW xf_fac" "VLP_TO_CW20 st1 = VLP_TO_CW20 xf_fac"
      "VLP_TO_LP_SHARES st1 = VLP_TO_LP_SHARES xf_fac"
    by (subst fac_to_msg_keeps(1) [OF msg], simp)+
  have "\<exists>st3 r. ack_add_liquidity Ok st1 (AckOk \<lparr>alresp_mint_lp_tokens = 70, alresp_vlp_address = ''vlp''\<rparr>)
      (info_sender ?info) xf_tx False = Ok (st3, r)"
    by (simp add: ack_add_liquidity_def Let_def map_load_def pend keep alice xf_pair_def xf_defs map_may_load_def
        map_save_def checked_add_def)
  then obtain st3 r where ack: "ack_add_liquidity Ok st1 (AckOk \<lparr>alresp_mint_lp_tokens = 70, alresp_vlp_address = ''vlp''\<rparr>)
      (info_sender ?info) xf_tx False = Ok (st3, r)" by blast
  from deposit_settled_once [OF ok state user xf_tx_def refl refl ack] ok ack show ?thesis
    by (auto simp: alice keep xf_pair_def xf_defs map_may_load_def)
qed

section \<open>Missing checks\<close>

text \<open>
  C37: a withdrawal of liquidity is not tied to the LP tokens that are handed over. The amount in the hook message
  is used and the amount the LP token reports as received is never looked at, so the request is the same for any
  amount, even zero; if the withdrawal fails, the amount of the hook message is sent to the sender from the LP
  tokens the factory holds for others.
\<close>

theorem withdrawal_not_backed:
  assumes hook: "crm_msg m = Json_Hook (Hook_RemoveLiquidity pair lp to addrs)"
    and req: "fac_receive_cw20 M av qs ta st env info m = Ok (st1, r1)" and state: "F_STATE st = Some state"
    and k: "av (crm_sender m) = Ok saddr"
      "tx = snd (fac_generate_tx st env \<lparr>ccu_chain_uid = fs_chain_uid state, ccu_address = crm_sender m\<rparr>)"
  shows "fac_receive_cw20 M av qs ta st env info (m\<lparr>crm_amount := x\<rparr>) = Ok (st1, r1)
     \<and> (\<exists>st2. ack_remove_liquidity av st1 (AckError err) (crm_sender m) tx False
          = Ok (st2, \<lparr>r_messages = [SubMsg_new (Wasm_Execute (info_sender info) (To_Cw20 (CW20_Transfer saddr lp)) [])],
                r_data = None\<rparr>))"
proof
  show "fac_receive_cw20 M av qs ta st env info (m\<lparr>crm_amount := x\<rparr>) = Ok (st1, r1)"
    using req hook by (simp add: fac_receive_cw20_def state)
next
  let ?sender = "\<lparr>ccu_chain_uid = fs_chain_uid state, ccu_address = crm_sender m\<rparr>"
  from req hook have "remove_liquidity_request av st info env ?sender pair lp to addrs = Inr (st1, r1)"
    by (simp add: fac_receive_cw20_def state)
  from remove_request_ok1 [OF this] k obtain n msg s channel timeout sm where
      msg: "fac_to_msg (st\<lparr>F_TX_NONCE := n, F_PENDING_REMOVE_LIQUIDITY := map_save (F_PENDING_REMOVE_LIQUIDITY st) (saddr, tx)
        \<lparr>rlr_sender = saddr, rlr_tx_id = tx, rlr_lp_allocation = lp, rlr_pair = pair, rlr_cw20 = info_sender info\<rparr>\<rparr>)
        env msg s channel timeout = Inr (st1, sm)"
    by auto
  have "F_PENDING_REMOVE_LIQUIDITY st1 = map_save (F_PENDING_REMOVE_LIQUIDITY st) (saddr, tx)
        \<lparr>rlr_sender = saddr, rlr_tx_id = tx, rlr_lp_allocation = lp, rlr_pair = pair, rlr_cw20 = info_sender info\<rparr>"
    by (subst fac_to_msg_keeps(1) [OF msg]) simp
  then show "\<exists>st2. ack_remove_liquidity av st1 (AckError err) (crm_sender m) tx False
          = Ok (st2, \<lparr>r_messages = [SubMsg_new (Wasm_Execute (info_sender info) (To_Cw20 (CW20_Transfer saddr lp)) [])],
                r_data = None\<rparr>)"
    by (simp add: ack_remove_liquidity_def Let_def map_load_def k(1))
qed

definition xf_hook :: Cw20ReceiveMsg where
  "xf_hook = \<lparr>crm_sender = ''alice'', crm_amount = 0, crm_msg = Json_Hook (Hook_RemoveLiquidity
     \<lparr>pair_token_1 = Token ''atom'', pair_token_2 = Token ''eucl''\<rparr> 500 None [])\<rparr>"

abbreviation xf_lp :: message_info where
  "xf_lp \<equiv> \<lparr>info_sender = ''lptoken'', info_funds = []\<rparr>"

theorem withdrawal_not_backed_witness:
  "\<exists>st1 r1 st2. fac_receive_cw20 std_math Ok (\<lambda>_. Ok 1) (\<lambda>_ _. Ok True) xf_fac xf_env xf_lp xf_hook = Ok (st1, r1)
     \<and> ack_remove_liquidity Ok st1 (AckError ''no'') ''alice'' xf_tx False
         = Ok (st2, \<lparr>r_messages = [SubMsg_new (Wasm_Execute ''lptoken'' (To_Cw20 (CW20_Transfer ''alice'' 500)) [])],
               r_data = None\<rparr>)"
proof -
  have "\<exists>st1 r1. fac_receive_cw20 std_math Ok (\<lambda>_. Ok 1) (\<lambda>_ _. Ok True) xf_fac xf_env xf_lp xf_hook = Ok (st1, r1)"
    by (simp add: fac_receive_cw20_def remove_liquidity_request_def xf_hook_def xf_defs Let_def split_beta fac_generate_tx_def
        map_has_def get_timeout_def map_load_def map_may_load_def fac_to_msg_def ChainIbc_to_msg_def get_tupple_def
        less_eq_Token_def)
  then obtain st1 r1 where
    ok: "fac_receive_cw20 std_math Ok (\<lambda>_. Ok 1) (\<lambda>_ _. Ok True) xf_fac xf_env xf_lp xf_hook = Ok (st1, r1)" by blast
  have tx: "xf_tx = snd (fac_generate_tx xf_fac xf_env \<lparr>ccu_chain_uid = fs_chain_uid xf_state, ccu_address = crm_sender xf_hook\<rparr>)"
    by (simp add: xf_tx_def xf_user_def xf_state_def xf_hook_def)
  from withdrawal_not_backed [OF _ ok _ refl tx, of _ _ _ _ 0 "''no''"] ok show ?thesis
    by (auto simp: xf_hook_def xf_fac_def)
qed


text \<open>
  C35: the answer to a pending swap can be forged. The callback for acknowledgements does not look at its sender, so
  anyone can report a failed swap that is still under way: the factory refunds it, and refuses the router's own
  answer when it comes, with whatever content. The swap is then both refunded and carried out.
\<close>

theorem forged_answer_refunds:
  assumes pend: "map_may_load (PENDING_SWAPS st) (a, csw_tx_id m) = Some q"
    and av: "w_addr_validate w (ccu_address (csw_sender m)) = Ok a"
    and fits: "unat (sr_amount_in q) + unat (sr_partner_fee_amount q) < 2 ^ 128"
    and forged: "acknowledgement ack = Json_Ack (AckError err)" "packet_data (original_packet ack) = Json_ChainIbc (CI_Swap m)"
  shows "\<exists>st' refund. fac_execute w st env info (F_IbcCallbackAckAndTimeout ack)
       = Ok (st', \<lparr>r_messages = [SubMsg_new (create_transfer_msg (twd_token_type (sr_asset_in q)) refund a None)],
             r_data = None\<rparr>)
     \<and> unat refund = unat (sr_amount_in q) + unat (sr_partner_fee_amount q)
     \<and> (\<forall>env' info' ack'. packet_data (original_packet ack') = Json_ChainIbc (CI_Swap m) \<longrightarrow>
          (\<exists>e. fac_execute w st' env' info' (F_IbcCallbackAckAndTimeout ack') = Err e))"
proof -
  let ?st = "st\<lparr>PENDING_SWAPS := map_remove (PENDING_SWAPS st) (a, csw_tx_id m)\<rparr>"
  obtain refund where refund: "checked_add (sr_amount_in q) (sr_partner_fee_amount q) = Inr refund"
    using fits by (auto simp: checked_add_def)
  have "fac_execute w st env info (F_IbcCallbackAckAndTimeout ack)
       = Ok (?st, \<lparr>r_messages = [SubMsg_new (create_transfer_msg (twd_token_type (sr_asset_in q)) refund a None)],
             r_data = None\<rparr>)"
    by (simp add: fac_execute_def fac_ibc_ack_packet_internal_call_def forged fac_reusable_internal_ack_call_def av pend
        ack_swap_request_def map_load_def refund Let_def from_json_ack_def)
  moreover have "\<exists>e. fac_execute w ?st env' info' (F_IbcCallbackAckAndTimeout ack') = Err e"
    if "packet_data (original_packet ack') = Json_ChainIbc (CI_Swap m)" for env' info' ack'
  proof (cases "from_json_ack swap_ack (acknowledgement ack')")
    case (Inl e)
    then show ?thesis
      by (cases "acknowledgement ack'") (auto simp: fac_execute_def fac_ibc_ack_packet_internal_call_def that
          fac_reusable_internal_ack_call_def from_json_ack_def split: option.splits AcknowledgementMsg.splits)
  next
    case (Inr res)
    then show ?thesis
      using ack_unknown(1) [of "w_addr_validate w" "ccu_address (csw_sender m)" a ?st "csw_tx_id m" res False]
      by (simp add: fac_execute_def fac_ibc_ack_packet_internal_call_def that fac_reusable_internal_ack_call_def av)
  qed
  ultimately show ?thesis using refund by (auto simp: checked_add_eq_Inr)
qed

section \<open>Speaking and obeying\<close>

lemma fac_to_msg_request: "fac_to_msg st env msg state channel timeout = Inr p \<Longrightarrow> request_of (sm_msg (snd p)) = [msg]"
  by (cases p) (auto dest: fac_to_msg_keeps(2))

lemma swap_request_requests:
  assumes "execute_swap_request M av qs ta st info env sender a out amt min_out swaps to addrs pf = Inr (st', r)"
  shows "\<exists>c. requests r = [CI_Swap c] \<and> csw_sender c = sender"
proof -
  from swap_request_ok1 [OF assms] obtain saddr where "av (ccu_address sender) = Inr saddr" by blast
  from swap_request_stores [OF assms this refl] show ?thesis by (auto dest!: fac_to_msg_request)
qed


theorem forged_answer_refunds_witness:
  "\<exists>st1 r1 c st' refund. xf_fee_swap (xf_pays 997) = Ok (st1, r1) \<and> requests r1 = [CI_Swap c]
     \<and> fac_execute xf_world st1 xf_env \<lparr>info_sender = ''mallory'', info_funds = []\<rparr>
         (F_IbcCallbackAckAndTimeout \<lparr>acknowledgement = Json_Ack (AckError ''forged''),
            original_packet = \<lparr>packet_data = Json_ChainIbc (CI_Swap c), packet_src = \<lparr>port_id = [], channel_id = []\<rparr>,
              packet_dest = \<lparr>port_id = [], channel_id = []\<rparr>\<rparr>\<rparr>)
       = Ok (st', \<lparr>r_messages = [SubMsg_new (create_transfer_msg (Native ''uatom'') refund ''alice'' None)], r_data = None\<rparr>)
     \<and> unat refund = 1000"
proof -
  obtain st1 r1 where ok: "xf_fee_swap (xf_pays 997) = Ok (st1, r1)" using xf_fee_swap_ok by blast
  have alice: "Ok (ccu_address xf_user) = Inr ''alice''" by (simp add: xf_user_def)
  from swap_request_stores [OF ok alice refl] obtain fee net and q :: SwapRequest and n c state channel timeout m where
      msg: "fac_to_msg (xf_fac\<lparr>F_TX_NONCE := n, PENDING_SWAPS := map_save (PENDING_SWAPS xf_fac)
         (''alice'', snd (fac_generate_tx xf_fac xf_env xf_user)) q\<rparr>) xf_env (CI_Swap c)
        state channel timeout = Inr (st1, m)" and r1: "r1 = \<lparr>r_messages = [m], r_data = None\<rparr>"
    and sum: "unat (1000 :: uint128) = unat fee + unat net"
    and q: "sr_asset_in q = xf_in" "sr_amount_in q = net" "sr_partner_fee_amount q = fee"
    and c: "csw_sender c = xf_user" "csw_tx_id c = snd (fac_generate_tx xf_fac xf_env xf_user)" by blast
  have pend: "map_may_load (PENDING_SWAPS st1) (''alice'', csw_tx_id c) = Some q"
    by (subst fac_to_msg_keeps(1) [OF msg]) (simp add: c)
  have av: "w_addr_validate xf_world (ccu_address (csw_sender c)) = Ok ''alice''" by (simp add: xf_world_def xf_user_def c)
  have "unat (sr_amount_in q) + unat (sr_partner_fee_amount q) = 1000" using sum by (simp add: q)
  moreover have "requests r1 = [CI_Swap c]" using fac_to_msg_keeps(2) [OF msg] by (simp add: r1)
  ultimately show ?thesis
    using forged_answer_refunds [OF pend av, of "\<lparr>acknowledgement = Json_Ack (AckError ''forged''),
            original_packet = \<lparr>packet_data = Json_ChainIbc (CI_Swap c), packet_src = \<lparr>port_id = [], channel_id = []\<rparr>,
              packet_dest = \<lparr>port_id = [], channel_id = []\<rparr>\<rparr>\<rparr>" "''forged''" xf_env
            "\<lparr>info_sender = ''mallory'', info_funds = []\<rparr>"] ok
    by (auto simp: q xf_in_def)
qed

lemma quiet_requests:
  "execute_update_hub_channel st info ch = Inr (st', r) \<Longrightarrow> requests r = []"
  "execute_request_register_denom st info token = Inr (st', r) \<Longrightarrow> requests r = []"
  "execute_request_deregister_denom st info token = Inr (st', r) \<Longrightarrow> requests r = []"
  by (auto simp: execute_update_hub_channel_def execute_request_register_denom_def
      execute_request_deregister_denom_def bindR_eq_Inr ensure_eq_Inr submsg_defs)

lemma router_message_requests:
  "fac_reusable_internal_call av st env msg = Inr (st', r) \<Longrightarrow> requests r = []"
  by (auto simp: fac_reusable_internal_call_def execute_register_router_def fac_execute_release_escrow_def
      fac_execute_update_factory_channel_def Let_def bindR_eq_Inr ensure_eq_Inr response_simps submsg_defs
      split: HubIbcExecuteMsg.splits)

lemma requests_new_escrow: "requests \<lparr>r_messages = map (new_escrow state) ts, r_data = x\<rparr> = []"
  by (induction ts) (simp_all add: new_escrow_def submsg_defs)

lemma ack_requests:
  "ack_pool_creation av st env sender pres tx native = Inr (st', r) \<Longrightarrow> requests r = []"
  "ack_escrow_creation av st sender eres tx native = Inr (st', r) \<Longrightarrow> requests r = []"
  "ack_add_liquidity av st ares sender tx native = Inr (st', r) \<Longrightarrow> requests r = []"
  "ack_remove_liquidity av st rres sender tx native = Inr (st', r) \<Longrightarrow> requests r = []"
  "ack_swap_request av st sres sender tx native = Inr (st', r) \<Longrightarrow> requests r = []"
  "ack_withdraw_request st wres native = Inr (st', r) \<Longrightarrow> requests r = []"
  apply (cases pres; auto simp: ack_pool_creation_def Let_def bindR_eq_Inr submsg_defs requests_new_escrow split: if_splits)
  apply (cases eres; auto simp: ack_escrow_creation_def Let_def bindR_eq_Inr submsg_defs new_escrow_def split: if_splits)
  apply (cases ares; auto simp: ack_add_liquidity_def Let_def bindR_eq_Inr submsg_defs split: if_splits)
  apply (cases rres; auto simp: ack_remove_liquidity_def Let_def bindR_eq_Inr submsg_defs split: if_splits)
  apply (cases sres; auto simp: ack_swap_request_def Let_def bindR_eq_Inr submsg_defs split: if_splits)
  apply (cases wres; auto simp: ack_withdraw_request_def split: if_splits)
  done

lemma internal_ack_requests:
  "fac_reusable_internal_ack_call av st env msg ack native = Inr (st', r) \<Longrightarrow> requests r = []"
  by (cases msg) (auto simp: fac_reusable_internal_ack_call_def bindR_eq_Inr intro: ack_requests)


lemma request_handlers_requests:
  assumes "F_STATE st = Some state"
  shows "fac_execute_request_pool_creation vl ta st env info pair nm sy dec mk to = Inr (st', r) \<Longrightarrow>
      \<exists>m. requests r = [m] \<and> chain_sender m = \<lparr>ccu_chain_uid = fs_chain_uid state, ccu_address = info_sender info\<rparr>"
    and "execute_request_register_escrow st env info token to = Inr (st', r) \<Longrightarrow>
      \<exists>m. requests r = [m] \<and> chain_sender m = \<lparr>ccu_chain_uid = fs_chain_uid state, ccu_address = info_sender info\<rparr>"
    and "execute_withdraw_virtual_balance st env info tk amt addrs to = Inr (st', r) \<Longrightarrow>
      \<exists>m. requests r = [m] \<and> chain_sender m = \<lparr>ccu_chain_uid = fs_chain_uid state, ccu_address = info_sender info\<rparr>"
    and "add_liquidity_request ta st info env p a b slip to = Inr (st', r) \<Longrightarrow>
      \<exists>m. requests r = [m] \<and> chain_sender m = \<lparr>ccu_chain_uid = fs_chain_uid state, ccu_address = info_sender info\<rparr>"
    and "remove_liquidity_request av st info env sender pr lp to addrs = Inr (st', r) \<Longrightarrow>
      \<exists>m. requests r = [m] \<and> chain_sender m = sender"
    and "execute_swap_request M av qs ta st info env sender ai out amt min_out swaps to addrs pf = Inr (st', r) \<Longrightarrow>
      \<exists>m. requests r = [m] \<and> chain_sender m = sender"
  unfolding fac_execute_request_pool_creation_def execute_request_register_escrow_def
    execute_withdraw_virtual_balance_def remove_liquidity_request_def Let_def split_beta bindR_eq_Inr ensure_eq_Inr
    response_simps
  by (force simp: assms dest!: fac_to_msg_request add_request_stores [OF _ assms refl refl] swap_request_requests)+

text \<open>
  C21: the factory speaks only for its caller. Whatever it sends to the router names its own chain and, as the user,
  the sender of the transaction, or the sender of the tokens when a token contract called it; answers and messages
  of the router make it send nothing to the router.
\<close>

theorem factory_speaks_for_caller:
  assumes run: "fac_execute w st env info msg = Ok (st', r)" and m: "m \<in> set (requests r)"
  shows "\<exists>state. F_STATE st = Some state \<and> chain_sender m = \<lparr>ccu_chain_uid = fs_chain_uid state,
     ccu_address = (case msg of F_Receive c \<Rightarrow> crm_sender c | _ \<Rightarrow> info_sender info)\<rparr>"
proof (cases "F_STATE st")
  case None
  with run m show ?thesis
    by (cases msg) (auto simp: fac_execute_def fac_receive_cw20_def add_liquidity_request_def execute_update_hub_channel_def
        execute_request_register_denom_def execute_request_deregister_denom_def fac_execute_request_pool_creation_def
        execute_request_register_escrow_def execute_withdraw_virtual_balance_def fac_ibc_receive_internal_call_def
        fac_ibc_ack_packet_internal_call_def fac_execute_native_receive_callback_def item_load_def bindR_eq_Inr Let_def
        dest: internal_ack_requests)
next
  case (Some state)
  show ?thesis
  proof (cases msg)
    case (F_Receive c)
    with run Some obtain hook where "from_json_hook (crm_msg c) = Inr hook"
      by (auto simp: fac_execute_def fac_receive_cw20_def Let_def bindR_eq_Inr)
    with F_Receive run m Some show ?thesis
      by (cases hook) (auto simp: fac_execute_def fac_receive_cw20_def Let_def ensure_eq_Inr dest!: request_handlers_requests [OF Some])
  next
    case (F_IbcCallbackReceive p)
    with run m show ?thesis
      by (auto simp: fac_execute_def fac_ibc_receive_internal_call_def Let_def bindR_eq_Inr ensure_eq_Inr
          dest!: router_message_requests)
  next
    case (F_NativeReceiveCallback b)
    with run m show ?thesis
      by (auto simp: fac_execute_def fac_execute_native_receive_callback_def bindR_eq_Inr ensure_eq_Inr
          dest!: router_message_requests)
  next
    case (F_IbcCallbackAckAndTimeout ack)
    with run m show ?thesis
      by (auto simp: fac_execute_def fac_ibc_ack_packet_internal_call_def bindR_eq_Inr dest!: internal_ack_requests)
  qed (use run m Some in \<open>auto simp: fac_execute_def dest!: request_handlers_requests [OF Some] quiet_requests\<close>)
qed

theorem factory_speaks_for_caller_witness:
  "\<exists>st r m. fac_execute xf_world xf_fac xf_env (xf_pays 1000) (xf_swap None) = Ok (st, r) \<and> m \<in> set (requests r)
     \<and> chain_sender m = xf_user"
proof -
  obtain st r where ok: "fac_execute xf_world xf_fac xf_env (xf_pays 1000) (xf_swap None) = Ok (st, r)"
    using xf_swap_ok by blast
  have state: "F_STATE xf_fac = Some xf_state" by (simp add: xf_fac_def)
  from ok obtain m where m: "requests r = [m]"
    unfolding xf_swap_def fac_execute_swap [OF state] by (auto dest!: request_handlers_requests(6) [OF state])
  then have "m \<in> set (requests r)" by simp
  from factory_speaks_for_caller [OF ok this] ok m show ?thesis
    by (auto simp: state xf_swap_def xf_pays_def xf_user_def xf_state_def)
qed

end
