(* ===== verification/Factory_Types.thy ===== *)
theory Factory_Types
  imports Factory_Properties
begin

text \<open>
  The shape of the factory's storage: what every entry of its maps satisfies in every state it can reach, and what
  follows for the answers it has to give.
\<close>

section \<open>Well-formed entries\<close>

definition all_entries :: "('k \<Rightarrow> 'v \<Rightarrow> bool) \<Rightarrow> ('k, 'v) store \<Rightarrow> bool" where
  "all_entries P m \<longleftrightarrow> (\<forall>k v. map_may_load m k = Some v \<longrightarrow> P k v)"

lemma all_entries_simps [simp]:
  "all_entries P []" "all_entries P m \<Longrightarrow> all_entries P (map_remove m k)"
  "all_entries P m \<Longrightarrow> P k v \<Longrightarrow> all_entries P (map_save m k v)"
  by (auto simp: all_entries_def split: if_splits)

text \<open>The key of a pool is the sorted pair of two valid tokens.\<close>

definition pool_key_ok :: "Token \<times> Token \<Rightarrow> string \<Rightarrow> bool" where
  "pool_key_ok k vlp \<longleftrightarrow> fst k < snd k \<and> is_ok (Token_validate (fst k)) \<and> is_ok (Token_validate (snd k))"

definition request_ok :: "pending_key \<Rightarrow> pending_request \<Rightarrow> bool" where
  "request_ok k r = (case r of
     PendingPool p \<Rightarrow> k = (pcq_sender p, pcq_tx_id p) \<and> is_ok (get_pair (pcq_pair_info p))
       \<and> lpt_initial_balances (pcq_lp_token_instantiate_msg p) = []
   | PendingEscrow e \<Rightarrow> k = (ecq_sender e, ecq_tx_id e))"

text \<open>A swap: an amount to swap, a minimum, a route from the one token to the other, and a refund that fits.\<close>

definition swap_ok :: "pending_key \<Rightarrow> SwapRequest \<Rightarrow> bool" where
  "swap_ok k r \<longleftrightarrow> k = (sr_sender r, sr_tx_id r) \<and> sr_amount_in r \<noteq> 0 \<and> sr_min_amount_out r \<noteq> 0
     \<and> sr_swaps r \<noteq> [] \<and> nsp_token_in (hd (sr_swaps r)) = twd_token (sr_asset_in r)
     \<and> nsp_token_out (last (sr_swaps r)) = sr_asset_out r
     \<and> unat (sr_amount_in r) + unat (sr_partner_fee_amount r) < 2 ^ 128"

definition deposit_ok :: "pending_key \<Rightarrow> AddLiquidityRequest \<Rightarrow> bool" where
  "deposit_ok k r \<longleftrightarrow> k = (alr_sender r, alr_tx_id r) \<and> alr_token_1_liquidity r \<noteq> 0 \<and> alr_token_2_liquidity r \<noteq> 0
     \<and> is_ok (PairWithDenom_validate (alr_pair_info r))"

definition withdrawal_ok :: "pending_key \<Rightarrow> RemoveLiquidityRequest \<Rightarrow> bool" where
  "withdrawal_ok k r \<longleftrightarrow> k = (rlr_sender r, rlr_tx_id r) \<and> rlr_lp_allocation r \<noteq> 0"

definition fac_wf :: "fac_storage \<Rightarrow> bool" where
  "fac_wf st \<longleftrightarrow>
     (\<exists>s. F_STATE st = Some s \<and> is_ok (ChainUid_validate (fs_chain_uid s)))
     \<and> all_entries pool_key_ok (PAIR_TO_VLP st) \<and> all_entries request_ok (PENDING_REQUESTS st)
     \<and> all_entries swap_ok (PENDING_SWAPS st) \<and> all_entries deposit_ok (PENDING_ADD_LIQUIDITY st)
     \<and> all_entries withdrawal_ok (F_PENDING_REMOVE_LIQUIDITY st)"

lemma fac_wf_other [simp]:
  "fac_wf (st\<lparr>HUB_CHANNEL := b\<rparr>) = fac_wf st" "fac_wf (st\<lparr>VLP_TO_LP_SHARES := e\<rparr>) = fac_wf st"
  "fac_wf (st\<lparr>TOKEN_TO_ESCROW := f\<rparr>) = fac_wf st" "fac_wf (st\<lparr>VLP_TO_CW20 := g\<rparr>) = fac_wf st"
  "fac_wf (st\<lparr>CHAIN_QUEUE := j\<rparr>) = fac_wf st" "fac_wf (st\<lparr>F_TX_NONCE := k\<rparr>) = fac_wf st"
  "fac_wf (st\<lparr>F_CHANNELS := l\<rparr>) = fac_wf st"
  by (simp_all add: fac_wf_def)

lemma fac_wf_close [simp]:
  "fac_wf st \<Longrightarrow> fac_wf (st\<lparr>PENDING_REQUESTS := map_remove (PENDING_REQUESTS st) k\<rparr>)"
  "fac_wf st \<Longrightarrow> fac_wf (st\<lparr>PENDING_SWAPS := map_remove (PENDING_SWAPS st) k\<rparr>)"
  "fac_wf st \<Longrightarrow> fac_wf (st\<lparr>PENDING_ADD_LIQUIDITY := map_remove (PENDING_ADD_LIQUIDITY st) k\<rparr>)"
  "fac_wf st \<Longrightarrow> fac_wf (st\<lparr>F_PENDING_REMOVE_LIQUIDITY := map_remove (F_PENDING_REMOVE_LIQUIDITY st) k\<rparr>)"
  by (simp_all add: fac_wf_def)

lemma fac_wf_open:
  "fac_wf st \<Longrightarrow> request_ok k r \<Longrightarrow> fac_wf (st\<lparr>PENDING_REQUESTS := map_save (PENDING_REQUESTS st) k r\<rparr>)"
  "fac_wf st \<Longrightarrow> swap_ok k s \<Longrightarrow> fac_wf (st\<lparr>PENDING_SWAPS := map_save (PENDING_SWAPS st) k s\<rparr>)"
  "fac_wf st \<Longrightarrow> deposit_ok k d \<Longrightarrow> fac_wf (st\<lparr>PENDING_ADD_LIQUIDITY := map_save (PENDING_ADD_LIQUIDITY st) k d\<rparr>)"
  "fac_wf st \<Longrightarrow> withdrawal_ok k w \<Longrightarrow> fac_wf (st\<lparr>F_PENDING_REMOVE_LIQUIDITY := map_save (F_PENDING_REMOVE_LIQUIDITY st) k w\<rparr>)"
  by (simp_all add: fac_wf_def)

lemma fac_to_msg_wf: "fac_to_msg st env msg state channel timeout = Inr (st', m) \<Longrightarrow> fac_wf st' = fac_wf st"
  by (subst fac_to_msg_keeps(1)) simp_all

lemma fac_to_msg_wf': "fac_to_msg st env msg state channel timeout = Inr p \<Longrightarrow> fac_wf (fst p) = fac_wf st"
  by (cases p) (auto dest: fac_to_msg_wf)

section \<open>Requests\<close>

lemma slice_hd: "slice_first xs = Some x \<Longrightarrow> xs \<noteq> [] \<and> hd xs = x"
  by (cases xs) (simp_all add: slice_first_def)

lemma slice_lst: "slice_last xs = Some x \<Longrightarrow> last xs = x"
  by (cases xs) (auto simp: slice_last_def split: if_splits)

lemma swap_request_checked:
  assumes "execute_swap_request M av qs ta st info env sender a out amt min_out swaps to addrs pf = Inr (st', r)"
  shows "min_out \<noteq> 0 \<and> swaps \<noteq> [] \<and> nsp_token_in (hd swaps) = twd_token a \<and> nsp_token_out (last swaps) = out"
proof -
  from assms obtain f l where "min_out \<noteq> 0" and "slice_first swaps = Some f" "nsp_token_in f = twd_token a"
    and "slice_last swaps = Some l" "nsp_token_out l = out"
    unfolding execute_swap_request_def Let_def split_beta bindR_eq_Inr ensure_eq_Inr ok_or_eq_Inr by blast
  then show ?thesis using slice_hd slice_lst by metis
qed

lemma swap_request_wf:
  assumes "execute_swap_request M av qs ta st info env sender a out amt min_out swaps to addrs pf = Inr (st', r)"
    and "fac_wf st"
  shows "fac_wf st'"
proof -
  obtain saddr fee net channel timeout recipient m msg state n where amounts: "unat amt = unat fee + unat net" "net \<noteq> 0"
    and msg: "fac_to_msg (st\<lparr>F_TX_NONCE := n,
          PENDING_SWAPS := map_save (PENDING_SWAPS st) (saddr, snd (fac_generate_tx st env sender))
            \<lparr>sr_sender = saddr, sr_tx_id = snd (fac_generate_tx st env sender), sr_asset_in = a, sr_asset_out = out,
             sr_amount_in = net, sr_min_amount_out = min_out, sr_swaps = swaps,
             sr_timeout = plus_seconds (block_time env) timeout, sr_cross_chain_addresses = addrs,
             sr_partner_fee_amount = fee, sr_partner_fee_recipient = recipient\<rparr>\<rparr>) env msg state channel timeout = Inr (st', m)"
    using swap_request_ok1 [OF assms(1)] by blast
  have "unat net + unat fee < 2 ^ 128" using amounts(1) unat_lt_u128 [of amt] by simp
  then show ?thesis
    unfolding fac_to_msg_wf [OF msg] using assms(2) swap_request_checked [OF assms(1)] amounts(2)
    by (intro fac_wf_open(2) [of "st\<lparr>F_TX_NONCE := n\<rparr>", simplified]) (simp_all add: swap_ok_def)
qed

lemma add_request_checked:
  assumes "add_liquidity_request ta st info env p a b slip to = Inr (st', r)"
  shows "a \<noteq> 0 \<and> b \<noteq> 0 \<and> is_ok (PairWithDenom_validate p)"
  using assms unfolding add_liquidity_request_def Let_def split_beta bindR_eq_Inr ensure_eq_Inr is_ok_iff by blast

lemma add_request_wf:
  assumes "add_liquidity_request ta st info env p a b slip to = Inr (st', r)" and "fac_wf st"
  shows "fac_wf st'"
proof -
  obtain n k req msg state channel timeout m where
      msg: "fac_to_msg (st\<lparr>F_TX_NONCE := n, PENDING_ADD_LIQUIDITY := map_save (PENDING_ADD_LIQUIDITY st) k req\<rparr>)
        env msg state channel timeout = Inr (st', m)"
    and "req = \<lparr>alr_sender = fst k, alr_tx_id = snd k, alr_token_1_liquidity = a, alr_token_2_liquidity = b, alr_pair_info = p\<rparr>"
    using add_request_ok1 [OF assms(1)] by fastforce
  then show ?thesis
    unfolding fac_to_msg_wf [OF msg] using assms(2) add_request_checked [OF assms(1)]
    by (intro fac_wf_open(3) [of "st\<lparr>F_TX_NONCE := n\<rparr>", simplified]) (simp_all add: deposit_ok_def)
qed

lemma remove_request_wf:
  assumes "remove_liquidity_request av st info env sender pair x to addrs = Inr (st', r)" and "fac_wf st"
  shows "fac_wf st'"
proof -
  obtain n k c msg state channel timeout m where
      msg: "fac_to_msg (st\<lparr>F_TX_NONCE := n, F_PENDING_REMOVE_LIQUIDITY := map_save (F_PENDING_REMOVE_LIQUIDITY st) k
          \<lparr>rlr_sender = fst k, rlr_tx_id = snd k, rlr_lp_allocation = x, rlr_pair = pair, rlr_cw20 = c\<rparr>\<rparr>)
        env msg state channel timeout = Inr (st', m)" and "x \<noteq> 0"
    using remove_request_ok1 [OF assms(1)] by fastforce
  then show ?thesis
    unfolding fac_to_msg_wf [OF msg] using assms(2)
    by (intro fac_wf_open(4) [of "st\<lparr>F_TX_NONCE := n\<rparr>", simplified]) (simp_all add: withdrawal_ok_def)
qed

lemma pool_request_wf:
  assumes "fac_execute_request_pool_creation vl ta st env info pair nm sy dec mk to = Inr (st', r)" and "fac_wf st"
  shows "fac_wf st'"
  using assms
  unfolding fac_execute_request_pool_creation_def Let_def split_beta bindR_eq_Inr ensure_eq_Inr response_simps fac_generate_tx_fst
  by (auto dest!: fac_to_msg_wf' intro!: fac_wf_open(1) [of "st\<lparr>F_TX_NONCE := n\<rparr>" for n, simplified] simp: request_ok_def)

lemma escrow_request_wf:
  assumes "execute_request_register_escrow st env info token to = Inr (st', r)" and "fac_wf st"
  shows "fac_wf st'"
  using assms
  unfolding execute_request_register_escrow_def Let_def split_beta bindR_eq_Inr ensure_eq_Inr response_simps fac_generate_tx_fst
  by (auto dest!: fac_to_msg_wf' intro!: fac_wf_open(1) simp: request_ok_def)

lemma other_requests_wf:
  "execute_withdraw_virtual_balance st env info tk amt addrs to = Inr (st', r) \<Longrightarrow> fac_wf st \<Longrightarrow> fac_wf st'"
  "execute_update_hub_channel st info ch = Inr (st', r) \<Longrightarrow> fac_wf st \<Longrightarrow> fac_wf st'"
  "execute_request_register_denom st info token = Inr (st', r) \<Longrightarrow> fac_wf st \<Longrightarrow> fac_wf st'"
  "execute_request_deregister_denom st info token = Inr (st', r) \<Longrightarrow> fac_wf st \<Longrightarrow> fac_wf st'"
  unfolding execute_withdraw_virtual_balance_def Let_def split_beta bindR_eq_Inr ensure_eq_Inr response_simps fac_generate_tx_fst
  by (auto simp: execute_update_hub_channel_def execute_request_register_denom_def execute_request_deregister_denom_def
      bindR_eq_Inr ensure_eq_Inr dest!: fac_to_msg_wf')

lemma receive_cw20_wf:
  assumes "fac_receive_cw20 M av qs ta st env info m = Inr (st', r)" and "fac_wf st"
  shows "fac_wf st'"
proof -
  from assms(1) obtain hook where "from_json_hook (crm_msg m) = Inr hook"
    by (auto simp: fac_receive_cw20_def Let_def bindR_eq_Inr)
  with assms show ?thesis
    by (cases hook) (auto simp: fac_receive_cw20_def Let_def bindR_eq_Inr ensure_eq_Inr intro: swap_request_wf remove_request_wf)
qed

section \<open>Answers\<close>

lemma pair_key_ok: "get_pair p = Inr pair \<Longrightarrow> pool_key_ok (get_tupple pair) vlp"
  by (auto simp: get_pair_def Pair_new_def Let_def bindR_eq_Inr Pair_validate_Inr pool_key_ok_def get_tupple_def split: if_splits)

lemma ack_pool_wf:
  assumes "ack_pool_creation av st env sender res tx native = Inr (st', r)" and "fac_wf st"
  shows "fac_wf st'"
proof -
  have "fac_wf (st1\<lparr>PAIR_TO_VLP := map_save (PAIR_TO_VLP st1) (get_tupple pair) vlp\<rparr>)"
    if "fac_wf st1" and "get_pair p = Inr pair" for st1 :: fac_storage and p pair vlp
    using that pair_key_ok [OF that(2)] by (simp add: fac_wf_def)
  from this [of "st\<lparr>PENDING_REQUESTS := map_remove (PENDING_REQUESTS st) k\<rparr>" for k] assms show ?thesis
    by (cases res) (auto simp: ack_pool_creation_def Let_def bindR_eq_Inr split: if_splits)
qed

lemma ack_swap_wf:
  assumes "ack_swap_request av st res sender tx native = Inr (st', r)" and "fac_wf st"
  shows "fac_wf st'"
proof -
  have fees: "fac_wf (st1\<lparr>F_STATE := Some (state\<lparr>fs_partner_fees_collected := f\<rparr>)\<rparr>)"
    if "fac_wf st1" and "F_STATE st1 = Some state" for st1 :: fac_storage and state :: fac_State and f
    using that by (simp add: fac_wf_def)
  note fees = fees [of "st\<lparr>PENDING_SWAPS := map_remove (PENDING_SWAPS st) k\<rparr>" for k, simplified]
  from assms fees show ?thesis
    by (cases res) (auto simp: ack_swap_request_def Let_def bindR_eq_Inr item_load_eq_Inr split: if_splits)
qed

lemma other_acks_wf:
  "ack_escrow_creation av st sender ures tx native = Inr (st', r) \<Longrightarrow> fac_wf st \<Longrightarrow> fac_wf st'"
  "ack_add_liquidity av st ares sender tx native = Inr (st', r) \<Longrightarrow> fac_wf st \<Longrightarrow> fac_wf st'"
  "ack_remove_liquidity av st rres sender tx native = Inr (st', r) \<Longrightarrow> fac_wf st \<Longrightarrow> fac_wf st'"
  "ack_withdraw_request st wres native = Inr (st', r) \<Longrightarrow> fac_wf st \<Longrightarrow> fac_wf st'"
  by (cases ures; cases ares; cases rres; cases wres; auto simp: ack_escrow_creation_def ack_add_liquidity_def
      ack_remove_liquidity_def ack_withdraw_request_def Let_def bindR_eq_Inr split: if_splits)+

lemma fac_ack_wf:
  "fac_reusable_internal_ack_call av st env msg ack native = Inr (st', r) \<Longrightarrow> fac_wf st \<Longrightarrow> fac_wf st'"
  by (cases msg) (auto simp: fac_reusable_internal_ack_call_def bindR_eq_Inr
      intro: ack_pool_wf ack_swap_wf other_acks_wf)

lemma callback_wf:
  "fac_ibc_receive_internal_call av st env packet = Inr (st', r) \<Longrightarrow> fac_wf st \<Longrightarrow> fac_wf st'"
  "fac_execute_native_receive_callback av st env info b = Inr (st', r) \<Longrightarrow> fac_wf st \<Longrightarrow> fac_wf st'"
  by (auto simp: fac_ibc_receive_internal_call_def fac_execute_native_receive_callback_def Let_def bindR_eq_Inr
      ensure_eq_Inr dest!: router_message_quiet [where d = "[]"])

lemma fac_execute_wf:
  assumes "fac_execute w st env info msg = Inr (st', r)" and "fac_wf st"
  shows "fac_wf st'"
  using assms
  by (cases msg) (auto simp: fac_execute_def bindR_eq_Inr Let_def fac_ibc_ack_packet_internal_call_def
      intro: add_request_wf swap_request_wf other_requests_wf pool_request_wf escrow_request_wf receive_cw20_wf
        fac_ack_wf callback_wf)

lemma fac_reply_wf:
  assumes "fac_reply av st env msg = Inr (st', r)" and "fac_wf st"
  shows "fac_wf st'"
proof -
  have native: "fac_wf st'" if "fac_on_reply_native_ibc_wrapper_call av st env msg = Inr (st', r)"
    using that assms(2) by (cases "reply_result msg") (auto simp: fac_on_reply_native_ibc_wrapper_call_def bindR_eq_Inr Let_def
        dest!: fac_ack_wf)
  have rest: "fac_wf st'"
    if "on_escrow_instantiate_reply av st msg = Inr (st', r) \<or> on_cw20_instantiate_reply av st msg = Inr (st', r)
      \<or> fac_on_ibc_ack_and_timeout_reply st msg = Inr (st', r) \<or> fac_on_ibc_receive_reply st msg = Inr (st', r)"
    using that assms(2) by (cases "reply_result msg") (auto simp: on_escrow_instantiate_reply_def on_cw20_instantiate_reply_def
        bindR_eq_Inr fac_on_ibc_ack_and_timeout_reply_def fac_on_ibc_receive_reply_def)
  from assms(1) show ?thesis
    unfolding fac_reply_def using native rest by (auto split: if_splits)
qed

section \<open>Runs\<close>

lemma fac_do_wf:
  assumes "fac_do w st c = Inr (st', r)" and "fac_wf st"
  shows "fac_wf st'"
  using assms
  by (cases c) (auto simp: fac_ibc_packet_ack_def fac_ibc_packet_receive_def fac_ibc_packet_timeout_def bindR_eq_Inr Let_def
      intro: fac_execute_wf fac_reply_wf)

lemma fac_run_wf: "fac_wf st \<Longrightarrow> fac_wf (fst (fac_run w st cs))"
proof (induction cs arbitrary: st)
  case (Cons c cs)
  show ?case
  proof (cases "fac_do w st c")
    case (Inr p)
    obtain st1 r where p: "p = (st1, r)" by (cases p)
    with Cons.IH [of st1] fac_do_wf [of w st c st1 r] Cons.prems Inr show ?thesis
      by (simp add: Let_def split_beta)
  qed (use Cons in simp)
qed simp

lemma fac_instantiate_wf: "fac_instantiate info msg = Inr (st, r) \<Longrightarrow> fac_wf st"
  by (auto simp: fac_instantiate_def bindR_eq_Inr fac_wf_def ChainUid_validate_Inr)

section \<open>Refunds\<close>

text \<open>The transfers that give back what is held for a request, when it is pending.\<close>

fun refund_of :: "fac_storage \<Rightarrow> addr \<Rightarrow> ChainIbcExecuteMsg \<Rightarrow> CosmosMsg list option" where
  "refund_of st a (CI_Swap m) = map_option (\<lambda>r.
     [create_transfer_msg (twd_token_type (sr_asset_in r)) (sr_amount_in r + sr_partner_fee_amount r) a None])
     (map_may_load (PENDING_SWAPS st) (a, csw_tx_id m))"
| "refund_of st a (CI_AddLiquidity _ _ _ _ _ tx) = map_option (\<lambda>r.
     [create_transfer_msg (twd_token_type (pwd_token_1 (alr_pair_info r))) (alr_token_1_liquidity r) a None,
      create_transfer_msg (twd_token_type (pwd_token_2 (alr_pair_info r))) (alr_token_2_liquidity r) a None])
     (map_may_load (PENDING_ADD_LIQUIDITY st) (a, tx))"
| "refund_of st a (CI_RemoveLiquidity m) = map_option (\<lambda>r.
     [Wasm_Execute (rlr_cw20 r) (To_Cw20 (CW20_Transfer a (rlr_lp_allocation r))) []])
     (map_may_load (F_PENDING_REMOVE_LIQUIDITY st) (a, crl_tx_id m))"
| "refund_of st a _ = None"

lemma swap_refund_fits:
  assumes "fac_wf st" and "map_may_load (PENDING_SWAPS st) k = Some r"
  shows "checked_add (sr_amount_in r) (sr_partner_fee_amount r) = Ok (sr_amount_in r + sr_partner_fee_amount r)"
proof -
  have "swap_ok k r" using assms unfolding fac_wf_def all_entries_def by blast
  then show ?thesis by (simp add: swap_ok_def checked_add_def)
qed

lemma refund_paid:
  assumes "fac_wf st" and "av (ccu_address (chain_sender m)) = Ok a" and "refund_of st a m = Some ms"
  shows "\<exists>st'. fac_reusable_internal_ack_call av st env m (Json_Ack (AckError e)) False
       = Ok (st', \<lparr>r_messages = map SubMsg_new ms, r_data = None\<rparr>) \<and> refund_of st' a m = None"
proof (cases m)
  case (CI_Swap x)
  with assms obtain r where "map_may_load (PENDING_SWAPS st) (a, csw_tx_id x) = Some r" by auto
  with CI_Swap assms swap_refund_fits [OF assms(1) this] show ?thesis
    by (auto simp: fac_reusable_internal_ack_call_def ack_swap_request_def Let_def map_load_def submsg_defs
        from_json_ack_def)
qed (use assms in \<open>auto simp: fac_reusable_internal_ack_call_def ack_add_liquidity_def ack_remove_liquidity_def Let_def
      map_load_def submsg_defs from_json_ack_def\<close>)

section \<open>Properties of every factory\<close>

text \<open>
  C11: Every state of a factory is well formed. From the instantiation on, over any sequence of transactions, replies,
  packets, acknowledgements and time-outs, the state is there with a valid chain uid, every pool is stored under the
  sorted pair of two valid and different tokens, every pending request is stored under its own sender and transaction
  id, no pending request is for nothing, a pending swap has a route that starts at the token it pays and ends at the
  token it asks for, and its amount and partner fee together fit the 128 bits of a refund.
\<close>

theorem factory_well_formed:
  assumes "fac_instantiate info msg = Ok (st, r)"
  shows "fac_wf (fst (fac_run w st cs))"
  using assms by (intro fac_run_wf) (rule fac_instantiate_wf)

definition xf_new :: fac_InstantiateMsg where
  "xf_new = \<lparr>fim_router_contract = ''router'', fim_chain_uid = ChainUid ''osmosis'', fim_escrow_code_id = 1,
     fim_cw20_code_id = 2, fim_is_native = False\<rparr>"

definition xf_admin :: message_info where
  "xf_admin = \<lparr>info_sender = ''admin'', info_funds = []\<rparr>"

definition xf_escrow_made :: Reply where
  "xf_escrow_made = \<lparr>reply_id = ESCROW_INSTANTIATE_REPLY_ID,
     reply_result = SubMsgOk (Some (Pb_Instantiate ''escrow1'' (Some (Json_EscrowInstantiate
       \<lparr>eir_token = Token ''atom'', eir_address = ''escrow1''\<rparr>))))\<rparr>"

definition xf_story :: "fac_call list" where
  "xf_story = [Do_Execute xf_env xf_admin (F_UpdateHubChannel ''channel-7''), Do_Reply xf_env xf_escrow_made,
     Do_Execute xf_env (xf_pays 1000) (xf_swap None)]"

definition xf_ready :: fac_storage where
  "xf_ready = xf_fac\<lparr>PAIR_TO_VLP := [], TOKEN_TO_ESCROW := [(Token ''atom'', ''escrow1'')], VLP_TO_CW20 := []\<rparr>"

lemma xf_born: "fac_instantiate xf_admin xf_new = Ok (xf_ready\<lparr>HUB_CHANNEL := None, TOKEN_TO_ESCROW := []\<rparr>, Response_new)"
  by (simp add: fac_instantiate_def xf_new_def xf_admin_def xf_ready_def xf_fac_def xf_state_def ChainUid_validate_def ascii_defs)

lemma xf_story_run:
  "\<exists>st q. fst (fac_run xf_world (xf_ready\<lparr>HUB_CHANNEL := None, TOKEN_TO_ESCROW := []\<rparr>) xf_story) = st
     \<and> PENDING_SWAPS st = [((''alice'', xf_tx), q)] \<and> sr_asset_in q = xf_in \<and> sr_amount_in q = 1000
     \<and> sr_partner_fee_amount q = 0 \<and> TOKEN_TO_ESCROW st = [(Token ''atom'', ''escrow1'')]"
proof -
  have channel: "fac_do xf_world (xf_ready\<lparr>HUB_CHANNEL := None, TOKEN_TO_ESCROW := []\<rparr>)
      (Do_Execute xf_env xf_admin (F_UpdateHubChannel ''channel-7'')) = Ok (xf_ready\<lparr>TOKEN_TO_ESCROW := []\<rparr>, Response_new)"
    by (simp add: fac_execute_def execute_update_hub_channel_def xf_ready_def xf_fac_def xf_state_def xf_admin_def)
  have escrow: "fac_do xf_world (xf_ready\<lparr>TOKEN_TO_ESCROW := []\<rparr>) (Do_Reply xf_env xf_escrow_made) = Ok (xf_ready, Response_new)"
    by (simp add: fac_reply_def xf_escrow_made_def on_escrow_instantiate_reply_def xf_ready_def xf_fac_def xf_world_def
        parse_reply_instantiate_data_def map_save_def CHAIN_IBC_EXECUTE_MSG_QUEUE_RANGE_def ESCROW_INSTANTIATE_REPLY_ID_def word_le_nat_alt
        from_json_escrow_instantiate_def)
  have "\<exists>st r q. fac_execute xf_world xf_ready xf_env (xf_pays 1000) (xf_swap None) = Ok (st, r)
      \<and> PENDING_SWAPS st = [((''alice'', xf_tx), q)] \<and> sr_asset_in q = xf_in \<and> sr_amount_in q = 1000
      \<and> sr_partner_fee_amount q = 0 \<and> TOKEN_TO_ESCROW st = [(Token ''atom'', ''escrow1'')]"
    by (simp add: xf_ready_def xf_defs xf_tx_def fac_execute_def execute_swap_request_def Let_def split_beta fac_generate_tx_def
        xf_fee TokenWithDenom_validate_def TokenType_is_native_def get_denom_def MAX_PARTNER_FEE_BPS_def checked_sub_def
        map_has_def slice_first_def slice_last_def get_timeout_def map_load_def map_may_load_def fac_to_msg_def
        ChainIbc_to_msg_def map_save_def)
  then show ?thesis
    by (auto simp: xf_story_def channel [simplified] escrow [simplified] Let_def split_beta)
qed

theorem factory_well_formed_witness:
  "fac_wf (fst (fac_run xf_world (xf_ready\<lparr>HUB_CHANNEL := None, TOKEN_TO_ESCROW := []\<rparr>) xf_story))
     \<and> map_has (PENDING_SWAPS (fst (fac_run xf_world (xf_ready\<lparr>HUB_CHANNEL := None, TOKEN_TO_ESCROW := []\<rparr>) xf_story)))
         (''alice'', xf_tx)"
  using factory_well_formed [OF xf_born, of xf_world xf_story] xf_story_run by (auto simp: map_has_def map_may_load_def)

text \<open>
  C12: Nobody's funds are stuck in a factory. In every state it can reach, when a packet for a pending swap, deposit or
  withdrawal comes back with an error or a time-out, the callback succeeds: it gives the sender exactly what is held
  for the request, for a swap the amount and the partner fee together, for a deposit both tokens, for a withdrawal the
  LP tokens, and the request is no longer pending.
\<close>

theorem failed_request_refunded:
  assumes "fac_instantiate info0 msg0 = Ok (st0, r0)"
    and "packet_data p = Json_ChainIbc m" and "w_addr_validate w (ccu_address (chain_sender m)) = Ok a"
    and "refund_of (fst (fac_run w st0 cs)) a m = Some ms"
  shows "\<exists>st'. fac_execute w (fst (fac_run w st0 cs)) env info
       (F_IbcCallbackAckAndTimeout \<lparr>acknowledgement = Json_Ack (AckError e), original_packet = p\<rparr>)
       = Ok (st', \<lparr>r_messages = map SubMsg_new ms, r_data = None\<rparr>) \<and> refund_of st' a m = None"
  using refund_paid [of "fst (fac_run w st0 cs)" "w_addr_validate w" m a ms env e] fac_run_wf [OF fac_instantiate_wf [OF assms(1)], of w cs]
    assms(2-4)
  by (simp add: fac_execute_def fac_ibc_ack_packet_internal_call_def)

definition xf_lost :: IbcPacket where
  "xf_lost = \<lparr>packet_data = Json_ChainIbc (CI_Swap \<lparr>csw_sender = xf_user, csw_asset_in = Token ''atom'', csw_amount_in = 1000,
     csw_asset_out = Token ''eucl'', csw_min_amount_out = 1,
     csw_swaps = [\<lparr>nsp_token_in = Token ''atom'', nsp_token_out = Token ''eucl'', nsp_test_fail = None\<rparr>],
     csw_cross_chain_addresses = [], csw_tx_id = xf_tx\<rparr>),
     packet_src = \<lparr>port_id = ''wasm.factory'', channel_id = ''channel-7''\<rparr>,
     packet_dest = \<lparr>port_id = ''wasm.router'', channel_id = ''channel-0''\<rparr>\<rparr>"

theorem failed_request_refunded_witness:
  "\<exists>st'. fac_execute xf_world (fst (fac_run xf_world (xf_ready\<lparr>HUB_CHANNEL := None, TOKEN_TO_ESCROW := []\<rparr>) xf_story)) xf_env xf_admin
       (F_IbcCallbackAckAndTimeout \<lparr>acknowledgement = Json_Ack (AckError ''Timeout''), original_packet = xf_lost\<rparr>)
       = Ok (st', \<lparr>r_messages = [SubMsg_new (Bank_Send ''alice'' [\<lparr>coin_denom = ''uatom'', coin_amount = 1000\<rparr>])], r_data = None\<rparr>)"
proof -
  let ?st = "fst (fac_run xf_world (xf_ready\<lparr>HUB_CHANNEL := None, TOKEN_TO_ESCROW := []\<rparr>) xf_story)"
  obtain m where m: "packet_data xf_lost = Json_ChainIbc m" "ccu_address (chain_sender m) = ''alice''"
      "refund_of ?st ''alice'' m = Some [Bank_Send ''alice'' [\<lparr>coin_denom = ''uatom'', coin_amount = 1000\<rparr>]]"
    using xf_story_run by (auto simp: xf_lost_def map_may_load_def xf_in_def xf_user_def create_transfer_msg_def)
  have "w_addr_validate xf_world (ccu_address (chain_sender m)) = Ok ''alice''" by (simp add: xf_world_def m(2))
  from failed_request_refunded [OF xf_born m(1) this m(3), of xf_env xf_admin "''Timeout''"] show ?thesis
    by auto
qed

end
