(* ===== verification/Escrow.thy ===== *)
theory Escrow
  imports Messages
begin

text \<open>
  The escrow contract, \<^verbatim>\<open>contracts/liquidity/escrow/src\<close>: one per token on every chain, it holds the
  deposits in all denominations allowed for the token and pays withdrawals from them in the order in
  which they were allowed. Only the factory that instantiated it may deposit, withdraw or change the list.
  The withdrawal loop refines the abstract distribution \<open>greedy\<close>.
\<close>

section \<open>State and operations\<close>

record esc_State =
  es_token_id :: Token
  es_factory_address :: addr
  es_total_amount :: uint128

record esc_storage =
  ESC_STATE :: "esc_State option"
  ALLOWED_DENOMS :: "TokenType list option"
  DENOM_TO_AMOUNT :: "(string, uint128) store"

definition execute_add_allowed_denom ::
    "esc_storage \<Rightarrow> message_info \<Rightarrow> TokenType \<Rightarrow> (esc_storage \<times> Response) result" where
  "execute_add_allowed_denom st info denom =
     bindR (item_load (ESC_STATE st)) (\<lambda>state.
     ensure (info_sender info = es_factory_address state) Unauthorized
     (let allowed_denoms = unwrap_or (ALLOWED_DENOMS st) [] in
      ensure (denom \<notin> set allowed_denoms) DuplicateDenominations
      (Ok (st\<lparr>ALLOWED_DENOMS := Some (allowed_denoms @ [denom]),
              DENOM_TO_AMOUNT := map_save (DENOM_TO_AMOUNT st) (get_key denom)
                (unwrap_or (map_may_load (DENOM_TO_AMOUNT st) (get_key denom)) 0)\<rparr>, Response_new))))"

definition execute_disallow_denom ::
    "esc_storage \<Rightarrow> message_info \<Rightarrow> TokenType \<Rightarrow> (esc_storage \<times> Response) result" where
  "execute_disallow_denom st info denom =
     bindR (item_load (ESC_STATE st)) (\<lambda>state.
     ensure (info_sender info = es_factory_address state) Unauthorized
     (bindR (item_load (ALLOWED_DENOMS st)) (\<lambda>allowed_denoms.
      ensure (denom \<in> set allowed_denoms) DenomDoesNotExist
      (Ok (st\<lparr>ALLOWED_DENOMS := Some (filter (\<lambda>d. d \<noteq> denom) allowed_denoms)\<rparr>, Response_new)))))"

text \<open>The loop of \<open>execute_deposit_native\<close> over the attached coins.\<close>

fun deposit_loop ::
    "TokenType list \<Rightarrow> coin list \<Rightarrow> (string, uint128) store \<Rightarrow> uint128 \<Rightarrow> ((string, uint128) store \<times> uint128) result" where
  "deposit_loop allowed_denoms [] m total_amount = Ok (m, total_amount)"
| "deposit_loop allowed_denoms (token # funds) m total_amount =
     ensure (coin_amount token \<noteq> 0) InsufficientDeposit
     (let token_type = Native (coin_denom token) in
      ensure (token_type \<in> set allowed_denoms) UnsupportedDenomination
      (bindR (map_load m (get_key token_type)) (\<lambda>current_balance.
       bindR (checked_add current_balance (coin_amount token)) (\<lambda>new_balance.
       bindR (checked_add total_amount (coin_amount token)) (\<lambda>total_amount.
       deposit_loop allowed_denoms funds (map_save m (get_key token_type) new_balance) total_amount)))))"

definition execute_deposit_native :: "esc_storage \<Rightarrow> message_info \<Rightarrow> (esc_storage \<times> Response) result" where
  "execute_deposit_native st info =
     ensure (info_funds info \<noteq> []) InsufficientDeposit
     (bindR (item_load (ESC_STATE st)) (\<lambda>state.
      ensure (info_sender info = es_factory_address state) Unauthorized
      (bindR (item_load (ALLOWED_DENOMS st)) (\<lambda>allowed_denoms.
       bindR (deposit_loop allowed_denoms (info_funds info) (DENOM_TO_AMOUNT st) (es_total_amount state))
         (\<lambda>(m, total_amount).
       Ok (st\<lparr>DENOM_TO_AMOUNT := m, ESC_STATE := Some (state\<lparr>es_total_amount := total_amount\<rparr>)\<rparr>,
           Response_new))))))"

definition execute_deposit_cw20 :: "esc_storage \<Rightarrow> uint128 \<Rightarrow> TokenType \<Rightarrow> (esc_storage \<times> Response) result" where
  "execute_deposit_cw20 st amount denom =
     bindR (item_load (ALLOWED_DENOMS st)) (\<lambda>allowed_denoms.
     ensure (denom \<in> set allowed_denoms) UnsupportedDenomination
     (bindR (map_load (DENOM_TO_AMOUNT st) (get_key denom)) (\<lambda>current_balance.
      bindR (checked_add current_balance amount) (\<lambda>new_balance.
      bindR (item_load (ESC_STATE st)) (\<lambda>state.
      bindR (checked_add (es_total_amount state) amount) (\<lambda>total_amount.
      Ok (st\<lparr>DENOM_TO_AMOUNT := map_save (DENOM_TO_AMOUNT st) (get_key denom) new_balance,
             ESC_STATE := Some (state\<lparr>es_total_amount := total_amount\<rparr>)\<rparr>, Response_new)))))))"

definition esc_receive_cw20 ::
    "esc_storage \<Rightarrow> message_info \<Rightarrow> Cw20ReceiveMsg \<Rightarrow> (esc_storage \<times> Response) result" where
  "esc_receive_cw20 st info cw20_msg =
     bindR (from_json_hook (crm_msg cw20_msg)) (\<lambda>hook.
     case hook of
       Hook_Deposit \<Rightarrow>
         bindR (item_load (ESC_STATE st)) (\<lambda>state.
         ensure (crm_sender cw20_msg = es_factory_address state) Unauthorized
         (ensure (crm_amount cw20_msg \<noteq> 0) InsufficientDeposit
         (execute_deposit_cw20 st (crm_amount cw20_msg) (Smart (info_sender info)))))
     | _ \<Rightarrow> Err UnsupportedMessage)"

text \<open>The loop of \<open>execute_withdraw\<close>: remaining amount, stored balances and messages so far.\<close>

fun withdraw_loop ::
    "addr \<Rightarrow> TokenType list \<Rightarrow> uint128 \<Rightarrow> (string, uint128) store \<Rightarrow> CosmosMsg list
       \<Rightarrow> (uint128 \<times> (string, uint128) store \<times> CosmosMsg list) result" where
  "withdraw_loop recipient [] remaining m messages = Ok (remaining, m, messages)"
| "withdraw_loop recipient (denom # allowed_denoms) remaining m messages =
     (if remaining = 0 then Ok (remaining, m, messages)
      else bindR (map_load m (get_key denom)) (\<lambda>denom_balance.
           let transfer_amount = (if denom_balance \<le> remaining then denom_balance else remaining);
               send_msg = create_transfer_msg denom transfer_amount recipient None
           in bindR (checked_sub remaining transfer_amount) (\<lambda>remaining.
              bindR (checked_sub denom_balance transfer_amount) (\<lambda>new_balance.
              withdraw_loop recipient allowed_denoms remaining (map_save m (get_key denom) new_balance)
                (messages @ [send_msg])))))"

definition execute_withdraw ::
    "esc_storage \<Rightarrow> message_info \<Rightarrow> addr \<Rightarrow> uint128 \<Rightarrow> (esc_storage \<times> Response) result" where
  "execute_withdraw st info recipient amount =
     bindR (item_load (ESC_STATE st)) (\<lambda>state.
     ensure (info_sender info = es_factory_address state) Unauthorized
     (ensure (amount \<noteq> 0) ZeroWithdrawalAmount
     (bindR (item_load (ALLOWED_DENOMS st)) (\<lambda>allowed_denoms.
      bindR (withdraw_loop recipient allowed_denoms amount (DENOM_TO_AMOUNT st) []) (\<lambda>(remaining, m, messages).
      ensure (remaining = 0) InsufficientDeposit
      (bindR (checked_sub (es_total_amount state) amount) (\<lambda>total_amount.
       Ok (st\<lparr>DENOM_TO_AMOUNT := m, ESC_STATE := Some (state\<lparr>es_total_amount := total_amount\<rparr>)\<rparr>,
           add_messages messages Response_new))))))))"

definition esc_instantiate ::
    "env \<Rightarrow> message_info \<Rightarrow> Token \<Rightarrow> TokenType option \<Rightarrow> (esc_storage \<times> Response) result" where
  "esc_instantiate env info token allowed_denom =
     (let st = \<lparr>ESC_STATE = Some \<lparr>es_token_id = token, es_factory_address = info_sender info, es_total_amount = 0\<rparr>,
                ALLOWED_DENOMS = None, DENOM_TO_AMOUNT = []\<rparr>;
          data = Json_EscrowInstantiate \<lparr>eir_token = token, eir_address = contract_address env\<rparr>
      in bindR (case allowed_denom of
                  Some denom \<Rightarrow> execute_add_allowed_denom st info denom
                | None \<Rightarrow> Ok (st, Response_new)) (\<lambda>(st, res).
         Ok (st, set_data data res)))"

fun esc_execute :: "esc_storage \<Rightarrow> message_info \<Rightarrow> escrow_ExecuteMsg \<Rightarrow> (esc_storage \<times> Response) result" where
  "esc_execute st info ESC_DepositNative = execute_deposit_native st info"
| "esc_execute st info (ESC_AddAllowedDenom denom) = execute_add_allowed_denom st info denom"
| "esc_execute st info (ESC_DisallowDenom denom) = execute_disallow_denom st info denom"
| "esc_execute st info (ESC_Receive msg) = esc_receive_cw20 st info msg"
| "esc_execute st info (ESC_Withdraw recipient amount) = execute_withdraw st info recipient amount"

definition esc_reply :: "esc_storage \<Rightarrow> Reply \<Rightarrow> (esc_storage \<times> Response) result" where
  "esc_reply st msg = Err (Std (GenericErr (''Unknown reply id: '' @ show_nat (unat (reply_id msg)))))"

definition query_token_id :: "esc_storage \<Rightarrow> string result" where
  "query_token_id st = bindR (item_load (ESC_STATE st)) (\<lambda>state. Ok (token_id (es_token_id state)))"

definition query_token_allowed :: "esc_storage \<Rightarrow> TokenType \<Rightarrow> bool result" where
  "query_token_allowed st denom = Ok (denom \<in> set (unwrap_or (ALLOWED_DENOMS st) []))"

definition query_allowed_denoms :: "esc_storage \<Rightarrow> TokenType list result" where
  "query_allowed_denoms st = Ok (unwrap_or (ALLOWED_DENOMS st) [])"

section \<open>The invariant\<close>

text \<open>
  The recorded total is the sum of the recorded balances, no denomination is listed twice, and every
  listed one has a balance.
\<close>

definition esc_inv :: "esc_storage \<Rightarrow> bool" where
  "esc_inv st \<longleftrightarrow>
     (\<exists>state. ESC_STATE st = Some state \<and> unat (es_total_amount state) = total_of (DENOM_TO_AMOUNT st)
        \<and> distinct (unwrap_or (ALLOWED_DENOMS st) [])
        \<and> (\<forall>d\<in>set (unwrap_or (ALLOWED_DENOMS st) []). map_has (DENOM_TO_AMOUNT st) (get_key d)))"

lemma total_of_save_same: "total_of (map_save m k (unwrap_or (map_may_load m k) 0)) = total_of m"
  using total_of_save [of m k "unwrap_or (map_may_load m k) 0"] by (simp add: amount_at_def)

lemma add_allowed_denom_inv:
  "execute_add_allowed_denom st info d = Inr (st', r) \<Longrightarrow> esc_inv st \<Longrightarrow> esc_inv st'"
  by (auto simp: execute_add_allowed_denom_def Let_def ok_simps esc_inv_def total_of_save_same)

lemma disallow_denom_inv:
  "execute_disallow_denom st info d = Inr (st', r) \<Longrightarrow> esc_inv st \<Longrightarrow> esc_inv st'"
  by (auto simp: execute_disallow_denom_def ok_simps esc_inv_def)

lemma deposit_loop_keys: "deposit_loop ds cs m t = Inr (m', t') \<Longrightarrow> map_has m k \<Longrightarrow> map_has m' k"
  by (induction ds cs m t rule: deposit_loop.induct) (auto simp: ok_simps Let_def)

lemma deposit_loop_total:
  "deposit_loop ds cs m t = Inr (m', t') \<Longrightarrow>
     unat t' = unat t + (\<Sum>c\<leftarrow>cs. unat (coin_amount c))
     \<and> total_of m' = total_of m + (\<Sum>c\<leftarrow>cs. unat (coin_amount c))"
proof (induction ds cs m t rule: deposit_loop.induct)
  case (2 ds c cs m t)
  let ?k = "get_key (Native (coin_denom c))"
  from 2(2) obtain b b' t1 where *: "coin_amount c \<noteq> 0" "Native (coin_denom c) \<in> set ds"
      "map_may_load m ?k = Some b" "unat b' = unat b + unat (coin_amount c)"
      "unat t1 = unat t + unat (coin_amount c)" "deposit_loop ds cs (map_save m ?k b') t1 = Inr (m', t')"
    by (auto simp: ok_simps Let_def)
  then have "unat t' = unat t1 + (\<Sum>c\<leftarrow>cs. unat (coin_amount c))
      \<and> total_of m' = total_of (map_save m ?k b') + (\<Sum>c\<leftarrow>cs. unat (coin_amount c))"
    by (intro 2(1)) (auto simp: ok_simps)
  with * total_of_save [of m ?k b'] amount_at_Some [of m ?k b] show ?case
    by simp
qed auto

lemma deposit_native_inv:
  assumes "execute_deposit_native st info = Inr (st', r)" and "esc_inv st"
  shows "esc_inv st'"
proof -
  from assms(1) obtain state ds m t where st: "ESC_STATE st = Some state" "ALLOWED_DENOMS st = Some ds"
    and loop: "deposit_loop ds (info_funds info) (DENOM_TO_AMOUNT st) (es_total_amount state) = Inr (m, t)"
    and st': "st' = st\<lparr>DENOM_TO_AMOUNT := m, ESC_STATE := Some (state\<lparr>es_total_amount := t\<rparr>)\<rparr>"
    by (auto simp: execute_deposit_native_def ok_simps)
  show ?thesis
    using assms(2) deposit_loop_total [OF loop] deposit_loop_keys [OF loop] st
    by (auto simp: esc_inv_def st')
qed

lemma deposit_cw20_inv:
  assumes "execute_deposit_cw20 st a d = Inr (st', r)" and "esc_inv st"
  shows "esc_inv st'"
proof -
  from assms(1) obtain ds b b' state t where st: "ALLOWED_DENOMS st = Some ds" "ESC_STATE st = Some state"
    and b: "map_may_load (DENOM_TO_AMOUNT st) (get_key d) = Some b" "unat b' = unat b + unat a"
    and t: "unat t = unat (es_total_amount state) + unat a"
    and st': "st' = st\<lparr>DENOM_TO_AMOUNT := map_save (DENOM_TO_AMOUNT st) (get_key d) b',
      ESC_STATE := Some (state\<lparr>es_total_amount := t\<rparr>)\<rparr>"
    by (auto simp: execute_deposit_cw20_def ok_simps)
  have "unat t = total_of (map_save (DENOM_TO_AMOUNT st) (get_key d) b')"
    using assms(2) st b t total_of_save [of "DENOM_TO_AMOUNT st" "get_key d" b'] amount_at_Some [OF b(1)]
    by (simp add: esc_inv_def)
  with assms(2) st show ?thesis
    by (simp add: esc_inv_def st')
qed

section \<open>Withdrawals\<close>

abbreviation balances :: "(string, uint128) store \<Rightarrow> TokenType list \<Rightarrow> nat list" where
  "balances m ds \<equiv> map (\<lambda>d. unat (amount_at m (get_key d))) ds"

lemma balances_save_other: "d \<notin> set ds \<Longrightarrow> balances (map_save m (get_key d) v) ds = balances m ds"
  by auto

lemma withdraw_loop_refines:
  assumes "distinct ds" and "\<forall>d\<in>set ds. map_has m (get_key d)"
  shows "\<exists>rem' m'. withdraw_loop recipient ds rem m msgs =
       Ok (rem', m', msgs @ map2 (\<lambda>d a. create_transfer_msg d (of_nat a) recipient None) ds
                              (greedy (unat rem) (balances m ds)))
     \<and> unat rem = unat rem' + sum_list (greedy (unat rem) (balances m ds))
     \<and> total_of m = total_of m' + sum_list (greedy (unat rem) (balances m ds))
     \<and> (\<forall>k. map_has m k \<longrightarrow> map_has m' k)"
  using assms
proof (induction ds arbitrary: rem m msgs)
  case (Cons d ds)
  show ?case
  proof (cases "rem = 0")
    case False
    let ?k = "get_key d"
    obtain b where b: "map_may_load m ?k = Some b"
      using Cons.prems(2) by (auto simp: map_has_def)
    define x where "x = (if b \<le> rem then b else rem)"
    have x: "unat x = min (unat b) (unat rem)" and le: "x \<le> rem" "x \<le> b"
      by (auto simp: x_def word_le_nat_alt)
    have sub: "unat (rem - x) = unat rem - unat x" "unat (b - x) = unat b - unat x"
      using le by (simp_all add: unat_sub)
    define m1 where "m1 = map_save m ?k (b - x)"
    have bal: "balances m1 ds = balances m ds"
      unfolding m1_def using Cons.prems(1) by (intro balances_save_other) simp
    have tot: "total_of m = total_of m1 + unat x"
      using total_of_save [of m ?k "b - x"] amount_at_Some [OF b] sub le
      by (simp add: m1_def word_le_nat_alt)
    have step: "withdraw_loop recipient (d # ds) rem m msgs =
        withdraw_loop recipient ds (rem - x) m1 (msgs @ [create_transfer_msg d x recipient None])"
      using False b le by (simp add: map_load_def Let_def checked_sub_def m1_def flip: x_def)
    have "\<forall>d\<in>set ds. map_has m1 (get_key d)" "\<forall>k. map_has m k \<longrightarrow> map_has m1 k"
      using Cons.prems(2) by (simp_all add: m1_def)
    then obtain rem' m' where IH: "withdraw_loop recipient ds (rem - x) m1 (msgs @ [create_transfer_msg d x recipient None]) =
        Ok (rem', m', (msgs @ [create_transfer_msg d x recipient None])
          @ map2 (\<lambda>d a. create_transfer_msg d (of_nat a) recipient None) ds (greedy (unat (rem - x)) (balances m1 ds)))"
      "unat (rem - x) = unat rem' + sum_list (greedy (unat (rem - x)) (balances m1 ds))"
      "total_of m1 = total_of m' + sum_list (greedy (unat (rem - x)) (balances m1 ds))"
      "\<forall>k. map_has m k \<longrightarrow> map_has m' k"
      using Cons.IH [of m1 "rem - x" "msgs @ [create_transfer_msg d x recipient None]"] Cons.prems(1) by auto
    have g: "greedy (unat rem) (balances m (d # ds)) = unat x # greedy (unat (rem - x)) (balances m1 ds)"
      using False by (simp add: x sub bal amount_at_Some [OF b])
    have x': "of_nat (unat x) = x" by simp
    show ?thesis
      unfolding step IH(1) g
      using IH(2-4) tot sub le by (simp add: word_le_nat_alt)
  qed simp
qed simp

lemma withdraw_loop_appends:
  "withdraw_loop recipient ds rem m msgs = Inr (rem', m', msgs') \<Longrightarrow> \<exists>ms. msgs' = msgs @ ms"
proof (induction ds arbitrary: rem m msgs)
  case (Cons d ds)
  show ?case
  proof (cases "rem = 0")
    case False
    then obtain rem1 m1 msg where "withdraw_loop recipient ds rem1 m1 (msgs @ [msg]) = Inr (rem', m', msgs')"
      using Cons.prems by (auto simp: bindR_eq_Inr Let_def)
    from Cons.IH [OF this] show ?thesis by auto
  qed (use Cons.prems in simp)
qed simp

lemma withdraw_inv:
  assumes "execute_withdraw st info recipient amount = Inr (st', r)" and "esc_inv st"
  shows "esc_inv st'"
proof -
  from assms(1) obtain state ds m msgs t where st: "ESC_STATE st = Some state" "ALLOWED_DENOMS st = Some ds"
    and loop: "withdraw_loop recipient ds amount (DENOM_TO_AMOUNT st) [] = Inr (0, m, msgs)"
    and t: "unat (es_total_amount state) = unat amount + unat t"
    and st': "st' = st\<lparr>DENOM_TO_AMOUNT := m, ESC_STATE := Some (state\<lparr>es_total_amount := t\<rparr>)\<rparr>"
    by (auto simp: execute_withdraw_def ok_simps)
  have ds: "distinct ds" "\<forall>d\<in>set ds. map_has (DENOM_TO_AMOUNT st) (get_key d)"
      "unat (es_total_amount state) = total_of (DENOM_TO_AMOUNT st)"
    using assms(2) st by (auto simp: esc_inv_def)
  have "total_of (DENOM_TO_AMOUNT st) = total_of m + unat amount"
      "\<forall>k. map_has (DENOM_TO_AMOUNT st) k \<longrightarrow> map_has m k"
    using withdraw_loop_refines [OF ds(1,2), of recipient amount "[]"] loop by auto
  with ds st t show ?thesis
    by (simp add: esc_inv_def st')
qed

lemma receive_cw20_Inr:
  assumes "esc_receive_cw20 st info msg = Inr (st', r)"
  shows "\<exists>state. ESC_STATE st = Some state \<and> crm_sender msg = es_factory_address state \<and> crm_msg msg = Json_Hook Hook_Deposit
    \<and> execute_deposit_cw20 st (crm_amount msg) (Smart (info_sender info)) = Inr (st', r)"
proof -
  obtain hook where "crm_msg msg = Json_Hook hook"
    using assms by (auto simp: esc_receive_cw20_def ok_simps)
  with assms show ?thesis
    by (cases hook) (auto simp: esc_receive_cw20_def ok_simps)
qed

lemma receive_cw20_inv: "esc_receive_cw20 st info msg = Inr (st', r) \<Longrightarrow> esc_inv st \<Longrightarrow> esc_inv st'"
  by (auto dest: receive_cw20_Inr intro: deposit_cw20_inv)

lemma esc_execute_inv: "esc_execute st info msg = Inr (st', r) \<Longrightarrow> esc_inv st \<Longrightarrow> esc_inv st'"
  by (cases msg) (auto intro: add_allowed_denom_inv disallow_denom_inv deposit_native_inv receive_cw20_inv withdraw_inv)

lemma esc_instantiate_inv:
  assumes "esc_instantiate env info token d = Inr (st, r)"
  shows "esc_inv st"
proof -
  let ?st = "\<lparr>ESC_STATE = Some \<lparr>es_token_id = token, es_factory_address = info_sender info, es_total_amount = 0\<rparr>,
    ALLOWED_DENOMS = None, DENOM_TO_AMOUNT = []\<rparr>"
  have "esc_inv ?st" by (simp add: esc_inv_def)
  then show ?thesis
    using assms by (auto simp: esc_instantiate_def Let_def ok_simps intro: add_allowed_denom_inv split: option.splits)
qed

inductive esc_reachable :: "esc_storage \<Rightarrow> bool" where
  instantiated: "esc_instantiate env info token d = Inr (st, r) \<Longrightarrow> esc_reachable st"
| executed: "esc_reachable st \<Longrightarrow> esc_execute st info msg = Inr (st', r) \<Longrightarrow> esc_reachable st'"

lemma esc_reachable_inv: "esc_reachable st \<Longrightarrow> esc_inv st"
  by (induction rule: esc_reachable.induct) (auto intro: esc_instantiate_inv esc_execute_inv)

section \<open>Properties\<close>

text \<open>
  In every state an escrow can reach, its recorded total is the sum of the recorded balances of all
  denominations, no denomination is listed twice and every listed one has a balance.
\<close>

theorem esc_total_accounted:
  assumes "esc_reachable st"
  shows "esc_inv st"
  using assms by (rule esc_reachable_inv)

abbreviation by_factory :: message_info where
  "by_factory \<equiv> \<lparr>info_sender = ''factory'', info_funds = []\<rparr>"

theorem esc_total_accounted_witness:
  "\<exists>st r. esc_instantiate \<lparr>block_height = 1, block_time = 0, block_chain_id = ''osmo'', tx_index = None,
        contract_address = ''escrow''\<rparr> by_factory (Token ''atom'') (Some (Native ''uatom'')) = Ok (st, r)
     \<and> esc_inv st"
proof -
  obtain st r where ok: "esc_instantiate \<lparr>block_height = 1, block_time = 0, block_chain_id = ''osmo'', tx_index = None,
        contract_address = ''escrow''\<rparr> by_factory (Token ''atom'') (Some (Native ''uatom'')) = Ok (st, r)"
    by (simp add: esc_instantiate_def execute_add_allowed_denom_def Let_def)
  with esc_total_accounted [OF esc_reachable.instantiated [OF ok]] show ?thesis by blast
qed

lemma withdraw_loop_pays:
  fixes amount :: uint128
  assumes "esc_inv st" and "ESC_STATE st = Some state" and "ALLOWED_DENOMS st = Some ds"
  defines "held \<equiv> balances (DENOM_TO_AMOUNT st) ds"
  defines "paid \<equiv> greedy (unat amount) held"
  shows "\<exists>rem' m'. withdraw_loop recipient ds amount (DENOM_TO_AMOUNT st) [] =
       Ok (rem', m', map2 (\<lambda>d a. create_transfer_msg d (of_nat a) recipient None) ds paid)
     \<and> unat amount = unat rem' + sum_list paid \<and> total_of (DENOM_TO_AMOUNT st) = total_of m' + sum_list paid
     \<and> unat (es_total_amount state) = total_of (DENOM_TO_AMOUNT st)"
proof -
  have ds: "distinct ds" "\<forall>d\<in>set ds. map_has (DENOM_TO_AMOUNT st) (get_key d)"
      "unat (es_total_amount state) = total_of (DENOM_TO_AMOUNT st)"
    using assms(1-3) by (auto simp: esc_inv_def)
  then show ?thesis
    using withdraw_loop_refines [OF ds(1,2), of recipient amount "[]"]
    unfolding paid_def held_def append_Nil by blast
qed

lemma withdraw_paid:
  assumes "esc_inv st" and "ESC_STATE st = Some state" and "ALLOWED_DENOMS st = Some ds"
    and "info_sender info = es_factory_address state" and "amount \<noteq> 0"
  defines "held \<equiv> balances (DENOM_TO_AMOUNT st) ds"
  defines "paid \<equiv> greedy (unat amount) held"
  assumes covered: "unat amount \<le> sum_list held"
  shows "\<exists>st'. execute_withdraw st info recipient amount = Ok (st', \<lparr>r_messages =
           map SubMsg_new (map2 (\<lambda>d a. create_transfer_msg d (of_nat a) recipient None) ds paid), r_data = None\<rparr>)
         \<and> sum_list paid = unat amount \<and> (\<forall>i<length paid. paid ! i \<le> held ! i)
         \<and> total_of (DENOM_TO_AMOUNT st) = total_of (DENOM_TO_AMOUNT st') + unat amount"
proof -
  from withdraw_loop_pays [OF assms(1-3)] obtain rem' m' where
      loop: "withdraw_loop recipient ds amount (DENOM_TO_AMOUNT st) [] =
        Ok (rem', m', map2 (\<lambda>d a. create_transfer_msg d (of_nat a) recipient None) ds paid)"
    and rem': "unat amount = unat rem' + sum_list paid" and m': "total_of (DENOM_TO_AMOUNT st) = total_of m' + sum_list paid"
    and total: "unat (es_total_amount state) = total_of (DENOM_TO_AMOUNT st)"
    unfolding paid_def held_def by blast
  have paid: "sum_list paid = unat amount" using covered by (simp add: paid_def sum_greedy)
  with rem' have zero: "rem' = 0" by simp
  have le: "amount \<le> es_total_amount state" using m' total paid by (simp add: word_le_nat_alt)
  define st' where "st' = st\<lparr>DENOM_TO_AMOUNT := m',
      ESC_STATE := Some (state\<lparr>es_total_amount := es_total_amount state - amount\<rparr>)\<rparr>"
  have "execute_withdraw st info recipient amount = Ok (st', \<lparr>r_messages =
        map SubMsg_new (map2 (\<lambda>d a. create_transfer_msg d (of_nat a) recipient None) ds paid), r_data = None\<rparr>)"
    by (simp add: execute_withdraw_def assms(2-5) loop zero checked_sub_def le st'_def)
  moreover have "\<forall>i<length paid. paid ! i \<le> held ! i"
    unfolding paid_def by (simp add: greedy_le)
  moreover have "total_of (DENOM_TO_AMOUNT st) = total_of (DENOM_TO_AMOUNT st') + unat amount"
    by (simp add: st'_def m' paid)
  ultimately show ?thesis using paid by blast
qed

text \<open>
  C18: A withdrawal by the factory pays exactly the amount asked for or nothing: it succeeds if and only if
  the listed denominations together hold the amount, and then the transfers, taken from the denominations in
  list order as \<open>greedy\<close> prescribes, add up to the amount, none exceeds its denomination's balance, and the
  recorded total falls by the amount; otherwise it fails with \<open>InsufficientDeposit\<close>.
\<close>

theorem esc_withdraw_exact:
  assumes "esc_inv st" and "ESC_STATE st = Some state" and "ALLOWED_DENOMS st = Some ds"
    and "info_sender info = es_factory_address state" and "amount \<noteq> 0"
  defines "held \<equiv> balances (DENOM_TO_AMOUNT st) ds"
  defines "paid \<equiv> greedy (unat amount) held"
  shows "if unat amount \<le> sum_list held
    then \<exists>st'. execute_withdraw st info recipient amount = Ok (st', \<lparr>r_messages =
           map SubMsg_new (map2 (\<lambda>d a. create_transfer_msg d (of_nat a) recipient None) ds paid), r_data = None\<rparr>)
         \<and> sum_list paid = unat amount \<and> (\<forall>i<length paid. paid ! i \<le> held ! i)
         \<and> total_of (DENOM_TO_AMOUNT st) = total_of (DENOM_TO_AMOUNT st') + unat amount
    else execute_withdraw st info recipient amount = Err InsufficientDeposit"
proof (cases "unat amount \<le> sum_list held")
  case True
  with withdraw_paid [OF assms(1-5), of recipient] show ?thesis by (simp add: held_def paid_def)
next
  case False
  obtain rem' m' ms where loop: "withdraw_loop recipient ds amount (DENOM_TO_AMOUNT st) [] = Ok (rem', m', ms)"
    and "unat amount = unat rem' + sum_list paid"
    using withdraw_loop_pays [OF assms(1-3)] unfolding paid_def held_def by blast
  moreover have "sum_list paid = sum_list held" using False by (simp add: paid_def sum_greedy)
  ultimately have "unat rem' \<noteq> 0" using False by linarith
  then have "rem' \<noteq> 0" by simp
  with False show ?thesis by (simp add: execute_withdraw_def assms(2-5) loop)
qed

definition example_escrow :: "uint128 \<Rightarrow> uint128 \<Rightarrow> esc_storage" where
  "example_escrow a b =
     \<lparr>ESC_STATE = Some \<lparr>es_token_id = Token ''atom'', es_factory_address = ''factory'', es_total_amount = a + b\<rparr>,
      ALLOWED_DENOMS = Some [Native ''uatom'', Native ''ibc/atom''],
      DENOM_TO_AMOUNT = [(''native:uatom'', a), (''native:ibc/atom'', b)]\<rparr>"

lemma example_escrow_inv: "unat a + unat b < 2 ^ 128 \<Longrightarrow> esc_inv (example_escrow a b)"
proof -
  have "total_of [(''native:uatom'', a), (''native:ibc/atom'', b)] = unat a + unat b"
    using total_of_save [of "[(''native:uatom'', a)]" "''native:ibc/atom''" b] total_of_save [of "[]" "''native:uatom''" a]
    by (simp add: map_save_def amount_at_def map_may_load_def)
  then show "unat a + unat b < 2 ^ 128 \<Longrightarrow> ?thesis"
    by (simp add: esc_inv_def example_escrow_def unat_add_u128 map_has_def map_may_load_def get_key_def)
qed

theorem esc_withdraw_exact_witness:
  "\<exists>st'. execute_withdraw (example_escrow 30 50) by_factory ''alice'' 40 = Ok (st', \<lparr>r_messages =
       map SubMsg_new (map2 (\<lambda>d a. create_transfer_msg d (of_nat a) ''alice'' None)
         [Native ''uatom'', Native ''ibc/atom''] [30, 10]), r_data = None\<rparr>)"
proof -
  have inv: "esc_inv (example_escrow 30 50)" by (rule example_escrow_inv) simp
  have st: "ESC_STATE (example_escrow 30 50) = Some \<lparr>es_token_id = Token ''atom'', es_factory_address = ''factory'', es_total_amount = 80\<rparr>"
      "ALLOWED_DENOMS (example_escrow 30 50) = Some [Native ''uatom'', Native ''ibc/atom'']"
    by (simp_all add: example_escrow_def)
  have bal: "balances (DENOM_TO_AMOUNT (example_escrow 30 50)) [Native ''uatom'', Native ''ibc/atom''] = [30, 50]"
    by (simp add: example_escrow_def amount_at_def map_may_load_def get_key_def)
  have g: "greedy (unat (40 :: uint128)) [30, 50] = [30, 10]" by simp
  show ?thesis
    using esc_withdraw_exact [OF inv st, of by_factory 40 "''alice''"] unfolding bal g by auto
qed

text \<open>
  A listed denomination whose balance is zero does not drop out of a withdrawal: if it comes first, the
  response begins with a transfer of zero units of it.
\<close>

theorem esc_zero_transfer:
  assumes "execute_withdraw st info recipient amount = Ok (st', r)" and "ALLOWED_DENOMS st = Some (d # ds)"
    and "map_may_load (DENOM_TO_AMOUNT st) (get_key d) = Some 0"
  shows "\<exists>ms. r_messages r = SubMsg_new (create_transfer_msg d 0 recipient None) # ms"
proof -
  from assms(1,2) obtain state m msgs where
      loop: "withdraw_loop recipient (d # ds) amount (DENOM_TO_AMOUNT st) [] = Inr (0, m, msgs)"
    and "amount \<noteq> 0" and "r = add_messages msgs Response_new"
    by (auto simp: execute_withdraw_def ok_simps)
  moreover from loop have "\<exists>ms. msgs = [create_transfer_msg d 0 recipient None] @ ms"
    using \<open>amount \<noteq> 0\<close> assms(3) by (auto simp: map_load_def Let_def checked_sub_def dest!: withdraw_loop_appends)
  ultimately show ?thesis by auto
qed

theorem esc_zero_transfer_witness:
  "\<exists>st' r ms. execute_withdraw (example_escrow 0 50) by_factory ''alice'' 40 = Ok (st', r)
     \<and> r_messages r = SubMsg_new (create_transfer_msg (Native ''uatom'') 0 ''alice'' None) # ms"
proof -
  obtain st' r where ok: "execute_withdraw (example_escrow 0 50) by_factory ''alice'' 40 = Ok (st', r)"
    by (simp add: execute_withdraw_def example_escrow_def map_load_def map_may_load_def get_key_def Let_def
        checked_sub_def map_save_def)
  moreover have "ALLOWED_DENOMS (example_escrow 0 50) = Some [Native ''uatom'', Native ''ibc/atom'']"
      "map_may_load (DENOM_TO_AMOUNT (example_escrow 0 50)) (get_key (Native ''uatom'')) = Some 0"
    by (simp_all add: example_escrow_def map_may_load_def get_key_def)
  ultimately show ?thesis
    using esc_zero_transfer by blast
qed

end
