(* ===== verification/Chain_Queries.thy ===== *)
theory Chain_Queries
  imports Factory Escrow
begin

text \<open>
  The query entry points of the contracts on a liquidity chain: the query messages of escrow and factory with their
  answers (\<^verbatim>\<open>packages/euclid/src/msgs\<close>) and the two dispatchers (\<^verbatim>\<open>contract.rs\<close> of each contract), and the questions
  that the factory asks its escrows.
\<close>

section \<open>The escrow\<close>

datatype escrow_QueryMsg =
    ESCQ_TokenId
  | ESCQ_TokenAllowed TokenType
  | ESCQ_AllowedDenoms

datatype escrow_answer =
    ESCA_TokenId string
  | ESCA_AllowedToken bool
  | ESCA_AllowedDenoms "TokenType list"

definition esc_query :: "esc_storage \<Rightarrow> escrow_QueryMsg \<Rightarrow> escrow_answer result" where
  "esc_query st msg =
     (case msg of
        ESCQ_TokenId \<Rightarrow> bindR (query_token_id st) (\<lambda>tid. Ok (ESCA_TokenId tid))
      | ESCQ_TokenAllowed denom \<Rightarrow> bindR (query_token_allowed st denom) (\<lambda>allowed. Ok (ESCA_AllowedToken allowed))
      | ESCQ_AllowedDenoms \<Rightarrow> bindR (query_allowed_denoms st) (\<lambda>denoms. Ok (ESCA_AllowedDenoms denoms)))"

section \<open>The factory\<close>

datatype factory_QueryMsg =
    FQ_GetVlp Pair
  | FQ_GetLPToken string
  | FQ_GetState
  | FQ_GetPartnerFeesCollected
  | FQ_GetAllPools
  | FQ_GetAllTokens
  | FQ_PendingSwapsUser addr "uint128 Pagination"
  | FQ_PendingLiquidity addr "uint128 Pagination"
  | FQ_PendingRemoveLiquidity addr "uint128 Pagination"
  | FQ_GetEscrow string

record GetEscrowResponse =
  ger_escrow_address :: "addr option"
  ger_denoms :: "TokenType list"

record fac_StateResponse =
  fsr_chain_uid :: ChainUid
  fsr_router_contract :: string
  fsr_hub_channel :: "string option"
  fsr_admin :: string
  fsr_escrow_code_id :: u64
  fsr_cw20_code_id :: u64
  fsr_is_native :: bool
  fsr_partner_fees_collected :: DenomFees

record PoolVlpResponse =
  pvr_pair :: Pair
  pvr_vlp :: string

datatype factory_answer =
    FA_Vlp string
  | FA_LPToken addr
  | FA_State fac_StateResponse
  | FA_PartnerFeesCollected DenomFees
  | FA_AllPools "PoolVlpResponse list"
  | FA_AllTokens "Token list"
  | FA_PendingSwaps "SwapRequest list"
  | FA_PendingLiquidity "AddLiquidityRequest list"
  | FA_PendingRemoveLiquidity "RemoveLiquidityRequest list"
  | FA_Escrow GetEscrowResponse

definition fac_query ::
    "(Token \<times> Token \<Rightarrow> bytes) \<Rightarrow> (addr \<Rightarrow> TokenType list result) \<Rightarrow> fac_storage \<Rightarrow> factory_QueryMsg \<Rightarrow> factory_answer result" where
  "fac_query raw allowed_denoms st msg =
     (case msg of
        FQ_GetVlp pair \<Rightarrow> bindR (get_vlp st pair) (\<lambda>vlp_address. Ok (FA_Vlp vlp_address))
      | FQ_GetLPToken vlp \<Rightarrow> bindR (get_lp_token_address st vlp) (\<lambda>token_address. Ok (FA_LPToken token_address))
      | FQ_GetEscrow tid \<Rightarrow>
          bindR (get_escrow allowed_denoms st tid) (\<lambda>(escrow_address, denoms).
          Ok (FA_Escrow \<lparr>ger_escrow_address = escrow_address, ger_denoms = denoms\<rparr>))
      | FQ_GetState \<Rightarrow>
          bindR (fac_query_state st) (\<lambda>(state, hub).
          Ok (FA_State \<lparr>fsr_chain_uid = fs_chain_uid state, fsr_router_contract = fs_router_contract state,
            fsr_hub_channel = hub, fsr_admin = fs_admin state, fsr_escrow_code_id = fs_escrow_code_id state,
            fsr_cw20_code_id = fs_cw20_code_id state, fsr_is_native = fs_is_native state,
            fsr_partner_fees_collected = fs_partner_fees_collected state\<rparr>))
      | FQ_GetAllPools \<Rightarrow>
          bindR (fac_query_all_pools raw st) (\<lambda>pools.
          Ok (FA_AllPools (map (\<lambda>(pair, vlp). \<lparr>pvr_pair = pair, pvr_vlp = vlp\<rparr>) pools)))
      | FQ_PendingSwapsUser user pagination \<Rightarrow>
          bindR (pending_swaps st user pagination) (\<lambda>requests. Ok (FA_PendingSwaps requests))
      | FQ_PendingLiquidity user pagination \<Rightarrow>
          bindR (pending_liquidity st user pagination) (\<lambda>requests. Ok (FA_PendingLiquidity requests))
      | FQ_PendingRemoveLiquidity user pagination \<Rightarrow>
          bindR (pending_remove_liquidity st user pagination) (\<lambda>requests. Ok (FA_PendingRemoveLiquidity requests))
      | FQ_GetAllTokens \<Rightarrow> bindR (fac_query_all_tokens st) (\<lambda>tokens. Ok (FA_AllTokens tokens))
      | FQ_GetPartnerFeesCollected \<Rightarrow>
          bindR (get_partner_fees_collected st) (\<lambda>total. Ok (FA_PartnerFeesCollected total)))"

section \<open>Questions of the factory to its escrows\<close>

text \<open>The escrows of a chain by their address; an escrow cannot parse a query of another contract.\<close>

type_synonym escrows = "(addr, esc_storage) store"

definition ask_escrow :: "escrows \<Rightarrow> addr \<Rightarrow> escrow_QueryMsg \<Rightarrow> escrow_answer result" where
  "ask_escrow es a q = bindR (map_load es a) (\<lambda>st. esc_query st q)"

definition escrow_allows :: "escrows \<Rightarrow> allowed_querier" where
  "escrow_allows es a t =
     bindR (ask_escrow es a (ESCQ_TokenAllowed t)) (\<lambda>x. case x of ESCA_AllowedToken b \<Rightarrow> Ok b | _ \<Rightarrow> parse_error)"

definition escrow_denoms :: "escrows \<Rightarrow> addr \<Rightarrow> TokenType list result" where
  "escrow_denoms es a =
     bindR (ask_escrow es a ESCQ_AllowedDenoms) (\<lambda>x. case x of ESCA_AllowedDenoms ds \<Rightarrow> Ok ds | _ \<Rightarrow> parse_error)"

lemma escrow_says [simp]:
  "escrow_allows es a t = bindR (map_load es a) (\<lambda>st. Ok (t \<in> set (unwrap_or (ALLOWED_DENOMS st) [])))"
  "escrow_denoms es a = bindR (map_load es a) (\<lambda>st. Ok (unwrap_or (ALLOWED_DENOMS st) []))"
  by (cases "map_load es a"; simp add: escrow_allows_def escrow_denoms_def ask_escrow_def esc_query_def
      query_token_allowed_def query_allowed_denoms_def)+

text \<open>
  The two answers agree: the factory accepts a denomination for a token exactly when its query \<^verbatim>\<open>GetEscrow\<close> lists it.
\<close>

lemma listed_iff_allowed:
  assumes "fac_query raw (escrow_denoms es) st (FQ_GetEscrow tid) = Ok (FA_Escrow res)"
    and "ger_escrow_address res = Some a"
  shows "map_may_load (TOKEN_TO_ESCROW st) (Token tid) = Some a \<and> escrow_allows es a t = Ok (t \<in> set (ger_denoms res))"
  using assms
  by (auto simp: fac_query_def get_escrow_def bindR_eq_Inr Token_create_def Token_validate_Inr split: option.splits)

end
