(* ===== verification/Settlement.thy ===== *)
theory Settlement
  imports Factory_Types Chain_Queries
begin

text \<open>
  Settlement on a liquidity chain, factory and escrow together: what happens to the funds of a pending request when the
  router answers with success. The factory sends them to the escrow of their token, and the escrow decides.
\<close>

section \<open>Delivery to an escrow\<close>

text \<open>
  The call that reaches the escrow when a message of create_escrow_msg is carried out: native coins arrive
  with the call itself; for tokens of a contract the contract calls its receiver (the documented \<^verbatim>\<open>Send\<close> of the token
  standard) with the sender, the amount and the message.
\<close>

fun escrow_call :: "addr \<Rightarrow> CosmosMsg \<Rightarrow> (addr \<times> message_info \<times> escrow_ExecuteMsg) option" where
  "escrow_call self (Wasm_Execute e (To_Escrow m) funds) = Some (e, \<lparr>info_sender = self, info_funds = funds\<rparr>, m)"
| "escrow_call self (Wasm_Execute token (To_Cw20 (CW20_Send e amount m)) funds) =
     Some (e, \<lparr>info_sender = token, info_funds = []\<rparr>, ESC_Receive \<lparr>crm_sender = self, crm_amount = amount, crm_msg = m\<rparr>)"
| "escrow_call self _ = None"

definition deposit_info :: "addr \<Rightarrow> TokenType \<Rightarrow> uint128 \<Rightarrow> message_info \<times> escrow_ExecuteMsg" where
  "deposit_info self t x =
     (case t of
        Native d \<Rightarrow> (\<lparr>info_sender = self, info_funds = [\<lparr>coin_denom = d, coin_amount = x\<rparr>]\<rparr>, ESC_DepositNative)
      | Smart a \<Rightarrow> (\<lparr>info_sender = a, info_funds = []\<rparr>,
          ESC_Receive \<lparr>crm_sender = self, crm_amount = x, crm_msg = Json_Hook Hook_Deposit\<rparr>))"

lemma escrow_call_create: "escrow_call self (create_escrow_msg t x e) = Some (e, deposit_info self t x)"
  by (cases t) (simp_all add: create_escrow_msg_def deposit_info_def)

abbreviation allowed :: "esc_storage \<Rightarrow> TokenType list" where
  "allowed st \<equiv> unwrap_or (ALLOWED_DENOMS st) []"

text \<open>A deposit by the factory is booked exactly, or the denomination is not allowed and the deposit is refused.\<close>

lemma deposit_booked:
  assumes "esc_inv st" and "ESC_STATE st = Some s" and "es_factory_address s = self" and "t \<in> set (allowed st)" and "x \<noteq> 0"
    and room: "unat (es_total_amount s) + unat x < 2 ^ 128"
  shows "\<exists>st' r. esc_execute st (fst (deposit_info self t x)) (snd (deposit_info self t x)) = Ok (st', r)
     \<and> unat (amount_at (DENOM_TO_AMOUNT st') (get_key t)) = unat (amount_at (DENOM_TO_AMOUNT st) (get_key t)) + unat x
     \<and> ESC_STATE st' = Some (s\<lparr>es_total_amount := es_total_amount s + x\<rparr>)"
proof -
  obtain ds where ds: "ALLOWED_DENOMS st = Some ds" "t \<in> set ds"
    using assms(4) by (cases "ALLOWED_DENOMS st") (auto simp: unwrap_or_def)
  with assms(1) obtain b where b: "map_may_load (DENOM_TO_AMOUNT st) (get_key t) = Some b"
    by (auto simp: esc_inv_def map_has_def unwrap_or_def)
  have "unat b \<le> unat (es_total_amount s)"
    using assms(1,2) amount_le_total_of [of "DENOM_TO_AMOUNT st" "get_key t"] b by (simp add: esc_inv_def amount_at_def unwrap_or_def)
  then have fits: "checked_add b x = Ok (b + x)" "checked_add (es_total_amount s) x = Ok (es_total_amount s + x)"
      "unat (b + x) = unat b + unat x"
    using room by (simp_all add: checked_add_def unat_add_u128)
  show ?thesis
  proof (cases t)
    case (Native d)
    with ds b fits assms show ?thesis
      by (simp add: deposit_info_def execute_deposit_native_def map_load_def amount_at_def unwrap_or_def)
  next
    case (Smart a)
    with ds b fits assms show ?thesis
      by (simp add: deposit_info_def esc_receive_cw20_def execute_deposit_cw20_def map_load_def amount_at_def unwrap_or_def)
  qed
qed

lemma deposit_refused:
  assumes "ESC_STATE st = Some s" and "es_factory_address s = self" and "t \<notin> set (allowed st)" and "x \<noteq> 0"
  shows "\<exists>e. esc_execute st (fst (deposit_info self t x)) (snd (deposit_info self t x)) = Err e"
  using assms
  by (cases t; cases "ALLOWED_DENOMS st") (auto simp: deposit_info_def execute_deposit_native_def esc_receive_cw20_def
      execute_deposit_cw20_def unwrap_or_def item_load_def)

section \<open>Settlement of swaps\<close>

lemma swap_settlement_Inr:
  assumes "ack_swap_request av st (AckOk data) sender tx native = Inr (st', r)" and "av sender = Inr a"
    and "map_may_load (PENDING_SWAPS st) (a, tx) = Some q"
  shows "\<exists>e ms. map_may_load (TOKEN_TO_ESCROW st) (twd_token (sr_asset_in q)) = Some e
     \<and> r_messages r = SubMsg_new (create_escrow_msg (twd_token_type (sr_asset_in q)) (sr_amount_in q) e) # ms
     \<and> map_may_load (PENDING_SWAPS st') (a, tx) = None"
  using assms
  by (auto simp: ack_swap_request_def Let_def bindR_eq_Inr map_load_eq_Inr item_load_eq_Inr split: if_splits)

text \<open>
  C13: The funds of a swap reach the escrow exactly when their denomination is still allowed there. In every state a
  factory can reach, when a pending swap is answered with success, the first message of the factory carries the amount
  that was swapped to the escrow of its token. An escrow of this factory with room for the amount books it, in the
  denomination and in the total, if it allows the denomination, native or of a token contract; if the denomination was
  taken off its list while the swap was under way, the escrow refuses, and with it the whole settlement fails although
  the hub has carried out the swap.
\<close>

theorem swap_funds_reach_escrow:
  assumes "fac_instantiate info0 msg0 = Ok (st0, r0)" and "st = fst (fac_run w st0 cs)"
    and "packet_data p = Json_ChainIbc (CI_Swap m)" and "w_addr_validate w (ccu_address (csw_sender m)) = Ok a"
    and "map_may_load (PENDING_SWAPS st) (a, csw_tx_id m) = Some q"
    and "fac_execute w st env info (F_IbcCallbackAckAndTimeout
           \<lparr>acknowledgement = Json_Ack (AckOk (Swapped res)), original_packet = p\<rparr>) = Ok (st', r)"
    and "esc_reachable esc" and "ESC_STATE esc = Some s" and "es_factory_address s = contract_address env"
    and "unat (es_total_amount s) + unat (sr_amount_in q) < 2 ^ 128"
  shows "\<exists>e ms deposit call. map_may_load (TOKEN_TO_ESCROW st) (twd_token (sr_asset_in q)) = Some e
     \<and> r_messages r = deposit # ms \<and> escrow_call (contract_address env) (sm_msg deposit) = Some (e, call)
     \<and> (if twd_token_type (sr_asset_in q) \<in> set (unwrap_or (ALLOWED_DENOMS esc) [])
        then \<exists>esc' r'. esc_execute esc (fst call) (snd call) = Ok (esc', r')
          \<and> unat (amount_at (DENOM_TO_AMOUNT esc') (get_key (twd_token_type (sr_asset_in q))))
              = unat (amount_at (DENOM_TO_AMOUNT esc) (get_key (twd_token_type (sr_asset_in q)))) + unat (sr_amount_in q)
          \<and> ESC_STATE esc' = Some (s\<lparr>es_total_amount := es_total_amount s + sr_amount_in q\<rparr>)
        else \<exists>err. esc_execute esc (fst call) (snd call) = Err err)"
proof -
  have "fac_wf st" using fac_run_wf [OF fac_instantiate_wf [OF assms(1)]] by (simp add: assms(2))
  then have "swap_ok (a, csw_tx_id m) q" using assms(5) unfolding fac_wf_def all_entries_def by blast
  then have x: "sr_amount_in q \<noteq> 0" by (simp add: swap_ok_def)
  have ack: "ack_swap_request (w_addr_validate w) st (AckOk res) (ccu_address (csw_sender m)) (csw_tx_id m) False = Inr (st', r)"
    using assms(3,6) by (simp add: fac_execute_def fac_ibc_ack_packet_internal_call_def fac_reusable_internal_ack_call_def
        from_json_ack_def swap_ack_def)
  obtain e ms where e: "map_may_load (TOKEN_TO_ESCROW st) (twd_token (sr_asset_in q)) = Some e"
      "r_messages r = SubMsg_new (create_escrow_msg (twd_token_type (sr_asset_in q)) (sr_amount_in q) e) # ms"
    using swap_settlement_Inr [OF ack assms(4,5)] by blast
  let ?call = "deposit_info (contract_address env) (twd_token_type (sr_asset_in q)) (sr_amount_in q)"
  have "escrow_call (contract_address env) (sm_msg (SubMsg_new (create_escrow_msg (twd_token_type (sr_asset_in q)) (sr_amount_in q) e)))
      = Some (e, ?call)"
    by (simp add: SubMsg_new_def escrow_call_create)
  with e show ?thesis
    using deposit_booked [OF esc_reachable_inv [OF assms(7)] assms(8,9) _ x assms(10)] deposit_refused [OF assms(8,9) _ x]
    by (intro exI [of _ e] exI [of _ ms] exI conjI) (assumption | rule refl | auto)+
qed

text \<open>The swap of the example, settled into a new escrow for its token.\<close>

definition xs_escrow :: esc_storage where
  "xs_escrow = \<lparr>ESC_STATE = Some \<lparr>es_token_id = Token ''atom'', es_factory_address = ''factory'', es_total_amount = 0\<rparr>,
     ALLOWED_DENOMS = Some [Native ''uatom''], DENOM_TO_AMOUNT = [(''native:uatom'', 0)]\<rparr>"

lemma xs_escrow_reachable: "esc_reachable xs_escrow"
proof (rule esc_reachable.instantiated)
  show "esc_instantiate xf_env by_factory (Token ''atom'') (Some (Native ''uatom'')) = Inr (xs_escrow,
      \<lparr>r_messages = [], r_data = Some (Json_EscrowInstantiate \<lparr>eir_token = Token ''atom'', eir_address = contract_address xf_env\<rparr>)\<rparr>)"
    by (simp add: esc_instantiate_def execute_add_allowed_denom_def Let_def xs_escrow_def map_save_def get_key_def unwrap_or_def
        map_may_load_def)
qed

theorem swap_funds_reach_escrow_witness:
  "\<exists>st' deposit call esc' r'. fac_execute xf_world (fst (fac_run xf_world (xf_ready\<lparr>HUB_CHANNEL := None, TOKEN_TO_ESCROW := []\<rparr>) xf_story))
       xf_env xf_admin (F_IbcCallbackAckAndTimeout
         \<lparr>acknowledgement = Json_Ack (AckOk (Swapped \<lparr>swresp_amount_out = 5, swresp_tx_id = xf_tx\<rparr>)), original_packet = xf_lost\<rparr>)
       = Ok (st', \<lparr>r_messages = [deposit], r_data = None\<rparr>)
     \<and> escrow_call ''factory'' (sm_msg deposit) = Some (''escrow1'', call)
     \<and> esc_execute xs_escrow (fst call) (snd call) = Ok (esc', r')
     \<and> unat (amount_at (DENOM_TO_AMOUNT esc') ''native:uatom'') = 1000"
proof -
  let ?st = "fst (fac_run xf_world (xf_ready\<lparr>HUB_CHANNEL := None, TOKEN_TO_ESCROW := []\<rparr>) xf_story)"
  let ?ack = "\<lparr>acknowledgement = Json_Ack (AckOk (Swapped \<lparr>swresp_amount_out = 5, swresp_tx_id = xf_tx\<rparr>)), original_packet = xf_lost\<rparr>"
  obtain m where m: "packet_data xf_lost = Json_ChainIbc (CI_Swap m)" "ccu_address (csw_sender m) = ''alice''" "csw_tx_id m = xf_tx"
    by (simp add: xf_lost_def xf_user_def)
  obtain q where q: "map_may_load (PENDING_SWAPS ?st) (''alice'', csw_tx_id m) = Some q" "sr_asset_in q = xf_in"
      "sr_amount_in q = 1000" "sr_partner_fee_amount q = 0"
    using xf_story_run by (auto simp: map_may_load_def m(3))
  have esc: "map_may_load (TOKEN_TO_ESCROW ?st) (Token ''atom'') = Some ''escrow1''"
    using xf_story_run by (auto simp: map_may_load_def)
  have av: "w_addr_validate xf_world (ccu_address (csw_sender m)) = Ok ''alice''" by (simp add: xf_world_def m(2))
  obtain st' where run: "fac_execute xf_world ?st xf_env xf_admin (F_IbcCallbackAckAndTimeout ?ack)
      = Ok (st', \<lparr>r_messages = [SubMsg_new (create_escrow_msg (Native ''uatom'') 1000 ''escrow1'')], r_data = None\<rparr>)"
    using q esc m av by (simp add: fac_execute_def fac_ibc_ack_packet_internal_call_def fac_reusable_internal_ack_call_def
        from_json_ack_def swap_ack_def ack_swap_request_def Let_def map_load_def xf_in_def)
  have s: "ESC_STATE xs_escrow = Some \<lparr>es_token_id = Token ''atom'', es_factory_address = ''factory'', es_total_amount = 0\<rparr>"
    by (simp add: xs_escrow_def)
  have env: "contract_address xf_env = ''factory''" by (simp add: xf_env_def)
  have "twd_token_type (sr_asset_in q) = Native ''uatom''" "twd_token (sr_asset_in q) = Token ''atom''" by (simp_all add: q(2) xf_in_def)
  moreover have "Native ''uatom'' \<in> set (unwrap_or (ALLOWED_DENOMS xs_escrow) [])"
      "amount_at (DENOM_TO_AMOUNT xs_escrow) ''native:uatom'' = 0" "get_key (Native ''uatom'') = ''native:uatom''"
    by (simp_all add: xs_escrow_def unwrap_or_def amount_at_def map_may_load_def get_key_def)
  ultimately obtain call esc' r' where "escrow_call ''factory'' (sm_msg (SubMsg_new (create_escrow_msg (Native ''uatom'') 1000 ''escrow1'')))
      = Some (''escrow1'', call)" "esc_execute xs_escrow (fst call) (snd call) = Ok (esc', r')"
      "unat (amount_at (DENOM_TO_AMOUNT esc') ''native:uatom'') = 1000"
    using swap_funds_reach_escrow [OF xf_born refl m(1) av q(1) run xs_escrow_reachable s] by (auto simp: env esc q(3))
  with run show ?thesis by blast
qed

end
