(* ===== verification/Vlp_Correct.thy ===== *)
theory Vlp_Correct
  imports Vlp
begin

text \<open>
  Correctness of the pool contract: when its arithmetic and its handlers succeed and with what effect, the
  invariant that ties the LP tokens of the chains to the total and its preservation by every message, the
  arithmetic of withdrawals, and the properties built on them. What depends on the decimal arithmetic of
  \<open>cosmwasm_std\<close> is proved in the context of the locale \<open>cosmwasm_math\<close>.
\<close>

section \<open>When the arithmetic succeeds\<close>

lemma calculate_swap_Inr [ok_simps]:
  "calculate_swap s x y = Inr out \<longleftrightarrow>
     unat x * unat y < 2 ^ 128 \<and> unat x + unat s < 2 ^ 128 \<and> unat x + unat s \<noteq> 0
     \<and> unat y = unat x * unat y div (unat x + unat s) + unat out"
proof
  assume "calculate_swap s x y = Inr out"
  then obtain k n :: uint128 where k: "unat k = unat x * unat y" and n: "unat n = unat x + unat s"
    and "n \<noteq> 0" and y: "unat y = unat k div unat n + unat out"
    unfolding calculate_swap_def ok_simps by metis
  have "unat n \<noteq> 0" using \<open>n \<noteq> 0\<close> by simp
  with y show "unat x * unat y < 2 ^ 128 \<and> unat x + unat s < 2 ^ 128 \<and> unat x + unat s \<noteq> 0
      \<and> unat y = unat x * unat y div (unat x + unat s) + unat out"
    using unat_lt_u128 [of k] unat_lt_u128 [of n] unfolding k n by blast
next
  let ?k = "of_nat (unat x * unat y) :: uint128" and ?n = "of_nat (unat x + unat s) :: uint128"
  let ?q = "of_nat (unat x * unat y div (unat x + unat s)) :: uint128"
  assume "unat x * unat y < 2 ^ 128 \<and> unat x + unat s < 2 ^ 128 \<and> unat x + unat s \<noteq> 0
      \<and> unat y = unat x * unat y div (unat x + unat s) + unat out"
  then have fits: "unat x * unat y < 2 ^ 128" "unat x + unat s < 2 ^ 128" and pos: "unat x + unat s \<noteq> 0"
    and out: "unat y = unat x * unat y div (unat x + unat s) + unat out" by metis+
  have k: "unat ?k = unat x * unat y" and n: "unat ?n = unat x + unat s"
    using fits by (simp_all only: unat_of_nat_u128)
  have "unat x * unat y div (unat x + unat s) < 2 ^ 128"
    using fits(1) div_le_dividend [of "unat x * unat y" "unat x + unat s"] by linarith
  then have q: "unat ?q = unat x * unat y div (unat x + unat s)"
    by (rule unat_of_nat_u128)
  have "?n \<noteq> 0"
    using pos n by (metis unat_eq_0_iff)
  then show "calculate_swap s x y = Inr out"
    unfolding calculate_swap_def ok_simps using k n q out by metis
qed

text \<open>
  The product of the reserves after a swap without fee: the new reserve is rounded down, so the product
  does not grow, and it shrinks by less than the new reserve of the token paid in.
\<close>

lemma calculate_swap_product:
  assumes "calculate_swap s x y = Inr out"
  shows "(unat x + unat s) * (unat y - unat out) \<le> unat x * unat y
    \<and> unat x * unat y < (unat x + unat s) * (unat y - unat out) + (unat x + unat s)"
proof -
  let ?n = "unat x + unat s" and ?k = "unat x * unat y"
  have "?n \<noteq> 0" and new: "unat y - unat out = ?k div ?n"
    using assms by (auto simp: ok_simps)
  have "?k = ?n * (?k div ?n) + ?k mod ?n" by simp
  moreover have "?k mod ?n < ?n"
    using \<open>?n \<noteq> 0\<close> by (intro mod_less_divisor) linarith
  ultimately show ?thesis
    unfolding new by linarith
qed

lemma calculate_swap_le: "calculate_swap s x y = Inr out \<Longrightarrow> out \<le> y"
  by (auto simp: ok_simps word_le_nat_alt)

lemma calculate_swap_zero: "unat x * unat y < 2 ^ 128 \<Longrightarrow> x \<noteq> 0 \<Longrightarrow> calculate_swap 0 x y = Ok 0"
  using unat_lt_u128 [of x] by (simp add: ok_simps)

text \<open>A larger payment never buys less.\<close>

lemma calculate_swap_mono:
  assumes "calculate_swap s x y = Inr out" and "calculate_swap s' x y = Inr out'" and "s \<le> s'"
  shows "out \<le> out'"
proof -
  have "unat x * unat y div (unat x + unat s') \<le> unat x * unat y div (unat x + unat s)"
  proof (rule div_le_mono2)
    show "0 < unat x + unat s" using assms(1) by (simp only: ok_simps) linarith
    show "unat x + unat s \<le> unat x + unat s'" using assms(3) by (simp add: word_le_nat_alt)
  qed
  then show ?thesis
    using assms(1,2) by (auto simp: ok_simps word_le_nat_alt)
qed

context cosmwasm_math
begin

lemma first_lp_allocation:
  "calculate_lp_allocation M a b x y 0 = Inr lp \<longleftrightarrow>
     (\<exists>p. unat p = unat a * unat b \<and> unat (isqrt M p) = unat lp + 1000)"
  by (auto simp: calculate_lp_allocation_def ok_simps MINIMUM_LIQUIDITY_def)

lemma later_lp_allocation:
  assumes "calculate_lp_allocation M a b x y l = Inr lp" and "l \<noteq> 0"
  shows "x \<noteq> 0 \<and> y \<noteq> 0 \<and> unat lp = min (unat a * unat l div unat x) (unat b * unat l div unat y)"
  using assms
  by (auto simp: calculate_lp_allocation_def ok_simps min_def word_le_nat_alt)

lemma later_lp_allocation_le:
  assumes "calculate_lp_allocation M a b x y l = Inr lp" and "l \<noteq> 0"
  shows "unat lp * unat x \<le> unat a * unat l" and "unat lp * unat y \<le> unat b * unat l"
proof -
  have "x \<noteq> 0" and "y \<noteq> 0" and "unat lp \<le> unat a * unat l div unat x"
      and "unat lp \<le> unat b * unat l div unat y"
    using later_lp_allocation [OF assms] by auto
  then show "unat lp * unat x \<le> unat a * unat l" and "unat lp * unat y \<le> unat b * unat l"
    by (simp_all add: less_eq_div_iff_mult_less_eq word_neq_0_conv word_less_nat_alt)
qed

section \<open>When the handlers succeed\<close>

lemma add_liquidity_okE:
  assumes "add_liquidity M st env info sender a1 a2 tol tx = Inr (st', r)"
  obtains state c R1 R2 lp c' R1' R2' L' where
    "VLP_STATE st = Some state" and "info_sender info = vlp_router state"
    and "map_may_load (CHAIN_LP_TOKENS st) (ccu_chain_uid sender) = Some c"
    and "map_may_load (VLP_BALANCES st) (pair_token_1 (vlp_pair state)) = Some R1"
    and "map_may_load (VLP_BALANCES st) (pair_token_2 (vlp_pair state)) = Some R2"
    and "calculate_lp_allocation M a1 a2 R1 R2 (vlp_total_lp_tokens state) = Inr lp" and "lp \<noteq> 0"
    and "unat c' = unat c + unat lp" and "unat R1' = unat R1 + unat a1" and "unat R2' = unat R2 + unat a2"
    and "unat L' = unat (vlp_total_lp_tokens state) + unat lp"
    and "st' = \<lparr>VLP_STATE = Some (state\<lparr>vlp_total_lp_tokens := L'\<rparr>),
           CHAIN_LP_TOKENS = map_save (CHAIN_LP_TOKENS st) (ccu_chain_uid sender) c',
           VLP_BALANCES = map_save (map_save (VLP_BALANCES st) (pair_token_1 (vlp_pair state)) R1')
             (pair_token_2 (vlp_pair state)) R2'\<rparr>"
    and "r = \<lparr>r_messages = [], r_data = Some (Json_AddLiquidity
           \<lparr>alresp_mint_lp_tokens = lp, alresp_vlp_address = contract_address env\<rparr>)\<rparr>"
proof -
  from assms show thesis
    unfolding add_liquidity_def Let_def ok_simps response_simps
    by (elim exE conjE) (rule that, assumption+, (erule Inr_inject [THEN Pair_inject], simp)+)
qed

lemma remove_liquidity_okE:
  assumes "remove_liquidity M st env info sender lp tx = Inr (st', r)"
  obtains state c R1 R2 share x1 x2 c' R1' R2' L' where
    "VLP_STATE st = Some state" and "info_sender info = vlp_router state"
    and "map_may_load (VLP_BALANCES st) (pair_token_1 (vlp_pair state)) = Some R1"
    and "map_may_load (VLP_BALANCES st) (pair_token_2 (vlp_pair state)) = Some R2"
    and "map_may_load (CHAIN_LP_TOKENS st) (ccu_chain_uid sender) = Some c"
    and "unat c = unat lp + unat c'"
    and "decimal_checked_from_ratio M lp (vlp_total_lp_tokens state) = Inr share"
    and "unat x1 = ceil_div (unat R1 * decimal_atomics M share) (10 ^ 18)"
    and "unat x2 = ceil_div (unat R2 * decimal_atomics M share) (10 ^ 18)"
    and "unat R1 = unat x1 + unat R1'" and "unat R2 = unat x2 + unat R2'"
    and "unat (vlp_total_lp_tokens state) = unat lp + unat L'"
    and "st' = \<lparr>VLP_STATE = Some (state\<lparr>vlp_total_lp_tokens := L'\<rparr>),
           CHAIN_LP_TOKENS = map_save (CHAIN_LP_TOKENS st) (ccu_chain_uid sender) c',
           VLP_BALANCES = map_save (map_save (VLP_BALANCES st) (pair_token_1 (vlp_pair state)) R1')
             (pair_token_2 (vlp_pair state)) R2'\<rparr>"
    and "r_messages r =
           [reply_always (pool_transfer state env vsl (pair_token_1 (vlp_pair state)) x1 sender)
              VIRTUAL_BALANCE_TRANSFER_REPLY_ID,
            reply_always (pool_transfer state env vsl (pair_token_2 (vlp_pair state)) x2 sender)
              VIRTUAL_BALANCE_TRANSFER_REPLY_ID]"
    and "r_data r = Some (Json_VlpRemoveLiquidity
           \<lparr>vrl_token_1_liquidity_released = x1, vrl_token_2_liquidity_released = x2,
            vrl_burn_lp_tokens = lp, vrl_tx_id = tx, vrl_sender = sender,
            vrl_vlp_address = contract_address env\<rparr>)"
proof -
  from assms show thesis
    unfolding remove_liquidity_def Let_def ok_simps response_simps vsl_chain_uid_ok
    apply (elim exE conjE)
    apply (rule that, assumption+)
    apply (auto simp: create_virtual_balance_transfer_msg_def pool_transfer_def)
    done
qed

lemma execute_swap_okE:
  assumes "execute_swap M query_vb st env sender a x min_out tx next tf = Inr (st', r)"
  obtains state lpf ef sw Rin Rout v out Rin' Rout' lp_fees euclid_fees fee_msgs out_msgs where
    "VLP_STATE st = Some state" and "x \<noteq> 0" and "Token_exists a (vlp_pair state)"
    and "unat lpf = unat x * unat (fee_lp_fee_bps (vlp_fee state)) div 10000"
    and "unat ef = unat x * unat (fee_euclid_fee_bps (vlp_fee state)) div 10000"
    and "unat x = unat lpf + unat ef + unat sw"
    and "map_may_load (VLP_BALANCES st) a = Some Rin"
    and "map_may_load (VLP_BALANCES st) (get_other_token (vlp_pair state) a) = Some Rout"
    and "query_vb (vlp_virtual_balance state)
           \<lparr>bk_cross_chain_user = \<lparr>ccu_chain_uid = vsl, ccu_address = contract_address env\<rparr>,
            bk_token_id = token_id a\<rparr> = Inr v"
    and "unat v = unat Rin + unat x"
    and "calculate_swap sw Rin Rout = Inr out" and "out \<noteq> 0"
    and "unat Rin' + unat ef = unat Rin + unat x" and "unat Rout = unat Rout' + unat out"
    and "add_fee (tf_lp_fees (vlp_total_fees_collected state)) (token_id a) lpf = Inr lp_fees"
    and "collect_euclid_fee state env vsl a ef = Inr (euclid_fees, fee_msgs)"
    and "deliver_swap state env vsl sender (get_other_token (vlp_pair state) a) out min_out tx next
           = Inr out_msgs"
    and "st' = st\<lparr>VLP_STATE := Some (state\<lparr>vlp_total_fees_collected :=
             \<lparr>tf_lp_fees = lp_fees, tf_euclid_fees = euclid_fees\<rparr>\<rparr>),
           VLP_BALANCES := map_save (map_save (VLP_BALANCES st) a Rin')
             (get_other_token (vlp_pair state) a) Rout'\<rparr>"
    and "r = \<lparr>r_messages = fee_msgs @ out_msgs, r_data = Some (Json_VlpSwap
           \<lparr>vsr_sender = sender, vsr_tx_id = tx, vsr_asset_out = get_other_token (vlp_pair state) a,
            vsr_amount_out = out\<rparr>)\<rparr>"
proof -
  note keep = bindR_eq_Inr ensure_eq_Inr item_load_eq_Inr mul_floor_bps checked_add_eq_Inr
    checked_sub_eq_Inr map_load_eq_Inr
  from assms show thesis
    unfolding execute_swap_def Let_def vsl_chain_uid_ok bindR_Inr keep split_beta response_simps
    apply (elim exE conjE)
    subgoal for state lpf ef lp_fees tot sw Rin Rout v e out r1 Rin' Rout' ef_msgs out_msgs
      apply (rule that [of state lpf ef sw Rin Rout v out Rin' Rout' lp_fees "fst ef_msgs" "snd ef_msgs" out_msgs])
      apply (assumption | linarith | (erule Inr_inject [THEN Pair_inject], hypsubst, simp (no_asm))
          | simp (no_asm) only: prod.collapse)+
      done
    done
qed

end

lemma collect_euclid_fee_Inr:
  "collect_euclid_fee state env u a ef = Inr (fees, msgs) \<longleftrightarrow>
     (if ef = 0 then fees = tf_euclid_fees (vlp_total_fees_collected state) \<and> msgs = []
      else add_fee (tf_euclid_fees (vlp_total_fees_collected state)) (token_id a) ef = Inr fees
        \<and> msgs = [reply_on_error (pool_transfer state env u a ef (fee_recipient (vlp_fee state)))
             VIRTUAL_BALANCE_TRANSFER_REPLY_ID])"
  by (auto simp: collect_euclid_fee_def Let_def ok_simps)

lemma deliver_last_Inr:
  "deliver_swap state env u sender a out min_out tx [] = Inr msgs \<longleftrightarrow>
     min_out \<le> out \<and> msgs = [reply_on_error (pool_transfer state env u a out sender)
       VIRTUAL_BALANCE_TRANSFER_REPLY_ID]"
  by (auto simp: deliver_swap_def ok_simps)

section \<open>The invariant\<close>

text \<open>
  The pool is initialised, its tokens are in order, both reserves are stored, and the LP tokens of the
  chains add up to the total.
\<close>

abbreviation lp_issued :: "vlp_storage \<Rightarrow> nat" where
  "lp_issued st \<equiv> total_of (CHAIN_LP_TOKENS st)"

abbreviation reserve :: "vlp_storage \<Rightarrow> Token \<Rightarrow> nat" where
  "reserve st t \<equiv> unat (amount_at (VLP_BALANCES st) t)"

definition vlp_inv :: "vlp_storage \<Rightarrow> bool" where
  "vlp_inv st \<longleftrightarrow>
     (\<exists>state. VLP_STATE st = Some state
        \<and> pair_token_1 (vlp_pair state) < pair_token_2 (vlp_pair state)
        \<and> map_has (VLP_BALANCES st) (pair_token_1 (vlp_pair state))
        \<and> map_has (VLP_BALANCES st) (pair_token_2 (vlp_pair state))
        \<and> unat (vlp_total_lp_tokens state) = lp_issued st)"

lemma vlp_inv_distinct:
  "vlp_inv st \<Longrightarrow> VLP_STATE st = Some state \<Longrightarrow> pair_token_1 (vlp_pair state) \<noteq> pair_token_2 (vlp_pair state)"
  by (auto simp: vlp_inv_def)

lemma vlp_inv_other:
  assumes "vlp_inv st" and "VLP_STATE st = Some state" and "Token_exists a (vlp_pair state)"
  shows "get_other_token (vlp_pair state) a \<noteq> a"
  using get_other_token_involutive [OF vlp_inv_distinct [OF assms(1,2)] assms(3)] by simp

lemma lp_issued_register:
  "\<not> map_has m k \<Longrightarrow> total_of (map_save m k 0) = total_of m"
  using total_of_save [of m k 0] by (simp add: map_has_def amount_at_def)

lemma register_pool_inv:
  assumes "register_pool st env info sender pair tx = Inr (st', r)" and "vlp_inv st"
  shows "vlp_inv st'"
  using assms by (auto simp: register_pool_def ok_simps vlp_inv_def lp_issued_register)

lemma vlp_instantiate_inv:
  assumes "vlp_instantiate env info msg = Inr (st, r)"
  shows "vlp_inv st"
proof -
  define state where "state = \<lparr>vlp_pair = vim_pair msg, vlp_router = info_sender info,
     vlp_virtual_balance = vim_virtual_balance msg, vlp_fee = vim_fee msg,
     vlp_total_fees_collected = \<lparr>tf_lp_fees = [], tf_euclid_fees = []\<rparr>, vlp_last_updated = 0,
     vlp_total_lp_tokens = 0, vlp_admin = vim_admin msg\<rparr>"
  define st0 where "st0 = \<lparr>VLP_STATE = Some state, CHAIN_LP_TOKENS = [],
     VLP_BALANCES = map_save (map_save [] (pair_token_1 (vlp_pair state)) 0) (pair_token_2 (vlp_pair state)) 0\<rparr>"
  have "Pair_validate (vim_pair msg) = Ok ()"
    using assms by (auto simp: vlp_instantiate_def ok_simps)
  then have "vlp_inv st0"
    by (auto simp: vlp_inv_def st0_def state_def ok_simps)
  moreover have "st = st0 \<or> (\<exists>s p t. register_pool st0 env info s p t = Inr (st, r))"
    using assms unfolding vlp_instantiate_def Let_def bindR_eq_Inr state_def [symmetric] st0_def [symmetric]
    by (auto split: option.splits vlp_ExecuteMsg.splits)
  ultimately show ?thesis
    using register_pool_inv by blast
qed

lemma update_fee_inv:
  assumes "update_fee st info lp e rec = Inr (st', r)" and "vlp_inv st"
  shows "vlp_inv st'"
  using assms by (auto simp: update_fee_def Let_def ok_simps vlp_inv_def)

context cosmwasm_math
begin

lemma add_liquidity_inv:
  assumes "add_liquidity M st env info sender a1 a2 tol tx = Inr (st', r)" and "vlp_inv st"
  shows "vlp_inv st'"
  using assms(1)
proof (rule add_liquidity_okE)
  fix state c R1 R2 lp c' R1' R2' L'
  assume st: "VLP_STATE st = Some state"
    and c: "map_may_load (CHAIN_LP_TOKENS st) (ccu_chain_uid sender) = Some c"
    and "unat c' = unat c + unat lp" and "unat L' = unat (vlp_total_lp_tokens state) + unat lp"
    and st': "st' = \<lparr>VLP_STATE = Some (state\<lparr>vlp_total_lp_tokens := L'\<rparr>),
      CHAIN_LP_TOKENS = map_save (CHAIN_LP_TOKENS st) (ccu_chain_uid sender) c',
      VLP_BALANCES = map_save (map_save (VLP_BALANCES st) (pair_token_1 (vlp_pair state)) R1')
        (pair_token_2 (vlp_pair state)) R2'\<rparr>"
  with assms(2) total_of_save [of "CHAIN_LP_TOKENS st" "ccu_chain_uid sender" c'] amount_at_Some [OF c]
  show ?thesis
    by (simp add: vlp_inv_def)
qed

lemma remove_liquidity_inv:
  assumes "remove_liquidity M st env info sender lp tx = Inr (st', r)" and "vlp_inv st"
  shows "vlp_inv st'"
  using assms(1)
proof (rule remove_liquidity_okE)
  fix state c c' L' R1' R2'
  assume st: "VLP_STATE st = Some state"
    and c: "map_may_load (CHAIN_LP_TOKENS st) (ccu_chain_uid sender) = Some c"
    and c': "unat c = unat lp + unat c'" and L': "unat (vlp_total_lp_tokens state) = unat lp + unat L'"
    and st': "st' = \<lparr>VLP_STATE = Some (state\<lparr>vlp_total_lp_tokens := L'\<rparr>),
      CHAIN_LP_TOKENS = map_save (CHAIN_LP_TOKENS st) (ccu_chain_uid sender) c',
      VLP_BALANCES = map_save (map_save (VLP_BALANCES st) (pair_token_1 (vlp_pair state)) R1')
        (pair_token_2 (vlp_pair state)) R2'\<rparr>"
  have "unat (vlp_total_lp_tokens state) = lp_issued st"
    using assms(2) st by (simp add: vlp_inv_def)
  then have "unat L' = lp_issued st'"
    using total_of_save [of "CHAIN_LP_TOKENS st" "ccu_chain_uid sender" c'] amount_at_Some [OF c] c' L'
    by (simp add: st')
  with assms(2) st show ?thesis
    by (simp add: vlp_inv_def st')
qed

lemma execute_swap_inv:
  assumes "execute_swap M q st env sender a x min_out tx next tf = Inr (st', r)" and "vlp_inv st"
  shows "vlp_inv st'"
  using assms(1)
proof (rule execute_swap_okE)
  fix state lp_fees euclid_fees Rin' Rout'
  assume "VLP_STATE st = Some state"
    and "st' = st\<lparr>VLP_STATE := Some (state\<lparr>vlp_total_fees_collected :=
        \<lparr>tf_lp_fees = lp_fees, tf_euclid_fees = euclid_fees\<rparr>\<rparr>),
      VLP_BALANCES := map_save (map_save (VLP_BALANCES st) a Rin') (get_other_token (vlp_pair state) a) Rout'\<rparr>"
  with assms(2) show ?thesis
    by (simp add: vlp_inv_def)
qed

lemma vlp_execute_inv:
  assumes "vlp_execute M q st env info msg = Inr (st', r)" and "vlp_inv st"
  shows "vlp_inv st'"
  using assms
  by (cases msg) (auto intro: register_pool_inv update_fee_inv add_liquidity_inv remove_liquidity_inv
      execute_swap_inv)

end

text \<open>The states a pool can get into: by its instantiation, then by messages and replies in any order.\<close>

inductive vlp_reachable :: "('d, 'e) cw_math \<Rightarrow> vlp_storage \<Rightarrow> bool" for M where
  instantiated: "vlp_instantiate env info msg = Inr (st, r) \<Longrightarrow> vlp_reachable M st"
| executed: "vlp_reachable M st \<Longrightarrow> vlp_execute M q st env info msg = Inr (st', r) \<Longrightarrow> vlp_reachable M st'"
| replied: "vlp_reachable M st \<Longrightarrow> vlp_reply st msg = Inr (st', r) \<Longrightarrow> vlp_reachable M st'"

lemma vlp_reply_keeps: "vlp_reply st msg = Inr (st', r) \<Longrightarrow> st' = st"
  by (auto simp: vlp_reply_def on_next_swap_reply_def on_virtual_balance_transfer_reply_def ok_simps
      split: if_splits SubMsgResult.splits binary.splits)

context cosmwasm_math
begin

lemma reachable_inv: "vlp_reachable M st \<Longrightarrow> vlp_inv st"
  by (induction rule: vlp_reachable.induct)
     (auto intro: vlp_instantiate_inv vlp_execute_inv dest: vlp_reply_keeps)

end

section \<open>Withdrawals are pro rata\<close>

lemma ceil_div_bounds:
  assumes "0 < b"
  shows "a \<le> ceil_div a b * b" and "ceil_div a b * b < a + b"
proof -
  have "a = a div b * b + a mod b" and "a mod b < b"
    using assms by simp_all
  moreover have "ceil_div a b * b = a div b * b \<and> a mod b = 0
      \<or> ceil_div a b * b = a div b * b + b \<and> a mod b \<noteq> 0"
    by (simp add: ceil_div_def)
  ultimately have "a \<le> ceil_div a b * b \<and> ceil_div a b * b < a + b"
    by linarith
  then show "a \<le> ceil_div a b * b" and "ceil_div a b * b < a + b" by simp_all
qed

lemma ceil_div_le: "0 < b \<Longrightarrow> a \<le> c * b \<Longrightarrow> ceil_div a b \<le> c"
proof (rule ccontr)
  assume "0 < b" "a \<le> c * b" "\<not> ceil_div a b \<le> c"
  then have "Suc c * b \<le> ceil_div a b * b"
    by (intro mult_le_mono1) simp
  with ceil_div_bounds(2) [OF \<open>0 < b\<close>, of a] \<open>a \<le> c * b\<close> show False by simp
qed

lemma share_le: "lp \<le> L \<Longrightarrow> L \<noteq> 0 \<Longrightarrow> lp * 10 ^ 18 div L \<le> (10 ^ 18 :: nat)"
proof -
  assume "lp \<le> L" "L \<noteq> 0"
  then have "lp * 10 ^ 18 div L \<le> L * 10 ^ 18 div L" by (intro div_le_mono) simp
  with \<open>L \<noteq> 0\<close> show ?thesis by simp
qed

text \<open>
  What is paid out for \<open>lp\<close> of \<open>L\<close> shares of a reserve \<open>R\<close>: at most the reserve, less than one unit above
  the exact share, and short of it by at most \<open>R / 10\<^sup>1\<^sup>8\<close>.
\<close>

definition payout :: "nat \<Rightarrow> nat \<Rightarrow> nat \<Rightarrow> nat" where
  "payout R lp L = ceil_div (R * (lp * 10 ^ 18 div L)) (10 ^ 18)"

lemma payout_le: "lp \<le> L \<Longrightarrow> L \<noteq> 0 \<Longrightarrow> payout R lp L \<le> R"
  unfolding payout_def by (intro ceil_div_le mult_le_mono2 share_le) simp_all

lemma payout_all: "L \<noteq> 0 \<Longrightarrow> payout R L L = R"
  by (simp add: payout_def ceil_div_def)

lemma payout_upper:
  assumes "L \<noteq> 0"
  shows "payout R lp L * L < R * lp + L"
proof -
  let ?q = "lp * 10 ^ 18 div L"
  have "payout R lp L * 10 ^ 18 < R * ?q + 10 ^ 18"
    unfolding payout_def by (rule ceil_div_bounds) simp
  then have "payout R lp L * 10 ^ 18 * L < (R * ?q + 10 ^ 18) * L"
    using assms by simp
  also have "\<dots> \<le> R * (lp * 10 ^ 18) + 10 ^ 18 * L"
    using mult_le_mono2 [OF div_times_less_eq_dividend [of "lp * 10 ^ 18" L], of R]
    by (simp add: algebra_simps)
  finally have "10 ^ 18 * (payout R lp L * L) < 10 ^ 18 * (R * lp + L)"
    by (simp add: algebra_simps)
  then show ?thesis by simp
qed

lemma payout_lower:
  assumes "L \<noteq> 0"
  shows "R * lp * 10 ^ 18 \<le> payout R lp L * L * 10 ^ 18 + R * L"
proof -
  let ?q = "lp * 10 ^ 18 div L"
  have "R * ?q \<le> payout R lp L * 10 ^ 18"
    unfolding payout_def by (rule ceil_div_bounds) simp
  then have "R * ?q * L \<le> payout R lp L * 10 ^ 18 * L" by (rule mult_le_mono1)
  moreover have "lp * 10 ^ 18 < ?q * L + L"
    using assms div_mult_mod_eq [of "lp * 10 ^ 18" L] mod_less_divisor [of L "lp * 10 ^ 18"] by linarith
  then have "R * (lp * 10 ^ 18) \<le> R * (?q * L + L)" by (intro mult_le_mono2) simp
  then have "R * lp * 10 ^ 18 \<le> R * ?q * L + R * L" by (simp add: algebra_simps)
  ultimately have "R * lp * 10 ^ 18 \<le> payout R lp L * 10 ^ 18 * L + R * L" by linarith
  then show ?thesis by (simp only: ac_simps)
qed

definition pro_rata :: "nat \<Rightarrow> nat \<Rightarrow> nat \<Rightarrow> nat \<Rightarrow> bool" where
  "pro_rata R lp L x \<longleftrightarrow> x \<le> R \<and> x * L < R * lp + L \<and> R * lp * 10 ^ 18 \<le> x * L * 10 ^ 18 + R * L"

lemma payout_pro_rata: "lp \<le> L \<Longrightarrow> L \<noteq> 0 \<Longrightarrow> pro_rata R lp L (payout R lp L)"
  using payout_le [of lp L R] payout_upper [of L R lp] payout_lower [of L R lp] by (simp add: pro_rata_def)

context cosmwasm_math
begin

lemma remove_liquidity_pays:
  assumes "remove_liquidity M st env info sender lp tx = Inr (st', r)" and "VLP_STATE st = Some state"
  defines "t1 \<equiv> pair_token_1 (vlp_pair state)" and "t2 \<equiv> pair_token_2 (vlp_pair state)"
    and "L \<equiv> unat (vlp_total_lp_tokens state)"
  obtains x1 x2 where "L \<noteq> 0" and "unat lp \<le> L"
    and "unat x1 = payout (reserve st t1) (unat lp) L" and "unat x2 = payout (reserve st t2) (unat lp) L"
    and "r_messages r =
           [reply_always (pool_transfer state env vsl t1 x1 sender) VIRTUAL_BALANCE_TRANSFER_REPLY_ID,
            reply_always (pool_transfer state env vsl t2 x2 sender) VIRTUAL_BALANCE_TRANSFER_REPLY_ID]"
    and "r_data r = Some (Json_VlpRemoveLiquidity
           \<lparr>vrl_token_1_liquidity_released = x1, vrl_token_2_liquidity_released = x2,
            vrl_burn_lp_tokens = lp, vrl_tx_id = tx, vrl_sender = sender,
            vrl_vlp_address = contract_address env\<rparr>)"
    and "t1 \<noteq> t2 \<Longrightarrow> reserve st t1 = unat x1 + reserve st' t1"
    and "t1 \<noteq> t2 \<Longrightarrow> reserve st t2 = unat x2 + reserve st' t2"
  using assms(1)
proof (rule remove_liquidity_okE)
  fix s c R1 R2 share x1 x2 c' R1' R2' L'
  assume s: "VLP_STATE st = Some s"
    and R: "map_may_load (VLP_BALANCES st) (pair_token_1 (vlp_pair s)) = Some R1"
           "map_may_load (VLP_BALANCES st) (pair_token_2 (vlp_pair s)) = Some R2"
    and share: "decimal_checked_from_ratio M lp (vlp_total_lp_tokens s) = Inr share"
    and x: "unat x1 = ceil_div (unat R1 * decimal_atomics M share) (10 ^ 18)"
           "unat x2 = ceil_div (unat R2 * decimal_atomics M share) (10 ^ 18)"
    and R': "unat R1 = unat x1 + unat R1'" "unat R2 = unat x2 + unat R2'"
    and L': "unat (vlp_total_lp_tokens s) = unat lp + unat L'"
    and st': "st' = \<lparr>VLP_STATE = Some (s\<lparr>vlp_total_lp_tokens := L'\<rparr>),
           CHAIN_LP_TOKENS = map_save (CHAIN_LP_TOKENS st) (ccu_chain_uid sender) c',
           VLP_BALANCES = map_save (map_save (VLP_BALANCES st) (pair_token_1 (vlp_pair s)) R1')
             (pair_token_2 (vlp_pair s)) R2'\<rparr>"
    and msgs: "r_messages r =
           [reply_always (pool_transfer s env vsl (pair_token_1 (vlp_pair s)) x1 sender)
              VIRTUAL_BALANCE_TRANSFER_REPLY_ID,
            reply_always (pool_transfer s env vsl (pair_token_2 (vlp_pair s)) x2 sender)
              VIRTUAL_BALANCE_TRANSFER_REPLY_ID]"
    and data: "r_data r = Some (Json_VlpRemoveLiquidity
           \<lparr>vrl_token_1_liquidity_released = x1, vrl_token_2_liquidity_released = x2,
            vrl_burn_lp_tokens = lp, vrl_tx_id = tx, vrl_sender = sender,
            vrl_vlp_address = contract_address env\<rparr>)"
  have [simp]: "s = state" using s assms(2) by simp
  have L: "L \<noteq> 0" "unat lp \<le> L" and q: "decimal_atomics M share = unat lp * 10 ^ 18 div L"
    using from_ratio_Inr [OF share] L' by (simp_all add: L_def flip: unat_eq_0_iff)
  have R1: "reserve st t1 = unat R1" and R2: "reserve st t2 = unat R2"
    using R by (simp_all add: amount_at_Some t1_def t2_def)
  show thesis
  proof (rule that [OF L])
    show "unat x1 = payout (reserve st t1) (unat lp) L" and "unat x2 = payout (reserve st t2) (unat lp) L"
      using x by (simp_all add: R1 R2 payout_def q)
    show "t1 \<noteq> t2 \<Longrightarrow> reserve st t1 = unat x1 + reserve st' t1"
      and "t1 \<noteq> t2 \<Longrightarrow> reserve st t2 = unat x2 + reserve st' t2"
      using R' by (simp_all add: R1 R2) (simp_all add: st' t1_def t2_def)
  qed (use msgs data in \<open>simp_all add: t1_def t2_def\<close>)
qed

text \<open>Nothing but its own holdings limits what a chain can withdraw.\<close>

lemma remove_liquidity_total:
  assumes "vlp_inv st" and "VLP_STATE st = Some state" and "info_sender info = vlp_router state"
    and "map_may_load (CHAIN_LP_TOKENS st) (ccu_chain_uid sender) = Some c" and "lp \<le> c" and "lp \<noteq> 0"
  shows "\<exists>st' r. remove_liquidity M st env info sender lp tx = Ok (st', r)"
proof -
  let ?L = "vlp_total_lp_tokens state"
  obtain R1 R2 where R: "map_may_load (VLP_BALANCES st) (pair_token_1 (vlp_pair state)) = Some R1"
      "map_may_load (VLP_BALANCES st) (pair_token_2 (vlp_pair state)) = Some R2"
    using assms(1,2) by (auto simp: vlp_inv_def map_has_def)
  have "unat c \<le> unat ?L"
    using amount_le_total_of [of "CHAIN_LP_TOKENS st" "ccu_chain_uid sender"] assms(1,2,4)
    by (simp add: vlp_inv_def amount_at_def)
  then have le: "unat lp \<le> unat ?L"
    using assms(5) by (simp add: word_le_nat_alt)
  have nz: "?L \<noteq> 0"
    using le assms(6) by auto
  have q: "unat lp * 10 ^ 18 div unat ?L \<le> 10 ^ 18"
    using le nz by (intro share_le) auto
  then obtain share where share: "decimal_checked_from_ratio M lp ?L = Inr share"
    using from_ratio_ok [OF nz, of lp] by force
  have atomics: "decimal_atomics M share = unat lp * 10 ^ 18 div unat ?L"
    using from_ratio_Inr [OF share] by simp
  have pays: "\<exists>x. checked_mul_ceil M R share = Ok x \<and> x \<le> R" for R
  proof -
    have le_R: "ceil_div (unat R * decimal_atomics M share) (10 ^ 18) \<le> unat R"
      using payout_le [OF le, of "unat R"] nz by (simp add: payout_def atomics)
    then have "unat (of_nat (ceil_div (unat R * decimal_atomics M share) (10 ^ 18)) :: uint128)
        = ceil_div (unat R * decimal_atomics M share) (10 ^ 18)"
      using unat_lt_u128 [of R] by (intro unat_of_nat_u128) linarith
    with le_R show ?thesis
      unfolding checked_mul_ceil_Inr word_le_nat_alt by metis
  qed
  obtain x1 x2 where "checked_mul_ceil M R1 share = Ok x1" "x1 \<le> R1" "checked_mul_ceil M R2 share = Ok x2" "x2 \<le> R2"
    using pays by meson
  then show ?thesis
    using assms(2-5) R share le
    by (simp add: remove_liquidity_def Let_def map_load_def checked_sub_def word_le_nat_alt)
qed

end

section \<open>Example pool\<close>

definition example_pair :: Pair where
  "example_pair = \<lparr>pair_token_1 = Token ''atom'', pair_token_2 = Token ''usdc''\<rparr>"

definition example_state :: "uint128 \<Rightarrow> vlp_State" where
  "example_state lp = \<lparr>vlp_pair = example_pair, vlp_router = ''router'', vlp_virtual_balance = ''vb'',
     vlp_fee = \<lparr>fee_lp_fee_bps = 10, fee_euclid_fee_bps = 10,
       fee_recipient = \<lparr>ccu_chain_uid = vsl, ccu_address = ''treasury''\<rparr>\<rparr>,
     vlp_total_fees_collected = \<lparr>tf_lp_fees = [], tf_euclid_fees = []\<rparr>, vlp_last_updated = 0,
     vlp_total_lp_tokens = lp, vlp_admin = ''admin''\<rparr>"

definition example_pool :: "uint128 \<Rightarrow> uint128 \<Rightarrow> uint128 \<Rightarrow> vlp_storage" where
  "example_pool R1 R2 lp = \<lparr>VLP_STATE = Some (example_state lp), CHAIN_LP_TOKENS = [(ChainUid ''osmo'', lp)],
     VLP_BALANCES = [(Token ''atom'', R1), (Token ''usdc'', R2)]\<rparr>"

definition example_env :: env where
  "example_env = \<lparr>block_height = 1, block_time = 0, block_chain_id = ''hub'', tx_index = None,
     contract_address = ''pool''\<rparr>"

abbreviation example_user :: CrossChainUser where
  "example_user \<equiv> \<lparr>ccu_chain_uid = ChainUid ''osmo'', ccu_address = ''alice''\<rparr>"

abbreviation by_router :: message_info where
  "by_router \<equiv> \<lparr>info_sender = ''router'', info_funds = []\<rparr>"

lemma example_pool_inv: "vlp_inv (example_pool R1 R2 lp)"
proof -
  have "total_of [(ChainUid ''osmo'', lp)] = unat lp"
    using total_of_save [of "[]" "ChainUid ''osmo''" lp]
    by (simp add: map_save_def amount_at_def)
  then show ?thesis
    by (simp add: vlp_inv_def example_pool_def example_state_def example_pair_def map_has_def
        map_may_load_def less_Token_def)
qed

lemma example_withdrawal:
  "\<exists>st' r. remove_liquidity std_math (example_pool 7 3 5) example_env by_router example_user 2 ''tx'' = Ok (st', r)"
  by (rule std.remove_liquidity_total [OF example_pool_inv, where state = "example_state 5" and c = 5])
     (simp_all add: example_pool_def example_state_def map_may_load_def)

abbreviation example_swap :: "(vlp_storage \<times> Response) result" where
  "example_swap \<equiv> execute_swap std_math (\<lambda>_ _. Ok 1010000) (example_pool 1000000 1000000 5) example_env
     example_user (Token ''atom'') 10000 9000 ''tx'' [] None"

lemma example_swap_ok: "\<exists>st' r. example_swap = Ok (st', r)"
  by (simp add: execute_swap_def example_pool_def example_state_def example_pair_def Token_exists_def
      checked_mul_floor_def std_math_def Let_def lift_err_def add_fee_def checked_add_def checked_sub_def
      map_load_def map_may_load_def get_other_token_def calculate_swap_def checked_mul_def checked_div_def
      collect_euclid_fee_def deliver_swap_def)

lemma example_pool_STATE: "VLP_STATE (example_pool R1 R2 lp) = Some (example_state lp)"
  by (simp add: example_pool_def)

section \<open>Properties\<close>

text \<open>
  C16: In every state a pool can reach, by its instantiation and then any sequence of messages and replies,
  the LP tokens of the chains add up to the stored total, the pair is ordered and both reserves exist.
\<close>

theorem vlp_lp_accounting:
  assumes "cosmwasm_math M" and "vlp_reachable M st"
  shows "vlp_inv st"
  using cosmwasm_math.reachable_inv [OF assms] .

theorem vlp_lp_accounting_witness:
  "\<exists>st r. vlp_instantiate example_env by_router
       \<lparr>vim_router = ''router'', vim_virtual_balance = ''vb'', vim_pair = example_pair,
        vim_fee = vlp_fee (example_state 0), vim_execute = None, vim_admin = ''admin''\<rparr> = Ok (st, r)
     \<and> vlp_reachable std_math st \<and> vlp_inv st"
proof -
  let ?msg = "\<lparr>vim_router = ''router'', vim_virtual_balance = ''vb'', vim_pair = example_pair,
        vim_fee = vlp_fee (example_state 0), vim_execute = None, vim_admin = ''admin''\<rparr>"
  have "Pair_validate example_pair = Ok ()"
    by (simp add: Pair_validate_def Token_validate_def example_pair_def ascii_defs less_eq_Token_def)
  then obtain st r where ok: "vlp_instantiate example_env by_router ?msg = Ok (st, r)"
    by (simp add: vlp_instantiate_def Let_def)
  then have reach: "vlp_reachable std_math st"
    by (rule vlp_reachable.instantiated)
  with ok show ?thesis
    using vlp_lp_accounting [OF std.cosmwasm_math_axioms reach] by blast
qed

text \<open>
  C26: A chain can always withdraw: for any part of the LP tokens recorded for it, the router's
  \<open>RemoveLiquidity\<close> message succeeds, whatever the reserves and whatever the rounding.
\<close>

theorem vlp_withdrawal_never_blocked:
  assumes "cosmwasm_math M" and "vlp_inv st" and "VLP_STATE st = Some state"
    and "info_sender info = vlp_router state"
    and "map_may_load (CHAIN_LP_TOKENS st) (ccu_chain_uid sender) = Some c" and "lp \<le> c" and "lp \<noteq> 0"
  shows "\<exists>st' r. remove_liquidity M st env info sender lp tx = Ok (st', r)"
  by (rule cosmwasm_math.remove_liquidity_total [OF assms])

theorem vlp_withdrawal_never_blocked_witness:
  "\<exists>st' r. remove_liquidity std_math (example_pool 7 3 5) example_env by_router example_user 2 ''tx'' = Ok (st', r)"
  by (rule vlp_withdrawal_never_blocked
        [OF std.cosmwasm_math_axioms example_pool_inv, where state = "example_state 5" and c = 5])
     (simp_all add: example_pool_def example_state_def map_may_load_def)

text \<open>
  C27: A withdrawal of \<open>lp\<close> of \<open>L\<close> LP tokens pays, of each reserve \<open>R\<close>, no more than \<open>R\<close>, less than one unit
  above the exact share \<open>R * lp / L\<close> and short of it by at most \<open>R / 10\<^sup>1\<^sup>8\<close>; what is paid leaves the stored
  reserve, and the two transfers in the response are for exactly these amounts.
\<close>

theorem vlp_withdrawal_pro_rata:
  assumes "cosmwasm_math M" and "vlp_inv st" and "VLP_STATE st = Some state"
    and "remove_liquidity M st env info sender lp tx = Ok (st', r)"
  shows "\<exists>x1 x2. r_messages r =
       [reply_always (pool_transfer state env vsl (pair_token_1 (vlp_pair state)) x1 sender) VIRTUAL_BALANCE_TRANSFER_REPLY_ID,
        reply_always (pool_transfer state env vsl (pair_token_2 (vlp_pair state)) x2 sender) VIRTUAL_BALANCE_TRANSFER_REPLY_ID]
     \<and> pro_rata (reserve st (pair_token_1 (vlp_pair state))) (unat lp) (unat (vlp_total_lp_tokens state)) (unat x1)
     \<and> pro_rata (reserve st (pair_token_2 (vlp_pair state))) (unat lp) (unat (vlp_total_lp_tokens state)) (unat x2)
     \<and> reserve st (pair_token_1 (vlp_pair state)) = unat x1 + reserve st' (pair_token_1 (vlp_pair state))
     \<and> reserve st (pair_token_2 (vlp_pair state)) = unat x2 + reserve st' (pair_token_2 (vlp_pair state))"
proof -
  note distinct = vlp_inv_distinct [OF assms(2,3)]
  show ?thesis
  proof (rule cosmwasm_math.remove_liquidity_pays [OF assms(1,4,3)], goal_cases)
    case (1 x1 x2)
    then show ?thesis
      using distinct payout_pro_rata by metis
  qed
qed

theorem vlp_withdrawal_pro_rata_witness:
  "\<exists>st' r x. remove_liquidity std_math (example_pool 7 3 5) example_env by_router example_user 2 ''tx'' = Ok (st', r)
     \<and> pro_rata 7 2 5 (unat (x :: uint128)) \<and> 7 = unat x + reserve st' (Token ''atom'')"
proof -
  obtain st' r where ok: "remove_liquidity std_math (example_pool 7 3 5) example_env by_router example_user 2 ''tx'' = Ok (st', r)"
    using example_withdrawal by blast
  have vals: "VLP_STATE (example_pool 7 3 5) = Some (example_state 5)"
      "pair_token_1 (vlp_pair (example_state 5)) = Token ''atom''"
      "reserve (example_pool 7 3 5) (Token ''atom'') = 7" "unat (vlp_total_lp_tokens (example_state 5)) = 5"
      "unat (2 :: uint128) = 2"
    by (simp_all add: example_pool_def example_state_def example_pair_def amount_at_def map_may_load_def)
  show ?thesis
    using vlp_withdrawal_pro_rata [OF std.cosmwasm_math_axioms example_pool_inv vals(1) ok] ok
    unfolding vals by blast
qed

text \<open>
  C17: A swap that succeeds takes the fees as floored basis points of the input, computes the output from
  the rest by the constant-product rule, credits the input without the protocol fee to the input reserve,
  debits the output from the other reserve, leaves LP tokens alone and reports the output; on the last hop
  the output is at least the minimum the caller asked for.
\<close>

theorem vlp_swap_functional:
  assumes "cosmwasm_math M" and "vlp_inv st" and "VLP_STATE st = Some state"
    and "execute_swap M query_vb st env sender a x min_out tx next tf = Ok (st', r)"
  shows "\<exists>lp_fee euclid_fee out.
     unat lp_fee = unat x * unat (fee_lp_fee_bps (vlp_fee state)) div 10000
     \<and> unat euclid_fee = unat x * unat (fee_euclid_fee_bps (vlp_fee state)) div 10000
     \<and> calculate_swap (x - lp_fee - euclid_fee) (amount_at (VLP_BALANCES st) a)
           (amount_at (VLP_BALANCES st) (get_other_token (vlp_pair state) a)) = Ok out
     \<and> 0 < out \<and> (next = [] \<longrightarrow> min_out \<le> out)
     \<and> reserve st' a + unat euclid_fee = reserve st a + unat x
     \<and> reserve st (get_other_token (vlp_pair state) a) = reserve st' (get_other_token (vlp_pair state) a) + unat out
     \<and> CHAIN_LP_TOKENS st' = CHAIN_LP_TOKENS st
     \<and> r_data r = Some (Json_VlpSwap \<lparr>vsr_sender = sender, vsr_tx_id = tx,
           vsr_asset_out = get_other_token (vlp_pair state) a, vsr_amount_out = out\<rparr>)"
proof (rule cosmwasm_math.execute_swap_okE [OF assms(1,4)], goal_cases)
  case (1 s lpf ef sw Rin Rout v out Rin' Rout' lp_fees euclid_fees fee_msgs out_msgs)
  have s: "s = state" using 1(1) assms(3) by simp
  have other: "get_other_token (vlp_pair state) a \<noteq> a"
    using vlp_inv_other [OF assms(2,3)] 1(3) by (simp add: s)
  have sw: "sw = x - lpf - ef"
  proof -
    have "x = lpf + ef + sw"
      using 1(6) by (metis unat_lt_u128 word_unat_eq_iff unat_add_u128 add_lessD1)
    then show ?thesis by simp
  qed
  have R: "amount_at (VLP_BALANCES st) a = Rin"
      "amount_at (VLP_BALANCES st) (get_other_token (vlp_pair state) a) = Rout"
    using 1(7,8) by (simp_all add: amount_at_Some s)
  have min: "next = [] \<longrightarrow> min_out \<le> out"
    using 1(17) by (auto simp: deliver_last_Inr)
  have R': "amount_at (VLP_BALANCES st') a = Rin'"
      "amount_at (VLP_BALANCES st') (get_other_token (vlp_pair state) a) = Rout'"
      "CHAIN_LP_TOKENS st' = CHAIN_LP_TOKENS st"
    using other by (simp_all add: 1(18) s)
  show ?thesis
    using 1(4,5,11,12,13,14,19) min
    by (intro exI [of _ lpf] exI [of _ ef] exI [of _ out])
       (simp add: R R' s sw word_neq_0_conv)
qed

theorem vlp_swap_functional_witness:
  "\<exists>st' r out. example_swap = Ok (st', r) \<and> 9000 \<le> (out :: uint128)
     \<and> reserve (example_pool 1000000 1000000 5) (get_other_token example_pair (Token ''atom''))
         = reserve st' (get_other_token example_pair (Token ''atom'')) + unat out"
proof -
  obtain st' r where ok: "example_swap = Ok (st', r)" using example_swap_ok by blast
  have pair: "vlp_pair (example_state 5) = example_pair" by (simp add: example_state_def)
  show ?thesis
    using vlp_swap_functional [OF std.cosmwasm_math_axioms example_pool_inv example_pool_STATE ok] ok
    unfolding pair by blast
qed

text \<open>
  C29: The product of the reserves can fall in a swap, because the new output reserve is rounded down, but
  by less than the input reserve plus the amount swapped; as soon as the LP fee times the output reserve
  left makes up for the rounding, the product does not fall.
\<close>

theorem vlp_swap_product:
  assumes "cosmwasm_math M" and "vlp_inv st" and "VLP_STATE st = Some state"
    and "execute_swap M query_vb st env sender a x min_out tx next tf = Ok (st', r)"
  defines "b \<equiv> get_other_token (vlp_pair state) a"
    and "lp_fee \<equiv> unat x * unat (fee_lp_fee_bps (vlp_fee state)) div 10000"
  shows "reserve st a * reserve st b < reserve st' a * reserve st' b + reserve st' a
    \<and> (reserve st' a \<le> lp_fee * Suc (reserve st' b) + 1 \<longrightarrow> reserve st a * reserve st b \<le> reserve st' a * reserve st' b)"
proof (rule cosmwasm_math.execute_swap_okE [OF assms(1,4)], goal_cases)
  case (1 s lpf ef sw Rin Rout v out Rin' Rout' lp_fees euclid_fees fee_msgs out_msgs)
  have s: "s = state" using 1(1) assms(3) by simp
  have other: "b \<noteq> a"
    using vlp_inv_other [OF assms(2,3)] 1(3) by (simp add: s b_def)
  have R: "reserve st a = unat Rin" "reserve st b = unat Rout" "reserve st' a = unat Rin'" "reserve st' b = unat Rout'"
    using 1(7,8) other by (simp_all add: amount_at_Some s 1(18) b_def)
  have in': "unat Rin' = unat Rin + unat sw + lp_fee" and fee: "unat lpf = lp_fee"
    using 1(4,6,13) by (simp_all add: lp_fee_def s)
  have out': "unat Rout' = unat Rout - unat out"
    using 1(14) by simp
  have k: "unat Rin * unat Rout < (unat Rin + unat sw) * unat Rout' + (unat Rin + unat sw)"
    using calculate_swap_product [OF 1(11)] by (simp add: out')
  have prod: "unat Rin' * unat Rout' = (unat Rin + unat sw) * unat Rout' + lp_fee * unat Rout'"
    by (simp add: in' algebra_simps)
  have "unat Rin * unat Rout < unat Rin' * unat Rout' + unat Rin'"
    using k unfolding prod by (simp add: in')
  moreover have "unat Rin * unat Rout \<le> unat Rin' * unat Rout'"
    if "unat Rin' \<le> lp_fee * Suc (unat Rout') + 1"
    using k that unfolding prod by (simp add: in')
  ultimately show ?thesis
    unfolding R by blast
qed

theorem vlp_swap_product_witness:
  "\<exists>st' r. example_swap = Ok (st', r) \<and>
     reserve (example_pool 1000000 1000000 5) (Token ''atom'')
       * reserve (example_pool 1000000 1000000 5) (get_other_token example_pair (Token ''atom''))
     < reserve st' (Token ''atom'') * reserve st' (get_other_token example_pair (Token ''atom''))
       + reserve st' (Token ''atom'')"
proof -
  obtain st' r where ok: "example_swap = Ok (st', r)" using example_swap_ok by blast
  have pair: "vlp_pair (example_state 5) = example_pair" by (simp add: example_state_def)
  show ?thesis
    using vlp_swap_product [OF std.cosmwasm_math_axioms example_pool_inv example_pool_STATE ok] ok
    unfolding pair by blast
qed

text \<open>Without a fee the rounding pays the trader: one unit in and one unit back returns two.\<close>

lemma calculate_swap_rounding_profit:
  "calculate_swap 1 10 10 = Ok 1 \<and> calculate_swap 1 (10 - 1) (10 + 1) = Ok 2"
  by (simp add: calculate_swap_def checked_mul_def checked_add_def checked_sub_def checked_div_def)

text \<open>
  C28: Adding liquidity to a pool that has LP tokens never dilutes the holders: the value of an LP token,
  measured in either reserve, does not fall (the inequalities compare the two fractions by
  cross-multiplication), and the response mints exactly what the total grew by.
\<close>

theorem vlp_add_no_dilution:
  assumes "cosmwasm_math M" and "vlp_inv st" and "VLP_STATE st = Some state"
    and "vlp_total_lp_tokens state \<noteq> 0"
    and "add_liquidity M st env info sender a1 a2 tol tx = Ok (st', r)"
  shows "\<exists>state' lp. VLP_STATE st' = Some state'
     \<and> r_data r = Some (Json_AddLiquidity \<lparr>alresp_mint_lp_tokens = lp, alresp_vlp_address = contract_address env\<rparr>)
     \<and> unat (vlp_total_lp_tokens state') = unat (vlp_total_lp_tokens state) + unat lp
     \<and> lp_issued st' = lp_issued st + unat lp
     \<and> (\<forall>t. Token_exists t (vlp_pair state) \<longrightarrow>
           reserve st t * unat (vlp_total_lp_tokens state') \<le> reserve st' t * unat (vlp_total_lp_tokens state))"
proof (rule cosmwasm_math.add_liquidity_okE [OF assms(1,5)], goal_cases)
  case (1 s c R1 R2 lp c' R1' R2' L')
  have s: "s = state" using 1(1) assms(3) by simp
  let ?t1 = "pair_token_1 (vlp_pair state)" and ?t2 = "pair_token_2 (vlp_pair state)"
  have R: "reserve st ?t1 = unat R1" "reserve st ?t2 = unat R2"
    using 1(4,5) by (simp_all add: amount_at_Some s)
  have R': "reserve st' ?t1 = unat R1 + unat a1" "reserve st' ?t2 = unat R2 + unat a2"
    using vlp_inv_distinct [OF assms(2,3)] 1(9,10) by (simp_all add: 1(12) s)
  note le = cosmwasm_math.later_lp_allocation_le [OF assms(1) 1(6) [unfolded s] assms(4)]
  have "reserve st t * unat L' \<le> reserve st' t * unat (vlp_total_lp_tokens state)"
    if "Token_exists t (vlp_pair state)" for t
  proof -
    from that consider "t = ?t1" | "t = ?t2" by (auto simp: Token_exists_def)
    then show ?thesis
      using le 1(11) by cases (simp_all only: R R' s, simp_all add: algebra_simps)
  qed
  moreover have "vlp_inv st'"
    using cosmwasm_math.add_liquidity_inv [OF assms(1,5,2)] .
  then have "lp_issued st' = lp_issued st + unat lp"
    using assms(2,3) 1(11) by (simp add: vlp_inv_def 1(12) s)
  moreover have "VLP_STATE st' = Some (state\<lparr>vlp_total_lp_tokens := L'\<rparr>)"
    by (simp add: 1(12) s)
  moreover note 1(11) [unfolded s]
  ultimately show ?thesis
    by (intro exI [of _ "state\<lparr>vlp_total_lp_tokens := L'\<rparr>"] exI [of _ lp]) (simp add: 1(13))
qed

abbreviation example_deposit :: "(vlp_storage \<times> Response) result" where
  "example_deposit \<equiv> add_liquidity std_math (example_pool 7000 3000 5000) example_env by_router example_user
     700 300 50 ''tx''"

lemma example_deposit_ok: "\<exists>st' r. example_deposit = Ok (st', r)"
  by (simp add: add_liquidity_def example_pool_def example_state_def example_pair_def map_load_def
      map_may_load_def std_math_def Let_def lift_err_def assert_slippage_tolerance_def decimal256_from_ratio_def
      calculate_lp_allocation_def checked_multiply_ratio_def checked_add_def)

theorem vlp_add_no_dilution_witness:
  "\<exists>st' r lp. example_deposit = Ok (st', r)
     \<and> r_data r = Some (Json_AddLiquidity \<lparr>alresp_mint_lp_tokens = lp, alresp_vlp_address = contract_address example_env\<rparr>)
     \<and> lp_issued st' = lp_issued (example_pool 7000 3000 5000) + unat lp"
proof -
  obtain st' r where ok: "example_deposit = Ok (st', r)" using example_deposit_ok by blast
  have "vlp_total_lp_tokens (example_state 5000) \<noteq> 0" by (simp add: example_state_def)
  from vlp_add_no_dilution [OF std.cosmwasm_math_axioms example_pool_inv example_pool_STATE this ok] ok
  show ?thesis by blast
qed

text \<open>
  C40: The minimum liquidity is not locked in the pool: the first provider receives the square root of the
  product less 1000, this is also the total, and returning it releases the entire deposit and leaves the
  reserves empty.
\<close>

theorem vlp_minimum_liquidity_not_locked:
  assumes "cosmwasm_math M" and "vlp_inv st" and "VLP_STATE st = Some state"
    and "vlp_total_lp_tokens state = 0" and "reserve st (pair_token_1 (vlp_pair state)) = 0"
    and "reserve st (pair_token_2 (vlp_pair state)) = 0"
    and "add_liquidity M st env info sender a1 a2 tol tx = Ok (st1, r1)"
    and "r_data r1 = Some (Json_AddLiquidity \<lparr>alresp_mint_lp_tokens = lp, alresp_vlp_address = contract_address env\<rparr>)"
    and "remove_liquidity M st1 env info sender lp tx' = Ok (st2, r2)"
  shows "reserve st2 (pair_token_1 (vlp_pair state)) = 0 \<and> reserve st2 (pair_token_2 (vlp_pair state)) = 0
    \<and> r_data r2 = Some (Json_VlpRemoveLiquidity
           \<lparr>vrl_token_1_liquidity_released = a1, vrl_token_2_liquidity_released = a2,
            vrl_burn_lp_tokens = lp, vrl_tx_id = tx', vrl_sender = sender,
            vrl_vlp_address = contract_address env\<rparr>)"
proof (rule cosmwasm_math.add_liquidity_okE [OF assms(1,7)], goal_cases)
  case (1 s c R1 R2 lp' c' R1' R2' L')
  have s: "s = state" using 1(1) assms(3) by simp
  let ?t1 = "pair_token_1 (vlp_pair state)" and ?t2 = "pair_token_2 (vlp_pair state)"
  have [simp]: "lp' = lp" using assms(8) 1(13) by simp
  have st1: "VLP_STATE st1 = Some (state\<lparr>vlp_total_lp_tokens := L'\<rparr>)" by (simp add: 1(12) s)
  have L': "unat L' = unat lp" using 1(11) assms(4) by (simp add: s)
  have distinct: "?t1 \<noteq> ?t2" by (rule vlp_inv_distinct [OF assms(2,3)])
  have R: "unat R1 = 0" "unat R2 = 0"
    using 1(4,5) assms(5,6) by (simp_all add: amount_at_Some s)
  have R1: "reserve st1 ?t1 = unat a1" "reserve st1 ?t2 = unat a2"
    using distinct 1(9,10) R by (simp_all add: 1(12) s)
  show ?thesis
  proof (rule cosmwasm_math.remove_liquidity_pays [OF assms(1,9) st1], goal_cases)
    case (1 x1 x2)
    then have "unat x1 = unat a1" and "unat x2 = unat a2"
      by (simp_all add: L' R1 payout_all)
    with 1(6-8) distinct show ?thesis
      by (simp add: R1)
  qed
qed

lemma example_first_deposit:
  "\<exists>st1 r1. add_liquidity std_math (example_pool 0 0 0) example_env by_router example_user 40000 10000 50 ''tx'' = Ok (st1, r1)
     \<and> r_data r1 = Some (Json_AddLiquidity \<lparr>alresp_mint_lp_tokens = 19000, alresp_vlp_address = contract_address example_env\<rparr>)"
proof -
  have "isqrt_nat 400000000 = 20000"
    by (simp add: isqrt_nat.simps Let_def)
  then show ?thesis
    by (simp add: add_liquidity_def example_pool_def example_state_def example_pair_def map_load_def
        map_may_load_def std_math_def Let_def lift_err_def assert_slippage_tolerance_def decimal256_from_ratio_def
        calculate_lp_allocation_def checked_mul_def checked_add_def checked_sub_def MINIMUM_LIQUIDITY_def)
qed

theorem vlp_minimum_liquidity_not_locked_witness:
  "\<exists>st1 r1 st2 r2. add_liquidity std_math (example_pool 0 0 0) example_env by_router example_user 40000 10000 50 ''tx'' = Ok (st1, r1)
     \<and> remove_liquidity std_math st1 example_env by_router example_user 19000 ''tx2'' = Ok (st2, r2)
     \<and> reserve st2 (pair_token_1 (vlp_pair (example_state 0))) = 0"
proof -
  obtain st1 r1 where add: "add_liquidity std_math (example_pool 0 0 0) example_env by_router example_user 40000 10000 50 ''tx'' = Ok (st1, r1)"
    and data: "r_data r1 = Some (Json_AddLiquidity \<lparr>alresp_mint_lp_tokens = 19000, alresp_vlp_address = contract_address example_env\<rparr>)"
    using example_first_deposit by blast
  have inv: "vlp_inv st1"
    by (rule std.add_liquidity_inv [OF add example_pool_inv])
  obtain state c where st1: "VLP_STATE st1 = Some state" "vlp_router state = ''router''"
      "map_may_load (CHAIN_LP_TOKENS st1) (ccu_chain_uid example_user) = Some c" "19000 \<le> c"
  proof (rule std.add_liquidity_okE [OF add], goal_cases)
    case (1 s c R1 R2 lp' c' R1' R2' L')
    then show ?thesis
      using data that [of "s\<lparr>vlp_total_lp_tokens := L'\<rparr>" c']
      by (simp add: example_pool_def example_state_def word_le_nat_alt)
  qed
  obtain st2 r2 where remove: "remove_liquidity std_math st1 example_env by_router example_user 19000 ''tx2'' = Ok (st2, r2)"
    using std.remove_liquidity_total [OF inv st1(1) _ st1(3,4)] st1(2) by fastforce
  have zero: "vlp_total_lp_tokens (example_state 0) = 0"
      "reserve (example_pool 0 0 0) (pair_token_1 (vlp_pair (example_state 0))) = 0"
      "reserve (example_pool 0 0 0) (pair_token_2 (vlp_pair (example_state 0))) = 0"
    by (simp_all add: example_state_def example_pool_def example_pair_def amount_at_def map_may_load_def)
  show ?thesis
    using vlp_minimum_liquidity_not_locked
      [OF std.cosmwasm_math_axioms example_pool_inv example_pool_STATE zero add data remove] add remove
    by blast
qed

section \<open>Shares of the chains\<close>

lemma sum_div_le: "(\<Sum>x\<leftarrow>xs. R * f x div L) \<le> R * (\<Sum>x\<leftarrow>xs. f x) div (L :: nat)"
proof (induction xs)
  case (Cons x xs)
  have "a div L + b div L \<le> (a + b) div L" for a b
    by (simp add: div_add1_eq [of a b])
  from order_trans [OF add_left_mono [OF Cons] this] show ?case
    by (simp add: algebra_simps)
qed simp

text \<open>
  The pools listed for the chains partition the pool soundly: the listing succeeds, has one entry per
  registered chain in chain order, and the reserves attributed to the chains never exceed the reserves.
\<close>

theorem vlp_pool_shares_bounded:
  assumes "cosmwasm_math M" and "vlp_inv st" and "VLP_STATE st = Some state"
  shows "\<exists>pools. query_all_pools M st = Ok pools
     \<and> map fst pools = map fst (map_range (CHAIN_LP_TOKENS st))
     \<and> (\<Sum>(c, p)\<leftarrow>pools. unat (pr_reserve_1 p)) \<le> reserve st (pair_token_1 (vlp_pair state))
     \<and> (\<Sum>(c, p)\<leftarrow>pools. unat (pr_reserve_2 p)) \<le> reserve st (pair_token_2 (vlp_pair state))"
proof -
  obtain R1 R2 where R: "map_may_load (VLP_BALANCES st) (pair_token_1 (vlp_pair state)) = Some R1"
      "map_may_load (VLP_BALANCES st) (pair_token_2 (vlp_pair state)) = Some R2"
    using assms(2,3) by (auto simp: vlp_inv_def map_has_def)
  let ?L = "unat (vlp_total_lp_tokens state)"
  define share where "share R c = (case multiply_ratio M R c (vlp_total_lp_tokens state) of Inl _ \<Rightarrow> 0 | Inr x \<Rightarrow> x)"
    for R c
  have share: "unat (share R c) \<le> unat R * unat c div ?L" for R c
    by (auto simp: share_def cosmwasm_math.multiply_ratio_Inr [OF assms(1)] split: sum.split)
  have pools: "mapR (\<lambda>p. bindR (get_pool M state (snd p) R1 R2) (\<lambda>pool. Ok (fst p, pool))) xs
      = Ok (map (\<lambda>p. (fst p, \<lparr>pr_lp_shares = snd p, pr_reserve_1 = share R1 (snd p),
          pr_reserve_2 = share R2 (snd p)\<rparr>)) xs)" for xs
    by (induction xs) (auto simp: get_pool_def share_def Let_def)
  have bound: "(\<Sum>(u, c)\<leftarrow>map_range (CHAIN_LP_TOKENS st). unat (share R c)) \<le> unat R" for R
  proof -
    have "(\<Sum>(u, c)\<leftarrow>map_range (CHAIN_LP_TOKENS st). unat (share R c))
        \<le> (\<Sum>(u, c)\<leftarrow>map_range (CHAIN_LP_TOKENS st). unat R * unat c div ?L)"
      by (rule sum_list_mono) (auto simp: share)
    also have "\<dots> \<le> unat R * (\<Sum>(u, c)\<leftarrow>map_range (CHAIN_LP_TOKENS st). unat c) div ?L"
      using sum_div_le [of "unat R" "\<lambda>(u, c). unat c" ?L] by (simp add: split_def)
    also have "\<dots> \<le> unat R"
      using assms(2,3) by (simp add: sum_map_range vlp_inv_def)
    finally show ?thesis .
  qed
  show ?thesis
    using bound [of R1] bound [of R2] R
    by (simp add: query_all_pools_def assms(3) map_load_def pools split_def amount_at_Some comp_def)
qed

theorem vlp_pool_shares_bounded_witness:
  "\<exists>pools. query_all_pools std_math (example_pool 7 3 5) = Ok pools
     \<and> (\<Sum>(c, p)\<leftarrow>pools. unat (pr_reserve_1 p)) \<le> reserve (example_pool 7 3 5) (pair_token_1 (vlp_pair (example_state 5)))"
  using vlp_pool_shares_bounded [OF std.cosmwasm_math_axioms example_pool_inv example_pool_STATE] by blast

section \<open>Fees\<close>

text \<open>
  Only the admin changes the fees, and after a change both rates are at most ten percent, so the two
  fees together never exceed a fifth of the input of a swap; nothing else of the pool changes.
\<close>

theorem vlp_update_fee_caps:
  assumes "update_fee st info lp_bps euclid_bps recipient = Ok (st', r)"
  shows "\<exists>state fee. VLP_STATE st = Some state \<and> info_sender info = vlp_admin state
     \<and> st' = st\<lparr>VLP_STATE := Some (state\<lparr>vlp_fee := fee\<rparr>)\<rparr>
     \<and> fee_lp_fee_bps fee = unwrap_or lp_bps (fee_lp_fee_bps (vlp_fee state))
     \<and> fee_euclid_fee_bps fee = unwrap_or euclid_bps (fee_euclid_fee_bps (vlp_fee state))
     \<and> (\<forall>x :: nat. 5 * (x * unat (fee_lp_fee_bps fee) div 10000 + x * unat (fee_euclid_fee_bps fee) div 10000) \<le> x)"
proof -
  have cap: "10 * (x * unat b div 10000) \<le> x" if "b \<le> MAX_FEE_BPS" for x :: nat and b
  proof -
    have "unat b \<le> 1000" using that by (simp add: MAX_FEE_BPS_def word_le_nat_alt)
    then have "x * unat b div 10000 \<le> x * 1000 div 10000" by (intro div_le_mono mult_le_mono2)
    then show ?thesis by linarith
  qed
  have fifth: "10 * a \<le> x \<Longrightarrow> 10 * b \<le> x \<Longrightarrow> 5 * (a + b) \<le> x" for a b x :: nat
    by simp
  from assms obtain state where "VLP_STATE st = Some state" and "info_sender info = vlp_admin state"
    and le: "unwrap_or lp_bps (fee_lp_fee_bps (vlp_fee state)) \<le> MAX_FEE_BPS"
      "unwrap_or euclid_bps (fee_euclid_fee_bps (vlp_fee state)) \<le> MAX_FEE_BPS"
    and "st' = st\<lparr>VLP_STATE := Some (state\<lparr>vlp_fee :=
        \<lparr>fee_lp_fee_bps = unwrap_or lp_bps (fee_lp_fee_bps (vlp_fee state)),
         fee_euclid_fee_bps = unwrap_or euclid_bps (fee_euclid_fee_bps (vlp_fee state)),
         fee_recipient = unwrap_or recipient (fee_recipient (vlp_fee state))\<rparr>\<rparr>)\<rparr>"
    by (auto simp: update_fee_def Let_def ok_simps)
  moreover have "5 * (x * unat (unwrap_or lp_bps (fee_lp_fee_bps (vlp_fee state))) div 10000
      + x * unat (unwrap_or euclid_bps (fee_euclid_fee_bps (vlp_fee state))) div 10000) \<le> x" for x :: nat
    using fifth [OF cap [OF le(1)] cap [OF le(2)]] .
  ultimately show ?thesis by auto
qed

theorem vlp_update_fee_caps_witness:
  "\<exists>st' r state. update_fee (example_pool 7 3 5) \<lparr>info_sender = ''admin'', info_funds = []\<rparr> (Some 1000) None None = Ok (st', r)
     \<and> VLP_STATE (example_pool 7 3 5) = Some state \<and> vlp_admin state = ''admin''"
proof -
  obtain st' r where ok: "update_fee (example_pool 7 3 5) \<lparr>info_sender = ''admin'', info_funds = []\<rparr> (Some 1000) None None = Ok (st', r)"
    by (simp add: update_fee_def example_pool_def example_state_def Let_def MAX_FEE_BPS_def)
  with vlp_update_fee_caps [OF ok] show ?thesis by auto
qed

end
