(* ===== verification/Hub.thy ===== *)
theory Hub
  imports Vlp_Correct Router_Properties
begin

text \<open>
  The router together with the virtual balance ledger. The ledger mints and burns only when the router tells it
  to, and the router records what the chains hold in escrow; the locale \<open>custody\<close> states the contract of the
  two sides, and its interpretation on the models gives the books that the running hub rests on. The second part is a
  pool and its account on the ledger.
\<close>

section \<open>Custodian and issuer\<close>

text \<open>
  A custodian that holds tokens and an issuer of claims on them. Each step of the custodian comes with messages,
  and both sides account for what the messages mint and burn.
\<close>

locale custody =
  fixes held :: "'h \<Rightarrow> 't \<Rightarrow> nat"
    and circulating :: "'v \<Rightarrow> 't \<Rightarrow> nat"
    and custodian :: "'h \<Rightarrow> 'm list \<Rightarrow> 'h \<Rightarrow> bool"
    and issuer :: "'v \<Rightarrow> 'm \<Rightarrow> 'v \<Rightarrow> bool"
    and minted burned :: "'m \<Rightarrow> 't \<Rightarrow> nat"
  assumes custodian_books: "custodian h ms h' \<Longrightarrow>
      held h' t + (\<Sum>m\<leftarrow>ms. burned m t) = held h t + (\<Sum>m\<leftarrow>ms. minted m t)"
    and issuer_books: "issuer v m v' \<Longrightarrow> circulating v' t + burned m t = circulating v t + minted m t"
begin

definition issued :: "'m \<Rightarrow> 't \<Rightarrow> int" where
  "issued m t = int (minted m t) - int (burned m t)"

text \<open>How far the claims exceed what is held.\<close>

definition gap :: "'h \<Rightarrow> 'v \<Rightarrow> 't \<Rightarrow> int" where
  "gap h v t = int (circulating v t) - int (held h t)"

lemma issued_sum: "(\<Sum>m\<leftarrow>ms. issued m t) = int (\<Sum>m\<leftarrow>ms. minted m t) - int (\<Sum>m\<leftarrow>ms. burned m t)"
  by (induction ms) (simp_all add: issued_def)

text \<open>The custodian's step opens a gap that the messages close.\<close>

lemma custodian_gap: "custodian h ms h' \<Longrightarrow> gap h' v t + (\<Sum>m\<leftarrow>ms. issued m t) = gap h v t"
  using custodian_books [of h ms h' t] by (simp add: gap_def issued_sum)

lemma issuer_gap: "issuer v m v' \<Longrightarrow> gap h v' t = gap h v t + issued m t"
  using issuer_books [of v m v' t] by (simp add: gap_def issued_def)

end

section \<open>Custody\<close>

text \<open>
  A step of the router: a message, a reply, or a packet, its acknowledgement or its time-out. Its custody messages
  are those of the response that go to the ledger.
\<close>

inductive rt_step :: "rt_storage \<Rightarrow> Response \<Rightarrow> rt_storage \<Rightarrow> bool" where
  executed: "rt_execute qv ql st env info msg = Inr (st', r) \<Longrightarrow> rt_step st r st'"
| replied: "rt_reply av ql st env rep = Inr (st', r) \<Longrightarrow> rt_step st r st'"
| received: "ibc_packet_receive st env p = Inr (st', r) \<Longrightarrow> rt_step st r st'"
| acknowledged: "ibc_packet_ack st env a = Inr (st', r) \<Longrightarrow> rt_step st r st'"
| timed_out: "ibc_packet_timeout st env p = Inr (st', r) \<Longrightarrow> rt_step st r st'"

lemma rt_step_books: "rt_step st r st' \<Longrightarrow> keeps_books st (vb_msgs r) st'"
proof (induction rule: rt_step.induct)
  case (timed_out st env p st' r)
  then show ?case
    by (auto simp: ibc_packet_timeout_def ibc_packet_ack_def bindR_eq_Inr Let_def submsg_defs)
qed (auto intro: rt_execute_books rt_reply_books simp: ibc_packet_receive_def ibc_packet_ack_def submsg_defs)

interpretation hub: custody escrow_total vb_supply
  "\<lambda>st ms st'. \<exists>r. rt_step st r st' \<and> ms = vb_msgs r" "\<lambda>vb m vb'. \<exists>info r. vb_execute vb info m = Inr (vb', r)"
  minted_by burned_by
proof
  fix h ms h' t
  assume "\<exists>r. rt_step h r h' \<and> ms = vb_msgs r"
  then show "escrow_total h' t + burned_sum ms t = escrow_total h t + minted_sum ms t"
    using rt_step_books by (auto simp: keeps_books_def)
qed (auto intro: supply_step)

text \<open>Messages to the ledger, run in order for one sender; if one fails, the whole transaction is undone.\<close>

fun vb_apply :: "addr \<Rightarrow> vb_storage \<Rightarrow> vb_ExecuteMsg list \<Rightarrow> vb_storage result" where
  "vb_apply sender st [] = Ok st"
| "vb_apply sender st (m # ms) =
     bindR (vb_execute st \<lparr>info_sender = sender, info_funds = []\<rparr> m) (\<lambda>(st, _). vb_apply sender st ms)"

section \<open>Pools on the ledger\<close>

text \<open>The account of a pool, and that its virtual balance of a token is the reserve the pool records.\<close>

abbreviation pool_user :: "env \<Rightarrow> CrossChainUser" where
  "pool_user env \<equiv> \<lparr>ccu_chain_uid = vsl, ccu_address = contract_address env\<rparr>"

definition covers :: "env \<Rightarrow> vb_storage \<Rightarrow> vlp_storage \<Rightarrow> Token \<Rightarrow> bool" where
  "covers env vb st t \<longleftrightarrow> vb_bal vb (account (pool_user env) (token_id t)) = reserve st t"

lemma pool_transfer_bal:
  assumes "vb_apply self vb (vb_msg_of (pool_transfer state env vsl t amount to)) = Inr vb'"
    and "to \<noteq> pool_user env"
  shows "vb_bal vb (account (pool_user env) (token_id t'))
     = vb_bal vb' (account (pool_user env) (token_id t')) + (if t' = t then unat amount else 0)"
proof -
  have "vb_moved vb (account (pool_user env) (token_id t)) (account to (token_id t)) (unat amount) vb'"
    using assms(1) unfolding vb_moved_def pool_transfer_def
    by (fastforce simp: bindR_eq_Inr)
  moreover have ne: "account (pool_user env) (token_id t) \<noteq> account to (token_id t)"
    using account_inject [of "pool_user env" "token_id t" to] assms(2) by auto
  ultimately have le: "unat amount \<le> vb_bal vb (account (pool_user env) (token_id t))"
    and bal: "vb_bal vb' = (vb_bal vb)(account (pool_user env) (token_id t) :=
        vb_bal vb (account (pool_user env) (token_id t)) - unat amount,
      account to (token_id t) := vb_bal vb (account to (token_id t)) + unat amount)"
    using vbl.moved_bal by blast+
  show ?thesis
  proof (cases "t' = t")
    case True
    with fun_cong [OF bal, of "account (pool_user env) (token_id t)"] le ne show ?thesis by auto
  next
    case False
    then have "token_id t' \<noteq> token_id t" using Token.expand by blast
    with fun_cong [OF bal, of "account (pool_user env) (token_id t')"] False show ?thesis by simp
  qed
qed

lemma vb_apply_append:
  "vb_apply self vb (ms @ ms') = bindR (vb_apply self vb ms) (\<lambda>vb. vb_apply self vb ms')"
  by (induction ms arbitrary: vb) (auto simp: bindR_def split: sum.splits prod.splits)

lemma deliver_swap_Inr:
  "deliver_swap state env u sender a out min_out tx next = Inr msgs \<Longrightarrow>
     \<exists>to. concat (map (\<lambda>m. vb_msg_of (sm_msg m)) msgs) = vb_msg_of (pool_transfer state env u a out to)
       \<and> (to = sender \<or> (\<exists>n\<in>set next. to = \<lparr>ccu_chain_uid = u, ccu_address = nsv_vlp_address n\<rparr>))"
  by (auto simp: deliver_swap_def submsg_defs ensure_eq_Inr split: list.splits)

text \<open>
  A swap keeps the pool covered. If the pool's virtual balance of the output token is its reserve, and the
  swap is executed with the balances the ledger reports, then after the ledger has run the swap's transfers the
  pool's virtual balances of both tokens are the new reserves, provided the funds are not sent to the pool
  itself.
\<close>

theorem swap_keeps_pool_covered:
  assumes "cosmwasm_math M" and "vlp_inv st" and "VLP_STATE st = Some state"
    and "execute_swap M (\<lambda>_. query_balance vb) st env sender a x min_out tx next tf = Ok (st', r)"
    and "covers env vb st (get_other_token (vlp_pair state) a)"
    and "vb_apply (contract_address env) vb (vb_msgs r) = Ok vb'"
    and "sender \<noteq> pool_user env" and "fee_recipient (vlp_fee state) \<noteq> pool_user env"
    and "\<forall>n\<in>set next. nsv_vlp_address n \<noteq> contract_address env"
  shows "covers env vb' st' a \<and> covers env vb' st' (get_other_token (vlp_pair state) a)"
proof (rule cosmwasm_math.execute_swap_okE [OF assms(1,4)], goal_cases)
  case (1 s lpf ef sw Rin Rout v out Rin' Rout' lp_fees euclid_fees fee_msgs out_msgs)
  let ?b = "get_other_token (vlp_pair state) a" and ?acc = "\<lambda>t. account (pool_user env) (token_id t)"
  have s: "s = state" using 1(1) assms(3) by simp
  have other: "?b \<noteq> a" using vlp_inv_other [OF assms(2,3)] 1(3) by (simp add: s)
  have v: "vb_bal vb (?acc a) = unat Rin + unat x"
    using 1(9,10) by (auto simp: query_balance_def to_serialized_balance_key_def amount_at_def)
  have b: "vb_bal vb (?acc ?b) = unat Rout"
    using assms(5) 1(8) by (simp add: covers_def s amount_at_Some)
  from deliver_swap_Inr [OF 1(17)] obtain to where
    out: "concat (map (\<lambda>m. vb_msg_of (sm_msg m)) out_msgs) = vb_msg_of (pool_transfer state env vsl ?b out to)"
    and to: "to \<noteq> pool_user env"
    using assms(7,9) by (auto simp: s)
  have "vb_msgs r = concat (map (\<lambda>m. vb_msg_of (sm_msg m)) fee_msgs) @ vb_msg_of (pool_transfer state env vsl ?b out to)"
    by (simp add: 1(19) vb_msgs_def out)
  with assms(6) obtain vb1 where
    vb1: "vb_apply (contract_address env) vb (concat (map (\<lambda>m. vb_msg_of (sm_msg m)) fee_msgs)) = Inr vb1"
    and vb': "vb_apply (contract_address env) vb1 (vb_msg_of (pool_transfer state env vsl ?b out to)) = Inr vb'"
    by (auto simp: vb_apply_append bindR_eq_Inr)
  have fee: "vb_bal vb (?acc t) = vb_bal vb1 (?acc t) + (if t = a then unat ef else 0)" for t
  proof (cases "ef = 0")
    case True
    with 1(16) vb1 show ?thesis by (simp add: collect_euclid_fee_Inr)
  next
    case False
    with 1(16) vb1 pool_transfer_bal [OF _ assms(8)] show ?thesis
      by (simp add: collect_euclid_fee_Inr s submsg_defs)
  qed
  have R': "amount_at (VLP_BALANCES st') a = Rin'" "amount_at (VLP_BALANCES st') ?b = Rout'"
    using other by (simp_all add: 1(18) s)
  note sent = pool_transfer_bal [OF vb' to]
  have "vb_bal vb' (?acc a) = unat Rin'"
    using sent [of a, unfolded if_not_P [OF other [symmetric]]] fee [of a, unfolded if_P [OF refl]] v 1(13) by linarith
  moreover have "vb_bal vb' (?acc ?b) = unat Rout'"
    using sent [of ?b, unfolded if_P [OF refl]] fee [of ?b, unfolded if_not_P [OF other]] b 1(14) by linarith
  ultimately show ?thesis unfolding covers_def R' by simp
qed


definition ex_ledger :: "uint128 \<Rightarrow> vb_storage" where
  "ex_ledger b = \<lparr>VB_STATE = Some \<lparr>vbs_router = ''router'', vbs_admin = ''admin''\<rparr>,
     VB_BALANCES = [((vsl, ''pool'', ''atom''), b), ((vsl, ''pool'', ''usdc''), 1000000)]\<rparr>"

abbreviation ledger_swap :: "uint128 \<Rightarrow> (vlp_storage \<times> Response) result" where
  "ledger_swap b \<equiv> execute_swap std_math (\<lambda>_. query_balance (ex_ledger b)) (example_pool 1000000 1000000 5) example_env
     example_user (Token ''atom'') 10000 9000 ''tx'' [] None"

lemma ledger_swap_eq: "ledger_swap 1010000 = example_swap"
  by (simp add: execute_swap_def query_balance_def ex_ledger_def to_serialized_balance_key_def map_may_load_def
      example_pool_def example_state_def example_pair_def example_env_def)

theorem swap_keeps_pool_covered_witness:
  "\<exists>st' r vb'. ledger_swap 1010000 = Ok (st', r) \<and> vb_apply ''pool'' (ex_ledger 1010000) (vb_msgs r) = Ok vb'
     \<and> covers example_env vb' st' (Token ''atom'')"
proof -
  let ?st = "example_pool 1000000 1000000 5"
  have "\<exists>st' r vb'. ledger_swap 1010000 = Ok (st', r) \<and> vb_apply ''pool'' (ex_ledger 1010000) (vb_msgs r) = Ok vb'"
    unfolding ledger_swap_eq
    by (simp add: execute_swap_def example_pool_def example_state_def example_pair_def Token_exists_def
      checked_mul_floor_def std_math_def Let_def lift_err_def add_fee_def checked_add_def checked_sub_def
      map_load_def map_may_load_def get_other_token_def calculate_swap_def checked_mul_def checked_div_def
      collect_euclid_fee_def deliver_swap_def submsg_defs pool_transfer_def execute_transfer_def ex_ledger_def
      example_env_def item_load_def to_serialized_balance_key_def map_save_def)
  then obtain st' r vb' where swap: "ledger_swap 1010000 = Ok (st', r)"
    and run: "vb_apply ''pool'' (ex_ledger 1010000) (vb_msgs r) = Ok vb'" by blast
  moreover have "covers example_env (ex_ledger 1010000) ?st (get_other_token (vlp_pair (example_state 5)) (Token ''atom''))"
    by (simp add: covers_def ex_ledger_def example_pool_def example_state_def example_pair_def example_env_def
        get_other_token_def amount_at_def map_may_load_def)
  ultimately show ?thesis
    using swap_keeps_pool_covered [OF std.cosmwasm_math_axioms example_pool_inv example_pool_STATE swap, of vb']
    by (auto simp: example_env_def example_state_def)
qed


text \<open>
  C39: a gift to a pool stops its swaps. The pool insists that its virtual balance of the input token is its
  reserve plus exactly the amount of the swap. So after any user has sent it any positive amount of that token,
  and the router has minted the input of a swap, that swap fails.
\<close>

theorem donation_blocks_swaps:
  assumes "cosmwasm_math M" and "covers env vb st a" and "execute_transfer vb info gift = Ok (vb1, r1)"
    and "transfer_to gift = pool_user env" and "transfer_from gift \<noteq> transfer_to gift"
    and "transfer_token_id gift = token_id a" and "transfer_amount gift \<noteq> 0"
    and "vb_apply router vb1 (vb_msg_of (mint_for_vlp v vsl (contract_address env) a x)) = Ok vb2"
  shows "\<exists>e. execute_swap M (\<lambda>_. query_balance vb2) st env sender a x min_out tx next tf = Inl e"
proof (cases "execute_swap M (\<lambda>_. query_balance vb2) st env sender a x min_out tx next tf")
  case (Inr p)
  let ?acc = "account (pool_user env) (token_id a)"
  have "vb_moved vb (account (transfer_from gift) (token_id a)) ?acc (unat (transfer_amount gift)) vb1"
    using assms(3,4,6) unfolding vb_moved_def by (intro exI [of _ info] exI [of _ gift] exI [of _ r1]) simp
  moreover have "account (transfer_from gift) (token_id a) \<noteq> ?acc"
    using account_inject [of "transfer_from gift" "token_id a" "pool_user env"] assms(4,5) by auto
  ultimately have 1: "vb_bal vb1 ?acc = vb_bal vb ?acc + unat (transfer_amount gift)"
    using vbl.moved_bal by (metis fun_upd_same)
  have "vb_minted vb1 ?acc (unat x) vb2"
    using assms(8) unfolding vb_minted_def
    by (fastforce simp: vb_msg_of_mint_for_vlp bindR_eq_Inr to_serialized_balance_key_def)
  then have 2: "vb_bal vb2 ?acc = vb_bal vb1 ?acc + unat x"
    using vbl.minted_bal by (metis fun_upd_same)
  obtain st' r where "p = (st', r)" by (cases p)
  from Inr [unfolded this] show ?thesis
  proof (rule cosmwasm_math.execute_swap_okE [OF assms(1)], goal_cases)
    case (1 s lpf ef sw Rin Rout w)
    have "vb_bal vb2 ?acc = unat w"
      using 1(9) by (simp add: query_balance_def to_serialized_balance_key_def amount_at_def)
    moreover have "vb_bal vb ?acc = unat Rin"
      using assms(2) 1(7) by (simp add: covers_def amount_at_Some)
    moreover have "unat (transfer_amount gift) \<noteq> 0" using assms(7) by (simp add: unat_eq_zero)
    ultimately show ?case
      using 1(10) \<open>vb_bal vb1 ?acc = _\<close> 2 by linarith
  qed
qed blast


definition ex_gift :: ExecuteTransfer where
  "ex_gift = \<lparr>transfer_amount = 1, transfer_token_id = ''atom'',
     transfer_from = \<lparr>ccu_chain_uid = vsl, ccu_address = ''mallory''\<rparr>,
     transfer_to = \<lparr>ccu_chain_uid = vsl, ccu_address = ''pool''\<rparr>\<rparr>"

definition ex_rich :: vb_storage where
  "ex_rich = \<lparr>VB_STATE = Some \<lparr>vbs_router = ''router'', vbs_admin = ''admin''\<rparr>,
     VB_BALANCES = [((vsl, ''pool'', ''atom''), 1000000), ((vsl, ''mallory'', ''atom''), 1)]\<rparr>"

theorem donation_blocks_swaps_witness:
  "\<exists>vb1 r1 vb2 e. execute_transfer ex_rich (ex_info ''mallory'') ex_gift = Ok (vb1, r1)
     \<and> vb_apply ''router'' vb1 (vb_msg_of (mint_for_vlp ''vb'' vsl ''pool'' (Token ''atom'') 10000)) = Ok vb2
     \<and> execute_swap std_math (\<lambda>_. query_balance vb2) (example_pool 1000000 1000000 5) example_env example_user
         (Token ''atom'') 10000 9000 ''tx'' [] None = Inl e"
proof -
  have "\<exists>vb1 r1 vb2. execute_transfer ex_rich (ex_info ''mallory'') ex_gift = Ok (vb1, r1)
     \<and> vb_apply ''router'' vb1 (vb_msg_of (mint_for_vlp ''vb'' vsl ''pool'' (Token ''atom'') 10000)) = Ok vb2"
    by (simp add: execute_transfer_def ex_rich_def ex_gift_def ex_info_def item_load_def to_serialized_balance_key_def
        map_may_load_def map_save_def checked_sub_def checked_add_def unwrap_or_def Let_def vb_msg_of_mint_for_vlp
        execute_mint_def)
  then obtain vb1 r1 vb2 where gift: "execute_transfer ex_rich (ex_info ''mallory'') ex_gift = Ok (vb1, r1)"
    and mint: "vb_apply ''router'' vb1 (vb_msg_of (mint_for_vlp ''vb'' vsl ''pool'' (Token ''atom'') 10000)) = Ok vb2"
    by blast
  moreover have "covers example_env ex_rich (example_pool 1000000 1000000 5) (Token ''atom'')"
    by (simp add: covers_def ex_rich_def example_pool_def example_env_def amount_at_def map_may_load_def)
  moreover have "transfer_to ex_gift = pool_user example_env" "transfer_from ex_gift \<noteq> transfer_to ex_gift"
      "transfer_token_id ex_gift = token_id (Token ''atom'')" "transfer_amount ex_gift \<noteq> 0"
      "contract_address example_env = ''pool''"
    by (simp_all add: ex_gift_def example_env_def)
  ultimately show ?thesis
    using donation_blocks_swaps [OF std.cosmwasm_math_axioms _ gift, of example_env "example_pool 1000000 1000000 5"
        "Token ''atom''" "''router''" "''vb''" 10000 vb2 example_user 9000 "''tx''" "[]" None]
    by auto
qed

end
