(* ===== verification/Hub_Exec.thy ===== *)
theory Hub_Exec
  imports Hub
begin

text \<open>
  The hub as the chain runs it: the router, the ledger and the pools, with their messages delivered to each
  other. A contract call returns a response; the host then runs the messages of the response in order, each with
  all the messages it causes in turn, undoes a message that fails, and hands the outcome to the \<open>reply\<close> entry point
  of the contract that asked for it (the documented semantics of CosmWasm sub-messages). What lies
  outside the hub (the bank, the packets, other contracts) is a field of the host. Such a contract may call the hub in turn.
  \<open>exec\<close> and \<open>handle\<close> take a bound on the depth of calls and return \<open>None\<close> when it is reached.
\<close>

section \<open>The host\<close>

text \<open>The state of the hub, with the list of the messages that the ledger has executed.\<close>

record hub =
  h_router :: rt_storage
  h_vb :: vb_storage
  h_pools :: "(addr, vlp_storage) store"
  h_log :: "vb_ExecuteMsg list"

text \<open>
  The addresses of the two fixed contracts, the code of the pools, the block, the text of an error, the address of
  the next contract, and what is outside the hub: the answers to queries, and the outcome of a message, which is
  an error or the messages that the receiver sends and the data it returns.
\<close>

record ('d, 'e) host =
  host_math :: "('d, 'e) cw_math"
  host_router :: addr
  host_vb :: addr
  host_vlp_code :: u64
  host_env :: env
  host_validate :: "string \<Rightarrow> addr result"
  host_text :: "failure \<Rightarrow> string"
  host_new_address :: "hub \<Rightarrow> addr"
  host_balance :: vb_querier
  host_liquidity :: liq_querier
  host_outside :: "hub \<Rightarrow> addr \<Rightarrow> CosmosMsg \<Rightarrow> (CosmosMsg list \<times> binary option) result"

definition env_at :: "('d, 'e) host \<Rightarrow> addr \<Rightarrow> env" where
  "env_at c a = (host_env c)\<lparr>contract_address := a\<rparr>"

definition in_hub :: "('d, 'e) host \<Rightarrow> hub \<Rightarrow> addr \<Rightarrow> bool" where
  "in_hub c h a \<longleftrightarrow> a = host_router c \<or> a = host_vb c \<or> map_has (h_pools h) a"

definition ask_balance :: "('d, 'e) host \<Rightarrow> hub \<Rightarrow> vb_querier" where
  "ask_balance c h a = (if a = host_vb c then query_balance (h_vb h) else host_balance c a)"

definition ask_liquidity :: "('d, 'e) host \<Rightarrow> hub \<Rightarrow> liq_querier" where
  "ask_liquidity c h a = (case map_may_load (h_pools h) a of Some st \<Rightarrow> query_liquidity st | None \<Rightarrow> host_liquidity c a)"

section \<open>One call\<close>

text \<open>A call of a contract of the hub: the new state and the response. A message of another contract does not parse.\<close>

definition contract_call ::
    "('d, 'e) host \<Rightarrow> hub \<Rightarrow> addr \<Rightarrow> message_info \<Rightarrow> wasm_execute_msg \<Rightarrow> (hub \<times> Response) result" where
  "contract_call c h a info m =
     (if a = host_router c
      then (case m of
              To_Router m \<Rightarrow>
                bindR (rt_execute (ask_balance c h) (ask_liquidity c h) (h_router h) (env_at c a) info m) (\<lambda>(st, r).
                Ok (h\<lparr>h_router := st\<rparr>, r))
            | _ \<Rightarrow> parse_error)
      else if a = host_vb c
      then (case m of
              To_VirtualBalance m \<Rightarrow>
                bindR (vb_execute (h_vb h) info m) (\<lambda>(st, r). Ok (h\<lparr>h_vb := st, h_log := h_log h @ [m]\<rparr>, r))
            | _ \<Rightarrow> parse_error)
      else bindR (map_load (h_pools h) a) (\<lambda>st.
           case m of
             To_Vlp m \<Rightarrow>
               bindR (vlp_execute (host_math c) (ask_balance c h) st (env_at c a) info m) (\<lambda>(st, r).
               Ok (h\<lparr>h_pools := map_save (h_pools h) a st\<rparr>, r))
           | _ \<Rightarrow> parse_error))"

text \<open>A new pool, at an address that no contract has.\<close>

definition create_pool ::
    "('d, 'e) host \<Rightarrow> hub \<Rightarrow> message_info \<Rightarrow> vlp_InstantiateMsg \<Rightarrow> (hub \<times> addr \<times> Response) result" where
  "create_pool c h info m =
     (let a = host_new_address c h in
      ensure (\<not> in_hub c h a) (Generic ''contract account already exists'')
      (bindR (vlp_instantiate (env_at c a) info m) (\<lambda>(st, r).
       Ok (h\<lparr>h_pools := map_save (h_pools h) a st\<rparr>, a, r))))"

definition go_outside :: "('d, 'e) host \<Rightarrow> hub \<Rightarrow> addr \<Rightarrow> CosmosMsg \<Rightarrow> (hub \<times> addr \<times> Response) result" where
  "go_outside c h sender msg =
     bindR (host_outside c h sender msg) (\<lambda>(calls, d).
     case msg of
       Wasm_Execute a _ _ \<Rightarrow> Ok (h, a, \<lparr>r_messages = map SubMsg_new calls, r_data = d\<rparr>)
     | _ \<Rightarrow> Ok (h, [], \<lparr>r_messages = [], r_data = d\<rparr>))"

text \<open>The first step of a message: the state after the call, the contract called and its response.\<close>

definition start :: "('d, 'e) host \<Rightarrow> hub \<Rightarrow> addr \<Rightarrow> CosmosMsg \<Rightarrow> (hub \<times> addr \<times> Response) result" where
  "start c h sender msg =
     (case msg of
        Wasm_Execute a m funds \<Rightarrow>
          if in_hub c h a
          then bindR (contract_call c h a \<lparr>info_sender = sender, info_funds = funds\<rparr> m) (\<lambda>(h, r). Ok (h, a, r))
          else go_outside c h sender msg
      | Wasm_Instantiate _ code (New_Vlp m) funds _ \<Rightarrow>
          if code = host_vlp_code c then create_pool c h \<lparr>info_sender = sender, info_funds = funds\<rparr> m
          else go_outside c h sender msg
      | _ \<Rightarrow> go_outside c h sender msg)"

text \<open>The data of a call as the caller's reply sees it.\<close>

definition enclose :: "CosmosMsg \<Rightarrow> addr \<Rightarrow> binary option \<Rightarrow> binary option" where
  "enclose msg a d =
     (case msg of
        Wasm_Execute _ _ _ \<Rightarrow> (case d of None \<Rightarrow> None | Some _ \<Rightarrow> Some (Pb_Execute d))
      | Wasm_Instantiate _ _ _ _ _ \<Rightarrow> Some (Pb_Instantiate a d)
      | _ \<Rightarrow> d)"

definition reply_call :: "('d, 'e) host \<Rightarrow> hub \<Rightarrow> addr \<Rightarrow> Reply \<Rightarrow> (hub \<times> Response) result" where
  "reply_call c h a rep =
     (if a = host_router c
      then bindR (rt_reply (host_validate c) (ask_liquidity c h) (h_router h) (env_at c a) rep) (\<lambda>(st, r).
           Ok (h\<lparr>h_router := st\<rparr>, r))
      else bindR (map_load (h_pools h) a) (\<lambda>st.
           bindR (vlp_reply st rep) (\<lambda>(st, r). Ok (h\<lparr>h_pools := map_save (h_pools h) a st\<rparr>, r))))"

text \<open>
  What follows the outcome of a sub-message: the reply if the contract asked for one, in the state before the
  message if it failed; a failure nobody asked about is passed on.
\<close>

definition after ::
    "('d, 'e) host \<Rightarrow> hub \<Rightarrow> addr \<Rightarrow> SubMsg \<Rightarrow> (hub \<times> binary option) result \<Rightarrow> (hub \<times> Response) result" where
  "after c h self m out =
     (case out of
        Inr (h', d) \<Rightarrow>
          if sm_reply_on m = ReplyAlways
          then reply_call c h' self \<lparr>reply_id = sm_id m, reply_result = SubMsgOk d\<rparr>
          else Ok (h', Response_new)
      | Inl e \<Rightarrow>
          if sm_reply_on m = ReplyNever then Inl e
          else reply_call c h self \<lparr>reply_id = sm_id m, reply_result = SubMsgErr (host_text c e)\<rparr>)"

section \<open>Running messages\<close>

type_synonym 'a run = "'a result option"

definition bind_run :: "'a run \<Rightarrow> ('a \<Rightarrow> 'b run) \<Rightarrow> 'b run" where
  "bind_run m f = (case m of None \<Rightarrow> None | Some (Inl e) \<Rightarrow> Some (Inl e) | Some (Inr x) \<Rightarrow> f x)"

lemma bind_run_cong [fundef_cong]:
  "m = m' \<Longrightarrow> (\<And>x. m' = Some (Inr x) \<Longrightarrow> f x = g x) \<Longrightarrow> bind_run m f = bind_run m' g"
  by (auto simp: bind_run_def split: option.splits sum.splits)

lemma bind_run_simps [simp]:
  "bind_run None f = None" "bind_run (Some (Inl e)) f = Some (Inl e)" "bind_run (Some (Inr x)) f = f x"
  by (simp_all add: bind_run_def)

lemma bind_run_Inr: "bind_run m f = Some (Inr y) \<longleftrightarrow> (\<exists>x. m = Some (Inr x) \<and> f x = Some (Inr y))"
  by (auto simp: bind_run_def split: option.splits sum.splits)

lemma bind_run_None: "bind_run m f = None \<longleftrightarrow> m = None \<or> (\<exists>x. m = Some (Inr x) \<and> f x = None)"
  by (auto simp: bind_run_def split: option.splits sum.splits)

fun exec :: "('d, 'e) host \<Rightarrow> nat \<Rightarrow> hub \<Rightarrow> addr \<Rightarrow> CosmosMsg \<Rightarrow> (hub \<times> binary option) run"
and handle :: "('d, 'e) host \<Rightarrow> nat \<Rightarrow> hub \<Rightarrow> addr \<Rightarrow> SubMsg list \<Rightarrow> binary option \<Rightarrow> (hub \<times> binary option) run" where
  "exec c 0 h sender msg = None"
| "exec c (Suc n) h sender msg =
     bind_run (Some (start c h sender msg)) (\<lambda>(h', self, r).
     bind_run (handle c n h' self (r_messages r) (r_data r)) (\<lambda>(h'', d). Some (Ok (h'', enclose msg self d))))"
| "handle c n h self [] d = Some (Ok (h, d))"
| "handle c 0 h self (m # ms) d = None"
| "handle c (Suc n) h self (m # ms) d =
     (case exec c n h self (sm_msg m) of
        None \<Rightarrow> None
      | Some out \<Rightarrow>
          bind_run (Some (after c h self m out)) (\<lambda>(h', r).
          bind_run (handle c n h' self (r_messages r) (r_data r)) (\<lambda>(h'', d').
          handle c (Suc n) h'' self ms (if d' = None then d else d'))))"

lemma exec_Inr:
  "exec c n h sender msg = Some (Inr (h2, d2)) \<longleftrightarrow>
     (\<exists>k h1 self r d. n = Suc k \<and> start c h sender msg = Inr (h1, self, r)
        \<and> handle c k h1 self (r_messages r) (r_data r) = Some (Inr (h2, d)) \<and> d2 = enclose msg self d)"
  by (cases n) (auto simp: bind_run_Inr)

lemma handle_Cons_Inr:
  "handle c n h self (m # ms) d = Some (Inr (h2, d2)) \<longleftrightarrow>
     (\<exists>k out h' r h'' d'. n = Suc k \<and> exec c k h self (sm_msg m) = Some out \<and> after c h self m out = Inr (h', r)
        \<and> handle c k h' self (r_messages r) (r_data r) = Some (Inr (h'', d'))
        \<and> handle c n h'' self ms (if d' = None then d else d') = Some (Inr (h2, d2)))"
  by (cases n) (auto simp: bind_run_Inr split: option.splits)

section \<open>What the router sends\<close>

text \<open>How deep the calls of a message can go within the hub.\<close>

definition chain_rank :: "binary \<Rightarrow> nat" where
  "chain_rank b = (case b of Json_ChainIbc (CI_Swap m) \<Rightarrow> length (csw_swaps m) | _ \<Rightarrow> 0)"

fun rank :: "CosmosMsg \<Rightarrow> nat" where
  "rank (Wasm_Execute _ (To_Vlp (VLP_Swap _ _ _ _ _ next _)) _) = Suc (length next)"
| "rank (Wasm_Execute _ (To_Vlp _) _) = 1"
| "rank (Wasm_Execute _ (To_Router (R_ReleaseEscrowInternal _ _ _ _ _ _)) _) = 1"
| "rank (Wasm_Execute _ (To_Router (R_WithdrawVoucher _ _ _ _)) _) = 2"
| "rank (Wasm_Execute _ (To_Router (R_IbcCallbackReceive p)) _) = 3 + chain_rank (packet_data p)"
| "rank (Wasm_Execute _ (To_Router (R_NativeReceiveCallback b _)) _) = 3 + chain_rank b"
| "rank (Wasm_Execute _ (To_Router _) _) = 3"
| "rank (Wasm_Instantiate _ _ _ _ _) = 1"
| "rank _ = 0"

text \<open>The address of the ledger, as the router knows it.\<close>

definition ledger_address :: "rt_storage \<Rightarrow> addr option" where
  "ledger_address st = (case RT_STATE st of None \<Rightarrow> None | Some state \<Rightarrow> rs_virtual_balance_address state)"

lemma ledger_address_Some [simp]: "RT_STATE st = Some state \<Longrightarrow> ledger_address st = rs_virtual_balance_address state"
  by (simp add: ledger_address_def)

text \<open>
  A sub-message of the router: what it tells the ledger goes to the ledger it knows, is a mint or a burn, and
  cannot fail unnoticed; the reply that registers a pool is that to an instantiation, and a new pool is told that ledger.
\<close>

definition to_ledger :: "addr option \<Rightarrow> SubMsg \<Rightarrow> bool" where
  "to_ledger va m \<longleftrightarrow>
     (\<forall>a x f. sm_msg m = Wasm_Execute a (To_VirtualBalance x) f \<longrightarrow>
        va = Some a \<and> (\<forall>t. x \<noteq> VB_Transfer t)
        \<and> (sm_reply_on m = ReplyNever \<or> sm_id m \<in> {VIRTUAL_BALANCE_MINT_REPLY_ID, VIRTUAL_BALANCE_BURN_REPLY_ID}))
     \<and> sm_id m \<noteq> VIRTUAL_BALANCE_INSTANTIATE_REPLY_ID
     \<and> (sm_id m = VLP_INSTANTIATE_REPLY_ID \<longrightarrow> (\<exists>ad code n f l. sm_msg m = Wasm_Instantiate ad code n f l
          \<and> (\<forall>x. n = New_Vlp x \<longrightarrow> va = Some (vim_virtual_balance x))))"

text \<open>The replies that make the router call itself.\<close>

definition self_calling :: "u64 \<Rightarrow> bool" where
  "self_calling i \<longleftrightarrow> i = REMOVE_LIQUIDITY_REPLY_ID \<or> i = SWAP_REPLY_ID"

text \<open>A step of the router whose messages have rank less than \<open>k\<close>.\<close>

definition sends :: "nat \<Rightarrow> rt_storage \<Rightarrow> Response \<Rightarrow> rt_storage \<Rightarrow> bool" where
  "sends k st r st' \<longleftrightarrow> ledger_address st' = ledger_address st
     \<and> (\<forall>m\<in>set (r_messages r). to_ledger (ledger_address st) m \<and> rank (sm_msg m) < k \<and> (k = 1 \<longrightarrow> \<not> self_calling (sm_id m)))"

lemma ledger_address_other [simp]:
  "ledger_address (st\<lparr>VLPS := b\<rparr>) = ledger_address st"
  "ledger_address (st\<lparr>ESCROW_BALANCES := k\<rparr>) = ledger_address st"
  "ledger_address (st\<lparr>CHAIN_UID_TO_CHAIN := c\<rparr>) = ledger_address st"
  "ledger_address (st\<lparr>CHANNEL_TO_CHAIN_UID := d\<rparr>) = ledger_address st"
  "ledger_address (st\<lparr>DEREGISTERED_CHAINS := e\<rparr>) = ledger_address st"
  "ledger_address (st\<lparr>SWAP_ID_TO_MSG := f\<rparr>) = ledger_address st"
  "ledger_address (st\<lparr>PENDING_REMOVE_LIQUIDITY := g\<rparr>) = ledger_address st"
  "ledger_address (st\<lparr>HUB_QUEUE := q\<rparr>) = ledger_address st"
  "ledger_address (st\<lparr>RT_TX_NONCE := n\<rparr>) = ledger_address st"
  "ledger_address (st\<lparr>RT_CHANNELS := l\<rparr>) = ledger_address st"
  "ledger_address (fst (rt_generate_tx st env u)) = ledger_address st"
  by (simp_all add: ledger_address_def rt_generate_tx_def Let_def split: prod.splits)

lemmas sends_defs = sends_def to_ledger_def self_calling_def rt_reply_ids submsg_defs

text \<open>A message to a chain.\<close>

definition chain_msg :: "SubMsg \<Rightarrow> bool" where
  "chain_msg m \<longleftrightarrow> (\<forall>va. to_ledger va m) \<and> rank (sm_msg m) = 0 \<and> \<not> self_calling (sm_id m)"

lemma rt_to_msg_chain_msg:
  assumes "rt_to_msg st env msg chain timeout = Inr (st', m)"
  shows "chain_msg m"
proof (cases "chain_type chain")
  case (Ibc i)
  with assms show ?thesis
    by (auto simp: rt_to_msg_def HubIbc_to_msg_def chain_msg_def sends_defs)
next
  case NativeChain
  with assms obtain q where push: "queue_push (fst HUB_IBC_EXECUTE_MSG_QUEUE_RANGE) (snd HUB_IBC_EXECUTE_MSG_QUEUE_RANGE)
      (HUB_QUEUE st) msg = Inr (q, sm_id m)" and m: "\<exists>a x. sm_msg m = Wasm_Execute a (To_Factory x) []"
    by (auto simp: rt_to_msg_def HubIbc_to_msg_def ok_simps submsg_defs)
  have "1001 \<le> sm_id m"
    using hub_queue.push_id_in_range [OF push] by (simp add: HUB_IBC_EXECUTE_MSG_QUEUE_RANGE_def)
  then have "sm_id m \<noteq> 1" "sm_id m \<noteq> 4" "sm_id m \<noteq> 5" "sm_id m \<noteq> 6" by (auto simp: word_le_nat_alt)
  with m show ?thesis by (auto simp: chain_msg_def sends_defs)
qed

lemma release_loop_chain_msgs:
  assumes "release_loop env s tk to as rem tr st msgs = Inr (rem', tr', st', msgs')" and "\<forall>m\<in>set msgs. chain_msg m"
  shows "\<forall>m\<in>set msgs'. chain_msg m"
  using assms
proof (induction as arbitrary: rem tr st msgs)
  case (Cons a as)
  have step: "rt_to_msg st1 env msg chain to = Inr p \<Longrightarrow>
      release_loop env s tk to as rem1 tr1 (fst p) (msgs @ [snd p]) = Inr (rem', tr', st', msgs') \<Longrightarrow>
      \<forall>m\<in>set msgs'. chain_msg m" for st1 msg chain p rem1 tr1
    using Cons.IH [of rem1 tr1 "fst p" "msgs @ [snd p]"] Cons.prems(2) rt_to_msg_chain_msg [of st1 env msg chain to "fst p" "snd p"]
    by auto
  show ?case
  proof (cases "rem = 0")
    case True
    with Cons.prems show ?thesis by auto
  next
    case False
    from Cons.prems(1) show ?thesis
      unfolding release_loop.simps if_not_P [OF False] Let_def split_beta bindR_eq_Inr
      using Cons.IH [OF _ Cons.prems(2)] step by (elim exE conjE) (auto simp only: bindR_eq_Inr split: if_splits)
  qed
qed auto

lemma release_escrow_sends:
  assumes "execute_release_escrow q st env info sender tk amt addrs to tx = Inr (st', r)"
  shows "sends 1 st r st'"
proof (rule release_escrow_okE [OF assms])
  fix state vb bal w timeout rem tr msgs
  assume state: "RT_STATE st = Some state" "rs_virtual_balance_address state = Some vb"
    and loop: "release_loop env sender tk timeout addrs w 0 st [] = Inr (rem, tr, st', msgs)"
    and r: "r = \<lparr>r_messages = (if tr \<noteq> 0 then [burn_msg vb sender tk tr] else []) @ msgs, r_data = None\<rparr>"
  have "\<forall>m\<in>set msgs. chain_msg m"
    using release_loop_chain_msgs [OF loop] by simp
  then have msgs: "m \<in> set msgs \<Longrightarrow> to_ledger va m \<and> rank (sm_msg m) = 0 \<and> \<not> self_calling (sm_id m)" for m va
    by (auto simp: chain_msg_def)
  have burn: "to_ledger (Some vb) m \<and> rank (sm_msg m) = 0 \<and> \<not> self_calling (sm_id m)"
    if "m = burn_msg vb sender tk tr" for m
    unfolding that burn_msg_def by (simp add: sends_defs)
  have "RT_STATE st' = RT_STATE st"
    using release_loop_spec [OF loop] by (auto simp: rt_same_def)
  then have "ledger_address st' = Some vb" and "ledger_address st = Some vb"
    using state by (simp_all add: ledger_address_def)
  then show ?thesis
    using msgs burn by (auto simp: sends_def r split: if_splits)
qed

lemma add_escrow_ledger: "add_escrow st tk u a = Inr st' \<Longrightarrow> ledger_address st' = ledger_address st"
  using add_escrow_books(2) ledger_address_other(2) by metis

lemma add_escrow_state: "add_escrow st tk u a = Inr st' \<Longrightarrow> RT_STATE st' = RT_STATE st"
  by (auto simp: add_escrow_def bindR_eq_Inr)

lemma swap_sends:
  assumes "ibc_execute_swap st msg = Inr (st', r)"
  shows "sends (3 + length (csw_swaps msg)) st r st'"
proof -
  let ?k = "(ccu_chain_uid (csw_sender msg), ccu_address (csw_sender msg), csw_tx_id msg)"
  from assms obtain state vb v vs tf swap_vlps where
      state: "RT_STATE st = Some state" "rs_virtual_balance_address state = Some vb"
    and pairs: "validate_swap_pairs (st\<lparr>SWAP_ID_TO_MSG := map_save (SWAP_ID_TO_MSG st) ?k msg\<rparr>) (csw_swaps msg) = Inr swap_vlps"
    and "split_first swap_vlps = Some (v, vs)"
    and esc: "add_escrow (st\<lparr>SWAP_ID_TO_MSG := map_save (SWAP_ID_TO_MSG st) ?k msg\<rparr>) (csw_asset_in msg)
          (ccu_chain_uid (csw_sender msg)) (csw_amount_in msg) = Inr st'"
    and r: "r_messages r = [reply_always (mint_for_vlp vb vsl (nsv_vlp_address v) (csw_asset_in msg) (csw_amount_in msg))
        VIRTUAL_BALANCE_MINT_REPLY_ID, reply_always (Wasm_Execute (nsv_vlp_address v)
             (To_Vlp (VLP_Swap (csw_sender msg) (csw_tx_id msg) (csw_asset_in msg) (csw_amount_in msg)
                (csw_min_amount_out msg) vs tf)) []) SWAP_REPLY_ID]"
    unfolding ibc_execute_swap_def Let_def split_beta vsl_chain_uid_ok bindR_Inr bindR_eq_Inr ensure_eq_Inr
      map_err_eq_Inr ok_or_eq_Inr item_load_eq_Inr
    by auto
  have "length swap_vlps = length (csw_swaps msg)"
    using pairs by (auto simp: validate_swap_pairs_def ok_simps list_all2_lengthD)
  moreover have "length swap_vlps = Suc (length vs)"
    using \<open>split_first _ = _\<close> by (cases swap_vlps) (auto simp: split_first_def)
  ultimately show ?thesis
    using state add_escrow_ledger [OF esc] by (auto simp: r sends_defs mint_for_vlp_def)
qed

lemma add_liquidity_sends:
  assumes "ibc_execute_add_liquidity q st sender a1 a2 tol pair tx = Inr (st', r)"
  shows "sends 3 st r st'"
proof -
  from assms obtain state vb v st1 and liq :: GetLiquidityResponse where
      e1: "add_escrow st (pair_token_1 (glr_pair liq)) (ccu_chain_uid sender) a1 = Inr st1"
    and e2: "add_escrow st1 (pair_token_2 (glr_pair liq)) (ccu_chain_uid sender) a2 = Inr st'"
    and state: "RT_STATE st' = Some state" "rs_virtual_balance_address state = Some vb"
    and r: "r_messages r = [reply_on_error (mint_for_vlp vb vsl v (pair_token_1 (glr_pair liq)) a1) VIRTUAL_BALANCE_MINT_REPLY_ID,
      reply_on_error (mint_for_vlp vb vsl v (pair_token_2 (glr_pair liq)) a2) VIRTUAL_BALANCE_MINT_REPLY_ID,
      reply_always (Wasm_Execute v (To_Vlp (VLP_AddLiquidity sender tx a1 a2 tol)) []) ADD_LIQUIDITY_REPLY_ID]"
    unfolding ibc_execute_add_liquidity_def Let_def split_beta vsl_chain_uid_ok bindR_Inr bindR_eq_Inr ensure_eq_Inr
      ok_or_eq_Inr item_load_eq_Inr
    by auto
  have "ledger_address st' = ledger_address st"
    using add_escrow_ledger [OF e1] add_escrow_ledger [OF e2] by simp
  moreover have "ledger_address st' = Some vb" using state by simp
  ultimately show ?thesis
    by (auto simp: r sends_defs mint_for_vlp_def)
qed

lemma internal_call_sends:
  assumes "reusable_internal_call q st env msg u = Inr (st', r)"
  shows "sends (3 + chain_rank (Json_ChainIbc msg)) st r st'"
proof (cases msg)
  case (CI_RequestPoolCreation s tx pair)
  with assms show ?thesis
    by (auto simp: reusable_internal_call_def execute_request_pool_creation_def Let_def bindR_eq_Inr ensure_eq_Inr
        ok_or_eq_Inr item_load_eq_Inr chain_rank_def sends_defs split: option.splits)
next
  case (CI_RequestEscrowCreation s tx tk)
  with assms show ?thesis
    by (auto simp: reusable_internal_call_def execute_request_escrow_creation_def bindR_eq_Inr ensure_eq_Inr sends_def)
next
  case (CI_AddLiquidity s a1 a2 tol pair tx)
  with assms add_liquidity_sends show ?thesis
    by (auto simp: reusable_internal_call_def bindR_eq_Inr ensure_eq_Inr chain_rank_def)
next
  case (CI_RemoveLiquidity m)
  with assms show ?thesis
    by (auto simp: reusable_internal_call_def ibc_execute_remove_liquidity_def Let_def bindR_eq_Inr ensure_eq_Inr
        chain_rank_def sends_defs)
next
  case (CI_Swap m)
  with assms swap_sends show ?thesis
    by (auto simp: reusable_internal_call_def bindR_eq_Inr ensure_eq_Inr chain_rank_def)
next
  case (CI_Withdraw m)
  with assms show ?thesis
    by (auto simp: reusable_internal_call_def bindR_eq_Inr ensure_eq_Inr chain_rank_def sends_defs release_internal_def)
qed

definition sends_quietly :: "nat \<Rightarrow> rt_storage \<Rightarrow> Response \<Rightarrow> rt_storage \<Rightarrow> bool" where
  "sends_quietly k st r st' \<longleftrightarrow> ledger_address st' = ledger_address st
     \<and> (\<forall>m\<in>set (r_messages r). to_ledger (ledger_address st) m \<and> rank (sm_msg m) \<le> k \<and> sm_reply_on m = ReplyNever \<and> sm_id m = 0)"

lemma sends_quietly_sends: "sends_quietly k st r st' \<Longrightarrow> k < k' \<Longrightarrow> sends k' st r st'"
  by (auto simp: sends_quietly_def sends_def self_calling_def rt_reply_ids)

lemma ack_sends:
  "ibc_ack_register_factory st u c res = Inr (st', r) \<Longrightarrow> sends_quietly 0 st r st'"
  "ibc_ack_update_factory_channel st u c res = Inr (st', r) \<Longrightarrow> sends_quietly 0 st r st'"
  by (cases res; cases c; auto simp: ibc_ack_register_factory_def ibc_ack_update_factory_channel_def Let_def
      bindR_eq_Inr old_channel_Inr sends_quietly_def)+

lemma ack_release_sends:
  "ibc_ack_release_escrow st u s a tk res = Inr (st', r) \<Longrightarrow> sends_quietly 0 st r st'"
  by (cases res) (auto simp: ibc_ack_release_escrow_def bindR_eq_Inr Let_def ok_or_eq_Inr
        item_load_eq_Inr sends_quietly_def sends_defs)

lemma internal_ack_sends:
  "reusable_internal_ack_call st msg ack c = Inr (st', r) \<Longrightarrow> sends_quietly 0 st r st'"
  by (cases msg) (auto simp: reusable_internal_ack_call_def bindR_eq_Inr intro: ack_sends ack_release_sends)

lemma admin_sends:
  "execute_update_vlp_code_id st info c = Inr (st', r) \<Longrightarrow> sends_quietly 0 st r st'"
  "execute_update_lock st info = Inr (st', r) \<Longrightarrow> sends_quietly 0 st r st'"
  "execute_deregister_chain st info u = Inr (st', r) \<Longrightarrow> sends_quietly 0 st r st'"
  "execute_reregister_chain st info u = Inr (st', r) \<Longrightarrow> sends_quietly 0 st r st'"
  by (auto simp: execute_update_vlp_code_id_def execute_update_lock_def execute_deregister_chain_def
      execute_reregister_chain_def bindR_eq_Inr ensure_eq_Inr sends_quietly_def item_load_eq_Inr)

lemma register_factory_sends:
  assumes "execute_register_factory st env info u c = Inr (st', r)"
  shows "sends 3 st r st'"
proof (cases c)
  case (RegisterNative f)
  with assms obtain s msg chain p where msg: "rt_to_msg (fst (rt_generate_tx st env s)) env msg chain 0 = Inr p"
    and "st' = fst p" and r: "r = \<lparr>r_messages = [snd p], r_data = None\<rparr>"
    unfolding execute_register_factory_def Let_def split_beta bindR_eq_Inr ensure_eq_Inr
    by (auto simp: bindR_eq_Inr)
  then have "rt_to_msg (fst (rt_generate_tx st env s)) env msg chain 0 = Inr (st', snd p)" by simp
  note this [THEN rt_to_msg_chain_msg] this [THEN rt_to_msg_keeps(1)]
  then have "chain_msg (snd p)" and "ledger_address st' = ledger_address st"
    using ledger_address_other(8,11) by metis+
  then show ?thesis
    by (simp add: r sends_def chain_msg_def)
next
  case (RegisterIbc ch to)
  with assms show ?thesis
    unfolding execute_register_factory_def Let_def split_beta bindR_eq_Inr ensure_eq_Inr
    by (auto simp: sends_defs bindR_eq_Inr)
qed

lemma update_channel_sends:
  "execute_update_factory_channel st env info ch u = Inr (st', r) \<Longrightarrow> sends 3 st r st'"
  unfolding execute_update_factory_channel_def Let_def split_beta bindR_eq_Inr ensure_eq_Inr
  by (auto simp: sends_defs bindR_eq_Inr split: if_splits)

lemma voucher_sends:
  "execute_withdraw_voucher st env info tk a as to = Inr (st', r) \<Longrightarrow> sends 2 st r st'"
  unfolding execute_withdraw_voucher_def Let_def split_beta bindR_eq_Inr
  by (auto simp: sends_defs release_internal_def)

lemma callback_sends:
  "ibc_receive_internal_call ql st env p = Inr (st', r) \<Longrightarrow> sends (3 + chain_rank (packet_data p)) st r st'"
  "execute_native_receive_callback ql st env info u m = Inr (st', r) \<Longrightarrow> sends (3 + chain_rank m) st r st'"
  "ibc_ack_packet_internal_call st a = Inr (st', r) \<Longrightarrow> sends_quietly 0 st r st'"
  by (auto simp: ibc_receive_internal_call_def execute_native_receive_callback_def ibc_ack_packet_internal_call_def
      bindR_eq_Inr ensure_eq_Inr from_json_Inr dest: internal_call_sends internal_ack_sends)

lemma rt_execute_sends:
  assumes "rt_execute qv ql st env info msg = Inr (st', r)"
  shows "sends (rank (Wasm_Execute a (To_Router msg) funds)) st r st'"
proof -
  obtain state where state: "RT_STATE st = Some state"
    using assms by (auto simp: rt_execute_def ok_simps)
  show ?thesis
    using assms
    by (cases msg; cases "rs_locked state")
       (auto simp: rt_execute_def state dest: callback_sends release_escrow_sends
         intro: register_factory_sends update_channel_sends voucher_sends sends_quietly_sends [OF admin_sends(1)]
         sends_quietly_sends [OF admin_sends(2)] sends_quietly_sends [OF admin_sends(3)]
         sends_quietly_sends [OF admin_sends(4)] sends_quietly_sends [OF callback_sends(3)])
qed

lemma native_reply_sends:
  assumes "on_reply_native_ibc_wrapper_call st msg = Inr (st', r)"
  shows "sends_quietly 0 st r st'"
proof -
  from assms obtain q m ack where "reusable_internal_ack_call (st\<lparr>HUB_QUEUE := q\<rparr>) m ack NativeChain = Inr (st', r)"
    by (cases "reply_result msg") (auto simp: on_reply_native_ibc_wrapper_call_def bindR_eq_Inr Let_def)
  from internal_ack_sends [OF this] show ?thesis
    by (simp add: sends_quietly_def)
qed

lemma reply_sends:
  "on_pool_register_reply st msg = Inr (st', r) \<Longrightarrow> sends_quietly 0 st r st'"
  "on_add_liquidity_reply st msg = Inr (st', r) \<Longrightarrow> sends_quietly 0 st r st'"
  "on_remove_liquidity_reply st env msg = Inr (st', r) \<Longrightarrow> sends_quietly 1 st r st'"
  "on_swap_reply st env msg = Inr (st', r) \<Longrightarrow> sends_quietly 1 st r st'"
  "on_virtual_balance_mint_reply st msg = Inr (st', r) \<Longrightarrow> sends_quietly 0 st r st'"
  "on_virtual_balance_burn_reply st msg = Inr (st', r) \<Longrightarrow> sends_quietly 0 st r st'"
  "rt_on_virtual_balance_transfer_reply st msg = Inr (st', r) \<Longrightarrow> sends_quietly 0 st r st'"
  "on_ibc_ack_and_timeout_reply st msg = Inr (st', r) \<Longrightarrow> sends_quietly 0 st r st'"
  "on_ibc_receive_reply st msg = Inr (st', r) \<Longrightarrow> sends_quietly 0 st r st'"
  by (auto simp: on_pool_register_reply_def on_add_liquidity_reply_def on_remove_liquidity_reply_def on_swap_reply_def
      on_virtual_balance_mint_reply_def on_virtual_balance_burn_reply_def
      rt_on_virtual_balance_transfer_reply_def on_ibc_ack_and_timeout_reply_def on_ibc_receive_reply_def
      bindR_eq_Inr ensure_eq_Inr Let_def sends_quietly_def sends_defs release_internal_def split: SubMsgResult.splits)

lemma vlp_instantiate_reply_Inr:
  assumes "on_vlp_instantiate_reply ql st msg = Inr (st', r)"
  obtains a d liq where "reply_result msg = SubMsgOk (Some (Pb_Instantiate a d))" and "ql a = Inr liq"
    and "st' = st\<lparr>VLPS := map_save (VLPS st) (pair_token_1 (glr_pair liq), pair_token_2 (glr_pair liq)) a\<rparr>"
    and "r = (case from_json_pool_creation (unwrap_or d default_binary) of
        Inr p \<Rightarrow> set_data (Json_Ack (AckOk (PoolCreated p))) Response_new | Inl _ \<Rightarrow> Response_new)"
proof -
  obtain o1 where ok: "reply_result msg = SubMsgOk o1"
    using assms by (cases "reply_result msg") (auto simp: on_vlp_instantiate_reply_def)
  let ?st = "\<lambda>liq a. st\<lparr>VLPS := map_save (VLPS st) (pair_token_1 (glr_pair liq), pair_token_2 (glr_pair liq)) a\<rparr>"
  from assms obtain p and liq :: GetLiquidityResponse where
      parse: "parse_reply_instantiate_data msg = Inr p" and q: "ql (fst p) = Inr liq"
    and res: "(case from_json_pool_creation (unwrap_or (snd p) default_binary) of
        Inr x \<Rightarrow> Ok (?st liq (fst p), set_data (Json_Ack (AckOk (PoolCreated x))) Response_new)
      | Inl _ \<Rightarrow> Ok (?st liq (fst p), Response_new)) = Inr (st', r)"
    unfolding on_vlp_instantiate_reply_def ok SubMsgResult.case Let_def split_beta bindR_eq_Inr lift_err_eq_Inr by blast
  obtain a d where p: "p = (a, d)" by (cases p)
  from parse ok p have "reply_result msg = SubMsgOk (Some (Pb_Instantiate a d))"
    by (auto simp: parse_reply_instantiate_data_def split: option.splits binary.splits)
  then show thesis
    using that [of a d liq] q res
    by (cases "from_json_pool_creation (unwrap_or d default_binary)") (auto simp: p)
qed

lemma rt_reply_sends:
  assumes "rt_reply av ql st env msg = Inr (st', r)" and "reply_id msg \<noteq> VIRTUAL_BALANCE_INSTANTIATE_REPLY_ID"
  shows "sends_quietly (if self_calling (reply_id msg) then 1 else 0) st r st'"
proof -
  have vlp: "on_vlp_instantiate_reply ql st msg = Inr (st', r) \<Longrightarrow> sends_quietly 0 st r st'"
    by (erule vlp_instantiate_reply_Inr) (auto simp: sends_quietly_def split: sum.splits)
  show ?thesis
    using assms unfolding rt_reply_def self_calling_def
    by (auto simp: rt_reply_ids HUB_IBC_EXECUTE_MSG_QUEUE_RANGE_def split: if_splits dest: vlp native_reply_sends reply_sends)
qed

section \<open>What the pools and the ledger send\<close>

lemma vb_execute_silent: "vb_execute st info m = Inr (st', r) \<Longrightarrow> r = Response_new"
  by (cases m) (auto simp: mint_ok_iff burn_ok_iff transfer_ok_iff)

lemma vlp_reply_silent: "vlp_reply st msg = Inr (st', r) \<Longrightarrow> st' = st \<and> r_messages r = []"
  by (cases "reply_result msg")
     (auto simp: vlp_reply_def on_virtual_balance_transfer_reply_def on_next_swap_reply_def bindR_eq_Inr split: if_splits)

lemma vlp_instantiate_silent: "vlp_instantiate env info m = Inr (st', r) \<Longrightarrow> r_messages r = []"
  by (auto simp: vlp_instantiate_def register_pool_def Let_def bindR_eq_Inr ensure_eq_Inr split: option.splits vlp_ExecuteMsg.splits)

lemma execute_swap_messages:
  assumes "execute_swap M q st env sender a x min_out tx vs tf = Inr (st', r)"
  obtains state ef out fees fee_msgs out_msgs where "VLP_STATE st = Some state"
    and "collect_euclid_fee state env vsl a ef = Inr (fees, fee_msgs)"
    and "deliver_swap state env vsl sender (get_other_token (vlp_pair state) a) out min_out tx vs = Inr out_msgs"
    and "r_messages r = fee_msgs @ out_msgs"
  using assms unfolding execute_swap_def Let_def split_beta vsl_chain_uid_ok bindR_Inr bindR_eq_Inr ensure_eq_Inr item_load_eq_Inr
  by (elim exE conjE) (auto elim!: that)

lemma collect_fee_messages:
  "collect_euclid_fee state env u a ef = Inr (fees, ms) \<Longrightarrow> m \<in> set ms \<Longrightarrow>
     m = reply_on_error (pool_transfer state env u a ef (fee_recipient (vlp_fee state))) VIRTUAL_BALANCE_TRANSFER_REPLY_ID"
  by (cases "ef = 0") (auto simp: collect_euclid_fee_def Let_def bindR_eq_Inr)

lemma deliver_swap_messages:
  assumes "deliver_swap state env u sender b out min_out tx vs = Inr ms"
  obtains "vs = []" and "min_out \<le> out"
    and "ms = [reply_on_error (pool_transfer state env u b out sender) VIRTUAL_BALANCE_TRANSFER_REPLY_ID]"
  | v vs' where "vs = v # vs'"
    and "ms = [reply_on_error (pool_transfer state env u b out \<lparr>ccu_chain_uid = u, ccu_address = nsv_vlp_address v\<rparr>)
        VIRTUAL_BALANCE_TRANSFER_REPLY_ID,
      reply_always (Wasm_Execute (nsv_vlp_address v) (To_Vlp (VLP_Swap sender tx b out min_out vs' (nsv_test_fail v))) [])
        NEXT_SWAP_REPLY_ID]"
  using assms by (cases vs) (auto simp: deliver_swap_def ensure_eq_Inr)

lemma rank_transfers [simp]:
  "rank (pool_transfer state env u t x to) = 0" "rank (create_virtual_balance_transfer_msg t va x from_user to) = 0"
  by (simp_all add: pool_transfer_def create_virtual_balance_transfer_msg_def)

lemma vlp_execute_rank:
  assumes "vlp_execute M q st env info m = Inr (st', r)" and "x \<in> set (r_messages r)"
  shows "rank (sm_msg x) < rank (Wasm_Execute a (To_Vlp m) f)"
proof (cases m)
  case (VLP_Swap sender tx b amount min_out vs tf)
  with assms(1) have "execute_swap M q st env sender b amount min_out tx vs tf = Inr (st', r)" by simp
  then show ?thesis
  proof (rule execute_swap_messages)
    fix state ef out fees fee_msgs out_msgs
    assume fee: "collect_euclid_fee state env vsl b ef = Inr (fees, fee_msgs)"
      and out: "deliver_swap state env vsl sender (get_other_token (vlp_pair state) b) out min_out tx vs = Inr out_msgs"
      and "r_messages r = fee_msgs @ out_msgs"
    then consider "x \<in> set fee_msgs" | "x \<in> set out_msgs" using assms(2) by auto
    then show ?thesis
    proof cases
      case 1
      from collect_fee_messages [OF fee 1] show ?thesis by (simp add: VLP_Swap submsg_defs)
    next
      case 2
      from out show ?thesis
        by (rule deliver_swap_messages) (use 2 in \<open>auto simp: VLP_Swap submsg_defs\<close>)
    qed
  qed
next
  case (VLP_RemoveLiquidity s tx lp)
  with assms show ?thesis
    by (auto simp: remove_liquidity_def Let_def bindR_eq_Inr ensure_eq_Inr submsg_defs)
next
  case (VLP_AddLiquidity s tx a1 a2 tol)
  with assms show ?thesis
    by (auto simp: add_liquidity_def Let_def bindR_eq_Inr ensure_eq_Inr)
qed (use assms in \<open>auto simp: register_pool_def update_fee_def Let_def bindR_eq_Inr ensure_eq_Inr\<close>)

section \<open>Every message has an outcome\<close>

text \<open>
  A message that a contract may use to call the router or a pool. Contracts outside the hub that do not do so: they may send
  funds and packets, call the ledger, instantiate contracts and call each other, to a depth of at most \<open>D\<close>.
\<close>

fun enters :: "CosmosMsg \<Rightarrow> bool" where
  "enters (Wasm_Execute _ (To_Router _) _) = True"
| "enters (Wasm_Execute _ (To_Vlp _) _) = True"
| "enters _ = False"

definition no_callbacks :: "('d, 'e) host \<Rightarrow> nat \<Rightarrow> bool" where
  "no_callbacks c D \<longleftrightarrow> (\<exists>depth. (\<forall>m. depth m \<le> D) \<and>
     (\<forall>h s m calls d. host_outside c h s m = Inr (calls, d) \<longrightarrow> (\<forall>x\<in>set calls. \<not> enters x \<and> depth x < depth m)))"

text \<open>The replies to the messages \<open>ms\<close> of a contract send only messages of rank at most \<open>j\<close> and expect no replies.\<close>

definition calm :: "('d, 'e) host \<Rightarrow> nat \<Rightarrow> addr \<Rightarrow> SubMsg list \<Rightarrow> bool" where
  "calm c j self ms \<longleftrightarrow>
     (\<forall>m\<in>set ms. rank (sm_msg m) \<le> j
        \<and> (\<forall>h rep h' r. reply_id rep = sm_id m \<longrightarrow> reply_call c h self rep = Inr (h', r) \<longrightarrow>
             (\<forall>x\<in>set (r_messages r). rank (sm_msg x) \<le> j \<and> sm_reply_on x = ReplyNever)))"

lemma handle_quiet_defined:
  assumes "\<And>n h m. N \<le> n \<Longrightarrow> P m \<Longrightarrow> exec c n h self m \<noteq> None" and "Suc N \<le> n"
    and "\<forall>m\<in>set ms. P (sm_msg m) \<and> sm_reply_on m = ReplyNever"
  shows "handle c n h self ms d \<noteq> None"
  using assms(3)
proof (induction ms arbitrary: h d)
  case (Cons m ms)
  obtain k where n: "n = Suc k" "N \<le> k" using assms(2) by (cases n) auto
  obtain out where out: "exec c k h self (sm_msg m) = Some out"
    using assms(1) [OF n(2), of "sm_msg m" h] Cons.prems by auto
  have "after c h self m out = Inr (h', r) \<Longrightarrow> r_messages r = []" for h' r
    using Cons.prems by (auto simp: after_def split: sum.splits)
  with Cons show ?case
    by (auto simp: n(1) out bind_run_None simp del: not_None_eq)
qed simp

lemma calm_after:
  assumes "calm c j self (m # ms)" and "after c h self m out = Inr (h', r)"
  shows "\<forall>x\<in>set (r_messages r). rank (sm_msg x) \<le> j \<and> sm_reply_on x = ReplyNever"
proof -
  have "\<forall>x\<in>set (r_messages r). rank (sm_msg x) \<le> j \<and> sm_reply_on x = ReplyNever"
    if "reply_call c h1 self \<lparr>reply_id = sm_id m, reply_result = res\<rparr> = Inr (h', r)" for h1 res
    using assms(1) that unfolding calm_def by (metis Reply.select_convs(1) list.set_intros(1))
  with assms(2) show ?thesis
    by (cases out) (auto simp: after_def split: if_splits)
qed

lemma handle_defined:
  assumes exec: "\<And>n h m. N \<le> n \<Longrightarrow> rank m \<le> j \<Longrightarrow> exec c n h self m \<noteq> None" and "Suc (Suc N) \<le> n"
    and "calm c j self ms"
  shows "handle c n h self ms d \<noteq> None"
  using assms(3)
proof (induction ms arbitrary: h d)
  case (Cons m ms)
  obtain k where n: "n = Suc k" "Suc N \<le> k" using assms(2) by (cases n) auto
  obtain out where out: "exec c k h self (sm_msg m) = Some out"
    using exec [of k "sm_msg m" h] n(2) Cons.prems by (auto simp: calm_def)
  have "handle c k h' self (r_messages r) (r_data r) \<noteq> None" if "after c h self m out = Inr (h', r)" for h' r
    using handle_quiet_defined [where P = "\<lambda>m. rank m \<le> j", OF exec n(2) calm_after [OF Cons.prems that]] .
  moreover have "calm c j self ms" using Cons.prems by (simp add: calm_def)
  ultimately show ?case
    using Cons.IH by (auto simp: n(1) out bind_run_None simp del: not_None_eq)
qed simp

lemma reply_call_silent:
  "self \<noteq> host_router c \<Longrightarrow> reply_call c h self rep = Inr (h', r) \<Longrightarrow> r_messages r = []"
  by (auto simp: reply_call_def bindR_eq_Inr dest: vlp_reply_silent)

lemma reply_call_router:
  assumes "reply_call c h (host_router c) rep = Inr (h', r)" and "reply_id rep \<noteq> VIRTUAL_BALANCE_INSTANTIATE_REPLY_ID"
  shows "sends_quietly (if self_calling (reply_id rep) then 1 else 0) (h_router h) r (h_router h')"
  using assms by (auto simp: reply_call_def bindR_eq_Inr dest: rt_reply_sends)

lemma sends_calm:
  assumes "sends (Suc j) st r st'"
  shows "calm c j (host_router c) (r_messages r)"
proof -
  have "rank (sm_msg x) \<le> j \<and> sm_reply_on x = ReplyNever"
    if m: "m \<in> set (r_messages r)" and rep: "reply_id rep = sm_id m" "reply_call c h (host_router c) rep = Inr (h', r')"
      and x: "x \<in> set (r_messages r')" for m h rep h' r' x
  proof -
    have "sm_id m \<noteq> VIRTUAL_BALANCE_INSTANTIATE_REPLY_ID" and "j = 0 \<Longrightarrow> \<not> self_calling (sm_id m)"
      using assms m by (auto simp: sends_def to_ledger_def)
    with reply_call_router [OF rep(2)] x have "rank (sm_msg x) \<le> (if self_calling (sm_id m) then 1 else 0)"
        and "sm_reply_on x = ReplyNever"
      by (auto simp: rep(1) sends_quietly_def)
    with \<open>j = 0 \<Longrightarrow> _\<close> show ?thesis by (cases j) (auto split: if_splits)
  qed
  with assms show ?thesis by (auto simp: calm_def sends_def)
qed

text \<open>What contracts outside cause ends.\<close>

lemma go_outside_messages:
  assumes "\<forall>h s m calls d. host_outside c h s m = Inr (calls, d) \<longrightarrow> (\<forall>x\<in>set calls. Q m x)"
    and "go_outside c h s msg = Inr (h', a, r)" and "y \<in> set (r_messages r)"
  shows "Q msg (sm_msg y) \<and> sm_reply_on y = ReplyNever"
  using assms by (cases msg) (auto simp: go_outside_def bindR_eq_Inr submsg_defs, blast)

lemma create_pool_silent: "create_pool c h info m = Inr (h', a, r) \<Longrightarrow> r_messages r = []"
  by (auto simp: create_pool_def Let_def bindR_eq_Inr ensure_eq_Inr dest: vlp_instantiate_silent)

lemma start_cases:
  assumes "start c h s msg = Inr (h', self, r)"
  obtains a m f where "msg = Wasm_Execute a m f" and "self = a"
      and "contract_call c h a \<lparr>info_sender = s, info_funds = f\<rparr> m = Inr (h', r)"
  | "go_outside c h s msg = Inr (h', self, r)"
  | "r_messages r = []"
  using assms
  by (auto simp: start_def bindR_eq_Inr dest: create_pool_silent split: CosmosMsg.splits wasm_instantiate_msg.splits if_splits)

lemma contract_call_silent: "contract_call c h a info m = Inr (h', r) \<Longrightarrow> \<not> enters (Wasm_Execute a m f) \<Longrightarrow> r_messages r = []"
  by (cases m) (auto simp: contract_call_def bindR_eq_Inr split: if_splits dest: vb_execute_silent)

lemma outside_defined:
  assumes "\<forall>h s m calls d. host_outside c h s m = Inr (calls, d) \<longrightarrow> (\<forall>x\<in>set calls. \<not> enters x \<and> depth x < depth m)"
    and "\<not> enters msg" and "2 * depth msg < n"
  shows "exec c n h s msg \<noteq> None"
  using assms(2,3)
proof (induction "depth msg" arbitrary: msg n h s rule: less_induct)
  case less
  obtain k where n: "n = Suc k" using less.prems by (cases n) auto
  have "handle c k h' self (r_messages r) (r_data r) \<noteq> None" if "start c h s msg = Inr (h', self, r)" for h' self r
    using that
  proof (cases rule: start_cases)
    case (1 a m f)
    with contract_call_silent [OF 1(3)] less.prems(1) have "r_messages r = []" by blast
    then show ?thesis by simp
  next
    case 2
    note calls = go_outside_messages [where Q = "\<lambda>m x. \<not> enters x \<and> depth x < depth m", OF assms(1) 2]
    show ?thesis
    proof (cases "r_messages r")
      case (Cons y ys)
      with calls [of y] obtain e where e: "depth msg = Suc e" by (cases "depth msg") auto
      show ?thesis
      proof (rule handle_quiet_defined [of "Suc (2 * e)" "\<lambda>x. \<not> enters x \<and> depth x \<le> e"])
        show "exec c n h self x \<noteq> None" if "Suc (2 * e) \<le> n" "\<not> enters x \<and> depth x \<le> e" for n h x
          using less.hyps [of x n h self] that e by simp
      qed (use less.prems(2) n e calls in \<open>auto simp: less_Suc_eq_le\<close>)
    qed simp
  qed simp
  then show ?case by (auto simp: n bind_run_None simp del: not_None_eq)
qed

lemma contract_call_calm:
  assumes "contract_call c h a info m = Inr (h', r)"
  shows "(r_messages r = [] \<or> 0 < rank (Wasm_Execute a m f)) \<and> calm c (rank (Wasm_Execute a m f) - 1) a (r_messages r)"
proof -
  consider "a = host_router c" | "a \<noteq> host_router c" "a = host_vb c" | "a \<noteq> host_router c" "a \<noteq> host_vb c" by blast
  then show ?thesis
  proof cases
    case 1
    with assms obtain x where m: "m = To_Router x" and
      "rt_execute (ask_balance c h) (ask_liquidity c h) (h_router h) (env_at c a) info x = Inr (h_router h', r)"
      by (cases m) (auto simp: contract_call_def bindR_eq_Inr)
    note send = rt_execute_sends [OF this(2), of a f]
    have "0 < rank (Wasm_Execute a (To_Router x) f)" by (cases x) simp_all
    with sends_calm [of "rank (Wasm_Execute a (To_Router x) f) - 1"] send show ?thesis by (simp add: m 1)
  next
    case 2
    with assms have "r = Response_new"
      by (cases m) (auto simp: contract_call_def bindR_eq_Inr dest: vb_execute_silent)
    then show ?thesis by (simp add: calm_def)
  next
    case 3
    with assms obtain x st st' where m: "m = To_Vlp x"
      and "vlp_execute (host_math c) (ask_balance c h) st (env_at c a) info x = Inr (st', r)"
      by (cases m) (auto simp: contract_call_def bindR_eq_Inr)
    note rank = vlp_execute_rank [OF this(2), of _ a f]
    then have "rank (sm_msg y) \<le> rank (Wasm_Execute a m f) - 1" if "y \<in> set (r_messages r)" for y
      using that by (fastforce simp: m)
    moreover have "0 < rank (Wasm_Execute a (To_Vlp x) f)" by (cases x) simp_all
    ultimately show ?thesis
      using reply_call_silent [OF 3(1)] by (fastforce simp: m calm_def)
  qed
qed

lemma exec_defined:
  assumes "no_callbacks c D" and "3 * rank msg + 2 * D < n"
  shows "exec c n h s msg \<noteq> None"
  using assms(2)
proof (induction "rank msg" arbitrary: msg n h s rule: less_induct)
  case less
  obtain depth where le: "\<forall>m. depth m \<le> D"
    and outside: "\<forall>h s m calls d. host_outside c h s m = Inr (calls, d) \<longrightarrow> (\<forall>x\<in>set calls. \<not> enters x \<and> depth x < depth m)"
    using assms(1) unfolding no_callbacks_def by blast
  obtain k where n: "n = Suc k" using less.prems by (cases n) auto
  have "handle c k h' self (r_messages r) (r_data r) \<noteq> None" if "start c h s msg = Inr (h', self, r)" for h' self r
    using that
  proof (cases rule: start_cases)
    case (1 a m f)
    note calm = contract_call_calm [OF 1(3), of f, folded 1(1)]
    show ?thesis
    proof (cases "rank msg")
      case (Suc j)
      show ?thesis
      proof (rule handle_defined [of "Suc (3 * j + 2 * D)" j])
        show "exec c n h self m \<noteq> None" if "Suc (3 * j + 2 * D) \<le> n" "rank m \<le> j" for n h m
          using less.hyps [of m n] that Suc by simp
        show "calm c j self (r_messages r)" using calm by (simp add: Suc 1(2))
      qed (use less.prems n Suc in simp)
    qed (use calm in simp)
  next
    case 2
    note calls = go_outside_messages [where Q = "\<lambda>m x. \<not> enters x \<and> depth x < depth m", OF outside 2]
    show ?thesis
    proof (cases "r_messages r")
      case (Cons y ys)
      with calls [of y] le obtain e where D: "D = Suc e" by (cases D) (auto dest: spec [of _ msg])
      show ?thesis
      proof (rule handle_quiet_defined [of "Suc (2 * e)" "\<lambda>x. \<not> enters x \<and> depth x \<le> e"])
        show "exec c n h self x \<noteq> None" if "Suc (2 * e) \<le> n" "\<not> enters x \<and> depth x \<le> e" for n h x
          using outside_defined [OF outside, of x n h self] that by simp
        show "\<forall>m\<in>set (r_messages r). (\<not> enters (sm_msg m) \<and> depth (sm_msg m) \<le> e) \<and> sm_reply_on m = ReplyNever"
          using calls le [rule_format, of msg] D by fastforce
      qed (use less.prems n D in simp)
    qed simp
  qed simp
  then show ?case by (auto simp: n bind_run_None simp del: not_None_eq)
qed

end
