(* ===== verification/Hub_Ledger.thy ===== *)
theory Hub_Ledger
  imports Hub_Exec
begin

text \<open>
  The books of the running hub. Between the router's decision and the ledger's execution of its messages the two
  differ by the messages that are still to run; the lemmas follow that difference through calls, replies, failures
  and calls back from outside. At the end of a transaction nothing is owed.
\<close>

section \<open>What is owed\<close>

text \<open>What a ledger message issues when the router orders it; what transfers to oneself have created.\<close>

fun issue :: "vb_ExecuteMsg \<Rightarrow> string \<Rightarrow> int" where
  "issue (VB_Transfer m) t = 0"
| "issue m t = hub.issued m t"

fun inflation :: "vb_ExecuteMsg \<Rightarrow> string \<Rightarrow> nat" where
  "inflation (VB_Transfer m) t = minted_by (VB_Transfer m) t"
| "inflation m t = 0"

definition self_minted :: "hub \<Rightarrow> string \<Rightarrow> nat" where
  "self_minted h t = (\<Sum>m\<leftarrow>h_log h. inflation m t)"

definition excess :: "hub \<Rightarrow> string \<Rightarrow> int" where
  "excess h t = hub.gap (h_router h) (h_vb h) t - int (self_minted h t)"

definition due :: "('d, 'e) host \<Rightarrow> addr \<Rightarrow> CosmosMsg \<Rightarrow> string \<Rightarrow> int" where
  "due c s msg t = (if s = host_router c then (\<Sum>m\<leftarrow>vb_msg_of msg. issue m t) else 0)"

definition outstanding :: "('d, 'e) host \<Rightarrow> addr \<Rightarrow> SubMsg list \<Rightarrow> string \<Rightarrow> int" where
  "outstanding c s ms t = (\<Sum>m\<leftarrow>ms. due c s (sm_msg m) t)"

lemma outstanding_simps [simp]:
  "outstanding c s [] t = 0" "outstanding c s (m # ms) t = due c s (sm_msg m) t + outstanding c s ms t"
  "s \<noteq> host_router c \<Longrightarrow> due c s msg t = 0" "s \<noteq> host_router c \<Longrightarrow> outstanding c s ms t = 0"
  by (simp_all add: outstanding_def due_def)

text \<open>The two contracts know each other, and the router's ledger messages are in order.\<close>

definition linked :: "('d, 'e) host \<Rightarrow> hub \<Rightarrow> bool" where
  "linked c h \<longleftrightarrow> ledger_address (h_router h) = Some (host_vb c)
     \<and> (\<exists>s. VB_STATE (h_vb h) = Some s \<and> vbs_router s = host_router c)"

definition orders :: "('d, 'e) host \<Rightarrow> addr \<Rightarrow> SubMsg list \<Rightarrow> bool" where
  "orders c self ms \<longleftrightarrow> (self = host_router c \<longrightarrow> (\<forall>m\<in>set ms. to_ledger (Some (host_vb c)) m))"

lemma orders_simps [simp]:
  "orders c self []" "self \<noteq> host_router c \<Longrightarrow> orders c self ms"
  by (auto simp: orders_def)

lemma orders_Cons: "orders c self (m # ms) \<Longrightarrow> orders c self [m] \<and> orders c self ms"
  by (auto simp: orders_def)

lemma outstanding_vb_msgs:
  assumes "\<forall>m\<in>set (r_messages r). to_ledger va m"
  shows "outstanding c (host_router c) (r_messages r) t = (\<Sum>m\<leftarrow>vb_msgs r. hub.issued m t)"
proof -
  have "(\<Sum>m\<leftarrow>ms. due c (host_router c) (sm_msg m) t) = (\<Sum>x\<leftarrow>concat (map (\<lambda>m. vb_msg_of (sm_msg m)) ms). hub.issued x t)"
    if "\<forall>m\<in>set ms. to_ledger va m" for ms
    using that
  proof (induction ms)
    case (Cons m ms)
    have "due c (host_router c) (sm_msg m) t = (\<Sum>x\<leftarrow>vb_msg_of (sm_msg m). hub.issued x t)"
    proof (cases "vb_msg_of (sm_msg m)")
      case (Cons x xs)
      then obtain a f where m: "sm_msg m = Wasm_Execute a (To_VirtualBalance x) f" and "xs = []"
        by (cases "sm_msg m" rule: vb_msg_of.cases) auto
      moreover have "x \<noteq> VB_Transfer y" for y using Cons.prems m by (auto simp: to_ledger_def)
      ultimately show ?thesis by (cases x) (auto simp: due_def)
    qed (simp add: due_def)
    with Cons show ?case by simp
  qed simp
  from this [OF assms] show ?thesis by (simp add: outstanding_def vb_msgs_def)
qed

section \<open>One step\<close>

text \<open>A step of the router, at a call or a reply, owes what it records.\<close>

lemma router_step:
  assumes "linked c h" and "rt_step (h_router h) r st"
    and "ledger_address st = ledger_address (h_router h)"
    and "\<forall>m\<in>set (r_messages r). to_ledger (ledger_address (h_router h)) m"
  shows "linked c (h\<lparr>h_router := st\<rparr>) \<and> orders c (host_router c) (r_messages r)
     \<and> excess (h\<lparr>h_router := st\<rparr>) t + outstanding c (host_router c) (r_messages r) t = excess h t"
proof -
  have "hub.gap st v t + (\<Sum>m\<leftarrow>vb_msgs r. hub.issued m t) = hub.gap (h_router h) v t" for v
    using assms(2) by (intro hub.custodian_gap) blast
  with assms outstanding_vb_msgs [OF assms(4), of c t] show ?thesis
    by (simp add: linked_def orders_def excess_def self_minted_def)
qed

lemma ledger_step:
  assumes "linked c h" and "vb_execute (h_vb h) info m = Inr (st, r)"
  shows "linked c (h\<lparr>h_vb := st, h_log := h_log h @ [m]\<rparr>)
     \<and> excess (h\<lparr>h_vb := st, h_log := h_log h @ [m]\<rparr>) t = excess h t + (if info_sender info = host_router c then issue m t else 0)"
proof -
  obtain s where s: "VB_STATE (h_vb h) = Some s" "vbs_router s = host_router c"
    using assms(1) by (auto simp: linked_def)
  have "VB_STATE st = VB_STATE (h_vb h)"
    using assms(2) by (cases m) (auto simp: mint_ok_iff burn_ok_iff transfer_ok_iff)
  moreover have "issue m t = 0" if "info_sender info \<noteq> host_router c"
    using assms(2) s that by (cases m) (auto simp: mint_ok_iff burn_ok_iff hub.issued_def)
  moreover have "hub.gap g st t = hub.gap g (h_vb h) t + hub.issued m t" for g
    using assms(2) by (intro hub.issuer_gap) blast
  moreover have "hub.issued m t = issue m t + int (inflation m t)"
    by (cases m) (simp_all add: hub.issued_def)
  ultimately show ?thesis
    using assms(1) by (auto simp: linked_def excess_def self_minted_def)
qed

lemma pool_step [simp]:
  "linked c (h\<lparr>h_pools := p\<rparr>) = linked c h" "excess (h\<lparr>h_pools := p\<rparr>) t = excess h t"
  by (simp_all add: linked_def excess_def self_minted_def)

lemma contract_call_step:
  assumes "linked c h" and "contract_call c h a info m = Inr (h', r)"
  shows "linked c h' \<and> orders c a (r_messages r)
     \<and> excess h' t + outstanding c a (r_messages r) t = excess h t
        + (if info_sender info = host_router c \<and> a = host_vb c then (\<Sum>x\<leftarrow>vb_msg_of (Wasm_Execute a m f). issue x t) else 0)"
proof -
  consider "a = host_router c" | "a \<noteq> host_router c" "a = host_vb c" | "a \<noteq> host_router c" "a \<noteq> host_vb c" by blast
  then show ?thesis
  proof cases
    case 1
    with assms(2) obtain x st where m: "m = To_Router x" and h': "h' = h\<lparr>h_router := st\<rparr>" and
      ex: "rt_execute (ask_balance c h) (ask_liquidity c h) (h_router h) (env_at c a) info x = Inr (st, r)"
      by (cases m) (auto simp: contract_call_def bindR_eq_Inr)
    have "ledger_address st = ledger_address (h_router h)"
      "\<forall>m\<in>set (r_messages r). to_ledger (ledger_address (h_router h)) m"
      using rt_execute_sends [OF ex] by (auto simp: sends_def)
    from router_step [OF assms(1) rt_step.executed [OF ex] this] show ?thesis by (simp add: m h' 1)
  next
    case 2
    with assms(2) obtain x st where m: "m = To_VirtualBalance x" and h': "h' = h\<lparr>h_vb := st, h_log := h_log h @ [x]\<rparr>"
      and ex: "vb_execute (h_vb h) info x = Inr (st, r)"
      by (cases m) (auto simp: contract_call_def bindR_eq_Inr)
    from ledger_step [OF assms(1) ex, of t] 2(1) show ?thesis
      by (simp add: 2(2) [symmetric] m h')
  next
    case 3
    with assms obtain p where "h' = h\<lparr>h_pools := p\<rparr>"
      by (cases m) (auto simp: contract_call_def bindR_eq_Inr)
    with 3 assms(1) show ?thesis by simp
  qed
qed

lemma start_step:
  assumes "linked c h" and "start c h s msg = Inr (h', self, r)"
    and "orders c s [m]" and "sm_msg m = msg"
  shows "linked c h' \<and> orders c self (r_messages r) \<and> excess h' t + outstanding c self (r_messages r) t = excess h t + due c s msg t"
proof -
  have to_vb: "a = host_vb c" if "s = host_router c" and "msg = Wasm_Execute a (To_VirtualBalance x) f" for a x f
    using assms(3,4) that by (auto simp: orders_def to_ledger_def)
  consider a x f where "msg = Wasm_Execute a x f" "in_hub c h a" "self = a"
      "contract_call c h a \<lparr>info_sender = s, info_funds = f\<rparr> x = Inr (h', r)"
    | info m where "create_pool c h info m = Inr (h', self, r)" "vb_msg_of msg = []"
    | a x f where "msg = Wasm_Execute a x f" "\<not> in_hub c h a" "go_outside c h s msg = Inr (h', self, r)"
    | "vb_msg_of msg = []" "\<forall>a x f. msg \<noteq> Wasm_Execute a x f" "go_outside c h s msg = Inr (h', self, r)"
    using assms(2)
    by (auto simp: start_def bindR_eq_Inr split: CosmosMsg.splits wasm_instantiate_msg.splits if_splits)
  then show ?thesis
  proof cases
    case 1
    have "due c s msg t = (if s = host_router c \<and> a = host_vb c then (\<Sum>x\<leftarrow>vb_msg_of msg. issue x t) else 0)"
    proof (cases "\<exists>y. x = To_VirtualBalance y")
      case True
      with to_vb 1(1) show ?thesis by (auto simp: due_def)
    next
      case False
      then have "vb_msg_of msg = []" using 1(1) by (cases x) auto
      then show ?thesis by (simp add: due_def)
    qed
    with contract_call_step [OF assms(1) 1(4), of t f] show ?thesis
      by (simp add: 1(1,3))
  next
    case 2
    then have "self \<noteq> host_router c" and "\<exists>p. h' = h\<lparr>h_pools := p\<rparr>"
      by (auto simp: create_pool_def Let_def bindR_eq_Inr ensure_eq_Inr in_hub_def)
    with assms(1) 2(2) show ?thesis by (auto simp: due_def)
  next
    case 3
    then have "h' = h" "self = a" by (auto simp: go_outside_def bindR_eq_Inr)
    moreover have "a \<noteq> host_router c" "a \<noteq> host_vb c" using 3(2) by (auto simp: in_hub_def)
    moreover have "due c s msg t = 0"
      using to_vb \<open>a \<noteq> host_vb c\<close> by (cases x) (auto simp: due_def 3(1))
    ultimately show ?thesis using assms(1) by simp
  next
    case 4
    then have "h' = h" "r_messages r = []" by (cases msg; auto simp: go_outside_def bindR_eq_Inr)+
    with assms(1) 4(1) show ?thesis by (simp add: due_def)
  qed
qed

lemma reply_step:
  assumes "linked c h" and "reply_call c h self rep = Inr (h', r)"
    and "self = host_router c \<Longrightarrow> reply_id rep \<noteq> VIRTUAL_BALANCE_INSTANTIATE_REPLY_ID"
  shows "linked c h' \<and> orders c self (r_messages r) \<and> excess h' t + outstanding c self (r_messages r) t = excess h t"
proof (cases "self = host_router c")
  case True
  with assms(2) obtain st where h': "h' = h\<lparr>h_router := st\<rparr>"
    and ex: "rt_reply (host_validate c) (ask_liquidity c h) (h_router h) (env_at c self) rep = Inr (st, r)"
    by (auto simp: reply_call_def bindR_eq_Inr)
  have "ledger_address st = ledger_address (h_router h)"
      "\<forall>m\<in>set (r_messages r). to_ledger (ledger_address (h_router h)) m"
    using rt_reply_sends [OF ex assms(3) [OF True]] by (auto simp: sends_quietly_def)
  from router_step [OF assms(1) rt_step.replied [OF ex] this] True show ?thesis by (simp add: h')
next
  case False
  with assms(1,2) show ?thesis by (auto simp: reply_call_def bindR_eq_Inr)
qed

lemma ledger_reply_strict:
  assumes "to_ledger va m" and "sm_msg m = Wasm_Execute a (To_VirtualBalance x) f" and "sm_reply_on m \<noteq> ReplyNever"
  shows "reply_call c h (host_router c) \<lparr>reply_id = sm_id m, reply_result = SubMsgErr e\<rparr> \<noteq> Inr res"
proof -
  have "sm_id m = VIRTUAL_BALANCE_MINT_REPLY_ID \<or> sm_id m = VIRTUAL_BALANCE_BURN_REPLY_ID"
    using assms by (auto simp: to_ledger_def)
  then show ?thesis
    by (auto simp: reply_call_def rt_reply_def rt_reply_ids HUB_IBC_EXECUTE_MSG_QUEUE_RANGE_def on_virtual_balance_mint_reply_def
        on_virtual_balance_burn_reply_def bindR_eq_Inr)
qed

lemma after_step:
  assumes "linked c h" and "orders c self [m]" and "after c h self m out = Inr (h', r)"
    and "\<And>h1 d. out = Inr (h1, d) \<Longrightarrow> linked c h1 \<and> excess h1 t = excess h t + due c self (sm_msg m) t"
  shows "linked c h' \<and> orders c self (r_messages r)
     \<and> excess h' t + outstanding c self (r_messages r) t = excess h t + due c self (sm_msg m) t"
proof -
  have id: "self = host_router c \<Longrightarrow> sm_id m \<noteq> VIRTUAL_BALANCE_INSTANTIATE_REPLY_ID"
    using assms(2) by (simp add: orders_def to_ledger_def)
  show ?thesis
  proof (cases out)
    case (Inl e)
    then have rep: "sm_reply_on m \<noteq> ReplyNever"
      and call: "reply_call c h self \<lparr>reply_id = sm_id m, reply_result = SubMsgErr (host_text c e)\<rparr> = Inr (h', r)"
      using assms(3) by (auto simp: after_def split: if_splits)
    have "due c self (sm_msg m) t = 0"
    proof (cases "self = host_router c \<and> vb_msg_of (sm_msg m) \<noteq> []")
      case True
      then obtain a x f where "sm_msg m = Wasm_Execute a (To_VirtualBalance x) f"
        by (cases "sm_msg m" rule: vb_msg_of.cases) auto
      moreover have "to_ledger (Some (host_vb c)) m" using assms(2) True by (simp add: orders_def)
      ultimately have False using ledger_reply_strict [OF _ _ rep] call True by blast
      then show ?thesis ..
    qed (auto simp: due_def)
    with reply_step [OF assms(1) call, of t] id show ?thesis by simp
  next
    case (Inr p)
    then obtain h1 d where out: "out = Inr (h1, d)" by (cases p) auto
    note h1 = assms(4) [OF out]
    show ?thesis
    proof (cases "sm_reply_on m = ReplyAlways")
      case True
      with assms(3) out have "reply_call c h1 self \<lparr>reply_id = sm_id m, reply_result = SubMsgOk d\<rparr> = Inr (h', r)"
        by (simp add: after_def)
      from reply_step [OF _ this, of t] id h1 show ?thesis by simp
    next
      case False
      with assms(3) out h1 show ?thesis by (auto simp: after_def)
    qed
  qed
qed

section \<open>Whole runs\<close>

lemma run_books:
  "exec c n h s msg = Some (Inr (h', d')) \<Longrightarrow> linked c h \<Longrightarrow> orders c s [m] \<Longrightarrow> sm_msg m = msg \<Longrightarrow>
     linked c h' \<and> excess h' t = excess h t + due c s msg t"
  "handle c n h self ms d = Some (Inr (h', d')) \<Longrightarrow> linked c h \<Longrightarrow> orders c self ms \<Longrightarrow>
     linked c h' \<and> excess h' t = excess h t + outstanding c self ms t"
proof (induction c n h s msg and c n h self ms d arbitrary: m h' d' and h' d' rule: exec_handle.induct)
  case (2 c n h sender msg)
  from 2(2) obtain h1 self r d1 where start: "start c h sender msg = Inr (h1, self, r)"
    and handle: "handle c n h1 self (r_messages r) (r_data r) = Some (Inr (h', d1))"
    unfolding exec_Inr by auto
  note one = start_step [OF 2(3) start 2(4,5), of t]
  have "linked c h' \<and> excess h' t = excess h1 t + outstanding c self (r_messages r) t"
    using 2(1) [of "(h1, self, r)" h1 "(self, r)" self r h' d1] start handle one by simp
  with one show ?case by simp
next
  case (5 c n h self m ms d)
  from 5(4) obtain out h1 r h2 d2 where ex: "exec c n h self (sm_msg m) = Some out" and aft: "after c h self m out = Inr (h1, r)"
    and rep: "handle c n h1 self (r_messages r) (r_data r) = Some (Inr (h2, d2))"
    and rest: "handle c (Suc n) h2 self ms (if d2 = None then d else d2) = Some (Inr (h', d'))"
    unfolding handle_Cons_Inr by auto
  note ord = orders_Cons [OF 5(6)]
  have "linked c h0 \<and> excess h0 t = excess h t + due c self (sm_msg m) t" if "out = Inr (h0, d0)" for h0 d0
    using 5(1) [of h0 d0 m] ex that 5(5) ord by simp
  note one = after_step [OF 5(5) _ aft this]
  have "linked c h1 \<and> orders c self (r_messages r)
     \<and> excess h1 t + outstanding c self (r_messages r) t = excess h t + due c self (sm_msg m) t"
    using ord one by simp
  moreover from this have "linked c h2 \<and> excess h2 t = excess h1 t + outstanding c self (r_messages r) t"
    using 5(2) [OF ex, of "(h1, r)" h1 r h2 d2] aft rep by simp
  moreover from this have "linked c h' \<and> excess h' t = excess h2 t + outstanding c self ms t"
    using 5(3) [OF ex, of "(h1, r)" h1 r "(h2, d2)" h2 d2 h' d'] aft rep rest ord by simp
  ultimately show ?case by simp
qed simp_all

section \<open>Transactions\<close>

text \<open>
  What reaches the hub: a message signed by an account or sent by a contract outside, a packet, an
  acknowledgement, a time-out, and the handshakes of channels.
\<close>

datatype hub_tx =
    Tx_Message addr CosmosMsg
  | Tx_Receive IbcPacket
  | Tx_Ack IbcPacketAckMsg
  | Tx_Timeout IbcPacket
  | Tx_Connect IbcChannel "string option"
  | Tx_Close IbcChannel

definition rt_entry :: "('d, 'e) host \<Rightarrow> nat \<Rightarrow> hub \<Rightarrow> rt_result \<Rightarrow> (hub \<times> binary option) run" where
  "rt_entry c n h res =
     bind_run (Some res) (\<lambda>(st, r). handle c n (h\<lparr>h_router := st\<rparr>) (host_router c) (r_messages r) (r_data r))"

definition rt_channel :: "hub \<Rightarrow> channel_counts result \<Rightarrow> (hub \<times> binary option) run" where
  "rt_channel h res =
     bind_run (Some res) (\<lambda>counts. Some (Ok (h\<lparr>h_router := (h_router h)\<lparr>RT_CHANNELS := counts\<rparr>\<rparr>, None)))"

fun run_tx :: "('d, 'e) host \<Rightarrow> nat \<Rightarrow> hub \<Rightarrow> hub_tx \<Rightarrow> (hub \<times> binary option) run" where
  "run_tx c n h (Tx_Message sender msg) = exec c n h sender msg"
| "run_tx c n h (Tx_Receive p) = rt_entry c n h (ibc_packet_receive (h_router h) (env_at c (host_router c)) p)"
| "run_tx c n h (Tx_Ack a) = rt_entry c n h (ibc_packet_ack (h_router h) (env_at c (host_router c)) a)"
| "run_tx c n h (Tx_Timeout p) = rt_entry c n h (ibc_packet_timeout (h_router h) (env_at c (host_router c)) p)"
| "run_tx c n h (Tx_Connect ch v) = rt_channel h (ibc_channel_connect (RT_CHANNELS (h_router h)) ch v)"
| "run_tx c n h (Tx_Close ch) = rt_channel h (ibc_channel_close (RT_CHANNELS (h_router h)) ch)"

fun tx_rank :: "hub_tx \<Rightarrow> nat" where
  "tx_rank (Tx_Message _ msg) = rank msg"
| "tx_rank (Tx_Receive p) = 5 + chain_rank (packet_data p)"
| "tx_rank _ = 5"

text \<open>A message to the hub comes from outside it, and not from an address that the host keeps for a new contract.\<close>

fun from_outside :: "('d, 'e) host \<Rightarrow> hub \<Rightarrow> hub_tx \<Rightarrow> bool" where
  "from_outside c h (Tx_Message sender _) = (\<not> in_hub c h sender \<and> sender \<notin> range (host_new_address c))"
| "from_outside c h _ = True"

text \<open>The hub after its deployment: the router, the ledger it instantiates, and the reply with the ledger's address.\<close>

definition deploy :: "('d, 'e) host \<Rightarrow> message_info \<Rightarrow> u64 \<Rightarrow> u64 \<Rightarrow> hub result" where
  "deploy c info vlp_code_id virtual_balance_code_id =
     (let env = env_at c (host_router c) in
      bindR (rt_instantiate env info vlp_code_id virtual_balance_code_id) (\<lambda>(rt, _).
      bindR (vb_instantiate \<lparr>info_sender = host_router c, info_funds = []\<rparr> (Some (info_sender info))) (\<lambda>(vb, _).
      bindR (rt_reply (host_validate c) (host_liquidity c) rt env
               \<lparr>reply_id = VIRTUAL_BALANCE_INSTANTIATE_REPLY_ID,
                reply_result = SubMsgOk (Some (Pb_Instantiate (host_vb c) None))\<rparr>) (\<lambda>(rt, _).
      Ok \<lparr>h_router = rt, h_vb = vb, h_pools = [], h_log = []\<rparr>))))"

inductive live :: "('d, 'e) host \<Rightarrow> hub \<Rightarrow> bool" for c where
  deployed: "deploy c info i j = Inr h \<Longrightarrow> live c h"
| ran: "live c h \<Longrightarrow> from_outside c h tx \<Longrightarrow> run_tx c n h tx = Some (Inr (h', d)) \<Longrightarrow> live c h'"

lemma deploy_linked:
  assumes "deploy c info i j = Inr h" and "\<And>a. host_validate c (host_vb c) = Inr a \<Longrightarrow> a = host_vb c"
  shows "linked c h \<and> excess h t = 0"
proof -
  from assms(1) obtain a where "host_validate c (host_vb c) = Inr a"
    and "ledger_address (h_router h) = Some a" and "ESCROW_BALANCES (h_router h) = []"
    and "VB_STATE (h_vb h) = Some \<lparr>vbs_router = host_router c, vbs_admin = info_sender info\<rparr>" "VB_BALANCES (h_vb h) = []" "h_log h = []"
    by (auto simp: deploy_def Let_def rt_instantiate_def vb_instantiate_def rt_reply_def rt_reply_ids
        HUB_IBC_EXECUTE_MSG_QUEUE_RANGE_def on_virtual_balance_instantiate_reply_def parse_reply_instantiate_data_def
        bindR_eq_Inr item_load_def)
  with assms(2) show ?thesis
    by (simp add: linked_def excess_def self_minted_def hub.gap_def vb_supply_def escrow_total_def)
qed

lemma rt_entry_books:
  assumes "rt_entry c n h res = Some (Inr (h', d))" and "linked c h"
    and "\<And>st r. res = Inr (st, r) \<Longrightarrow> sends k (h_router h) r st"
    and "\<And>st r. res = Inr (st, r) \<Longrightarrow> rt_step (h_router h) r st"
  shows "linked c h' \<and> excess h' t = excess h t"
proof -
  from assms(1) obtain st r where res: "res = Inr (st, r)"
    and handle: "handle c n (h\<lparr>h_router := st\<rparr>) (host_router c) (r_messages r) (r_data r) = Some (Inr (h', d))"
    by (auto simp: rt_entry_def bind_run_Inr)
  have "ledger_address st = ledger_address (h_router h)"
      "\<forall>m\<in>set (r_messages r). to_ledger (ledger_address (h_router h)) m"
    using assms(3) [OF res] by (auto simp: sends_def)
  from router_step [OF assms(2) assms(4) [OF res] this, of t] run_books(2) [OF handle, of t] show ?thesis by simp
qed

lemma entry_sends:
  "ibc_packet_receive st env p = Inr (st', r) \<Longrightarrow> sends (4 + chain_rank (packet_data p)) st r st'"
  "ibc_packet_ack st env a = Inr (st', r) \<Longrightarrow> sends 4 st r st'"
  "ibc_packet_timeout st env p = Inr (st', r) \<Longrightarrow> sends 4 st r st'"
  by (auto simp: ibc_packet_receive_def ibc_packet_ack_def ibc_packet_timeout_def Let_def bindR_eq_Inr sends_defs)

lemma run_tx_books:
  assumes "run_tx c n h tx = Some (Inr (h', d))" and "linked c h" and "from_outside c h tx"
  shows "linked c h' \<and> excess h' t = excess h t"
proof (cases tx)
  case (Tx_Message s msg)
  then have "s \<noteq> host_router c" using assms(3) by (simp add: in_hub_def)
  with run_books(1) [of c n h s msg h' d "SubMsg_new msg" t] assms(1,2) Tx_Message show ?thesis
    by (simp add: submsg_defs)
next
  case (Tx_Receive p)
  with assms(1) have "rt_entry c n h (ibc_packet_receive (h_router h) (env_at c (host_router c)) p) = Some (Inr (h', d))" by simp
  from rt_entry_books [OF this assms(2) entry_sends(1) rt_step.received] show ?thesis .
next
  case (Tx_Ack a)
  with assms(1) have "rt_entry c n h (ibc_packet_ack (h_router h) (env_at c (host_router c)) a) = Some (Inr (h', d))" by simp
  from rt_entry_books [OF this assms(2) entry_sends(2) rt_step.acknowledged] show ?thesis .
next
  case (Tx_Timeout p)
  with assms(1) have "rt_entry c n h (ibc_packet_timeout (h_router h) (env_at c (host_router c)) p) = Some (Inr (h', d))" by simp
  from rt_entry_books [OF this assms(2) entry_sends(3) rt_step.timed_out] show ?thesis .
qed (use assms in \<open>auto simp: rt_channel_def bind_run_Inr linked_def excess_def self_minted_def hub.gap_def\<close>)

lemma live_books:
  assumes "live c h" and "\<And>a. host_validate c (host_vb c) = Inr a \<Longrightarrow> a = host_vb c"
  shows "linked c h \<and> excess h t = 0"
  using assms(1)
proof (induction rule: live.induct)
  case (deployed info i j h)
  from deploy_linked [OF this assms(2)] show ?case .
next
  case (ran h tx n h' d)
  with run_tx_books [of c n h tx h' d t] show ?case by simp
qed

section \<open>The bound on the depth\<close>

lemma run_mono:
  "exec c n h s msg = Some out \<Longrightarrow> n \<le> n' \<Longrightarrow> exec c n' h s msg = Some out"
  "handle c n h self ms d = Some out \<Longrightarrow> n \<le> n' \<Longrightarrow> handle c n' h self ms d = Some out"
proof (induction c n h s msg and c n h self ms d arbitrary: n' out and n' out rule: exec_handle.induct)
  case (2 c n h sender msg)
  obtain k where n': "n' = Suc k" "n \<le> k" using 2(3) by (cases n') auto
  have "handle c k h1 self (r_messages r) (r_data r) = handle c n h1 self (r_messages r) (r_data r)"
    if "start c h sender msg = Inr (h1, self, r)" "handle c n h1 self (r_messages r) (r_data r) \<noteq> None" for h1 self r
    using that 2(1) [of "(h1, self, r)" h1 "(self, r)" self r _ k] n'(2) by auto
  with 2(2) show ?case
    by (cases "start c h sender msg") (fastforce simp: n'(1) bind_run_def split: option.splits sum.splits)+
next
  case (5 c n h self m ms d)
  obtain k where n': "n' = Suc k" "n \<le> k" using 5(5) by (cases n') auto
  from 5(4) obtain o1 where ex: "exec c n h self (sm_msg m) = Some o1" by (auto split: option.splits)
  then have ex': "exec c k h self (sm_msg m) = Some o1" using 5(1) n'(2) by blast
  show ?case
  proof (cases "after c h self m o1")
    case (Inl e)
    with 5(4) ex ex' show ?thesis by (simp add: n'(1))
  next
    case (Inr p)
    then obtain h1 r where aft: "after c h self m o1 = Inr (h1, r)" by (cases p) auto
    from 5(4) ex aft obtain o2 where rep: "handle c n h1 self (r_messages r) (r_data r) = Some o2"
      by (auto simp: bind_run_def split: option.splits)
    then have rep': "handle c k h1 self (r_messages r) (r_data r) = Some o2"
      using 5(2) [OF ex, of "(h1, r)" h1 r o2 k] aft n'(2) by simp
    show ?thesis
    proof (cases o2)
      case (Inl e)
      with 5(4) ex ex' rep rep' aft show ?thesis by (auto simp: n'(1))
    next
      case (Inr q)
      then obtain h2 d2 where o2: "o2 = Inr (h2, d2)" by (cases q) auto
      with 5(4) ex aft rep have rest: "handle c (Suc n) h2 self ms (if d2 = None then d else d2) = Some out" by simp
      have "handle c n' h2 self ms (if d2 = None then d else d2) = Some out"
        by (rule 5(3) [OF ex _ _ _ _ rest 5(5)]) (use aft rep o2 in simp_all)
      then show ?thesis
        using ex' rep' aft o2 by (simp add: n'(1))
    qed
  qed
qed simp_all

lemma rt_entry_defined:
  assumes "no_callbacks c D" and "\<And>st r. res = Inr (st, r) \<Longrightarrow> sends (Suc j) (h_router h) r st" and "3 * j + 2 * D + 3 \<le> n"
  shows "rt_entry c n h res \<noteq> None"
proof -
  have "handle c n (h\<lparr>h_router := st\<rparr>) (host_router c) (r_messages r) (r_data r) \<noteq> None" if "res = Inr (st, r)" for st r
  proof (rule handle_defined [of "Suc (3 * j + 2 * D)" j])
    show "Suc (3 * j + 2 * D) \<le> n \<Longrightarrow> rank m \<le> j \<Longrightarrow> exec c n h (host_router c) m \<noteq> None" for n h m
      by (rule exec_defined [OF assms(1)]) simp
  qed (use assms(3) sends_calm [OF assms(2) [OF that]] in simp_all)
  then show ?thesis by (auto simp: rt_entry_def bind_run_None simp del: not_None_eq)
qed

lemma run_tx_defined:
  assumes "no_callbacks c D" and "3 * tx_rank tx + 2 * D < n"
  shows "run_tx c n h tx \<noteq> None"
proof (cases tx)
  case (Tx_Message s msg)
  with assms exec_defined show ?thesis by simp
next
  case (Tx_Receive p)
  with assms rt_entry_defined [OF assms(1), of _ "3 + chain_rank (packet_data p)"] entry_sends(1) show ?thesis by simp
next
  case (Tx_Ack a)
  with assms rt_entry_defined [OF assms(1), of _ 3] entry_sends(2) show ?thesis by simp
next
  case (Tx_Timeout p)
  with assms rt_entry_defined [OF assms(1), of _ 3] entry_sends(3) show ?thesis by simp
qed (auto simp: rt_channel_def bind_run_None)

lemma run_tx_mono: "run_tx c n h tx = Some out \<Longrightarrow> n \<le> n' \<Longrightarrow> run_tx c n' h tx = Some out"
proof (induction tx)
  case (Tx_Message s msg)
  then show ?case using run_mono(1) by simp
qed (auto simp: rt_entry_def bind_run_def split: sum.splits prod.splits dest: run_mono(2))

end
