(* ===== verification/Hub_Routes.thy ===== *)
theory Hub_Routes
  imports Hub_Ledger
begin

text \<open>
  Swaps over several pools, and the acknowledgement of packets. A swap runs through the pools of its route, each
  pool calling the next, and the answer travels back through the replies; the query \<open>simulate_swap\<close> takes the same
  way through queries.
\<close>

section \<open>The route query\<close>

text \<open>The query \<open>simulate_swap\<close> at a pool of the hub, which asks the next pool of the route in turn.\<close>

primrec ask_swap :: "('d, 'e) host \<Rightarrow> hub \<Rightarrow> NextSwapVlp list \<Rightarrow> addr \<Rightarrow> Token \<Rightarrow> uint128 \<Rightarrow> GetSwapResponse result" where
  "ask_swap c h [] = (\<lambda>a t x.
     bindR (map_load (h_pools h) a) (\<lambda>st. query_simulate_swap (host_math c) (\<lambda>_ _ _ _. parse_error) st t x []))"
| "ask_swap c h (v # vs) = (\<lambda>a t x.
     bindR (map_load (h_pools h) a) (\<lambda>st.
     query_simulate_swap (host_math c) (\<lambda>a t x _. ask_swap c h vs a t x) st t x (v # vs)))"

abbreviation route_querier :: "('d, 'e) host \<Rightarrow> hub \<Rightarrow> vlp_querier" where
  "route_querier c h \<equiv> (\<lambda>a t x vs. ask_swap c h vs a t x)"

lemma query_simulate_swap_cong:
  "(\<And>v vs' t x. vs = v # vs' \<Longrightarrow> q (nsv_vlp_address v) t x vs' = q' (nsv_vlp_address v) t x vs') \<Longrightarrow>
     query_simulate_swap M q st t x vs = query_simulate_swap M q' st t x vs"
  by (cases vs) (simp_all add: query_simulate_swap_def)

text \<open>The recursion of \<open>ask_swap\<close> is the one of the contracts.\<close>

lemma ask_swap_unfold:
  "ask_swap c h vs a t x =
     bindR (map_load (h_pools h) a) (\<lambda>st. query_simulate_swap (host_math c) (route_querier c h) st t x vs)"
proof (cases vs)
  case Nil
  then show ?thesis
    by (auto intro!: arg_cong2 [where f = bindR] query_simulate_swap_cong)
next
  case (Cons v vs')
  then show ?thesis
    by (auto intro!: arg_cong2 [where f = bindR] query_simulate_swap_cong)
qed

lemma ask_swap_cong:
  assumes "\<forall>b\<in>set (a # map nsv_vlp_address vs). map_may_load (h_pools h') b = map_may_load (h_pools h) b"
  shows "ask_swap c h' vs a t x = ask_swap c h vs a t x"
  using assms
proof (induction vs arbitrary: a t x)
  case Nil
  then show ?case by (simp add: map_load_def)
next
  case (Cons v vs)
  have "query_simulate_swap (host_math c) (\<lambda>a t x _. ask_swap c h' vs a t x) st t x (v # vs)
      = query_simulate_swap (host_math c) (\<lambda>a t x _. ask_swap c h vs a t x) st t x (v # vs)" for st
    using Cons by (intro query_simulate_swap_cong) auto
  with Cons.prems show ?case by (simp add: map_load_def)
qed

section \<open>Trading along a route\<close>

text \<open>
  What a route pays, pool by pool. A hop pays what the pool quotes for it alone, and leaves the pool with the input, less the
  protocol's fee, and without the output; the next hop finds the pools like this, also when it comes to a pool again.
\<close>

definition hop :: "('d, 'e) cw_math \<Rightarrow> vlp_storage \<Rightarrow> Token \<Rightarrow> uint128 \<Rightarrow> GetSwapResponse result" where
  "hop M st t x = query_simulate_swap M (\<lambda>_ _ _ _. parse_error) st t x []"

definition traded :: "('d, 'e) cw_math \<Rightarrow> vlp_storage \<Rightarrow> Token \<Rightarrow> uint128 \<Rightarrow> GetSwapResponse \<Rightarrow> vlp_storage result" where
  "traded M st t x res =
     bindR (item_load (VLP_STATE st)) (\<lambda>state.
     bindR (checked_mul_floor M x (decimal_bps M (fee_euclid_fee_bps (vlp_fee state)))) (\<lambda>euclid_fee.
     bindR (map_load (VLP_BALANCES st) t) (\<lambda>reserve_in.
     bindR (map_load (VLP_BALANCES st) (gsr_asset_out res)) (\<lambda>reserve_out.
     Ok (st\<lparr>VLP_BALANCES := map_save (map_save (VLP_BALANCES st) t (reserve_in + (x - euclid_fee)))
               (gsr_asset_out res) (reserve_out - gsr_amount_out res)\<rparr>)))))"

fun trade :: "('d, 'e) cw_math \<Rightarrow> (addr, vlp_storage) store \<Rightarrow> NextSwapVlp list \<Rightarrow> addr \<Rightarrow> Token \<Rightarrow> uint128
    \<Rightarrow> GetSwapResponse result" where
  "trade M ps [] a t x = bindR (map_load ps a) (\<lambda>st. hop M st t x)"
| "trade M ps (v # vs) a t x =
     bindR (map_load ps a) (\<lambda>st.
     bindR (hop M st t x) (\<lambda>res.
     bindR (traded M st t x res) (\<lambda>st.
     trade M (map_save ps a st) vs (nsv_vlp_address v) (gsr_asset_out res) (gsr_amount_out res))))"

text \<open>Pools that trade in the same way: the same reserves, pair and fee.\<close>

definition alike :: "vlp_storage \<Rightarrow> vlp_storage \<Rightarrow> bool" where
  "alike st st' \<longleftrightarrow> VLP_BALANCES st' = VLP_BALANCES st
     \<and> map_option (\<lambda>s. (vlp_pair s, vlp_fee s)) (VLP_STATE st') = map_option (\<lambda>s. (vlp_pair s, vlp_fee s)) (VLP_STATE st)"

lemma alike_refl [simp]: "alike st st"
  by (simp add: alike_def)

lemma alikeE:
  assumes "alike st st'"
  obtains "VLP_STATE st = None" and "VLP_STATE st' = None" and "VLP_BALANCES st' = VLP_BALANCES st"
  | s s' where "VLP_STATE st = Some s" and "VLP_STATE st' = Some s'" and "vlp_pair s' = vlp_pair s" and "vlp_fee s' = vlp_fee s"
    and "VLP_BALANCES st' = VLP_BALANCES st"
  using assms by (cases "VLP_STATE st"; cases "VLP_STATE st'") (auto simp: alike_def)

lemma hop_alike: "alike st st' \<Longrightarrow> hop M st' t x = hop M st t x"
  by (erule alikeE) (simp_all add: hop_def query_simulate_swap_def item_load_def Let_def)

lemma traded_alike:
  assumes "alike st st'"
  shows "rel_sum (=) alike (traded M st t x res) (traded M st' t x res)"
  using assms
  by (cases rule: alikeE) (auto simp: traded_def item_load_def bindR_def alike_def split: sum.splits)

lemma trade_alike:
  assumes "\<forall>b. rel_option alike (map_may_load ps b) (map_may_load ps' b)"
  shows "trade M ps' vs a t x = trade M ps vs a t x"
  using assms
proof (induction vs arbitrary: ps ps' a t x)
  case Nil
  from Nil.prems [rule_format, of a] show ?case
    by (cases rule: option.rel_cases) (simp_all add: map_load_def hop_alike)
next
  case (Cons v vs)
  from Cons.prems [rule_format, of a] show ?case
  proof (cases rule: option.rel_cases)
    case None
    then show ?thesis by (simp add: map_load_def)
  next
    case (Some st st')
    have next_hop: "trade M (map_save ps' a q') vs b y z = trade M (map_save ps a q) vs b y z" if "alike q q'" for q q' b y z
      by (rule Cons.IH) (use Cons.prems that in simp)
    have "bindR (traded M st' t x res) (\<lambda>st. trade M (map_save ps' a st) vs b y z)
        = bindR (traded M st t x res) (\<lambda>st. trade M (map_save ps a st) vs b y z)" for res b y z
      using traded_alike [OF Some(3), of M t x res] by (cases rule: rel_sum.cases) (simp_all add: next_hop)
    with Some show ?thesis by (simp add: map_load_def hop_alike)
  qed
qed

text \<open>On a route that visits no pool twice, trading pays what the query says.\<close>

lemma trade_cong:
  assumes "\<forall>b\<in>set (a # map nsv_vlp_address vs). map_may_load ps' b = map_may_load ps b"
  shows "trade M ps' vs a t x = trade M ps vs a t x"
  using assms
proof (induction vs arbitrary: ps ps' a t x)
  case Nil
  then show ?case by (simp add: map_load_def)
next
  case (Cons v vs)
  have "trade M (map_save ps' a st) vs (nsv_vlp_address v) y z = trade M (map_save ps a st) vs (nsv_vlp_address v) y z" for st y z
    by (rule Cons.IH) (use Cons.prems in simp)
  with Cons.prems show ?case by (simp add: map_load_def)
qed

lemma query_simulate_hop:
  "query_simulate_swap M q st t x (v # vs) =
     bindR (hop M st t x) (\<lambda>res. q (nsv_vlp_address v) (gsr_asset_out res) (gsr_amount_out res) vs)"
  by (auto simp: hop_def query_simulate_swap_def bindR_def ensure_def Let_def split: sum.splits)

lemma trade_as_asked:
  assumes "trade (host_math c) (h_pools h) vs a t x = Inr res" and "distinct (a # map nsv_vlp_address vs)"
  shows "ask_swap c h vs a t x = Inr res"
  using assms
proof (induction vs arbitrary: a t x)
  case (Cons v vs)
  from Cons.prems(1) obtain st r st1 where st: "map_load (h_pools h) a = Inr st" and r: "hop (host_math c) st t x = Inr r"
    and rest: "trade (host_math c) (map_save (h_pools h) a st1) vs (nsv_vlp_address v) (gsr_asset_out r) (gsr_amount_out r) = Inr res"
    by (auto simp: bindR_eq_Inr)
  have "trade (host_math c) (map_save (h_pools h) a st1) vs (nsv_vlp_address v) (gsr_asset_out r) (gsr_amount_out r)
      = trade (host_math c) (h_pools h) vs (nsv_vlp_address v) (gsr_asset_out r) (gsr_amount_out r)"
    by (rule trade_cong) (use Cons.prems(2) in auto)
  with rest have "trade (host_math c) (h_pools h) vs (nsv_vlp_address v) (gsr_asset_out r) (gsr_amount_out r) = Inr res" by simp
  with Cons.IH Cons.prems(2) show ?case by (simp add: st query_simulate_hop r)
qed (simp add: hop_def)

section \<open>One hop\<close>

lemma swap_hop:
  assumes "execute_swap M qv st env sender a x min_out tx vs tf = Inr (st', r)"
  obtains state ef out fees fee_msgs out_msgs st1 where "VLP_STATE st = Some state"
    and "collect_euclid_fee state env vsl a ef = Inr (fees, fee_msgs)"
    and "deliver_swap state env vsl sender (get_other_token (vlp_pair state) a) out min_out tx vs = Inr out_msgs"
    and "r = \<lparr>r_messages = fee_msgs @ out_msgs, r_data = Some (Json_VlpSwap \<lparr>vsr_sender = sender, vsr_tx_id = tx,
           vsr_asset_out = get_other_token (vlp_pair state) a, vsr_amount_out = out\<rparr>)\<rparr>"
    and "hop M st a x = Ok \<lparr>gsr_amount_out = out, gsr_asset_out = get_other_token (vlp_pair state) a\<rparr>"
    and "traded M st a x \<lparr>gsr_amount_out = out, gsr_asset_out = get_other_token (vlp_pair state) a\<rparr> = Ok st1" and "alike st1 st'"
    and "map_option vlp_virtual_balance (VLP_STATE st') = Some (vlp_virtual_balance state)"
proof -
  obtain state where state: "VLP_STATE st = Some state"
    using assms unfolding execute_swap_def bindR_eq_Inr ensure_eq_Inr item_load_eq_Inr by blast
  let ?b = "get_other_token (vlp_pair state) a"
  from assms obtain lpf ef tot sw Rin Rout out R Rin' Rout' :: uint128 and lpfs fp ms where
      f: "checked_mul_floor M x (decimal_bps M (fee_lp_fee_bps (vlp_fee state))) = Ok lpf"
         "checked_mul_floor M x (decimal_bps M (fee_euclid_fee_bps (vlp_fee state))) = Ok ef"
    and x: "x \<noteq> 0" "Token_exists a (vlp_pair state)"
    and sw: "checked_add lpf ef = Ok tot" "checked_sub x tot = Ok sw"
    and R: "map_load (VLP_BALANCES st) a = Ok Rin" "map_load (VLP_BALANCES st) ?b = Ok Rout"
    and calc: "calculate_swap sw Rin Rout = Ok out"
    and R': "checked_add Rin sw = Ok R" "checked_add R lpf = Ok Rin'" "checked_sub Rout out = Ok Rout'"
    and fee: "collect_euclid_fee state env vsl a ef = Ok fp"
    and out: "deliver_swap state env vsl sender ?b out min_out tx vs = Ok ms"
    and st': "st' = st\<lparr>VLP_STATE := Some (state\<lparr>vlp_total_fees_collected := \<lparr>tf_lp_fees = lpfs, tf_euclid_fees = fst fp\<rparr>\<rparr>),
           VLP_BALANCES := map_save (map_save (VLP_BALANCES st) a Rin') ?b Rout'\<rparr>"
    and r: "r = \<lparr>r_messages = snd fp @ ms, r_data = Some (Json_VlpSwap \<lparr>vsr_sender = sender, vsr_tx_id = tx,
           vsr_asset_out = ?b, vsr_amount_out = out\<rparr>)\<rparr>"
    unfolding execute_swap_def Let_def state item_load_simps bindR_Inr bindR_eq_Inr ensure_eq_Inr split_beta vsl_chain_uid_ok
    by (elim exE conjE) (rule that, assumption+, erule Inr_inject [THEN Pair_inject], erule sym,
        erule Inr_inject [THEN Pair_inject], hypsubst, simp (no_asm))
  have "Rin' = Rin + (x - ef)" "Rout' = Rout - out"
    using sw R' by (auto simp: checked_add_def checked_sub_def algebra_simps split: if_splits)
  define st1 where "st1 = st\<lparr>VLP_BALANCES := map_save (map_save (VLP_BALANCES st) a Rin') ?b Rout'\<rparr>"
  from \<open>Rin' = _\<close> \<open>Rout' = _\<close> f R have "traded M st a x \<lparr>gsr_amount_out = out, gsr_asset_out = ?b\<rparr> = Ok st1"
    by (simp add: traded_def state st1_def)
  moreover have "hop M st a x = Ok \<lparr>gsr_amount_out = out, gsr_asset_out = ?b\<rparr>"
    using f x sw R calc by (simp add: hop_def query_simulate_swap_def state Let_def)
  ultimately show thesis
    using that [OF state _ out, of ef "fst fp" "snd fp" st1] fee r by (simp add: st' st1_def alike_def state)
qed

section \<open>What the replies leave\<close>

lemma handle_quiet_data:
  assumes "handle c n h self ms d = Some (Inr (h', d'))" and "\<forall>m\<in>set ms. sm_reply_on m = ReplyNever"
  shows "d' = d"
  using assms
proof (induction ms arbitrary: h d)
  case (Cons m ms)
  from Cons.prems(1) show ?case
    unfolding handle_Cons_Inr
    by (elim exE conjE) (rule Cons.IH, use Cons.prems(2) in \<open>auto simp: after_def split: sum.splits\<close>)
qed simp

text \<open>A list of messages, its last one apart.\<close>

lemma handle_append:
  "handle c n h self (ms @ ms') d = bind_run (handle c n h self ms d) (\<lambda>(h, d). handle c n h self ms' d)"
proof (induction ms arbitrary: h d)
  case (Cons m ms)
  then show ?case
    by (cases n) (auto simp: bind_run_def split: option.splits sum.splits prod.splits)
qed simp

lemma handle_single:
  "handle c n h self [m] d = Some (Inr (h2, d2)) \<longleftrightarrow>
     (\<exists>k out h' r d'. n = Suc k \<and> exec c k h self (sm_msg m) = Some out \<and> after c h self m out = Inr (h', r)
        \<and> handle c k h' self (r_messages r) (r_data r) = Some (Inr (h2, d')) \<and> d2 = (if d' = None then d else d'))"
  unfolding handle_Cons_Inr handle.simps option.inject sum.inject prod.inject by blast

section \<open>The route\<close>

text \<open>A pool of the hub that uses its ledger.\<close>

definition hub_pool :: "('d, 'e) host \<Rightarrow> hub \<Rightarrow> addr \<Rightarrow> bool" where
  "hub_pool c h a \<longleftrightarrow> a \<noteq> host_router c \<and> a \<noteq> host_vb c
     \<and> (case map_may_load (h_pools h) a of None \<Rightarrow> False
        | Some st \<Rightarrow> (case VLP_STATE st of None \<Rightarrow> False | Some s \<Rightarrow> vlp_virtual_balance s = host_vb c))"

definition pool_sends :: "('d, 'e) host \<Rightarrow> SubMsg \<Rightarrow> bool" where
  "pool_sends c m \<longleftrightarrow> (\<exists>x. m = reply_on_error (Wasm_Execute (host_vb c) (To_VirtualBalance x) []) VIRTUAL_BALANCE_TRANSFER_REPLY_ID)"

lemma reply_call_transfer_failed:
  "a \<noteq> host_router c \<Longrightarrow>
     reply_call c h a \<lparr>reply_id = VIRTUAL_BALANCE_TRANSFER_REPLY_ID, reply_result = SubMsgErr e\<rparr> \<noteq> Inr p"
  by (auto simp: reply_call_def vlp_reply_def on_virtual_balance_transfer_reply_def bindR_eq_Inr)

lemma exec_ledger:
  assumes "exec c n h s (Wasm_Execute (host_vb c) (To_VirtualBalance x) f) = Some (Inr (h', d))" and "host_vb c \<noteq> host_router c"
  shows "h_pools h' = h_pools h \<and> h_router h' = h_router h"
  using assms
  by (auto simp: exec_Inr start_def in_hub_def contract_call_def bindR_eq_Inr dest!: vb_execute_silent)

lemma handle_transfer:
  assumes "handle c n h a (m # ms) d = Some (Inr res)" and "pool_sends c m"
    and "a \<noteq> host_router c" and "host_vb c \<noteq> host_router c"
  obtains h1 where "h_pools h1 = h_pools h" and "h_router h1 = h_router h" and "handle c n h1 a ms d = Some (Inr res)"
proof -
  obtain x where m: "m = reply_on_error (Wasm_Execute (host_vb c) (To_VirtualBalance x) []) VIRTUAL_BALANCE_TRANSFER_REPLY_ID"
    using assms(2) by (auto simp: pool_sends_def)
  obtain h2 d2 where res: "res = (h2, d2)" by (cases res)
  from assms(1) obtain k out h' r h'' d' where n: "n = Suc k" and ex: "exec c k h a (sm_msg m) = Some out"
    and aft: "after c h a m out = Inr (h', r)" and rep: "handle c k h' a (r_messages r) (r_data r) = Some (Inr (h'', d'))"
    and rest: "handle c n h'' a ms (if d' = None then d else d') = Some (Inr res)"
    unfolding res handle_Cons_Inr by blast
  show thesis
  proof (cases out)
    case (Inl e)
    with aft reply_call_transfer_failed [OF assms(3)] have False by (auto simp: after_def m submsg_defs)
    then show ?thesis ..
  next
    case (Inr p)
    then obtain d1 where "out = Inr (h', d1)" and "r = Response_new"
      using aft by (cases p) (auto simp: after_def m submsg_defs)
    with rep ex exec_ledger [of c k h a x "[]" h' d1] assms(4) that [of h''] rest show ?thesis
      by (simp add: m submsg_defs)
  qed
qed

lemma handle_transfers:
  assumes "handle c n h a (fs @ ms) d = Some (Inr res)" and "\<forall>m\<in>set fs. pool_sends c m"
    and "a \<noteq> host_router c" and "host_vb c \<noteq> host_router c"
  obtains h1 where "h_pools h1 = h_pools h" and "h_router h1 = h_router h" and "handle c n h1 a ms d = Some (Inr res)"
  using assms(1,2)
proof (induction fs arbitrary: h thesis)
  case (Cons m fs)
  from Cons.prems(2,3) obtain h1 where "h_pools h1 = h_pools h" "h_router h1 = h_router h"
    and "handle c n h1 a (fs @ ms) d = Some (Inr res)"
    using handle_transfer [of c n h a m "fs @ ms" d res] assms(3,4) by auto
  with Cons.IH [of h1] Cons.prems(1,3) show ?case by auto
qed simp

lemma pool_transfer_sends:
  "vlp_virtual_balance state = host_vb c \<Longrightarrow>
     pool_sends c (reply_on_error (pool_transfer state env u t x to) VIRTUAL_BALANCE_TRANSFER_REPLY_ID)"
  by (auto simp: pool_sends_def pool_transfer_def)

lemma hub_pool_cong:
  "map_may_load (h_pools h') a = map_may_load (h_pools h) a \<Longrightarrow> hub_pool c h' a = hub_pool c h a"
  by (simp add: hub_pool_def)

text \<open>The reply of a pool to the swap of the next one passes its answer on.\<close>

lemma after_next_swap:
  assumes "after c h a m out = Inr (h', r)" and "a \<noteq> host_router c"
    and "sm_reply_on m = ReplyAlways" and "sm_id m = NEXT_SWAP_REPLY_ID"
  obtains h1 v where "out = Inr (h1, Some (Pb_Execute (Some (Json_VlpSwap v))))" and "h_router h' = h_router h1"
    and "r = set_data (Json_VlpSwap v) Response_new"
proof (cases out)
  case (Inl e)
  with assms have False
    by (auto simp: after_def reply_call_def vlp_reply_def on_next_swap_reply_def VIRTUAL_BALANCE_TRANSFER_REPLY_ID_def
        NEXT_SWAP_REPLY_ID_def bindR_eq_Inr)
  then show ?thesis ..
next
  case (Inr p)
  then obtain h1 d where out: "out = Inr (h1, d)" by (cases p) auto
  from assms obtain st st' where rep: "vlp_reply st \<lparr>reply_id = NEXT_SWAP_REPLY_ID, reply_result = SubMsgOk d\<rparr> = Inr (st', r)"
    and h': "h' = h1\<lparr>h_pools := map_save (h_pools h1) a st'\<rparr>"
    by (auto simp: out after_def reply_call_def bindR_eq_Inr)
  from rep obtain b v where "parse_reply_execute_data \<lparr>reply_id = NEXT_SWAP_REPLY_ID, reply_result = SubMsgOk d\<rparr> = Inr b"
    and v: "unwrap_or b default_binary = Json_VlpSwap v" and r: "r = set_data (Json_VlpSwap v) Response_new"
    by (auto simp: vlp_reply_def on_next_swap_reply_def VIRTUAL_BALANCE_TRANSFER_REPLY_ID_def NEXT_SWAP_REPLY_ID_def
        bindR_eq_Inr lift_err_eq_Inr from_json_Inr)
  then have "d = Some (Pb_Execute b)"
    by (auto simp: parse_reply_execute_data_def parse_execute_response_data_def split: option.splits binary.splits)
  moreover have "b = Some (Json_VlpSwap v)"
    using v by (cases b) (auto simp: default_binary_def)
  ultimately show ?thesis
    using that out h' r by simp
qed

text \<open>A pool that starts a swap pays the fee and goes on to deliver the output.\<close>

lemma exec_swap:
  assumes "exec c n h s (Wasm_Execute a (To_Vlp (VLP_Swap sender tx t x min_out vs tf)) f) = Some (Inr (h', d))"
    and "hub_pool c h a" and vb: "host_vb c \<noteq> host_router c"
  obtains k h1 st' state b out out_msgs d1 where "vlp_virtual_balance state = host_vb c"
    and "h_pools h1 = map_save (h_pools h) a st'" and "h_router h1 = h_router h"
    and "deliver_swap state (env_at c a) vsl sender b out min_out tx vs = Inr out_msgs"
    and "handle c k h1 a out_msgs (Some (Json_VlpSwap
        \<lparr>vsr_sender = sender, vsr_tx_id = tx, vsr_asset_out = b, vsr_amount_out = out\<rparr>)) = Some (Inr (h', d1))"
    and "d = (case d1 of None \<Rightarrow> None | Some _ \<Rightarrow> Some (Pb_Execute d1))"
    and "trade (host_math c) (h_pools h) vs a t x = (case vs of
           v # vs' \<Rightarrow> trade (host_math c) (h_pools h1) vs' (nsv_vlp_address v) b out
         | [] \<Rightarrow> Ok \<lparr>gsr_amount_out = out, gsr_asset_out = b\<rparr>)"
    and "\<And>p. hub_pool c h p \<Longrightarrow> hub_pool c h1 p"
proof -
  let ?m = "To_Vlp (VLP_Swap sender tx t x min_out vs tf)"
  from assms(2) obtain st state where pool: "map_may_load (h_pools h) a = Some st" "VLP_STATE st = Some state"
      "vlp_virtual_balance state = host_vb c" and a: "a \<noteq> host_router c" "a \<noteq> host_vb c"
    by (auto simp: hub_pool_def split: option.splits)
  from assms(1) pool(1) a obtain k h1 r st' d1 where
      swap: "execute_swap (host_math c) (ask_balance c h) st (env_at c a) sender t x min_out tx vs tf = Inr (st', r)"
    and h1: "h1 = h\<lparr>h_pools := map_save (h_pools h) a st'\<rparr>"
    and run: "handle c k h1 a (r_messages r) (r_data r) = Some (Inr (h', d1))" and d: "d = enclose (Wasm_Execute a ?m f) a d1"
    unfolding exec_Inr start_def by (auto simp: in_hub_def contract_call_def bindR_eq_Inr map_load_def map_has_def)
  from swap show thesis
  proof (rule swap_hop)
    fix state' :: vlp_State and ef out fees fee_msgs out_msgs st1
    let ?b = "get_other_token (vlp_pair state') t"
    let ?res = "\<lparr>gsr_amount_out = out, gsr_asset_out = ?b\<rparr>"
    assume st': "VLP_STATE st = Some state'" and fee: "collect_euclid_fee state' (env_at c a) vsl t ef = Inr (fees, fee_msgs)"
      and out: "deliver_swap state' (env_at c a) vsl sender ?b out min_out tx vs = Inr out_msgs"
      and r: "r = \<lparr>r_messages = fee_msgs @ out_msgs, r_data = Some (Json_VlpSwap \<lparr>vsr_sender = sender, vsr_tx_id = tx,
           vsr_asset_out = ?b, vsr_amount_out = out\<rparr>)\<rparr>"
      and hop: "hop (host_math c) st t x = Ok ?res" "traded (host_math c) st t x ?res = Ok st1"
      and st1: "alike st1 st'" "map_option vlp_virtual_balance (VLP_STATE st') = Some (vlp_virtual_balance state')"
    have st: "state' = state" using st' pool(2) by simp
    have "\<forall>m\<in>set fee_msgs. pool_sends c m"
      using collect_fee_messages [OF fee] pool_transfer_sends [OF pool(3)] by (metis st)
    from handle_transfers [OF run [unfolded r Response.select_convs] this a(1) vb] obtain h2 where
        h2: "h_pools h2 = map_save (h_pools h) a st'" "h_router h2 = h_router h" and rest: "handle c k h2 a out_msgs (Some (Json_VlpSwap
        \<lparr>vsr_sender = sender, vsr_tx_id = tx, vsr_asset_out = ?b, vsr_amount_out = out\<rparr>)) = Some (Inr (h', d1))"
      by (auto simp: h1)
    have "trade (host_math c) (map_save (h_pools h) a st1) vs' p y z = trade (host_math c) (h_pools h2) vs' p y z" for vs' p y z
      unfolding h2(1) by (rule trade_alike [symmetric]) (simp add: st1(1) option.rel_refl)
    then have "trade (host_math c) (h_pools h) vs a t x = (case vs of
        v # vs' \<Rightarrow> trade (host_math c) (h_pools h2) vs' (nsv_vlp_address v) ?b out | [] \<Rightarrow> Ok ?res)"
      using pool(1) hop by (cases vs) (simp_all add: map_load_def)
    moreover have "hub_pool c h2 p" if "hub_pool c h p" for p
      using that st1(2) pool(3) by (cases "p = a") (auto simp: hub_pool_def h2(1) st split: option.splits)
    ultimately show thesis
      using that [of state' h2 st' ?b out out_msgs k d1] pool(3) h2 out rest d by (simp add: st enclose_def)
  qed
qed

lemma route_exec:
  assumes "exec c n h s (Wasm_Execute a (To_Vlp (VLP_Swap sender tx t x min_out vs tf)) f) = Some (Inr (h', d))"
    and "\<forall>b\<in>set (a # map nsv_vlp_address vs). hub_pool c h b" and vb: "host_vb c \<noteq> host_router c"
  shows "\<exists>v. d = Some (Pb_Execute (Some (Json_VlpSwap v))) \<and> vsr_sender v = sender \<and> vsr_tx_id v = tx
     \<and> min_out \<le> vsr_amount_out v
     \<and> trade (host_math c) (h_pools h) vs a t x = Ok \<lparr>gsr_amount_out = vsr_amount_out v, gsr_asset_out = vsr_asset_out v\<rparr>
     \<and> h_router h' = h_router h"
  using assms(1,2)
proof (induction vs arbitrary: n h s a t x tf f h' d)
  case Nil
  have a: "a \<noteq> host_router c" using Nil.prems(2) by (simp add: hub_pool_def)
  from Nil.prems(1) show ?case
  proof (rule exec_swap)
    show "hub_pool c h a" using Nil.prems(2) by simp
    fix k h1 st' state b out out_msgs d1
    let ?d = "Some (Json_VlpSwap \<lparr>vsr_sender = sender, vsr_tx_id = tx, vsr_asset_out = b, vsr_amount_out = out\<rparr>)"
    assume state: "vlp_virtual_balance state = host_vb c" and "h_router h1 = h_router h"
      and out: "deliver_swap state (env_at c a) vsl sender b out min_out tx [] = Inr out_msgs"
      and run: "handle c k h1 a out_msgs ?d = Some (Inr (h', d1))"
      and d: "d = (case d1 of None \<Rightarrow> None | Some _ \<Rightarrow> Some (Pb_Execute d1))"
      and sim: "trade (host_math c) (h_pools h) [] a t x = (case [] of
           v # vs' \<Rightarrow> trade (host_math c) (h_pools h1) vs' (nsv_vlp_address v) b out | [] \<Rightarrow> Ok \<lparr>gsr_amount_out = out, gsr_asset_out = b\<rparr>)"
    have "min_out \<le> out" and "out_msgs = [reply_on_error (pool_transfer state (env_at c a) vsl b out sender) VIRTUAL_BALANCE_TRANSFER_REPLY_ID]"
      using out by (auto simp: deliver_swap_def ensure_eq_Inr)
    with handle_transfer [OF _ pool_transfer_sends [OF state] a vb] run obtain h2 where
      "h_router h2 = h_router h1" "handle c k h2 a [] ?d = Some (Inr (h', d1))" by metis
    with \<open>min_out \<le> out\<close> \<open>h_router h1 = _\<close> sim d show ?thesis by auto
  qed (rule vb)
next
  case (Cons v vs)
  have a: "a \<noteq> host_router c" using Cons.prems(2) by (simp add: hub_pool_def)
  from Cons.prems(1) show ?case
  proof (rule exec_swap)
    show "hub_pool c h a" using Cons.prems(2) by simp
    fix k h1 st' state b out out_msgs d1
    let ?d = "Some (Json_VlpSwap \<lparr>vsr_sender = sender, vsr_tx_id = tx, vsr_asset_out = b, vsr_amount_out = out\<rparr>)"
    let ?next = "reply_always (Wasm_Execute (nsv_vlp_address v) (To_Vlp (VLP_Swap sender tx b out min_out vs (nsv_test_fail v))) [])
        NEXT_SWAP_REPLY_ID"
    assume state: "vlp_virtual_balance state = host_vb c" and h1: "h_pools h1 = map_save (h_pools h) a st'" "h_router h1 = h_router h"
      and out: "deliver_swap state (env_at c a) vsl sender b out min_out tx (v # vs) = Inr out_msgs"
      and run: "handle c k h1 a out_msgs ?d = Some (Inr (h', d1))"
      and d: "d = (case d1 of None \<Rightarrow> None | Some _ \<Rightarrow> Some (Pb_Execute d1))"
      and sim: "trade (host_math c) (h_pools h) (v # vs) a t x = (case v # vs of
           v # vs' \<Rightarrow> trade (host_math c) (h_pools h1) vs' (nsv_vlp_address v) b out | [] \<Rightarrow> Ok \<lparr>gsr_amount_out = out, gsr_asset_out = b\<rparr>)"
      and kept: "\<And>p. hub_pool c h p \<Longrightarrow> hub_pool c h1 p"
    have "out_msgs = [reply_on_error (pool_transfer state (env_at c a) vsl b out
          \<lparr>ccu_chain_uid = vsl, ccu_address = nsv_vlp_address v\<rparr>) VIRTUAL_BALANCE_TRANSFER_REPLY_ID, ?next]"
      using out by (simp add: deliver_swap_def)
    with run handle_transfer [OF _ pool_transfer_sends [OF state] a vb, of k h1 "env_at c a" vsl b out _ "[?next]" ?d "(h', d1)"] obtain h2 where
      h2: "h_pools h2 = h_pools h1" "h_router h2 = h_router h1" and "handle c k h2 a [?next] ?d = Some (Inr (h', d1))" by auto
    then obtain k' out' h3 r d2 where ex: "exec c k' h2 a (sm_msg ?next) = Some out'" and aft: "after c h2 a ?next out' = Inr (h3, r)"
      and rep: "handle c k' h3 a (r_messages r) (r_data r) = Some (Inr (h', d2))" and d1: "d1 = (if d2 = None then ?d else d2)"
      unfolding handle_single by blast
    obtain h4 w where out': "out' = Inr (h4, Some (Pb_Execute (Some (Json_VlpSwap w))))" and h3: "h_router h3 = h_router h4"
      and r: "r = set_data (Json_VlpSwap w) Response_new"
      using after_next_swap [OF aft a] by (auto simp: submsg_defs)
    have "\<forall>x\<in>set (nsv_vlp_address v # map nsv_vlp_address vs). hub_pool c h2 x"
      using Cons.prems(2) kept by (simp add: hub_pool_cong [of h2 _ h1] h2(1))
    from Cons.IH [OF _ this, of k' a b out "nsv_test_fail v" "[]"] ex out'
    have "vsr_sender w = sender \<and> vsr_tx_id w = tx \<and> min_out \<le> vsr_amount_out w
       \<and> trade (host_math c) (h_pools h2) vs (nsv_vlp_address v) b out = Ok \<lparr>gsr_amount_out = vsr_amount_out w, gsr_asset_out = vsr_asset_out w\<rparr>
       \<and> h_router h4 = h_router h2"
      by (simp add: submsg_defs)
    moreover have "h' = h3" "d = Some (Pb_Execute (Some (Json_VlpSwap w)))"
      using rep d1 d by (auto simp: r)
    ultimately show ?thesis
      using sim h3 h2 h1(2) by (auto simp del: trade.simps)
  qed (rule vb)
qed

end
