(* ===== verification/Hub_Packets.thy ===== *)
theory Hub_Packets
  imports Hub_Routes
begin

text \<open>
  The acknowledgement of a packet: what a packet makes the hub do, message by message, and what its reply reports.
\<close>

section \<open>A packet is received\<close>

abbreviation callback_msg :: "('d, 'e) host \<Rightarrow> IbcPacket \<Rightarrow> CosmosMsg" where
  "callback_msg c p \<equiv> Wasm_Execute (host_router c) (To_Router (R_IbcCallbackReceive p)) []"

lemma rt_reply_dispatch:
  "reply_id rep = VLP_INSTANTIATE_REPLY_ID \<Longrightarrow> rt_reply av ql st env rep = on_vlp_instantiate_reply ql st rep"
  "reply_id rep = VLP_POOL_REGISTER_REPLY_ID \<Longrightarrow> rt_reply av ql st env rep = on_pool_register_reply st rep"
  "reply_id rep = ADD_LIQUIDITY_REPLY_ID \<Longrightarrow> rt_reply av ql st env rep = on_add_liquidity_reply st rep"
  "reply_id rep = REMOVE_LIQUIDITY_REPLY_ID \<Longrightarrow> rt_reply av ql st env rep = on_remove_liquidity_reply st env rep"
  "reply_id rep = SWAP_REPLY_ID \<Longrightarrow> rt_reply av ql st env rep = on_swap_reply st env rep"
  "reply_id rep = VIRTUAL_BALANCE_MINT_REPLY_ID \<Longrightarrow> rt_reply av ql st env rep = on_virtual_balance_mint_reply st rep"
  "reply_id rep = IBC_RECEIVE_REPLY_ID \<Longrightarrow> rt_reply av ql st env rep = on_ibc_receive_reply st rep"
  by (simp_all add: rt_reply_def rt_reply_ids HUB_IBC_EXECUTE_MSG_QUEUE_RANGE_def word_le_nat_alt)

lemma receive_reply:
  "reply_call c h (host_router c) \<lparr>reply_id = IBC_RECEIVE_REPLY_ID, reply_result = res\<rparr>
     = Ok (h, set_data (case res of SubMsgErr e \<Rightarrow> make_ack_fail e | SubMsgOk d \<Rightarrow> reply_payload d) Response_new)"
  by (cases res) (simp_all add: reply_call_def rt_reply_dispatch on_ibc_receive_reply_def)

lemma run_receive:
  "run_tx c (Suc n) h (Tx_Receive p) =
     (case exec c n h (host_router c) (callback_msg c p) of
        None \<Rightarrow> None
      | Some (Inl e) \<Rightarrow> Some (Ok (h, Some (make_ack_fail (host_text c e))))
      | Some (Inr (h', d)) \<Rightarrow> Some (Ok (h', Some (reply_payload d))))"
  by (auto simp: rt_entry_def ibc_packet_receive_def env_at_def submsg_defs after_def receive_reply split: option.splits sum.splits)

lemma exec_callback:
  assumes "exec c n h s (callback_msg c p) = Some (Inr (h', d))"
  obtains m u st r k d1 where "packet_data p = Json_ChainIbc m"
    and "reusable_internal_call (ask_liquidity c h) (h_router h) (env_at c (host_router c)) m u = Inr (st, r)"
    and "handle c k (h\<lparr>h_router := st\<rparr>) (host_router c) (r_messages r) (r_data r) = Some (Inr (h', d1))"
    and "d = (case d1 of None \<Rightarrow> None | Some _ \<Rightarrow> Some (Pb_Execute d1))"
proof -
  from assms obtain k st r d1 where
      ex: "rt_execute (ask_balance c h) (ask_liquidity c h) (h_router h) (env_at c (host_router c))
        \<lparr>info_sender = s, info_funds = []\<rparr> (R_IbcCallbackReceive p) = Inr (st, r)"
    and run: "handle c k (h\<lparr>h_router := st\<rparr>) (host_router c) (r_messages r) (r_data r) = Some (Inr (h', d1))"
    and d: "d = (case d1 of None \<Rightarrow> None | Some _ \<Rightarrow> Some (Pb_Execute d1))"
    unfolding exec_Inr start_def by (auto simp: in_hub_def contract_call_def bindR_eq_Inr enclose_def)
  from ex obtain state where "RT_STATE (h_router h) = Some state" "\<not> rs_locked state"
    and "ibc_receive_internal_call (ask_liquidity c h) (h_router h) (env_at c (host_router c)) p = Inr (st, r)"
    by (auto simp: rt_execute_def bindR_eq_Inr item_load_eq_Inr split: if_splits)
  then obtain m u where "packet_data p = Json_ChainIbc m"
    and "reusable_internal_call (ask_liquidity c h) (h_router h) (env_at c (host_router c)) m u = Inr (st, r)"
    by (auto simp: ibc_receive_internal_call_def bindR_eq_Inr ensure_eq_Inr from_json_Inr)
  with run d that show thesis by blast
qed

section \<open>The answer\<close>

text \<open>The kind of answer each message of a chain is waiting for.\<close>

fun answers :: "ChainIbcExecuteMsg \<Rightarrow> ack_data \<Rightarrow> bool" where
  "answers (CI_RequestPoolCreation _ _ _) (PoolCreated _) = True"
| "answers (CI_RequestEscrowCreation _ _ _) EscrowCreated = True"
| "answers (CI_AddLiquidity _ _ _ _ _ _) (LiquidityAdded _) = True"
| "answers (CI_RemoveLiquidity _) (LiquidityRemoved _) = True"
| "answers (CI_Swap _) (Swapped _) = True"
| "answers (CI_Withdraw m) (WithdrawAccepted r) = (r = \<lparr>wresp_token = cwd_token m, wresp_tx_id = cwd_tx_id m\<rparr>)"
| "answers _ _ = False"

lemma handle_mint:
  assumes "handle c n h (host_router c) (m # ms) d = Some (Inr res)" and "sm_id m = VIRTUAL_BALANCE_MINT_REPLY_ID"
    and "sm_reply_on m \<noteq> ReplyNever"
  obtains k h1 d1 where "exec c k h (host_router c) (sm_msg m) = Some (Inr (h1, d1))"
    and "handle c n h1 (host_router c) ms d = Some (Inr res)"
proof -
  obtain h2 d2 where res: "res = (h2, d2)" by (cases res)
  from assms(1) obtain k out h' r h'' d' where ex: "exec c k h (host_router c) (sm_msg m) = Some out"
    and aft: "after c h (host_router c) m out = Inr (h', r)"
    and rep: "handle c k h' (host_router c) (r_messages r) (r_data r) = Some (Inr (h'', d'))"
    and rest: "handle c n h'' (host_router c) ms (if d' = None then d else d') = Some (Inr res)"
    unfolding res handle_Cons_Inr by blast
  from aft assms(2,3) obtain d1 where out: "out = Inr (h', d1)" and r: "r = Response_new"
    by (cases out) (auto simp: after_def reply_call_def rt_reply_dispatch on_virtual_balance_mint_reply_def bindR_eq_Inr split: if_splits)
  with that [of k h' d1] ex rep rest show thesis by simp
qed

text \<open>A last message whose reply sets the data.\<close>

lemma handle_answer:
  assumes "handle c n h self [m] d = Some (Inr (h', d'))" and "sm_reply_on m = ReplyAlways"
    and "\<And>h1 res h2 r. reply_call c h1 self \<lparr>reply_id = sm_id m, reply_result = res\<rparr> = Inr (h2, r) \<Longrightarrow>
      (\<exists>b. r_data r = Some b \<and> P b) \<and> (\<forall>x\<in>set (r_messages r). sm_reply_on x = ReplyNever)"
  shows "\<exists>b. d' = Some b \<and> P b"
proof -
  from assms(1) obtain k out h1 r d2 where "after c h self m out = Inr (h1, r)"
    and run: "handle c k h1 self (r_messages r) (r_data r) = Some (Inr (h', d2))" and d': "d' = (if d2 = None then d else d2)"
    unfolding handle_single by blast
  then obtain h0 res where "reply_call c h0 self \<lparr>reply_id = sm_id m, reply_result = res\<rparr> = Inr (h1, r)"
    using assms(2) by (cases out) (auto simp: after_def)
  note r = assms(3) [OF this]
  with handle_quiet_data [OF run] d' show ?thesis by auto
qed

text \<open>The replies of the router that answer a chain.\<close>

lemma answering_replies:
  assumes "reply_call c h (host_router c) rep = Inr (h', r)"
  shows "reply_id rep = VLP_POOL_REGISTER_REPLY_ID \<Longrightarrow> \<exists>x. r = set_data (Json_Ack (AckOk (PoolCreated x))) Response_new"
    and "reply_id rep = ADD_LIQUIDITY_REPLY_ID \<Longrightarrow> \<exists>x. r = set_data (Json_Ack (AckOk (LiquidityAdded x))) Response_new"
    and "reply_id rep = REMOVE_LIQUIDITY_REPLY_ID \<Longrightarrow>
      (\<exists>x. r_data r = Some (Json_Ack (AckOk (LiquidityRemoved x)))) \<and> (\<forall>x\<in>set (r_messages r). sm_reply_on x = ReplyNever)"
    and "reply_id rep = SWAP_REPLY_ID \<Longrightarrow>
      (\<exists>x. r_data r = Some (Json_Ack (AckOk (Swapped x)))) \<and> (\<forall>x\<in>set (r_messages r). sm_reply_on x = ReplyNever)"
  using assms
  by (cases "reply_result rep";
      auto simp: reply_call_def rt_reply_dispatch on_pool_register_reply_def
        on_add_liquidity_reply_def on_remove_liquidity_reply_def on_swap_reply_def bindR_eq_Inr ensure_eq_Inr Let_def submsg_defs)+

lemma pool_created_answer:
  assumes "handle c n h (host_router c) [reply_always (Wasm_Instantiate adm (host_vlp_code c) (New_Vlp im) [] label)
        VLP_INSTANTIATE_REPLY_ID] d = Some (Inr (h', d'))"
    and "vim_execute im = Some (VLP_RegisterPool sender pair tx)"
  shows "\<exists>x. d' = Some (Json_Ack (AckOk (PoolCreated x)))"
proof -
  let ?m = "reply_always (Wasm_Instantiate adm (host_vlp_code c) (New_Vlp im) [] label) VLP_INSTANTIATE_REPLY_ID"
  from assms(1) obtain k out h1 r d2 where ex: "exec c k h (host_router c) (sm_msg ?m) = Some out"
    and aft: "after c h (host_router c) ?m out = Inr (h1, r)"
    and run: "handle c k h1 (host_router c) (r_messages r) (r_data r) = Some (Inr (h', d2))" and d': "d' = (if d2 = None then d else d2)"
    unfolding handle_single by blast
  obtain h0 d0 where out: "out = Inr (h0, d0)"
    using aft by (cases out) (auto simp: after_def reply_call_def rt_reply_dispatch on_vlp_instantiate_reply_def bindR_eq_Inr submsg_defs)
  from ex [unfolded out exec_Inr start_def] obtain k1 h2 a st rr x where
      inst: "vlp_instantiate (env_at c a) \<lparr>info_sender = host_router c, info_funds = []\<rparr> im = Inr (st, rr)"
    and "handle c k1 h2 a (r_messages rr) (r_data rr) = Some (Inr (h0, x))" and d0: "d0 = Some (Pb_Instantiate a x)"
    by (auto simp: submsg_defs create_pool_def Let_def bindR_eq_Inr ensure_eq_Inr enclose_def)
  then have "x = r_data rr"
    using vlp_instantiate_silent [OF inst] by simp
  with inst have "x = Some (Json_PoolCreation \<lparr>pcr_vlp_contract = a\<rparr>)"
    using assms(2) by (auto simp: vlp_instantiate_def register_pool_def Let_def bindR_eq_Inr ensure_eq_Inr env_at_def)
  moreover from aft out d0 obtain ql st st' where "on_vlp_instantiate_reply ql st
      \<lparr>reply_id = VLP_INSTANTIATE_REPLY_ID, reply_result = SubMsgOk (Some (Pb_Instantiate a x))\<rparr> = Inr (st', r)"
    by (auto simp: after_def reply_call_def rt_reply_dispatch bindR_eq_Inr submsg_defs)
  ultimately have "r = set_data (Json_Ack (AckOk (PoolCreated \<lparr>pcr_vlp_contract = a\<rparr>))) Response_new"
    by (auto elim!: vlp_instantiate_reply_Inr)
  with run d' show ?thesis by auto
qed

lemma internal_answer:
  assumes "reusable_internal_call q (h_router h) env m u = Inr (st, r)"
    and "handle c k (h\<lparr>h_router := st\<rparr>) (host_router c) (r_messages r) (r_data r) = Some (Inr (h', d))"
    and "\<And>s u tx p. RT_STATE (h_router h) = Some s \<Longrightarrow> m = CI_RequestPoolCreation u tx p \<Longrightarrow> rs_vlp_code_id s = host_vlp_code c"
  shows "\<exists>b. d = Some b \<and> (\<exists>a. b = Json_Ack (AckOk a) \<and> answers m a)"
proof (cases m)
  case (CI_RequestPoolCreation s tx pair)
  with assms(1) have call: "execute_request_pool_creation (h_router h) env s pair tx = Inr (st, r)"
    by (auto simp: reusable_internal_call_def bindR_eq_Inr ensure_eq_Inr)
  show ?thesis
  proof (cases "map_may_load (VLPS (h_router h)) (get_tupple pair)")
    case None
    with call obtain im adm where
        "r_messages r = [reply_always (Wasm_Instantiate adm (host_vlp_code c) (New_Vlp im) [] ''VLP'') VLP_INSTANTIATE_REPLY_ID]"
      and "vim_execute im = Some (VLP_RegisterPool s pair tx)"
      using assms(3) CI_RequestPoolCreation by (auto simp: execute_request_pool_creation_def Let_def bindR_eq_Inr item_load_eq_Inr)
    with pool_created_answer [of c k "h\<lparr>h_router := st\<rparr>" adm im "''VLP''" "r_data r" h' d s pair tx] assms(2) show ?thesis
      by (auto simp: CI_RequestPoolCreation)
  next
    case (Some a)
    with call have r: "r_messages r = [reply_always (Wasm_Execute a (To_Vlp (VLP_RegisterPool s pair tx)) []) VLP_POOL_REGISTER_REPLY_ID]"
      by (auto simp: execute_request_pool_creation_def Let_def bindR_eq_Inr)
    show ?thesis
      by (rule handle_answer [OF assms(2) [unfolded r]])
         (auto simp: submsg_defs CI_RequestPoolCreation dest!: answering_replies(1))
  qed
next
  case (CI_RequestEscrowCreation s tx tk)
  with assms(1,2) show ?thesis
    by (auto simp: reusable_internal_call_def execute_request_escrow_creation_def bindR_eq_Inr ensure_eq_Inr)
next
  case (CI_AddLiquidity s a1 a2 tol pair tx)
  with assms(1) obtain m1 m2 v where r: "r_messages r = [reply_on_error m1 VIRTUAL_BALANCE_MINT_REPLY_ID,
      reply_on_error m2 VIRTUAL_BALANCE_MINT_REPLY_ID,
      reply_always (Wasm_Execute v (To_Vlp (VLP_AddLiquidity s tx a1 a2 tol)) []) ADD_LIQUIDITY_REPLY_ID]"
    by (auto simp: reusable_internal_call_def ibc_execute_add_liquidity_def Let_def bindR_eq_Inr ensure_eq_Inr)
  obtain h1 where "handle c k h1 (host_router c) [reply_on_error m2 VIRTUAL_BALANCE_MINT_REPLY_ID,
      reply_always (Wasm_Execute v (To_Vlp (VLP_AddLiquidity s tx a1 a2 tol)) []) ADD_LIQUIDITY_REPLY_ID] (r_data r) = Some (Inr (h', d))"
    by (rule handle_mint [OF assms(2) [unfolded r]]) (simp_all add: submsg_defs)
  then obtain h2 where "handle c k h2 (host_router c)
      [reply_always (Wasm_Execute v (To_Vlp (VLP_AddLiquidity s tx a1 a2 tol)) []) ADD_LIQUIDITY_REPLY_ID] (r_data r) = Some (Inr (h', d))"
    by (rule handle_mint) (simp_all add: submsg_defs)
  then show ?thesis
    by (rule handle_answer) (auto simp: submsg_defs CI_AddLiquidity dest!: answering_replies(2))
next
  case (CI_RemoveLiquidity x)
  with assms(1) obtain v where r: "r_messages r =
      [reply_always (Wasm_Execute v (To_Vlp (VLP_RemoveLiquidity (crl_sender x) (crl_tx_id x) (crl_lp_allocation x))) []) REMOVE_LIQUIDITY_REPLY_ID]"
    by (auto simp: reusable_internal_call_def ibc_execute_remove_liquidity_def Let_def bindR_eq_Inr ensure_eq_Inr)
  show ?thesis
    by (rule handle_answer [OF assms(2) [unfolded r]]) (auto simp: submsg_defs CI_RemoveLiquidity dest: answering_replies(3))
next
  case (CI_Swap x)
  with assms(1) obtain m1 m2 where r: "r_messages r = [reply_always m1 VIRTUAL_BALANCE_MINT_REPLY_ID, reply_always m2 SWAP_REPLY_ID]"
    unfolding reusable_internal_call_def ibc_execute_swap_def Let_def split_beta by (auto simp: bindR_eq_Inr ensure_eq_Inr)
  obtain h2 where "handle c k h2 (host_router c) [reply_always m2 SWAP_REPLY_ID] (r_data r) = Some (Inr (h', d))"
    by (rule handle_mint [OF assms(2) [unfolded r]]) (simp_all add: submsg_defs)
  then show ?thesis
    by (rule handle_answer) (auto simp: submsg_defs CI_Swap dest: answering_replies(4))
next
  case (CI_Withdraw x)
  with assms(1) have "r_data r = Some (Json_Ack (AckOk (WithdrawAccepted \<lparr>wresp_token = cwd_token x, wresp_tx_id = cwd_tx_id x\<rparr>)))"
    and "\<forall>m\<in>set (r_messages r). sm_reply_on m = ReplyNever"
    by (auto simp: reusable_internal_call_def bindR_eq_Inr ensure_eq_Inr submsg_defs)
  with handle_quiet_data [OF assms(2)] show ?thesis by (simp add: CI_Withdraw)
qed

section \<open>A swap from a packet\<close>

lemma validate_swap_pairs_other [simp]:
  "validate_swap_pairs (st\<lparr>SWAP_ID_TO_MSG := f\<rparr>) swaps = validate_swap_pairs st swaps"
  by (simp add: validate_swap_pairs_def)

abbreviation swap_key :: "ChainIbcSwapExecuteMsg \<Rightarrow> request_key" where
  "swap_key m \<equiv> (ccu_chain_uid (csw_sender m), ccu_address (csw_sender m), csw_tx_id m)"

abbreviation swap_query :: "ChainIbcSwapExecuteMsg \<Rightarrow> QuerySimulateSwap" where
  "swap_query m \<equiv> \<lparr>qss_asset_in = csw_asset_in m, qss_amount_in = csw_amount_in m, qss_asset_out = csw_asset_out m,
     qss_min_amount_out = csw_min_amount_out m, qss_swaps = csw_swaps m\<rparr>"

lemma swap_call_okE:
  assumes "ibc_execute_swap st m = Inr (st', r)"
  obtains vb v vs where "ledger_address st = Some vb" and "validate_swap_pairs st (csw_swaps m) = Inr (v # vs)"
    and "SWAP_ID_TO_MSG st' = map_save (SWAP_ID_TO_MSG st) (swap_key m) m"
    and "r_messages r = [reply_always (mint_for_vlp vb vsl (nsv_vlp_address v) (csw_asset_in m) (csw_amount_in m))
        VIRTUAL_BALANCE_MINT_REPLY_ID, reply_always (Wasm_Execute (nsv_vlp_address v)
             (To_Vlp (VLP_Swap (csw_sender m) (csw_tx_id m) (csw_asset_in m) (csw_amount_in m)
                (csw_min_amount_out m) vs (nsv_test_fail v))) []) SWAP_REPLY_ID]"
    and "\<And>q. rt_query_simulate_swap q st (swap_query m) =
        bindR (q (nsv_vlp_address v) (csw_asset_in m) (csw_amount_in m) vs) (\<lambda>res.
        ensure (gsr_asset_out res = csw_asset_out m) (Generic ''Invalid Asset OUT after swap'') (Ok res))"
proof -
  from assms obtain f l state vb vlps and p :: "NextSwapVlp \<times> NextSwapVlp list" where
      guards: "slice_first (csw_swaps m) = Some f" "slice_last (csw_swaps m) = Some l"
        "nsp_token_in f = csw_asset_in m" "nsp_token_out l = csw_asset_out m"
    and state: "RT_STATE st = Some state" "rs_virtual_balance_address state = Some vb"
    and pairs: "validate_swap_pairs st (csw_swaps m) = Inr vlps" and p: "split_first vlps = Some p"
    and esc: "add_escrow (st\<lparr>SWAP_ID_TO_MSG := map_save (SWAP_ID_TO_MSG st) (swap_key m) m\<rparr>) (csw_asset_in m)
          (ccu_chain_uid (csw_sender m)) (csw_amount_in m) = Inr st'"
    and r: "r_messages r = [reply_always (mint_for_vlp vb vsl (nsv_vlp_address (fst p)) (csw_asset_in m) (csw_amount_in m))
        VIRTUAL_BALANCE_MINT_REPLY_ID, reply_always (Wasm_Execute (nsv_vlp_address (fst p))
             (To_Vlp (VLP_Swap (csw_sender m) (csw_tx_id m) (csw_asset_in m) (csw_amount_in m)
                (csw_min_amount_out m) (snd p) (nsv_test_fail (fst p)))) []) SWAP_REPLY_ID]"
    unfolding ibc_execute_swap_def Let_def split_beta vsl_chain_uid_ok bindR_Inr bindR_eq_Inr ensure_eq_Inr
      map_err_eq_Inr ok_or_eq_Inr item_load_eq_Inr validate_swap_pairs_other
    by auto
  obtain v vs where vlps: "vlps = v # vs" "p = (v, vs)"
    using p by (cases vlps) (auto simp: split_first_def)
  have "SWAP_ID_TO_MSG st' = map_save (SWAP_ID_TO_MSG st) (swap_key m) m"
    using esc by (auto simp: add_escrow_def bindR_eq_Inr)
  moreover have "rt_query_simulate_swap q st (swap_query m) =
        bindR (q (nsv_vlp_address v) (csw_asset_in m) (csw_amount_in m) vs) (\<lambda>res.
        ensure (gsr_asset_out res = csw_asset_out m) (Generic ''Invalid Asset OUT after swap'') (Ok res))" for q
    using guards pairs p by (simp add: rt_query_simulate_swap_def vlps)
  ultimately show thesis
    using that [of vb v vs] state pairs r by (simp add: vlps)
qed

lemma after_swap:
  assumes "after c h (host_router c) msg (Inr (h1, Some (Pb_Execute (Some (Json_VlpSwap v))))) = Inr (h2, r)"
    and "sm_reply_on msg = ReplyAlways" and "sm_id msg = SWAP_REPLY_ID"
    and "map_may_load (SWAP_ID_TO_MSG (h_router h1)) (ccu_chain_uid (vsr_sender v), ccu_address (vsr_sender v), vsr_tx_id v) = Some m"
  shows "vsr_asset_out v = csw_asset_out m \<and> csw_min_amount_out m \<le> vsr_amount_out v
     \<and> r_data r = Some (Json_Ack (AckOk (Swapped \<lparr>swresp_amount_out = vsr_amount_out v, swresp_tx_id = vsr_tx_id v\<rparr>)))
     \<and> (\<forall>x\<in>set (r_messages r). sm_reply_on x = ReplyNever)"
  using assms
  by (auto simp: after_def reply_call_def rt_reply_dispatch on_swap_reply_def bindR_eq_Inr ensure_eq_Inr Let_def submsg_defs
      map_load_def parse_reply_execute_data_def parse_execute_response_data_def)

lemma swap_run:
  assumes "ibc_execute_swap (h_router h) m = Inr (st, r)" and "linked c h" and vb: "host_vb c \<noteq> host_router c"
    and run: "handle c k (h\<lparr>h_router := st\<rparr>) (host_router c) (r_messages r) (r_data r) = Some (Inr (h', d))"
    and "validate_swap_pairs (h_router h) (csw_swaps m) = Inr route"
    and "\<forall>a\<in>set (map nsv_vlp_address route). hub_pool c h a"
  obtains out where "d = Some (Json_Ack (AckOk (Swapped \<lparr>swresp_amount_out = out, swresp_tx_id = csw_tx_id m\<rparr>)))"
    and "csw_min_amount_out m \<le> out"
    and "trade (host_math c) (h_pools h) (tl route) (nsv_vlp_address (hd route)) (csw_asset_in m) (csw_amount_in m)
      = Ok \<lparr>gsr_amount_out = out, gsr_asset_out = csw_asset_out m\<rparr>"
    and "distinct (map nsv_vlp_address route) \<Longrightarrow> rt_query_simulate_swap (route_querier c h) (h_router h) (swap_query m)
      = Ok \<lparr>gsr_amount_out = out, gsr_asset_out = csw_asset_out m\<rparr>"
proof (rule swap_call_okE [OF assms(1)])
  fix vb' and v :: NextSwapVlp and vs
  let ?swap = "reply_always (Wasm_Execute (nsv_vlp_address v)
             (To_Vlp (VLP_Swap (csw_sender m) (csw_tx_id m) (csw_asset_in m) (csw_amount_in m)
                (csw_min_amount_out m) vs (nsv_test_fail v))) []) SWAP_REPLY_ID"
  assume led: "ledger_address (h_router h) = Some vb'" and route: "validate_swap_pairs (h_router h) (csw_swaps m) = Inr (v # vs)"
    and pend: "SWAP_ID_TO_MSG st = map_save (SWAP_ID_TO_MSG (h_router h)) (swap_key m) m"
    and r: "r_messages r = [reply_always (mint_for_vlp vb' vsl (nsv_vlp_address v) (csw_asset_in m) (csw_amount_in m))
        VIRTUAL_BALANCE_MINT_REPLY_ID, ?swap]"
    and query: "\<And>q. rt_query_simulate_swap q (h_router h) (swap_query m) =
        bindR (q (nsv_vlp_address v) (csw_asset_in m) (csw_amount_in m) vs) (\<lambda>res.
        ensure (gsr_asset_out res = csw_asset_out m) (Generic ''Invalid Asset OUT after swap'') (Ok res))"
  have vb': "vb' = host_vb c" using assms(2) led by (simp add: linked_def)
  have rt: "route = v # vs" using assms(5) route by simp
  obtain k1 h1 d1 where "exec c k1 (h\<lparr>h_router := st\<rparr>) (host_router c)
      (mint_for_vlp vb' vsl (nsv_vlp_address v) (csw_asset_in m) (csw_amount_in m)) = Some (Inr (h1, d1))"
    and "handle c k h1 (host_router c) [?swap] (r_data r) = Some (Inr (h', d))"
    by (rule handle_mint [OF run [unfolded r]]) (simp_all add: submsg_defs)
  then have h1: "h_pools h1 = h_pools h" "h_router h1 = st"
    using exec_ledger [OF _ vb] by (auto simp: mint_for_vlp_def vb')
  from \<open>handle c k h1 _ _ _ = _\<close> obtain k2 out h2 rr d2 where ex: "exec c k2 h1 (host_router c) (sm_msg ?swap) = Some out"
    and aft: "after c h1 (host_router c) ?swap out = Inr (h2, rr)"
    and rest: "handle c k2 h2 (host_router c) (r_messages rr) (r_data rr) = Some (Inr (h', d2))" and d: "d = (if d2 = None then r_data r else d2)"
    unfolding handle_single by blast
  obtain h3 d3 where out: "out = Inr (h3, d3)"
    using aft by (cases out) (auto simp: after_def reply_call_def rt_reply_dispatch on_swap_reply_def submsg_defs)
  have pools: "\<forall>b\<in>set (nsv_vlp_address v # map nsv_vlp_address vs). hub_pool c h1 b"
    using assms(6) by (simp add: rt h1(1) hub_pool_cong [of h1 _ h])
  obtain w where w: "d3 = Some (Pb_Execute (Some (Json_VlpSwap w)))" "vsr_sender w = csw_sender m" "vsr_tx_id w = csw_tx_id m"
      "trade (host_math c) (h_pools h) vs (nsv_vlp_address v) (csw_asset_in m) (csw_amount_in m)
        = Ok \<lparr>gsr_amount_out = vsr_amount_out w, gsr_asset_out = vsr_asset_out w\<rparr>" "h_router h3 = st"
    using route_exec [OF ex [unfolded out reply_always_def SubMsg.select_convs] pools vb] by (auto simp: h1)
  note res = after_swap [OF aft [unfolded out w(1)], of m]
  have res: "vsr_asset_out w = csw_asset_out m" "csw_min_amount_out m \<le> vsr_amount_out w"
      "r_data rr = Some (Json_Ack (AckOk (Swapped \<lparr>swresp_amount_out = vsr_amount_out w, swresp_tx_id = vsr_tx_id w\<rparr>)))"
      "\<forall>x\<in>set (r_messages rr). sm_reply_on x = ReplyNever"
    using res by (auto simp: submsg_defs w pend)
  show thesis
  proof (rule that [of "vsr_amount_out w"])
    show "d = Some (Json_Ack (AckOk (Swapped \<lparr>swresp_amount_out = vsr_amount_out w, swresp_tx_id = csw_tx_id m\<rparr>)))"
      using handle_quiet_data [OF rest res(4)] d res(3) w(3) by simp
    show "rt_query_simulate_swap (route_querier c h) (h_router h) (swap_query m)
        = Ok \<lparr>gsr_amount_out = vsr_amount_out w, gsr_asset_out = csw_asset_out m\<rparr>" if "distinct (map nsv_vlp_address route)"
      using trade_as_asked [OF w(4)] that query res(1) by (simp add: rt)
  qed (use res w(4) in \<open>simp_all add: rt\<close>)
qed

end
