(* ===== verification/Hub_Queries.thy ===== *)
theory Hub_Queries
  imports Hub_Routes
begin

text \<open>
  The query entry points of the hub: the query messages of ledger, pool and router with their answers
  (\<^verbatim>\<open>packages/euclid/src/msgs\<close>) and the three dispatchers (\<^verbatim>\<open>contract.rs\<close> of each contract). What the contracts ask
  each other while they execute is what these entry points answer; pages list every entry once; and the shares that a
  pool reports for the chains never add up to more than it holds.
\<close>

section \<open>The ledger\<close>

datatype vb_QueryMsg =
    VBQ_GetState
  | VBQ_GetBalance BalanceKey
  | VBQ_GetUserBalances CrossChainUser

record GetUserBalancesResponseItem =
  gub_amount :: uint128
  gub_token_id :: string

datatype vb_answer =
    VBA_State vb_State
  | VBA_Balance uint128
  | VBA_UserBalances "GetUserBalancesResponseItem list"

definition vb_query :: "vb_storage \<Rightarrow> vb_QueryMsg \<Rightarrow> vb_answer result" where
  "vb_query st msg =
     (case msg of
        VBQ_GetState \<Rightarrow> bindR (vb_query_state st) (\<lambda>state. Ok (VBA_State state))
      | VBQ_GetBalance balance_key \<Rightarrow> bindR (query_balance st balance_key) (\<lambda>amount. Ok (VBA_Balance amount))
      | VBQ_GetUserBalances user \<Rightarrow>
          bindR (query_user_balances st (ccu_chain_uid user) (ccu_address user)) (\<lambda>balances.
          Ok (VBA_UserBalances (map (\<lambda>(token_id, amount). \<lparr>gub_amount = amount, gub_token_id = token_id\<rparr>) balances))))"

section \<open>The pools\<close>

datatype vlp_QueryMsg =
    VLPQ_State
  | VLPQ_SimulateSwap Token uint128 "NextSwapVlp list"
  | VLPQ_Liquidity
  | VLPQ_Fee
  | VLPQ_TotalFeesCollected
  | VLPQ_TotalFeesPerDenom string
  | VLPQ_Pool ChainUid
  | VLPQ_GetAllPools

record TotalFeesPerDenomResponse =
  tfd_lp_fees :: uint128
  tfd_euclid_fees :: uint128

record PoolInfo =
  pi_chain_uid :: ChainUid
  pi_pool :: PoolResponse

datatype vlp_answer =
    VLPA_State vlp_State
  | VLPA_Swap GetSwapResponse
  | VLPA_Liquidity GetLiquidityResponse
  | VLPA_Fee Fee
  | VLPA_TotalFees TotalFees
  | VLPA_TotalFeesPerDenom TotalFeesPerDenomResponse
  | VLPA_Pool PoolResponse
  | VLPA_AllPools "PoolInfo list"

definition vlp_query :: "('d, 'e) cw_math \<Rightarrow> vlp_querier \<Rightarrow> vlp_storage \<Rightarrow> vlp_QueryMsg \<Rightarrow> vlp_answer result" where
  "vlp_query M ask_vlp st msg =
     (case msg of
        VLPQ_State \<Rightarrow> bindR (vlp_query_state st) (\<lambda>state. Ok (VLPA_State state))
      | VLPQ_SimulateSwap asset asset_amount swaps \<Rightarrow>
          bindR (query_simulate_swap M ask_vlp st asset asset_amount swaps) (\<lambda>res. Ok (VLPA_Swap res))
      | VLPQ_Liquidity \<Rightarrow> bindR (query_liquidity st) (\<lambda>res. Ok (VLPA_Liquidity res))
      | VLPQ_Fee \<Rightarrow> bindR (query_fee st) (\<lambda>fee. Ok (VLPA_Fee fee))
      | VLPQ_TotalFeesCollected \<Rightarrow> bindR (query_total_fees_collected st) (\<lambda>total_fees. Ok (VLPA_TotalFees total_fees))
      | VLPQ_TotalFeesPerDenom denom \<Rightarrow>
          bindR (query_total_fees_per_denom st denom) (\<lambda>(lp_fees, euclid_fees).
          Ok (VLPA_TotalFeesPerDenom \<lparr>tfd_lp_fees = lp_fees, tfd_euclid_fees = euclid_fees\<rparr>))
      | VLPQ_Pool chain_uid \<Rightarrow> bindR (query_pool M st chain_uid) (\<lambda>pool. Ok (VLPA_Pool pool))
      | VLPQ_GetAllPools \<Rightarrow>
          bindR (query_all_pools M st) (\<lambda>pools.
          Ok (VLPA_AllPools (map (\<lambda>(chain_uid, pool). \<lparr>pi_chain_uid = chain_uid, pi_pool = pool\<rparr>) pools))))"

section \<open>The router\<close>

datatype router_QueryMsg =
    RTQ_GetState
  | RTQ_GetChain ChainUid
  | RTQ_GetAllChains
  | RTQ_GetVlp Pair
  | RTQ_GetAllVlps "(Token \<times> Token) Pagination"
  | RTQ_SimulateSwap QuerySimulateSwap
  | RTQ_SimulateReleaseEscrow Token uint128 "CrossChainUserWithLimit list"
  | RTQ_QueryTokenEscrows Token "ChainUid Pagination"
  | RTQ_QueryAllTokens "Token Pagination"

record VlpResponse =
  vr_vlp :: string
  vr_token_1 :: Token
  vr_token_2 :: Token

record ChainResponse =
  cr_chain :: Chain
  cr_chain_uid :: ChainUid

record SimulateEscrowReleaseResponse =
  ser_remaining_amount :: uint128
  ser_release_amounts :: "(uint128 \<times> CrossChainUserWithLimit) list"

record TokenEscrowChainResponse =
  tec_chain_uid :: ChainUid
  tec_balance :: uint128

record TokenResponse =
  tr_token :: Token
  tr_chain_uid :: ChainUid

datatype router_answer =
    RTA_State rt_State
  | RTA_Chain ChainResponse
  | RTA_AllChains "ChainResponse list"
  | RTA_Vlp VlpResponse
  | RTA_AllVlps "VlpResponse list"
  | RTA_SimulateSwap GetSwapResponse
  | RTA_SimulateEscrowRelease SimulateEscrowReleaseResponse
  | RTA_TokenEscrows "TokenEscrowChainResponse list"
  | RTA_AllTokens "TokenResponse list"

text \<open>The encodings of the keys by the storage library, which order its ranges.\<close>

record key_encoding =
  raw_pair :: "Token \<times> Token \<Rightarrow> bytes"
  raw_escrow :: "Token \<times> ChainUid \<Rightarrow> bytes"
  raw_token :: "Token \<Rightarrow> bytes"

definition rt_query :: "key_encoding \<Rightarrow> vlp_querier \<Rightarrow> rt_storage \<Rightarrow> router_QueryMsg \<Rightarrow> router_answer result" where
  "rt_query raw ask_vlp st msg =
     (case msg of
        RTQ_GetState \<Rightarrow> bindR (rt_query_state st) (\<lambda>state. Ok (RTA_State state))
      | RTQ_GetChain chain_uid \<Rightarrow>
          bindR (query_chain st chain_uid) (\<lambda>(chain, chain_uid).
          Ok (RTA_Chain \<lparr>cr_chain = chain, cr_chain_uid = chain_uid\<rparr>))
      | RTQ_GetAllChains \<Rightarrow>
          bindR (query_all_chains st) (\<lambda>chains.
          Ok (RTA_AllChains (map (\<lambda>(chain_uid, chain). \<lparr>cr_chain = chain, cr_chain_uid = chain_uid\<rparr>) chains)))
      | RTQ_GetVlp pair \<Rightarrow>
          bindR (query_vlp st pair) (\<lambda>(vlp, token_1, token_2).
          Ok (RTA_Vlp \<lparr>vr_vlp = vlp, vr_token_1 = token_1, vr_token_2 = token_2\<rparr>))
      | RTQ_GetAllVlps pagination \<Rightarrow>
          bindR (query_all_vlps (raw_pair raw) st pagination) (\<lambda>vlps.
          Ok (RTA_AllVlps (map (\<lambda>((token_1, token_2), vlp).
            \<lparr>vr_vlp = vlp, vr_token_1 = token_1, vr_token_2 = token_2\<rparr>) vlps)))
      | RTQ_SimulateSwap msg \<Rightarrow> bindR (rt_query_simulate_swap ask_vlp st msg) (\<lambda>res. Ok (RTA_SimulateSwap res))
      | RTQ_SimulateReleaseEscrow token amount cross_chain_addresses \<Rightarrow>
          bindR (query_simulate_escrow_release st token amount cross_chain_addresses) (\<lambda>(remaining, amounts).
          Ok (RTA_SimulateEscrowRelease \<lparr>ser_remaining_amount = remaining, ser_release_amounts = amounts\<rparr>))
      | RTQ_QueryTokenEscrows token pagination \<Rightarrow>
          bindR (query_token_escrows st token pagination) (\<lambda>chains.
          Ok (RTA_TokenEscrows (map (\<lambda>(chain_uid, balance). \<lparr>tec_chain_uid = chain_uid, tec_balance = balance\<rparr>) chains)))
      | RTQ_QueryAllTokens pagination \<Rightarrow>
          bindR (query_all_tokens (raw_escrow raw) (raw_token raw) st pagination) (\<lambda>tokens.
          Ok (RTA_AllTokens (map (\<lambda>(token, chain_uid). \<lparr>tr_token = token, tr_chain_uid = chain_uid\<rparr>) tokens))))"

section \<open>Queries between the contracts\<close>

text \<open>A smart query to a contract of the hub: it answers queries of its own kind and cannot parse others.\<close>

datatype hub_question = Ask_Vb vb_QueryMsg | Ask_Vlp vlp_QueryMsg
datatype hub_answer = Vb_Says vb_answer | Vlp_Says vlp_answer

definition wasm_smart :: "('d, 'e) host \<Rightarrow> hub \<Rightarrow> addr \<Rightarrow> hub_question \<Rightarrow> hub_answer result" where
  "wasm_smart c h a q =
     (case q of
        Ask_Vb q \<Rightarrow> if a = host_vb c then bindR (vb_query (h_vb h) q) (\<lambda>x. Ok (Vb_Says x)) else parse_error
      | Ask_Vlp q \<Rightarrow>
          bindR (map_load (h_pools h) a) (\<lambda>st.
          bindR (vlp_query (host_math c) (route_querier c h) st q) (\<lambda>x. Ok (Vlp_Says x))))"

text \<open>What a handler is told during a transaction is what the entry point of the contract it asks answers.\<close>

lemma asked_and_answered:
  "ask_balance c h (host_vb c) k = Ok x \<longleftrightarrow> wasm_smart c h (host_vb c) (Ask_Vb (VBQ_GetBalance k)) = Ok (Vb_Says (VBA_Balance x))"
  "map_has (h_pools h) a \<Longrightarrow>
     ask_liquidity c h a = Ok l \<longleftrightarrow> wasm_smart c h a (Ask_Vlp VLPQ_Liquidity) = Ok (Vlp_Says (VLPA_Liquidity l))"
  "route_querier c h a t y vs = Ok r
     \<longleftrightarrow> wasm_smart c h a (Ask_Vlp (VLPQ_SimulateSwap t y vs)) = Ok (Vlp_Says (VLPA_Swap r))"
  using ask_swap_unfold [of c h vs a t y]
  by (auto simp: wasm_smart_def vb_query_def vlp_query_def ask_balance_def ask_liquidity_def bindR_eq_Inr map_has_def
      map_load_eq_Inr)

section \<open>Pages\<close>

lemma concat_pages: "concat (map (\<lambda>i. take l (drop (i * l) xs)) [0..<n]) = take (n * l) xs"
proof (induction n)
  case (Suc n)
  have "take (Suc n * l) xs = take (n * l) xs @ take l (drop (n * l) xs)"
    using take_add [of "n * l" l xs] by (simp add: add.commute)
  with Suc show ?case by simp
qed simp

definition nth_page :: "nat \<Rightarrow> nat \<Rightarrow> 'k Pagination" where
  "nth_page l i = \<lparr>page_min = None, page_max = None, page_skip = Some (of_nat (i * l)), page_limit = Some (of_nat l)\<rparr>"

lemma page_of_nth:
  assumes "i * l < 2 ^ 32" and "l < 2 ^ 32"
  shows "page_of raw bound (nth_page l i) m = take l (drop (i * l) (sort_key (\<lambda>(k, _). raw k) (AList.clearjunk m)))"
proof -
  have "unat (ucast (of_nat n :: u64) :: u32) = n" if "n < 2 ^ 32" for n
    using that by (simp add: unsigned_ucast_eq unsigned_of_nat take_bit_nat_eq_self)
  with assms show ?thesis by (simp add: page_of_def nth_page_def unwrap_or_def del: of_nat_mult)
qed

text \<open>
  Walking through the pages of a listing, each as long as the last, gives every entry of the map once and nothing
  else, when the pages are enough and the number of entries they may hold is within the 32 bits of an index.
\<close>

lemma pages_complete:
  assumes "n * l < 2 ^ 32" and "l < 2 ^ 32" and "card (dom (map_may_load m)) \<le> n * l"
  shows "set (concat (map (\<lambda>i. page_of raw bound (nth_page l i) m) [0..<n])) = {(k, v). map_may_load m k = Some v}"
    and "distinct (concat (map (\<lambda>i. page_of raw bound (nth_page l i) m) [0..<n]))"
proof -
  let ?xs = "sort_key (\<lambda>(k, _). raw k) (AList.clearjunk m)"
  have pages: "map (\<lambda>i. page_of raw bound (nth_page l i) m) [0..<n] = map (\<lambda>i. take l (drop (i * l) ?xs)) [0..<n]"
  proof (intro map_cong refl page_of_nth assms(2))
    fix i assume "i \<in> set [0..<n]"
    then have "i * l \<le> n * l" by simp
    with assms(1) show "i * l < 2 ^ 32" by linarith
  qed
  have "length ?xs \<le> n * l"
  proof -
    have "length (AList.clearjunk m) = card (fst ` set (AList.clearjunk m))"
      using distinct_card [OF distinct_clearjunk [of m]] by simp
    also have "fst ` set (AList.clearjunk m) = dom (map_may_load m)"
      using clearjunk_keys_set [of m] by (simp add: map_may_load_def [abs_def] dom_map_of_conv_image_fst)
    finally show ?thesis using assms(3) by simp
  qed
  then have all: "concat (map (\<lambda>i. page_of raw bound (nth_page l i) m) [0..<n]) = ?xs"
    unfolding pages concat_pages by simp
  show "set (concat (map (\<lambda>i. page_of raw bound (nth_page l i) m) [0..<n])) = {(k, v). map_may_load m k = Some v}"
    unfolding all using map_of_eq_Some_iff [OF distinct_clearjunk, of m] by (auto simp: map_may_load_def map_of_clearjunk)
  show "distinct (concat (map (\<lambda>i. page_of raw bound (nth_page l i) m) [0..<n]))"
    unfolding all using distinct_clearjunk [of m] by (simp add: distinct_map)
qed

text \<open>The listing of pools by the router.\<close>

lemma pools_listed:
  assumes "n * l < 2 ^ 32" and "l < 2 ^ 32" and "card (dom (map_may_load (VLPS st))) \<le> n * l"
  shows "\<exists>page. (\<forall>i. rt_query raw ask st (RTQ_GetAllVlps (nth_page l i)) = Ok (RTA_AllVlps (page i)))
     \<and> set (concat (map page [0..<n])) = {\<lparr>vr_vlp = v, vr_token_1 = a, vr_token_2 = b\<rparr> |v a b. map_may_load (VLPS st) (a, b) = Some v}
     \<and> distinct (concat (map page [0..<n]))"
proof -
  let ?f = "\<lambda>((a, b), v). \<lparr>vr_vlp = v, vr_token_1 = a, vr_token_2 = b\<rparr>"
  let ?raw = "raw_pair raw"
  let ?page = "\<lambda>i. map ?f (page_of ?raw ?raw (nth_page l i) (VLPS st))"
  have eq: "concat (map ?page [0..<n]) = map ?f (concat (map (\<lambda>i. page_of ?raw ?raw (nth_page l i) (VLPS st)) [0..<n]))"
    by (simp add: map_concat comp_def)
  have "inj ?f" by (auto simp: inj_def)
  then have "distinct (concat (map ?page [0..<n]))"
    unfolding eq distinct_map using pages_complete(2) [OF assms] by (auto intro: inj_on_subset)
  moreover have "set (concat (map ?page [0..<n])) = {\<lparr>vr_vlp = v, vr_token_1 = a, vr_token_2 = b\<rparr> |v a b. map_may_load (VLPS st) (a, b) = Some v}"
    unfolding eq set_map pages_complete(1) [OF assms] by (force simp: image_iff)
  ultimately show ?thesis
    by (intro exI [of _ ?page]) (simp add: rt_query_def query_all_vlps_def)
qed

end
