(* ===== verification/Hub_Registry.thy ===== *)
theory Hub_Registry
  imports Hub_Ledger
begin

text \<open>
  The router's register of pools: a pool is registered under the pair that it serves, in every state the hub can reach.
  The register and the pools are the state of different contracts, which only the messages between them keep in step.
\<close>

section \<open>The register\<close>

definition pair_key :: "Pair \<Rightarrow> Token \<times> Token" where
  "pair_key p = (pair_token_1 p, pair_token_2 p)"

text \<open>A pool of this hub: it obeys its router and keeps its balances with its ledger, and its tokens are in order.\<close>

definition own_pool :: "('d, 'e) host \<Rightarrow> vlp_State \<Rightarrow> bool" where
  "own_pool c s \<longleftrightarrow> vlp_router s = host_router c \<and> vlp_virtual_balance s = host_vb c
     \<and> pair_token_1 (vlp_pair s) < pair_token_2 (vlp_pair s)"

text \<open>
  A registered address is that of a pool of the hub, whose pair is the key, or no address, where the router
  instantiated code that is not the pool's.
\<close>

definition serves :: "('d, 'e) host \<Rightarrow> hub \<Rightarrow> addr \<Rightarrow> Token \<times> Token \<Rightarrow> bool" where
  "serves c h v k \<longleftrightarrow>
     (case map_may_load (h_pools h) v of
        Some st \<Rightarrow> (\<exists>s. VLP_STATE st = Some s \<and> own_pool c s \<and> pair_key (vlp_pair s) = k)
      | None \<Rightarrow> v = [] \<and> (\<forall>l. host_liquidity c v = Inr l \<longrightarrow> pair_key (glr_pair l) = k))"

definition registry_ok :: "('d, 'e) host \<Rightarrow> hub \<Rightarrow> bool" where
  "registry_ok c h \<longleftrightarrow> \<not> map_has (h_pools h) [] \<and> (\<forall>k v. map_may_load (VLPS (h_router h)) k = Some v \<longrightarrow> serves c h v k)"

text \<open>What is at an address that the router is about to register.\<close>

definition fresh_pool :: "('d, 'e) host \<Rightarrow> hub \<Rightarrow> addr \<Rightarrow> bool" where
  "fresh_pool c h v \<longleftrightarrow> v = [] \<or> (\<exists>st s. map_may_load (h_pools h) v = Some st \<and> VLP_STATE st = Some s \<and> own_pool c s)"

lemma query_liquidity_pair: "query_liquidity st = Inr l \<Longrightarrow> \<exists>s. VLP_STATE st = Some s \<and> glr_pair l = vlp_pair s"
  by (auto simp: query_liquidity_def bindR_eq_Inr item_load_eq_Inr)

lemma asked_serves:
  assumes "ask_liquidity c h v = Inr l" and "fresh_pool c h v" and "registry_ok c h"
  shows "serves c h v (pair_key (glr_pair l))"
  using assms query_liquidity_pair
  by (fastforce simp: ask_liquidity_def serves_def fresh_pool_def registry_ok_def map_has_def split: option.splits)

lemma serves_asked: "serves c h v k \<Longrightarrow> ask_liquidity c h v = Inr l \<Longrightarrow> pair_key (glr_pair l) = k"
  by (auto simp: ask_liquidity_def serves_def split: option.splits dest: query_liquidity_pair)

text \<open>What keeps the register: the router's part is the same, and the pools keep their pairs.\<close>

lemma registry_ok_router:
  "registry_ok c h \<Longrightarrow> VLPS st = VLPS (h_router h) \<Longrightarrow> registry_ok c (h\<lparr>h_router := st\<rparr>)"
  by (simp add: registry_ok_def serves_def)

lemma registry_ok_vb [simp]: "registry_ok c (h\<lparr>h_vb := vb, h_log := l\<rparr>) = registry_ok c h"
  by (simp add: registry_ok_def serves_def)

definition same_pool :: "vlp_storage \<Rightarrow> vlp_storage \<Rightarrow> bool" where
  "same_pool st st' \<longleftrightarrow> (\<forall>s. VLP_STATE st = Some s \<longrightarrow> (\<exists>s'. VLP_STATE st' = Some s' \<and> vlp_pair s' = vlp_pair s
     \<and> vlp_router s' = vlp_router s \<and> vlp_virtual_balance s' = vlp_virtual_balance s))"

lemma registry_ok_pool:
  assumes "registry_ok c h" and "map_may_load (h_pools h) a = Some st" and "same_pool st st'"
  shows "registry_ok c (h\<lparr>h_pools := map_save (h_pools h) a st'\<rparr>)"
proof -
  have "serves c (h\<lparr>h_pools := map_save (h_pools h) a st'\<rparr>) v k" if "serves c h v k" for v k
    using that assms(2,3) by (fastforce simp: serves_def same_pool_def own_pool_def)
  with assms(1,2) show ?thesis by (auto simp: registry_ok_def map_has_def)
qed

lemma registry_ok_new:
  assumes "registry_ok c h" and "map_may_load (h_pools h) a = None" and "a \<noteq> []"
  shows "registry_ok c (h\<lparr>h_pools := map_save (h_pools h) a st'\<rparr>)"
  using assms by (fastforce simp: registry_ok_def serves_def map_has_def split: option.splits)

text \<open>The host gives no contract the empty address.\<close>

definition real_addresses :: "('d, 'e) host \<Rightarrow> bool" where
  "real_addresses c \<longleftrightarrow> (\<forall>h. host_new_address c h \<noteq> [])"

section \<open>Who keeps the register\<close>

lemma vlp_execute_same:
  assumes "vlp_execute M q st env info m = Inr (st', r)"
  shows "same_pool st st'"
proof (cases m)
  case (VLP_Swap x y z u v w t)
  show ?thesis
    using assms unfolding VLP_Swap vlp_execute.simps execute_swap_def Let_def split_beta bindR_eq_Inr ensure_eq_Inr item_load_eq_Inr
    by (auto simp: same_pool_def)
next
  case (VLP_AddLiquidity x y z u v)
  show ?thesis
    using assms unfolding VLP_AddLiquidity vlp_execute.simps add_liquidity_def Let_def split_beta bindR_eq_Inr ensure_eq_Inr item_load_eq_Inr
    by (auto simp: same_pool_def)
next
  case (VLP_RemoveLiquidity x y z)
  show ?thesis
    using assms unfolding VLP_RemoveLiquidity vlp_execute.simps remove_liquidity_def Let_def split_beta bindR_eq_Inr ensure_eq_Inr item_load_eq_Inr
    by (auto simp: same_pool_def)
qed (use assms in \<open>auto simp: same_pool_def register_pool_def update_fee_def Let_def bindR_eq_Inr ensure_eq_Inr item_load_eq_Inr\<close>)

lemma vlp_instantiate_own:
  assumes "vlp_instantiate env info m = Inr (st, r)"
  shows "\<exists>s. VLP_STATE st = Some s \<and> vlp_router s = info_sender info \<and> vlp_virtual_balance s = vim_virtual_balance m
     \<and> pair_token_1 (vlp_pair s) < pair_token_2 (vlp_pair s)"
  using assms by (auto simp: vlp_instantiate_def register_pool_def Let_def bindR_eq_Inr ensure_eq_Inr Pair_validate_Inr
      split: option.splits vlp_ExecuteMsg.splits)

lemma to_msg_vlps [simp]: "rt_to_msg st env msg chain to = Inr (st', m) \<Longrightarrow> VLPS st' = VLPS st"
  by (subst rt_to_msg_keeps(1)) simp_all

lemma generate_tx_vlps [simp]: "VLPS (fst (rt_generate_tx st env s)) = VLPS st"
  by (simp add: rt_generate_tx_def Let_def split: prod.splits)

lemma add_escrow_vlps: "add_escrow st tk u a = Inr st' \<Longrightarrow> VLPS st' = VLPS st"
  by (auto simp: add_escrow_def bindR_eq_Inr)

lemma release_vlps:
  assumes "execute_release_escrow q st env info sender tk amt addrs to tx = Inr (st', r)"
  shows "VLPS st' = VLPS st"
  using assms
proof (rule release_escrow_okE)
  fix timeout w rem tr msgs
  assume loop: "release_loop env sender tk timeout addrs w 0 st [] = Inr (rem, tr, st', msgs)"
  show ?thesis using release_loop_spec [OF loop] by (auto simp: rt_same_def)
qed

lemma swap_vlps: "ibc_execute_swap st msg = Inr (st', r) \<Longrightarrow> VLPS st' = VLPS st"
  unfolding ibc_execute_swap_def Let_def split_beta vsl_chain_uid_ok bindR_Inr bindR_eq_Inr ensure_eq_Inr
  by (auto dest!: add_escrow_vlps)

lemma add_liquidity_vlps: "ibc_execute_add_liquidity ql st sender x y tol pair tx = Inr (st', r) \<Longrightarrow> VLPS st' = VLPS st"
  unfolding ibc_execute_add_liquidity_def Let_def split_beta vsl_chain_uid_ok bindR_Inr bindR_eq_Inr ensure_eq_Inr
  by (auto dest!: add_escrow_vlps)

lemma request_vlps:
  "execute_request_pool_creation st env sender pair tx = Inr (st', r) \<Longrightarrow> VLPS st' = VLPS st"
  "execute_request_escrow_creation st sender tk tx = Inr (st', r) \<Longrightarrow> VLPS st' = VLPS st"
  "ibc_execute_remove_liquidity st msg = Inr (st', r) \<Longrightarrow> VLPS st' = VLPS st"
  by (auto simp: execute_request_pool_creation_def execute_request_escrow_creation_def ibc_execute_remove_liquidity_def Let_def
      bindR_eq_Inr ensure_eq_Inr split: option.splits)

lemma chain_message_vlps: "reusable_internal_call ql st env msg u = Inr (st', r) \<Longrightarrow> VLPS st' = VLPS st"
  by (cases msg) (auto simp: reusable_internal_call_def bindR_eq_Inr ensure_eq_Inr
      dest: swap_vlps add_liquidity_vlps request_vlps)

lemma ack_vlps:
  "ibc_ack_register_factory st u c res = Inr (st', r) \<Longrightarrow> VLPS st' = VLPS st"
  "ibc_ack_update_factory_channel st u c res = Inr (st', r) \<Longrightarrow> VLPS st' = VLPS st"
  by (cases res; cases c; auto simp: ibc_ack_register_factory_def ibc_ack_update_factory_channel_def Let_def bindR_eq_Inr old_channel_Inr)+

lemma ack_release_vlps: "ibc_ack_release_escrow st u s a tk res = Inr (st', r) \<Longrightarrow> VLPS st' = VLPS st"
  by (cases res) (auto simp: ibc_ack_release_escrow_def bindR_eq_Inr Let_def)

lemma answer_vlps: "reusable_internal_ack_call st msg ack c = Inr (st', r) \<Longrightarrow> VLPS st' = VLPS st"
  by (cases msg) (auto simp: reusable_internal_ack_call_def bindR_eq_Inr dest: ack_vlps ack_release_vlps)

lemma admin_vlps:
  "execute_update_vlp_code_id st info i = Inr (st', r) \<Longrightarrow> VLPS st' = VLPS st"
  "execute_update_lock st info = Inr (st', r) \<Longrightarrow> VLPS st' = VLPS st"
  "execute_deregister_chain st info u = Inr (st', r) \<Longrightarrow> VLPS st' = VLPS st"
  "execute_reregister_chain st info u = Inr (st', r) \<Longrightarrow> VLPS st' = VLPS st"
  by (auto simp: execute_update_vlp_code_id_def execute_update_lock_def execute_deregister_chain_def
      execute_reregister_chain_def bindR_eq_Inr ensure_eq_Inr)

lemma register_factory_vlps:
  assumes "execute_register_factory st env info u c = Inr (st', r)"
  shows "VLPS st' = VLPS st"
proof (cases c)
  case (RegisterNative f)
  with assms obtain s msg chain p where "rt_to_msg (fst (rt_generate_tx st env s)) env msg chain 0 = Inr (st', p)"
    unfolding execute_register_factory_def Let_def split_beta bindR_eq_Inr ensure_eq_Inr
    by (auto simp: bindR_eq_Inr)
  from to_msg_vlps [OF this] show ?thesis by simp
next
  case (RegisterIbc ch to)
  with assms show ?thesis
    unfolding execute_register_factory_def Let_def split_beta bindR_eq_Inr ensure_eq_Inr by (auto simp: bindR_eq_Inr)
qed

lemma update_channel_vlps: "execute_update_factory_channel st env info ch u = Inr (st', r) \<Longrightarrow> VLPS st' = VLPS st"
  unfolding execute_update_factory_channel_def Let_def split_beta bindR_eq_Inr ensure_eq_Inr
  by (auto simp: bindR_eq_Inr split: if_splits)

lemma callback_vlps:
  "ibc_receive_internal_call ql st env p = Inr (st', r) \<Longrightarrow> VLPS st' = VLPS st"
  "execute_native_receive_callback ql st env info u m = Inr (st', r) \<Longrightarrow> VLPS st' = VLPS st"
  "ibc_ack_packet_internal_call st a = Inr (st', r) \<Longrightarrow> VLPS st' = VLPS st"
  "execute_withdraw_voucher st env info tk x as to = Inr (st', r) \<Longrightarrow> VLPS st' = VLPS st"
  unfolding execute_withdraw_voucher_def Let_def split_beta
  by (auto simp: ibc_receive_internal_call_def execute_native_receive_callback_def ibc_ack_packet_internal_call_def
      bindR_eq_Inr ensure_eq_Inr from_json_Inr dest: chain_message_vlps answer_vlps)

lemma rt_execute_vlps:
  assumes "rt_execute qv ql st env info msg = Inr (st', r)"
  shows "VLPS st' = VLPS st"
proof -
  obtain state where state: "RT_STATE st = Some state"
    using assms by (auto simp: rt_execute_def ok_simps)
  show ?thesis
    using assms
    by (cases msg; cases "rs_locked state")
       (auto simp: rt_execute_def state dest: callback_vlps release_vlps register_factory_vlps update_channel_vlps admin_vlps)
qed

lemma native_reply_vlps: "on_reply_native_ibc_wrapper_call st msg = Inr (st', r) \<Longrightarrow> VLPS st' = VLPS st"
  by (cases "reply_result msg") (auto simp: on_reply_native_ibc_wrapper_call_def bindR_eq_Inr Let_def dest!: answer_vlps)

lemma reply_vlps:
  "on_virtual_balance_instantiate_reply av st msg = Inr (st', r) \<Longrightarrow> VLPS st' = VLPS st"
  "on_pool_register_reply st msg = Inr (st', r) \<Longrightarrow> VLPS st' = VLPS st"
  "on_add_liquidity_reply st msg = Inr (st', r) \<Longrightarrow> VLPS st' = VLPS st"
  "on_remove_liquidity_reply st env msg = Inr (st', r) \<Longrightarrow> VLPS st' = VLPS st"
  "on_swap_reply st env msg = Inr (st', r) \<Longrightarrow> VLPS st' = VLPS st"
  "on_virtual_balance_mint_reply st msg = Inr (st', r) \<Longrightarrow> VLPS st' = VLPS st"
  "on_virtual_balance_burn_reply st msg = Inr (st', r) \<Longrightarrow> VLPS st' = VLPS st"
  "rt_on_virtual_balance_transfer_reply st msg = Inr (st', r) \<Longrightarrow> VLPS st' = VLPS st"
  "on_ibc_ack_and_timeout_reply st msg = Inr (st', r) \<Longrightarrow> VLPS st' = VLPS st"
  "on_ibc_receive_reply st msg = Inr (st', r) \<Longrightarrow> VLPS st' = VLPS st"
  by (auto simp: on_virtual_balance_instantiate_reply_def on_pool_register_reply_def on_add_liquidity_reply_def
      on_remove_liquidity_reply_def on_swap_reply_def on_virtual_balance_mint_reply_def on_virtual_balance_burn_reply_def
      rt_on_virtual_balance_transfer_reply_def on_ibc_ack_and_timeout_reply_def on_ibc_receive_reply_def
      bindR_eq_Inr ensure_eq_Inr Let_def split: SubMsgResult.splits)

lemma rt_reply_vlps:
  assumes "rt_reply av ql st env msg = Inr (st', r)" and "reply_id msg \<noteq> VLP_INSTANTIATE_REPLY_ID"
  shows "VLPS st' = VLPS st"
  using assms unfolding rt_reply_def by (auto split: if_splits dest: native_reply_vlps reply_vlps)

section \<open>One step\<close>

lemma contract_call_registry:
  assumes "registry_ok c h" and "contract_call c h a info m = Inr (h', r)"
  shows "registry_ok c h'"
proof -
  consider "a = host_router c" | "a \<noteq> host_router c" "a = host_vb c" | "a \<noteq> host_router c" "a \<noteq> host_vb c" by blast
  then show ?thesis
  proof cases
    case 1
    with assms(2) obtain x st where h': "h' = h\<lparr>h_router := st\<rparr>" and
      ex: "rt_execute (ask_balance c h) (ask_liquidity c h) (h_router h) (env_at c a) info x = Inr (st, r)"
      by (cases m) (auto simp: contract_call_def bindR_eq_Inr)
    from registry_ok_router [OF assms(1) rt_execute_vlps [OF ex]] show ?thesis by (simp add: h')
  next
    case 2
    with assms show ?thesis by (cases m) (auto simp: contract_call_def bindR_eq_Inr)
  next
    case 3
    with assms(2) obtain x st st' where h': "h' = h\<lparr>h_pools := map_save (h_pools h) a st'\<rparr>"
      and st: "map_may_load (h_pools h) a = Some st"
      and ex: "vlp_execute (host_math c) (ask_balance c h) st (env_at c a) info x = Inr (st', r)"
      by (cases m) (auto simp: contract_call_def bindR_eq_Inr map_load_eq_Inr)
    from registry_ok_pool [OF assms(1) st vlp_execute_same [OF ex]] show ?thesis by (simp add: h')
  qed
qed

lemma start_registry:
  assumes "registry_ok c h" and "start c h s msg = Inr (h', self, r)" and "real_addresses c"
  shows "registry_ok c h'"
proof -
  consider a x f where "contract_call c h a \<lparr>info_sender = s, info_funds = f\<rparr> x = Inr (h', r)"
    | info m where "create_pool c h info m = Inr (h', self, r)"
    | "go_outside c h s msg = Inr (h', self, r)"
    using assms(2)
    by (auto simp: start_def bindR_eq_Inr split: CosmosMsg.splits wasm_instantiate_msg.splits if_splits)
  then show ?thesis
  proof cases
    case 1
    from contract_call_registry [OF assms(1) this] show ?thesis .
  next
    case 2
    then obtain st where "\<not> in_hub c h self" "self \<noteq> []" and h': "h' = h\<lparr>h_pools := map_save (h_pools h) self st\<rparr>"
      using assms(3) by (auto simp: create_pool_def Let_def bindR_eq_Inr ensure_eq_Inr real_addresses_def)
    moreover from this have "map_may_load (h_pools h) self = None" by (auto simp: in_hub_def map_has_def)
    ultimately show ?thesis using registry_ok_new [OF assms(1)] by simp
  next
    case 3
    then have "h' = h" by (cases msg) (auto simp: go_outside_def bindR_eq_Inr)
    with assms(1) show ?thesis by simp
  qed
qed

text \<open>An instantiation of the router that succeeds has created the pool whose address it returns.\<close>

lemma instantiated_pool:
  assumes "exec c n h (host_router c) (Wasm_Instantiate ad code i f l) = Some (Inr (h', Some (Pb_Instantiate a d)))"
    and "\<And>x. i = New_Vlp x \<Longrightarrow> vim_virtual_balance x = host_vb c"
  shows "fresh_pool c h' a"
proof -
  from assms(1) obtain k h1 self r d1 where start: "start c h (host_router c) (Wasm_Instantiate ad code i f l) = Inr (h1, self, r)"
    and handle: "handle c k h1 self (r_messages r) (r_data r) = Some (Inr (h', d1))" and a: "a = self"
    unfolding exec_Inr by (auto simp: enclose_def)
  show ?thesis
  proof (cases "\<exists>m. i = New_Vlp m \<and> create_pool c h \<lparr>info_sender = host_router c, info_funds = f\<rparr> m = Inr (h1, self, r)")
    case True
    then obtain m where i: "i = New_Vlp m" and pool: "create_pool c h \<lparr>info_sender = host_router c, info_funds = f\<rparr> m = Inr (h1, self, r)"
      by blast
    then obtain st where st: "vlp_instantiate (env_at c self) \<lparr>info_sender = host_router c, info_funds = f\<rparr> m = Inr (st, r)"
        and h1: "h1 = h\<lparr>h_pools := map_save (h_pools h) self st\<rparr>"
      by (auto simp: create_pool_def Let_def bindR_eq_Inr ensure_eq_Inr)
    have "h' = h1" using handle vlp_instantiate_silent [OF st] by simp
    with vlp_instantiate_own [OF st] assms(2) [OF i] show ?thesis
      by (auto simp: fresh_pool_def own_pool_def h1 a)
  next
    case False
    with start have "go_outside c h (host_router c) (Wasm_Instantiate ad code i f l) = Inr (h1, self, r)"
      by (auto simp: start_def split: wasm_instantiate_msg.splits if_splits)
    with a show ?thesis by (auto simp: go_outside_def bindR_eq_Inr fresh_pool_def)
  qed
qed

lemma registering_reply:
  assumes "registry_ok c h" and "rt_reply av (ask_liquidity c h) (h_router h) env rep = Inr (st, r)"
    and "reply_id rep = VLP_INSTANTIATE_REPLY_ID"
    and "\<And>a d. reply_result rep = SubMsgOk (Some (Pb_Instantiate a d)) \<Longrightarrow> fresh_pool c h a"
  shows "registry_ok c (h\<lparr>h_router := st\<rparr>)"
proof -
  have "on_vlp_instantiate_reply (ask_liquidity c h) (h_router h) rep = Inr (st, r)"
    using assms(2,3) by (simp add: rt_reply_def HUB_IBC_EXECUTE_MSG_QUEUE_RANGE_def VLP_INSTANTIATE_REPLY_ID_def word_le_nat_alt)
  then show ?thesis
  proof (rule vlp_instantiate_reply_Inr)
    fix a d and l :: GetLiquidityResponse
    assume "reply_result rep = SubMsgOk (Some (Pb_Instantiate a d))" and l: "ask_liquidity c h a = Inr l"
      and st: "st = (h_router h)\<lparr>VLPS := map_save (VLPS (h_router h)) (pair_token_1 (glr_pair l), pair_token_2 (glr_pair l)) a\<rparr>"
    then have "serves c h a (pair_key (glr_pair l))" using asked_serves [OF l _ assms(1)] assms(4) by blast
    then have "serves c (h\<lparr>h_router := st\<rparr>) a (pair_key (glr_pair l))" by (simp add: serves_def)
    moreover have "serves c (h\<lparr>h_router := st\<rparr>) v k" if "map_may_load (VLPS (h_router h)) k = Some v" for k v
      using assms(1) that by (simp add: registry_ok_def serves_def del: split_paired_All)
    ultimately show ?thesis using assms(1) unfolding registry_ok_def by (simp add: st pair_key_def)
  qed
qed

lemma reply_registry:
  assumes "registry_ok c h" and "reply_call c h self rep = Inr (h', r)"
    and "\<And>a d. self = host_router c \<Longrightarrow> reply_id rep = VLP_INSTANTIATE_REPLY_ID \<Longrightarrow>
           reply_result rep = SubMsgOk (Some (Pb_Instantiate a d)) \<Longrightarrow> fresh_pool c h a"
  shows "registry_ok c h'"
proof (cases "self = host_router c")
  case True
  with assms(2) obtain st where h': "h' = h\<lparr>h_router := st\<rparr>"
    and ex: "rt_reply (host_validate c) (ask_liquidity c h) (h_router h) (env_at c self) rep = Inr (st, r)"
    by (auto simp: reply_call_def bindR_eq_Inr)
  show ?thesis
  proof (cases "reply_id rep = VLP_INSTANTIATE_REPLY_ID")
    case reg: True
    from registering_reply [OF assms(1) ex reg assms(3) [OF True reg]] show ?thesis by (simp add: h')
  next
    case False
    from registry_ok_router [OF assms(1) rt_reply_vlps [OF ex False]] show ?thesis by (simp add: h')
  qed
next
  case False
  with assms(2) obtain st st' where h': "h' = h\<lparr>h_pools := map_save (h_pools h) self st'\<rparr>"
    and st: "map_may_load (h_pools h) self = Some st" and "vlp_reply st rep = Inr (st', r)"
    by (auto simp: reply_call_def bindR_eq_Inr map_load_eq_Inr)
  then have "same_pool st st'" by (auto simp: same_pool_def dest!: vlp_reply_silent)
  from registry_ok_pool [OF assms(1) st this] show ?thesis by (simp add: h')
qed

lemma after_registry:
  assumes "registry_ok c h" and "orders c self [m]" and "exec c n h self (sm_msg m) = Some out"
    and "after c h self m out = Inr (h', r)" and "\<And>h1 d. out = Inr (h1, d) \<Longrightarrow> registry_ok c h1"
  shows "registry_ok c h'"
proof (cases out)
  case (Inl e)
  then have "reply_call c h self \<lparr>reply_id = sm_id m, reply_result = SubMsgErr (host_text c e)\<rparr> = Inr (h', r)"
    using assms(4) by (auto simp: after_def split: if_splits)
  from reply_registry [OF assms(1) this] show ?thesis by simp
next
  case (Inr p)
  then obtain h1 d where out: "out = Inr (h1, d)" by (cases p) auto
  note h1 = assms(5) [OF out]
  show ?thesis
  proof (cases "sm_reply_on m = ReplyAlways")
    case True
    with assms(4) out have call: "reply_call c h1 self \<lparr>reply_id = sm_id m, reply_result = SubMsgOk d\<rparr> = Inr (h', r)"
      by (simp add: after_def)
    have "fresh_pool c h1 a"
      if reg: "self = host_router c" "sm_id m = VLP_INSTANTIATE_REPLY_ID" "d = Some (Pb_Instantiate a d1)" for a d1
    proof -
      obtain ad code i f l where "sm_msg m = Wasm_Instantiate ad code i f l" "\<forall>x. i = New_Vlp x \<longrightarrow> vim_virtual_balance x = host_vb c"
        using assms(2) reg(1,2) by (auto simp: orders_def to_ledger_def)
      with instantiated_pool [of c n h ad code i f l h1 a d1] assms(3) show ?thesis by (simp add: out reg)
    qed
    with reply_registry [OF h1 call] show ?thesis by simp
  next
    case False
    with assms(4) out h1 show ?thesis by (auto simp: after_def)
  qed
qed

section \<open>Runs\<close>

lemma after_linked:
  assumes "linked c h" and "orders c self [m]" and "exec c n h self (sm_msg m) = Some out" and "after c h self m out = Inr (h', r)"
  shows "linked c h'" and "orders c self (r_messages r)"
proof -
  have "linked c h' \<and> orders c self (r_messages r)
      \<and> excess h' t + outstanding c self (r_messages r) t = excess h t + due c self (sm_msg m) t" for t
  proof (rule after_step [OF assms(1,2,4)])
    fix h0 d0
    assume "out = Inr (h0, d0)"
    with run_books(1) [OF _ assms(1), of n self "sm_msg m" h0 d0 m t] assms(2,3)
    show "linked c h0 \<and> excess h0 t = excess h t + due c self (sm_msg m) t" by simp
  qed
  then show "linked c h'" and "orders c self (r_messages r)" by blast+
qed

lemma run_registry:
  "exec c n h s msg = Some (Inr (h', d')) \<Longrightarrow> real_addresses c \<Longrightarrow> linked c h \<Longrightarrow> orders c s [m] \<Longrightarrow> sm_msg m = msg \<Longrightarrow>
     registry_ok c h \<Longrightarrow> registry_ok c h'"
  "handle c n h self ms d = Some (Inr (h', d')) \<Longrightarrow> real_addresses c \<Longrightarrow> linked c h \<Longrightarrow> orders c self ms \<Longrightarrow>
     registry_ok c h \<Longrightarrow> registry_ok c h'"
proof (induction c n h s msg and c n h self ms d arbitrary: m h' d' and h' d' rule: exec_handle.induct)
  case (2 c n h sender msg)
  from 2(2) obtain h1 self r d1 where start: "start c h sender msg = Inr (h1, self, r)"
    and handle: "handle c n h1 self (r_messages r) (r_data r) = Some (Inr (h', d1))"
    unfolding exec_Inr by auto
  note one = start_step [OF 2(4) start 2(5,6)] start_registry [OF 2(7) start 2(3)]
  with 2(1) [of "(h1, self, r)" h1 "(self, r)" self r h' d1] start handle 2(3) show ?case by simp
next
  case (5 c n h self m ms d)
  from 5(4) obtain out h1 r h2 d2 where ex: "exec c n h self (sm_msg m) = Some out" and aft: "after c h self m out = Inr (h1, r)"
    and rep: "handle c n h1 self (r_messages r) (r_data r) = Some (Inr (h2, d2))"
    and rest: "handle c (Suc n) h2 self ms (if d2 = None then d else d2) = Some (Inr (h', d'))"
    unfolding handle_Cons_Inr by auto
  note ord = orders_Cons [OF 5(7)]
  note h1 = after_linked [OF 5(6) conjunct1 [OF ord] ex aft]
  have "registry_ok c h1"
  proof (rule after_registry [OF 5(8) conjunct1 [OF ord] ex aft])
    fix h0 d0
    assume "out = Inr (h0, d0)"
    with 5(1) [of h0 d0 m] ex 5(5,6,8) ord show "registry_ok c h0" by simp
  qed
  then have "registry_ok c h2"
    using 5(2) [OF ex, of "(h1, r)" h1 r h2 d2] aft rep 5(5) h1 by simp
  moreover have "linked c h2" using run_books(2) [OF rep h1] by blast
  ultimately show ?case
    using 5(3) [OF ex, of "(h1, r)" h1 r "(h2, d2)" h2 d2 h' d'] aft rep rest ord 5(5) by simp
qed simp_all

lemma rt_entry_registry:
  assumes "rt_entry c n h res = Some (Inr (h', d))" and "registry_ok c h" and "real_addresses c" and "linked c h"
    and "\<And>st r. res = Inr (st, r) \<Longrightarrow> rt_step (h_router h) r st"
    and "\<And>st r. res = Inr (st, r) \<Longrightarrow> sends k (h_router h) r st \<and> VLPS st = VLPS (h_router h)"
  shows "registry_ok c h'"
proof -
  from assms(1) obtain st r where res: "res = Inr (st, r)"
    and handle: "handle c n (h\<lparr>h_router := st\<rparr>) (host_router c) (r_messages r) (r_data r) = Some (Inr (h', d))"
    by (auto simp: rt_entry_def bind_run_Inr)
  have "linked c (h\<lparr>h_router := st\<rparr>)" "orders c (host_router c) (r_messages r)"
    using router_step [OF assms(4) assms(5) [OF res]] assms(6) [OF res] by (simp_all add: sends_def)
  from run_registry(2) [OF handle assms(3) this registry_ok_router [OF assms(2)]] assms(6) [OF res] show ?thesis by simp
qed

lemma entry_vlps:
  "ibc_packet_receive st env p = Inr (st', r) \<Longrightarrow> VLPS st' = VLPS st"
  "ibc_packet_ack st env a = Inr (st', r) \<Longrightarrow> VLPS st' = VLPS st"
  "ibc_packet_timeout st env p = Inr (st', r) \<Longrightarrow> VLPS st' = VLPS st"
  by (auto simp: ibc_packet_receive_def ibc_packet_ack_def ibc_packet_timeout_def Let_def bindR_eq_Inr)

lemma run_tx_registry:
  assumes "run_tx c n h tx = Some (Inr (h', d))" and "registry_ok c h" and "real_addresses c" and "linked c h" and "from_outside c h tx"
  shows "registry_ok c h'"
proof (cases tx)
  case (Tx_Message s msg)
  then have "s \<noteq> host_router c" using assms(5) by (simp add: in_hub_def)
  with run_registry(1) [OF _ assms(3,4), of n s msg h' d "SubMsg_new msg"] assms(1,2) Tx_Message show ?thesis
    by (simp add: submsg_defs)
next
  case (Tx_Receive p)
  with assms(1) show ?thesis
    using rt_entry_registry [OF _ assms(2,3,4) rt_step.received conjI [OF entry_sends(1) entry_vlps(1)]] by simp
next
  case (Tx_Ack a)
  with assms(1) show ?thesis
    using rt_entry_registry [OF _ assms(2,3,4) rt_step.acknowledged conjI [OF entry_sends(2) entry_vlps(2)]] by simp
next
  case (Tx_Timeout p)
  with assms(1) show ?thesis
    using rt_entry_registry [OF _ assms(2,3,4) rt_step.timed_out conjI [OF entry_sends(3) entry_vlps(3)]] by simp
qed (use assms in \<open>auto simp: rt_channel_def bind_run_Inr registry_ok_def serves_def\<close>)

lemma live_registry:
  assumes "live c h" and "real_addresses c" and "\<And>a. host_validate c (host_vb c) = Inr a \<Longrightarrow> a = host_vb c"
  shows "registry_ok c h"
  using assms(1)
proof (induction rule: live.induct)
  case (deployed info i j h)
  then have "VLPS (h_router h) = []" "h_pools h = []"
    by (auto simp: deploy_def Let_def rt_instantiate_def rt_reply_def rt_reply_ids HUB_IBC_EXECUTE_MSG_QUEUE_RANGE_def
        on_virtual_balance_instantiate_reply_def bindR_eq_Inr)
  then show ?case by (simp add: registry_ok_def map_may_load_def map_has_def)
next
  case (ran h tx n h' d)
  have "linked c h" using live_books [OF ran.hyps(1) assms(3)] by blast
  from run_tx_registry [OF ran.hyps(3) ran.IH assms(2) this ran.hyps(2)] show ?case .
qed

end
