(* ===== verification/Hub_Properties.thy ===== *)
theory Hub_Properties
  imports Hub_Packets Hub_Queries Hub_Registry
begin

text \<open>
  The theorems on the running hub, with a deployed hub, a run of it and a trade over two pools as the concrete cases.
\<close>

section \<open>A hub\<close>

definition ex_host :: "(nat, nat) host" where
  "ex_host = \<lparr>host_math = std_math, host_router = ''router'', host_vb = ''vb'', host_vlp_code = 1, host_env = ex_env,
     host_validate = Ok, host_text = (\<lambda>_. ''failed''), host_new_address = (\<lambda>_. ''pool''), host_balance = (\<lambda>_ _. parse_error),
     host_liquidity = (\<lambda>_. parse_error), host_outside = (\<lambda>_ _ m. case m of Wasm_Execute _ _ _ \<Rightarrow> parse_error | _ \<Rightarrow> Ok ([], None))\<rparr>"

definition ex_router :: rt_storage where
  "ex_router = \<lparr>RT_STATE = Some (ex_state False), VLPS = [], ESCROW_BALANCES = [], CHAIN_UID_TO_CHAIN = [],
      CHANNEL_TO_CHAIN_UID = [], DEREGISTERED_CHAINS = Some [], SWAP_ID_TO_MSG = [], PENDING_REMOVE_LIQUIDITY = [],
      HUB_QUEUE = \<lparr>q_entries = [], q_count = None\<rparr>, RT_TX_NONCE = None,
      RT_CHANNELS = \<lparr>CONNECTION_COUNTS = [], TIMEOUT_COUNTS = []\<rparr>\<rparr>"

definition ex_live :: hub where
  "ex_live = \<lparr>h_router = ex_router,
     h_vb = \<lparr>VB_STATE = Some \<lparr>vbs_router = ''router'', vbs_admin = ''admin''\<rparr>, VB_BALANCES = []\<rparr>, h_pools = [], h_log = []\<rparr>"

definition ex_ack :: "HubIbcExecuteMsg \<Rightarrow> ack_data AcknowledgementMsg \<Rightarrow> hub_tx" where
  "ex_ack m a = Tx_Ack \<lparr>acknowledgement = Json_Ack a, original_packet = \<lparr>packet_data = Json_HubIbc m,
     packet_src = \<lparr>port_id = ''wasm.router'', channel_id = ''osmosis-0''\<rparr>,
     packet_dest = \<lparr>port_id = ''wasm.factory'', channel_id = ''channel-7''\<rparr>\<rparr>\<rparr>"

lemma ex_deploy: "deploy ex_host (ex_info ''admin'') 1 2 = Ok ex_live"
  by (simp add: deploy_def Let_def rt_instantiate_def vb_instantiate_def rt_reply_def rt_reply_ids
        HUB_IBC_EXECUTE_MSG_QUEUE_RANGE_def on_virtual_balance_instantiate_reply_def parse_reply_instantiate_data_def
        ex_host_def ex_live_def ex_router_def ex_state_def ex_info_def item_load_def env_at_def ex_env_def)

definition ex_live1 :: hub where
  "ex_live1 = ex_live\<lparr>h_router := ex_router\<lparr>CHAIN_UID_TO_CHAIN := [(ex_uid ''osmosis'', ex_chain ''osmosis'')],
     CHANNEL_TO_CHAIN_UID := [(''osmosis-0'', ex_uid ''osmosis'')]\<rparr>\<rparr>"

lemma ack_reply:
  "reply_call c h (host_router c) \<lparr>reply_id = IBC_ACK_AND_TIMEOUT_REPLY_ID, reply_result = res\<rparr>
     = Ok (h, case res of SubMsgErr e \<Rightarrow> Response_new | SubMsgOk d \<Rightarrow> set_data (reply_payload d) Response_new)"
  by (cases res) (simp_all add: reply_call_def rt_reply_def rt_reply_ids HUB_IBC_EXECUTE_MSG_QUEUE_RANGE_def
      on_ibc_ack_and_timeout_reply_def)

lemma run_ack:
  "run_tx c (Suc n) h (Tx_Ack a) =
     (case exec c n h (host_router c) (Wasm_Execute (host_router c) (To_Router (R_IbcCallbackAckAndTimeout a)) []) of
        None \<Rightarrow> None
      | Some (Inl e) \<Rightarrow> Some (Ok (h, None))
      | Some (Inr (h', d)) \<Rightarrow> Some (Ok (h', Some (reply_payload d))))"
  by (auto simp: rt_entry_def ibc_packet_ack_def env_at_def submsg_defs after_def ack_reply split: option.splits sum.splits)

lemma ex_run1:
  "\<exists>d. run_tx ex_host (Suc (Suc (Suc 0))) ex_live (ex_ack (HI_RegisterFactory (ex_uid ''osmosis'') ''tx'') (AckOk (FactoryRegistered
        \<lparr>rfresp_factory_address = ''factory'', rfresp_chain_id = ''osmosis''\<rparr>))) = Some (Ok (ex_live1, d))"
  unfolding ex_ack_def run_ack
  by (simp add: start_def in_hub_def contract_call_def ex_host_def env_at_def rt_execute_def ibc_ack_packet_internal_call_def
      reusable_internal_ack_call_def from_json_ack_def register_ack_def ibc_ack_register_factory_def ex_live1_def ex_live_def
      ex_router_def ex_state_def item_load_def ex_chain_def map_save_def)

definition ex_live2 :: hub where
  "ex_live2 = ex_live1\<lparr>h_router := (h_router ex_live1)\<lparr>ESCROW_BALANCES := [((ex_tk, ex_uid ''osmosis''), 0)]\<rparr>\<rparr>"

lemma ex_run2:
  "\<exists>d. run_tx ex_host (Suc (Suc (Suc 0))) ex_live1
      (Tx_Receive (ex_packet ''osmosis'' (CI_RequestEscrowCreation ex_user ''tx'' ex_tk))) = Some (Ok (ex_live2, d))"
  unfolding run_receive
  by (simp add: start_def in_hub_def contract_call_def ex_host_def env_at_def rt_execute_def ibc_receive_internal_call_def
      reusable_internal_call_def ex_packet_def execute_request_escrow_creation_def Token_validate_def ascii_defs ex_hub_simps
      map_load_def map_may_load_def map_has_def item_load_def ex_live2_def ex_live1_def ex_live_def ex_router_def map_save_def)

definition ex_live3 :: hub where
  "ex_live3 = \<lparr>h_router = (h_router ex_live1)\<lparr>ESCROW_BALANCES := [((ex_tk, ex_uid ''osmosis''), 50)]\<rparr>,
     h_vb = (h_vb ex_live)\<lparr>VB_BALANCES := [((ex_uid ''osmosis'', ''alice'', ''nibi''), 50)]\<rparr>, h_pools = [],
     h_log = [VB_Mint \<lparr>mint_amount = 50, mint_balance_key = \<lparr>bk_cross_chain_user = ex_user, bk_token_id = ''nibi''\<rparr>\<rparr>]\<rparr>"

lemma ex_run3:
  "\<exists>d. run_tx ex_host (Suc (Suc (Suc (Suc (Suc 0))))) ex_live2
      (ex_ack (HI_ReleaseEscrow (ex_uid ''osmosis'') ex_user 50 ex_tk ''alice'' ''tx'') (AckError ''Timeout'')) = Some (Ok (ex_live3, d))"
  unfolding ex_ack_def run_ack
  by (simp add: start_def in_hub_def contract_call_def ex_host_def env_at_def rt_execute_def ibc_ack_packet_internal_call_def
      reusable_internal_ack_call_def from_json_ack_def ibc_ack_release_escrow_def ex_live3_def ex_live2_def ex_live1_def ex_live_def
      ex_router_def ex_state_def item_load_def map_load_def map_may_load_def map_save_def checked_add_def ex_tk_def Let_def
      submsg_defs after_def enclose_def execute_mint_def to_serialized_balance_key_def ex_user_def)

lemma ex_from_outside: "from_outside ex_host h (ex_ack m a)"
  by (simp add: ex_ack_def)

lemma ex_live1_live: "live ex_host ex_live1"
  using live.ran [OF live.deployed [OF ex_deploy] ex_from_outside] ex_run1 by blast

lemma ex_live3_live: "live ex_host ex_live3"
proof -
  have "live ex_host ex_live2"
    using live.ran [OF ex_live1_live from_outside.simps(2) [THEN iffD2, OF TrueI]] ex_run2 by blast
  then show ?thesis
    using live.ran [OF _ ex_from_outside] ex_run3 by blast
qed

lemma ex_no_callbacks: "no_callbacks ex_host 0"
  unfolding no_callbacks_def by (rule exI [of _ "\<lambda>_. 0"]) (auto simp: ex_host_def split: CosmosMsg.splits)

definition ex_pool :: "string \<Rightarrow> string \<Rightarrow> vlp_storage" where
  "ex_pool s t = \<lparr>VLP_STATE = Some ((example_state 5)\<lparr>vlp_pair := \<lparr>pair_token_1 = Token s, pair_token_2 = Token t\<rparr>\<rparr>),
     CHAIN_LP_TOKENS = [], VLP_BALANCES = [(Token s, 1000000), (Token t, 1000000)]\<rparr>"

definition ex_markets :: hub where
  "ex_markets = \<lparr>h_router = (h_router ex_live1)\<lparr>VLPS := [((Token ''atom'', Token ''nibi''), ''pool1''), ((Token ''atom'', Token ''usdc''), ''pool2'')]\<rparr>,
     h_vb = (h_vb ex_live)\<lparr>VB_BALANCES := [((vsl, ''pool1'', ''nibi''), 1000000), ((vsl, ''pool1'', ''atom''), 1000000),
       ((vsl, ''pool2'', ''atom''), 1000000), ((vsl, ''pool2'', ''usdc''), 1000000)]\<rparr>,
     h_pools = [(''pool1'', ex_pool ''atom'' ''nibi''), (''pool2'', ex_pool ''atom'' ''usdc'')], h_log = []\<rparr>"

definition ex_trade :: ChainIbcSwapExecuteMsg where
  "ex_trade = \<lparr>csw_sender = ex_user, csw_asset_in = ex_tk, csw_amount_in = 10000, csw_asset_out = Token ''usdc'',
     csw_min_amount_out = 9000,
     csw_swaps = [\<lparr>nsp_token_in = ex_tk, nsp_token_out = Token ''atom'', nsp_test_fail = None\<rparr>,
       \<lparr>nsp_token_in = Token ''atom'', nsp_token_out = Token ''usdc'', nsp_test_fail = None\<rparr>],
     csw_cross_chain_addresses = [], csw_tx_id = ''tx''\<rparr>"


lemma ex_host_fields [simp]:
  "host_math ex_host = std_math" "host_router ex_host = ''router''" "host_vb ex_host = ''vb''" "host_vlp_code ex_host = 1"
  "host_env ex_host = ex_env" "host_validate ex_host = Ok" "host_new_address ex_host h = ''pool''"
  "host_outside ex_host h s m = (case m of Wasm_Execute _ _ _ \<Rightarrow> parse_error | _ \<Rightarrow> Ok ([], None))"
  by (simp_all add: ex_host_def)

lemma std_floor: "checked_mul_floor std_math x (decimal_bps std_math n) =
  (let y = unat x * (unat n * 10 ^ 14) div 10 ^ 18 in if y < 2 ^ 128 then Ok (of_nat y) else Err (CheckedMultiplyFraction FractionConversionOverflow))"
  by (simp add: checked_mul_floor_def std_math_def Let_def lift_err_def)


definition ex_hops :: "NextSwapVlp list" where
  "ex_hops = [\<lparr>nsv_vlp_address = ''pool1'', nsv_test_fail = None\<rparr>, \<lparr>nsv_vlp_address = ''pool2'', nsv_test_fail = None\<rparr>]"

lemma ex_hops_valid: "validate_swap_pairs (h_router ex_markets) (csw_swaps ex_trade) = Ok ex_hops"
  by (simp add: validate_swap_pairs_def ex_trade_def ex_markets_def ex_hops_def Pair_new_def Pair_validate_def get_tupple_def Token_validate_def ascii_defs
     map_load_def map_may_load_def ex_tk_def less_eq_Token_def Let_def)

text \<open>The ledger at each stage.\<close>

definition ex_rt :: rt_storage where
  "ex_rt = (h_router ex_markets)\<lparr>ESCROW_BALANCES := [((ex_tk, ex_uid ''osmosis''), 10000)],
     SWAP_ID_TO_MSG := [((ex_uid ''osmosis'', ''alice'', ''tx''), ex_trade)]\<rparr>"

lemma ex_trade_call: "ibc_execute_swap (h_router ex_markets) ex_trade = Ok (ex_rt, \<lparr>r_messages = [reply_always (mint_for_vlp ''vb'' vsl ''pool1'' ex_tk 10000)
        VIRTUAL_BALANCE_MINT_REPLY_ID, reply_always (Wasm_Execute ''pool1''
             (To_Vlp (VLP_Swap ex_user ''tx'' ex_tk 10000 9000 [\<lparr>nsv_vlp_address = ''pool2'', nsv_test_fail = None\<rparr>] None)) []) SWAP_REPLY_ID], r_data = None\<rparr>)"
  unfolding ibc_execute_swap_def validate_swap_pairs_other Let_def ex_hops_valid
  by (simp add: ex_hops_def ex_trade_def ex_markets_def ex_rt_def ex_live1_def ex_live_def ex_router_def slice_first_def slice_last_def split_first_def add_escrow_def
     map_has_def map_may_load_def map_save_def item_load_def ex_state_def checked_add_def ex_user_def)

definition ex_mid :: hub where
  "ex_mid = ex_markets\<lparr>h_router := ex_rt, h_vb := (h_vb ex_live)\<lparr>VB_BALANCES := [((vsl, ''pool1'', ''nibi''), 1010000), ((vsl, ''pool1'', ''atom''), 1000000),
       ((vsl, ''pool2'', ''atom''), 1000000), ((vsl, ''pool2'', ''usdc''), 1000000)]\<rparr>,
    h_log := [VB_Mint \<lparr>mint_amount = 10000, mint_balance_key = \<lparr>bk_cross_chain_user = \<lparr>ccu_chain_uid = vsl, ccu_address = ''pool1''\<rparr>, bk_token_id = ''nibi''\<rparr>\<rparr>]\<rparr>"

lemma ex_mint_run:
  "exec ex_host (Suc n) (ex_markets\<lparr>h_router := ex_rt\<rparr>) ''router'' (mint_for_vlp ''vb'' vsl ''pool1'' ex_tk 10000) = Some (Ok (ex_mid, None))"
  by (simp add: mint_for_vlp_def start_def in_hub_def contract_call_def ex_markets_def ex_live1_def ex_live_def ex_mid_def ex_rt_def execute_mint_def
     item_load_def map_may_load_def map_save_def checked_add_def Let_def to_serialized_balance_key_def ex_tk_def enclose_def)

abbreviation ex_answer :: VlpSwapResponse where
  "ex_answer \<equiv> \<lparr>vsr_sender = ex_user, vsr_tx_id = ''tx'', vsr_asset_out = Token ''usdc'', vsr_amount_out = 9768\<rparr>"

lemma ex_hop_run:
  "\<exists>h'. exec ex_host (Suc (Suc (Suc (Suc (Suc (Suc (Suc n))))))) ex_mid ''router'' (Wasm_Execute ''pool1''
             (To_Vlp (VLP_Swap ex_user ''tx'' ex_tk 10000 9000 [\<lparr>nsv_vlp_address = ''pool2'', nsv_test_fail = None\<rparr>] None)) [])
      = Some (Ok (h', Some (Pb_Execute (Some (Json_VlpSwap ex_answer)))))
    \<and> h_router h' = ex_rt \<and> amount_at (VB_BALANCES (h_vb h')) (account ex_user ''usdc'') = 9768"
  by (simp add: start_def in_hub_def contract_call_def env_at_def ex_mid_def ex_markets_def ex_live_def map_has_def
      map_load_def map_may_load_def item_load_def map_save_def checked_add_def checked_sub_def Let_def
      submsg_defs after_def enclose_def to_serialized_balance_key_def execute_swap_def ex_pool_def ex_tk_def
      example_state_def Token_exists_def std_floor add_fee_def get_other_token_def
      calculate_swap_def checked_mul_def checked_div_def collect_euclid_fee_def deliver_swap_def pool_transfer_def execute_transfer_def
      ask_balance_def query_balance_def reply_call_def vlp_reply_def on_next_swap_reply_def NEXT_SWAP_REPLY_ID_def
      VIRTUAL_BALANCE_TRANSFER_REPLY_ID_def parse_reply_execute_data_def parse_execute_response_data_def amount_at_def,
      simp add: ex_user_def)


lemma ex_release_run:
  assumes "h_router h = ex_rt\<lparr>SWAP_ID_TO_MSG := []\<rparr>" and "amount_at (VB_BALANCES (h_vb h)) (account ex_user ''usdc'') = 9768"
  shows "exec ex_host (Suc n) h ''router'' (release_internal (env_at ex_host ''router'') ex_user (Token ''usdc'') (Some 9768) [] None ''tx'')
      = Some (Ok (h, None))"
  using assms
  by (simp add: release_internal_def start_def in_hub_def contract_call_def env_at_def rt_execute_def item_load_def ex_rt_def ex_markets_def ex_live1_def
    ex_live_def ex_router_def ex_state_def execute_release_escrow_def Let_def ask_balance_def query_balance_def get_timeout_def checked_add_def to_serialized_balance_key_def
    amount_at_def enclose_def)


abbreviation ex_ten :: nat where
  "ex_ten \<equiv> Suc (Suc (Suc (Suc (Suc (Suc (Suc (Suc (Suc (Suc 0)))))))))"

lemma ex_trade_run:
  "\<exists>h'. run_tx ex_host (Suc (Suc ex_ten)) ex_markets (Tx_Receive (ex_packet ''osmosis'' (CI_Swap ex_trade)))
     = Some (Ok (h', Some (Json_Ack (AckOk (Swapped \<lparr>swresp_amount_out = 9768, swresp_tx_id = ''tx''\<rparr>)))))"
proof -
  let ?swap = "Wasm_Execute ''pool1'' (To_Vlp (VLP_Swap ex_user ''tx'' ex_tk 10000 9000 [\<lparr>nsv_vlp_address = ''pool2'', nsv_test_fail = None\<rparr>] None)) []"
  obtain h1 where hop: "exec ex_host (Suc (Suc (Suc (Suc (Suc (Suc (Suc (Suc (Suc 0))))))))) ex_mid ''router'' ?swap
      = Some (Ok (h1, Some (Pb_Execute (Some (Json_VlpSwap ex_answer)))))"
    and h1: "h_router h1 = ex_rt" "amount_at (VB_BALANCES (h_vb h1)) (account ex_user ''usdc'') = 9768"
    using ex_hop_run by blast
  let ?h2 = "h1\<lparr>h_router := ex_rt\<lparr>SWAP_ID_TO_MSG := []\<rparr>\<rparr>"
  have rel: "exec ex_host (Suc n) ?h2 ''router'' (release_internal (env_at ex_host ''router'') ex_user (Token ''usdc'') (Some 9768) [] None ''tx'')
      = Some (Ok (?h2, None))" for n
    using h1(2) by (intro ex_release_run) simp_all
  have "start ex_host ex_markets ''router'' (callback_msg ex_host (ex_packet ''osmosis'' (CI_Swap ex_trade)))
      = Ok (ex_markets\<lparr>h_router := ex_rt\<rparr>, ''router'', \<lparr>r_messages = [reply_always (mint_for_vlp ''vb'' vsl ''pool1'' ex_tk 10000)
        VIRTUAL_BALANCE_MINT_REPLY_ID, reply_always ?swap SWAP_REPLY_ID], r_data = None\<rparr>)"
  proof -
    have "reusable_internal_call (ask_liquidity ex_host ex_markets) (h_router ex_markets) (env_at ex_host ''router'') (CI_Swap ex_trade) (ex_uid ''osmosis'')
      = ibc_execute_swap (h_router ex_markets) ex_trade"
      by (simp add: reusable_internal_call_def ex_trade_def ex_user_def ex_markets_def ex_live1_def ex_live_def ex_router_def ex_state_def item_load_def)
    moreover have "RT_STATE (h_router ex_markets) = Some (ex_state False)"
        "CHANNEL_TO_CHAIN_UID (h_router ex_markets) = [(''osmosis-0'', ex_uid ''osmosis'')]"
        "CHAIN_UID_TO_CHAIN (h_router ex_markets) = [(ex_uid ''osmosis'', ex_chain ''osmosis'')]"
      by (simp_all add: ex_markets_def ex_live1_def ex_live_def ex_router_def)
    ultimately show ?thesis
      by (simp add: start_def in_hub_def contract_call_def rt_execute_def item_load_def ex_state_def ibc_receive_internal_call_def ex_packet_def map_load_def map_may_load_def ex_chain_def ex_trade_call)
  qed
  moreover have "after ex_host (ex_markets\<lparr>h_router := ex_rt\<rparr>) ''router'' (reply_always (mint_for_vlp ''vb'' vsl ''pool1'' ex_tk 10000)
        VIRTUAL_BALANCE_MINT_REPLY_ID) (Ok (ex_mid, None)) = Ok (ex_mid, Response_new)"
    by (simp add: after_def submsg_defs reply_call_def rt_reply_dispatch on_virtual_balance_mint_reply_def)
  moreover have "after ex_host ex_mid ''router'' (reply_always ?swap SWAP_REPLY_ID) (Ok (h1, Some (Pb_Execute (Some (Json_VlpSwap ex_answer)))))
      = Ok (?h2, \<lparr>r_messages = [SubMsg_new (release_internal (env_at ex_host ''router'') ex_user (Token ''usdc'') (Some 9768) [] None ''tx'')],
        r_data = Some (Json_Ack (AckOk (Swapped \<lparr>swresp_amount_out = 9768, swresp_tx_id = ''tx''\<rparr>)))\<rparr>)"
    by (simp add: after_def submsg_defs reply_call_def rt_reply_dispatch on_swap_reply_def h1 parse_reply_execute_data_def parse_execute_response_data_def
        ex_rt_def map_load_def map_may_load_def ex_user_def map_remove_def ex_trade_def Let_def)
  moreover have sub: "sm_msg (reply_always m i) = m" "sm_msg (SubMsg_new m) = m"
      "after c h self (SubMsg_new m) (Inr (h', d)) = Ok (h', Response_new)" for m i h h' d self and c :: "(nat, nat) host"
    by (simp_all add: after_def submsg_defs)
  ultimately show ?thesis
    unfolding run_receive exec.simps(2) [of ex_host ex_ten] by (simp add: ex_mint_run hop rel sub enclose_def del: exec.simps)
qed

section \<open>Transactions of the hub\<close>

text \<open>
  C1: Custody of the whole hub. In every state that the router, the ledger and the pools can reach together, by any
  messages from any accounts and contracts outside, packets, acknowledgements, time-outs and channel handshakes, with
  every failure, reply and call back in between, the virtual supply of every token is what the router records in
  escrow for it on all chains plus exactly what the ledger's transfers from an account to itself have created. (The
  ledger credits such a transfer without debiting it; without them, supply and escrow are equal.)
\<close>

theorem hub_supply_accounted:
  assumes "live c h" and "\<forall>a. host_validate c (host_vb c) = Ok a \<longrightarrow> a = host_vb c"
  shows "vb_supply (h_vb h) t = escrow_total (h_router h) t + self_minted h t"
  using live_books [OF assms(1), of t] assms(2) by (auto simp: excess_def hub.gap_def)

theorem hub_supply_accounted_witness:
  "live ex_host ex_live3 \<and> escrow_total (h_router ex_live3) ''nibi'' = 50 \<and> vb_supply (h_vb ex_live3) ''nibi'' = 50"
proof -
  have "escrow_total (h_router ex_live3) ''nibi'' = 50"
    using escrow_save [of "h_router ex_live1" ex_tk "ex_uid ''osmosis''" 50 "''nibi''"]
    by (simp add: ex_live3_def ex_live1_def ex_live_def ex_router_def map_save_def ex_tk_def amount_at_def map_may_load_def
        escrow_total_def)
  moreover have "self_minted ex_live3 ''nibi'' = 0"
    by (simp add: self_minted_def ex_live3_def)
  moreover have "\<forall>a. host_validate ex_host (host_vb ex_host) = Ok a \<longrightarrow> a = host_vb ex_host"
    by (simp add: ex_host_def)
  ultimately show ?thesis
    using hub_supply_accounted [OF ex_live3_live, of "''nibi''"] ex_live3_live by simp
qed

text \<open>
  C9: A transaction ends unless a contract outside the hub calls the router or a pool back. Contracts outside may send funds
  and packets, call the ledger, instantiate contracts and call each other to a depth of \<open>D\<close>; as long as they send no message to a
  router or a pool, the messages that a transaction causes come to an end, in every state of the hub, and the depth of the calls is
  bounded by three times the rank of the transaction's message, which for a swap grows with the number of pools on its
  route, and twice \<open>D\<close>. So the hub does not loop by itself: its own calls, replies and failures always end.
\<close>

theorem hub_transaction_ends:
  assumes "no_callbacks c D"
  shows "\<exists>out. \<forall>n>3 * tx_rank tx + 2 * D. run_tx c n h tx = Some out"
proof -
  let ?n = "3 * tx_rank tx + 2 * D"
  obtain out where "run_tx c (Suc ?n) h tx = Some out"
    using run_tx_defined [OF assms, of tx "Suc ?n" h] by blast
  then show ?thesis
    using run_tx_mono [of c "Suc ?n" h tx out] by (auto intro!: exI [of _ out] simp: Suc_le_eq)
qed

theorem hub_transaction_ends_witness:
  "\<exists>out. \<forall>n>15. run_tx ex_host n ex_live3 (ex_ack (HI_ReleaseEscrow (ex_uid ''osmosis'') ex_user 50 ex_tk ''alice'' ''tx'')
     (AckError ''Timeout'')) = Some out"
  using hub_transaction_ends [OF ex_no_callbacks, of "ex_ack (HI_ReleaseEscrow (ex_uid ''osmosis'') ex_user 50 ex_tk ''alice'' ''tx'')
     (AckError ''Timeout'')" ex_live3] by (simp add: ex_ack_def)

text \<open>
  C5: A packet is answered, and the answer tells what happened. Whatever outcome the receipt of a packet has, calls back from
  contracts outside included, it is an acknowledgement: either an error, and then the hub is exactly as before, or a success,
  and then the packet was a message of a chain and the acknowledgement is of the kind that the message's sender is waiting
  for. For a request to create a pool the router's pool code has to be the code of the pools; contracts with
  another code may answer differently. And there is an outcome when no contract outside calls the router or a pool back.
\<close>

theorem packet_answered:
  assumes "\<And>s u tx pr. RT_STATE (h_router h) = Some s \<Longrightarrow> packet_data p = Json_ChainIbc (CI_RequestPoolCreation u tx pr)
      \<Longrightarrow> rs_vlp_code_id s = host_vlp_code c"
  shows "(\<forall>n out. run_tx c n h (Tx_Receive p) = Some out \<longrightarrow> (\<exists>h' ack. out = Ok (h', Some (Json_Ack ack))
        \<and> (case ack of AckError e \<Rightarrow> h' = h | AckOk a \<Rightarrow> \<exists>m. packet_data p = Json_ChainIbc m \<and> answers m a)))
     \<and> (\<forall>D n. no_callbacks c D \<longrightarrow> 3 * tx_rank (Tx_Receive p) + 2 * D < n \<longrightarrow> (\<exists>out. run_tx c n h (Tx_Receive p) = Some out))"
proof (intro conjI allI impI)
  fix n out
  assume run: "run_tx c n h (Tx_Receive p) = Some out"
  then obtain k where n: "n = Suc k" by (cases n) (auto simp: rt_entry_def ibc_packet_receive_def)
  obtain res where res: "exec c k h (host_router c) (callback_msg c p) = Some res"
    using run by (auto simp: n run_receive simp del: run_tx.simps split: option.splits)
  note out = run [unfolded n run_receive res, symmetric]
  show "\<exists>h' ack. out = Ok (h', Some (Json_Ack ack))
      \<and> (case ack of AckError e \<Rightarrow> h' = h | AckOk a \<Rightarrow> \<exists>m. packet_data p = Json_ChainIbc m \<and> answers m a)"
  proof (cases res)
    case (Inl e)
    then show ?thesis using out by (simp add: make_ack_fail_def)
  next
    case (Inr q)
    then obtain h' d where q: "res = Inr (h', d)" by (cases q) auto
    from res [unfolded q] show ?thesis
    proof (rule exec_callback)
      fix m u st r k' d1
      assume m: "packet_data p = Json_ChainIbc m"
        and call: "reusable_internal_call (ask_liquidity c h) (h_router h) (env_at c (host_router c)) m u = Inr (st, r)"
        and handled: "handle c k' (h\<lparr>h_router := st\<rparr>) (host_router c) (r_messages r) (r_data r) = Some (Inr (h', d1))"
        and d: "d = (case d1 of None \<Rightarrow> None | Some _ \<Rightarrow> Some (Pb_Execute d1))"
      with internal_answer [OF call handled] assms out show ?thesis by (auto simp: q)
    qed
  qed
qed (use run_tx_defined in blast)

theorem packet_answered_witness:
  "\<exists>h' ack. run_tx ex_host 16 ex_live1 (Tx_Receive (ex_packet ''osmosis'' (CI_RequestEscrowCreation ex_user ''tx'' ex_tk)))
       = Some (Ok (h', Some (Json_Ack ack)))
     \<and> (case ack of AckError e \<Rightarrow> h' = ex_live1 | AckOk a \<Rightarrow> answers (CI_RequestEscrowCreation ex_user ''tx'' ex_tk) a)"
proof -
  let ?m = "CI_RequestEscrowCreation ex_user ''tx'' ex_tk"
  have data: "packet_data (ex_packet ''osmosis'' ?m) = Json_ChainIbc ?m" by (simp add: ex_packet_def)
  then have "3 * tx_rank (Tx_Receive (ex_packet ''osmosis'' ?m)) + 2 * 0 < 16" by (simp add: chain_rank_def)
  with packet_answered [of ex_live1 "ex_packet ''osmosis'' ?m" ex_host] ex_no_callbacks show ?thesis
    by (fastforce simp: data simp del: run_tx.simps cong: AcknowledgementMsg.case_cong)
qed

text \<open>
  C8: A swap that a chain is told has succeeded has paid what its hops pay. If, in a hub whose router and ledger know
  each other, as in every state it reaches, a swap packet over pools of the hub is acknowledged with success, then the acknowledged amount of the requested token is what trading along the route gives, each
  pool with the reserves that it has when its turn comes, fees and rounding included; the amount is at least the minimum the
  user set, and the acknowledgement carries the transaction id of the request. If the route visits no pool twice, the
  query \<open>simulate_swap\<close> of the router returned this amount on the state before; the query looks at the reserves
  before the swap for every hop, so on a route that comes back to a pool it may differ.
\<close>

theorem swap_packet_as_simulated:
  assumes "run_tx c n h (Tx_Receive p) = Some (Ok (h', Some (Json_Ack (AckOk a))))"
    and "packet_data p = Json_ChainIbc (CI_Swap m)" and "linked c h" and "host_vb c \<noteq> host_router c"
    and "validate_swap_pairs (h_router h) (csw_swaps m) = Ok route"
    and "\<forall>v\<in>set (map nsv_vlp_address route). hub_pool c h v"
  shows "\<exists>out. a = Swapped \<lparr>swresp_amount_out = out, swresp_tx_id = csw_tx_id m\<rparr> \<and> csw_min_amount_out m \<le> out
     \<and> trade (host_math c) (h_pools h) (tl route) (nsv_vlp_address (hd route)) (csw_asset_in m) (csw_amount_in m)
         = Ok \<lparr>gsr_amount_out = out, gsr_asset_out = csw_asset_out m\<rparr>
     \<and> (distinct (map nsv_vlp_address route) \<longrightarrow> rt_query raw (route_querier c h) (h_router h) (RTQ_SimulateSwap (swap_query m))
         = Ok (RTA_SimulateSwap \<lparr>gsr_amount_out = out, gsr_asset_out = csw_asset_out m\<rparr>))"
proof -
  obtain k where n: "n = Suc k" using assms(1) by (cases n) (auto simp: rt_entry_def ibc_packet_receive_def)
  obtain d where ex: "exec c k h (host_router c) (callback_msg c p) = Some (Inr (h', d))"
    and ack: "reply_payload d = Json_Ack (AckOk a)"
    using assms(1) by (auto simp: n run_receive make_ack_fail_def simp del: run_tx.simps split: option.splits sum.splits)
  from ex show ?thesis
  proof (rule exec_callback)
    fix m' u st r k' d1
    assume m': "packet_data p = Json_ChainIbc m'"
      and call: "reusable_internal_call (ask_liquidity c h) (h_router h) (env_at c (host_router c)) m' u = Inr (st, r)"
      and run: "handle c k' (h\<lparr>h_router := st\<rparr>) (host_router c) (r_messages r) (r_data r) = Some (Inr (h', d1))"
      and d: "d = (case d1 of None \<Rightarrow> None | Some _ \<Rightarrow> Some (Pb_Execute d1))"
    have "ibc_execute_swap (h_router h) m = Inr (st, r)"
      using call m' assms(2) by (auto simp: reusable_internal_call_def bindR_eq_Inr ensure_eq_Inr)
    then show ?thesis
      by (rule swap_run [OF _ assms(3,4) run assms(5,6)]) (use d ack in \<open>simp add: rt_query_def\<close>)
  qed
qed

theorem swap_packet_as_simulated_witness:
  "(\<exists>h'. run_tx ex_host 12 ex_markets (Tx_Receive (ex_packet ''osmosis'' (CI_Swap ex_trade)))
      = Some (Ok (h', Some (Json_Ack (AckOk (Swapped \<lparr>swresp_amount_out = 9768, swresp_tx_id = ''tx''\<rparr>))))))
     \<and> (\<forall>raw. rt_query raw (route_querier ex_host ex_markets) (h_router ex_markets) (RTQ_SimulateSwap (swap_query ex_trade))
         = Ok (RTA_SimulateSwap \<lparr>gsr_amount_out = 9768, gsr_asset_out = Token ''usdc''\<rparr>))"
proof -
  have twelve: "(12 :: nat) = Suc (Suc ex_ten)" by simp
  obtain h' where run: "run_tx ex_host 12 ex_markets (Tx_Receive (ex_packet ''osmosis'' (CI_Swap ex_trade)))
      = Some (Ok (h', Some (Json_Ack (AckOk (Swapped \<lparr>swresp_amount_out = 9768, swresp_tx_id = ''tx''\<rparr>)))))"
    using ex_trade_run unfolding twelve by blast
  moreover have "packet_data (ex_packet ''osmosis'' (CI_Swap ex_trade)) = Json_ChainIbc (CI_Swap ex_trade)"
    by (simp add: ex_packet_def)
  moreover have "linked ex_host ex_markets" "host_vb ex_host \<noteq> host_router ex_host"
    by (simp_all add: linked_def ledger_address_def ex_markets_def ex_live1_def ex_live_def ex_router_def ex_state_def)
  moreover have "\<forall>v\<in>set (map nsv_vlp_address ex_hops). hub_pool ex_host ex_markets v" "distinct (map nsv_vlp_address ex_hops)"
    by (simp_all add: ex_hops_def hub_pool_def ex_markets_def map_may_load_def ex_pool_def example_state_def)
  moreover have "csw_asset_out ex_trade = Token ''usdc''" by (simp add: ex_trade_def)
  ultimately show ?thesis
    using swap_packet_as_simulated [OF run _ _ _ ex_hops_valid] by (auto simp del: run_tx.simps)
qed

text \<open>
  A route that comes back to a pool. The query prices the last hop with the reserves before the swap; the swap itself
  moves them in its first hop, and pays less than the query says.
\<close>

definition ex_circle :: hub where
  "ex_circle = ex_markets\<lparr>h_vb := (h_vb ex_live)\<lparr>VB_BALANCES := [((vsl, ''pool1'', ''nibi''), 1010000), ((vsl, ''pool1'', ''atom''), 1000000),
       ((vsl, ''pool2'', ''atom''), 1000000), ((vsl, ''pool2'', ''usdc''), 1000000), ((vsl, ''pool3'', ''nibi''), 1000000),
       ((vsl, ''pool3'', ''usdc''), 1000000)]\<rparr>,
     h_pools := [(''pool1'', ex_pool ''atom'' ''nibi''), (''pool2'', ex_pool ''atom'' ''usdc''), (''pool3'', ex_pool ''nibi'' ''usdc'')]\<rparr>"

definition ex_round :: "NextSwapVlp list" where
  "ex_round = [\<lparr>nsv_vlp_address = ''pool2'', nsv_test_fail = None\<rparr>, \<lparr>nsv_vlp_address = ''pool3'', nsv_test_fail = None\<rparr>,
     \<lparr>nsv_vlp_address = ''pool1'', nsv_test_fail = None\<rparr>]"

lemma ex_circle_asked:
  "ask_swap ex_host ex_circle ex_round ''pool1'' ex_tk 10000 = Ok \<lparr>gsr_amount_out = 9546, gsr_asset_out = Token ''atom''\<rparr>"
  by (simp add: ex_circle_def ex_round_def ex_pool_def ex_tk_def map_load_def map_may_load_def query_simulate_swap_def item_load_def
      example_state_def Token_exists_def std_floor get_other_token_def calculate_swap_def checked_mul_def checked_div_def checked_add_def
      checked_sub_def Let_def)

lemma ex_circle_run:
  "\<exists>h'. exec ex_host (Suc (Suc (Suc (Suc (Suc (Suc (Suc (Suc (Suc (Suc (Suc (Suc 0)))))))))))) ex_circle ''router'' (Wasm_Execute ''pool1''
             (To_Vlp (VLP_Swap ex_user ''tx'' ex_tk 10000 9000 ex_round None)) [])
      = Some (Ok (h', Some (Pb_Execute (Some (Json_VlpSwap \<lparr>vsr_sender = ex_user, vsr_tx_id = ''tx'', vsr_asset_out = Token ''atom'', vsr_amount_out = 9360\<rparr>)))))"
  by (simp add: start_def in_hub_def contract_call_def env_at_def ex_circle_def ex_round_def ex_markets_def ex_live_def map_has_def
      map_load_def map_may_load_def item_load_def map_save_def checked_add_def checked_sub_def Let_def
      submsg_defs after_def enclose_def to_serialized_balance_key_def execute_swap_def ex_pool_def ex_tk_def
      example_state_def Token_exists_def std_floor add_fee_def add_or_panic_def get_other_token_def
      calculate_swap_def checked_mul_def checked_div_def collect_euclid_fee_def deliver_swap_def pool_transfer_def execute_transfer_def
      ask_balance_def query_balance_def reply_call_def vlp_reply_def on_next_swap_reply_def NEXT_SWAP_REPLY_ID_def
      VIRTUAL_BALANCE_TRANSFER_REPLY_ID_def parse_reply_execute_data_def parse_execute_response_data_def ex_user_def)

theorem revisited_pool_pays_less:
  "\<exists>h' v res. exec ex_host 12 ex_circle ''router'' (Wasm_Execute ''pool1'' (To_Vlp (VLP_Swap ex_user ''tx'' ex_tk 10000 9000 ex_round None)) [])
        = Some (Ok (h', Some (Pb_Execute (Some (Json_VlpSwap v)))))
     \<and> ask_swap ex_host ex_circle ex_round ''pool1'' ex_tk 10000 = Ok res \<and> vsr_amount_out v < gsr_amount_out res"
proof -
  have twelve: "(12 :: nat) = Suc (Suc ex_ten)" by simp
  show ?thesis using ex_circle_run ex_circle_asked unfolding twelve by fastforce
qed

section \<open>The register of pools\<close>

text \<open>
  C10: The register of the router and the pools agree. In every state the hub can reach, the pool registered under a
  pair serves exactly this pair, with its tokens in order, takes orders from this router only and keeps its balances
  with this hub's ledger, and no other pair is registered with it. So the tokens on which a deposit is booked, which the
  router asks of the pool, are those of the pair that the user named.
\<close>

theorem registered_pool_belongs:
  assumes "live c h" and "\<And>a. host_validate c (host_vb c) = Ok a \<Longrightarrow> a = host_vb c" and "\<And>h. host_new_address c h \<noteq> []"
    and "map_may_load (VLPS (h_router h)) k = Some v" and "map_may_load (h_pools h) v = Some st"
  shows "\<exists>s. VLP_STATE st = Some s \<and> k = (pair_token_1 (vlp_pair s), pair_token_2 (vlp_pair s))
     \<and> pair_token_1 (vlp_pair s) < pair_token_2 (vlp_pair s) \<and> vlp_router s = host_router c \<and> vlp_virtual_balance s = host_vb c
     \<and> (\<forall>k'. map_may_load (VLPS (h_router h)) k' = Some v \<longrightarrow> k' = k)"
proof -
  have "real_addresses c" using assms(3) by (simp add: real_addresses_def)
  from live_registry [OF assms(1) this assms(2)]
  have "serves c h v k'" if "map_may_load (VLPS (h_router h)) k' = Some v" for k'
    using that by (simp add: registry_ok_def del: split_paired_All)
  then have "serves c h v k" and "\<And>k'. map_may_load (VLPS (h_router h)) k' = Some v \<Longrightarrow> serves c h v k'" using assms(4) by blast+
  with assms(5) show ?thesis by (auto simp: serves_def own_pool_def pair_key_def)
qed

text \<open>A pool that a user of a registered chain asked for.\<close>

definition ex_pair :: Pair where
  "ex_pair = \<lparr>pair_token_1 = Token ''atom'', pair_token_2 = Token ''eucl''\<rparr>"

definition ex_order :: vlp_InstantiateMsg where
  "ex_order = \<lparr>vim_router = ''router'', vim_virtual_balance = ''vb'', vim_pair = ex_pair,
     vim_fee = \<lparr>fee_lp_fee_bps = 10, fee_euclid_fee_bps = 10, fee_recipient = \<lparr>ccu_chain_uid = vsl, ccu_address = ''admin''\<rparr>\<rparr>,
     vim_execute = Some (VLP_RegisterPool ex_user ex_pair ''tx''), vim_admin = ''admin''\<rparr>"

definition ex_made :: hub where
  "ex_made = ex_live1\<lparr>h_pools := [(''pool'', \<lparr>VLP_STATE = Some \<lparr>vlp_pair = ex_pair, vlp_router = ''router'', vlp_virtual_balance = ''vb'',
       vlp_fee = vim_fee ex_order, vlp_total_fees_collected = \<lparr>tf_lp_fees = [], tf_euclid_fees = []\<rparr>, vlp_last_updated = 0,
       vlp_total_lp_tokens = 0, vlp_admin = ''admin''\<rparr>, CHAIN_LP_TOKENS = [(ex_uid ''osmosis'', 0)],
       VLP_BALANCES = [(Token ''atom'', 0), (Token ''eucl'', 0)]\<rparr>)]\<rparr>"

definition ex_listed :: hub where
  "ex_listed = ex_made\<lparr>h_router := (h_router ex_live1)\<lparr>VLPS := [((Token ''atom'', Token ''eucl''), ''pool'')]\<rparr>\<rparr>"

lemma ex_pair_valid: "Pair_validate ex_pair = Ok ()"
  by (simp add: Pair_validate_def Token_validate_def ex_pair_def ascii_defs less_eq_Token_def)

lemma ex_pair_tokens [simp]: "pair_token_1 ex_pair = Token ''atom''" "pair_token_2 ex_pair = Token ''eucl''"
  by (simp_all add: ex_pair_def)

lemma ex_pool_call:
  "reusable_internal_call q (h_router ex_live1) (env_at ex_host ''router'') (CI_RequestPoolCreation ex_user ''tx'' ex_pair) (ex_uid ''osmosis'')
     = Ok (h_router ex_live1, \<lparr>r_messages = [reply_always (Wasm_Instantiate (Some ''admin'') 1 (New_Vlp ex_order) [] ''VLP'')
         VLP_INSTANTIATE_REPLY_ID], r_data = None\<rparr>)"
  by (simp add: reusable_internal_call_def execute_request_pool_creation_def ex_pair_valid ex_live1_def ex_live_def ex_router_def
      ex_state_def item_load_def map_may_load_def map_has_def get_vec_token_def ex_order_def ex_user_def env_at_def ex_env_def Let_def)

lemma ex_pool_made:
  "exec ex_host (Suc (Suc 0)) ex_live1 ''router'' (Wasm_Instantiate (Some ''admin'') 1 (New_Vlp ex_order) [] ''VLP'')
     = Some (Ok (ex_made, Some (Pb_Instantiate ''pool'' (Some (Json_PoolCreation \<lparr>pcr_vlp_contract = ''pool''\<rparr>)))))"
  by (simp add: start_def create_pool_def in_hub_def map_has_def Let_def ex_live1_def ex_live_def vlp_instantiate_def ex_order_def
      ex_pair_valid register_pool_def item_load_def map_may_load_def map_save_def enclose_def env_at_def ex_made_def ex_user_def)

lemma ex_pool_run:
  "\<exists>d. run_tx ex_host (Suc (Suc (Suc (Suc (Suc 0))))) ex_live1
      (Tx_Receive (ex_packet ''osmosis'' (CI_RequestPoolCreation ex_user ''tx'' ex_pair))) = Some (Ok (ex_listed, d))"
proof -
  have fields: "RT_STATE (h_router ex_live1) = Some (ex_state False)" "rs_locked (ex_state False) = False"
      "CHANNEL_TO_CHAIN_UID (h_router ex_live1) = [(''osmosis-0'', ex_uid ''osmosis'')]"
      "CHAIN_UID_TO_CHAIN (h_router ex_live1) = [(ex_uid ''osmosis'', ex_chain ''osmosis'')]"
      "contract_address (env_at ex_host ''router'') = ''router''" "factory_addr (ex_chain ''osmosis'') = ''factory''"
      "ex_live1\<lparr>h_router := h_router ex_live1\<rparr> = ex_live1"
    by (simp_all add: ex_chain_def ex_live1_def ex_live_def ex_router_def ex_state_def env_at_def)
  have start: "start ex_host ex_live1 ''router'' (callback_msg ex_host (ex_packet ''osmosis'' (CI_RequestPoolCreation ex_user ''tx'' ex_pair)))
      = Ok (ex_live1, ''router'', \<lparr>r_messages = [reply_always (Wasm_Instantiate (Some ''admin'') 1 (New_Vlp ex_order) [] ''VLP'')
         VLP_INSTANTIATE_REPLY_ID], r_data = None\<rparr>)"
    by (simp add: start_def in_hub_def contract_call_def rt_execute_def ibc_receive_internal_call_def ex_packet_def ex_pool_call
        fields item_load_def map_load_def map_may_load_def)
  have reply: "reply_call ex_host ex_made ''router'' \<lparr>reply_id = VLP_INSTANTIATE_REPLY_ID,
        reply_result = SubMsgOk (Some (Pb_Instantiate ''pool'' (Some (Json_PoolCreation \<lparr>pcr_vlp_contract = ''pool''\<rparr>))))\<rparr>
      = Ok (ex_listed, set_data (Json_Ack (AckOk (PoolCreated \<lparr>pcr_vlp_contract = ''pool''\<rparr>))) Response_new)"
    by (simp add: reply_call_def rt_reply_dispatch on_vlp_instantiate_reply_def parse_reply_instantiate_data_def ask_liquidity_def
        map_may_load_def query_liquidity_def item_load_def map_load_def Let_def unwrap_or_def from_json_pool_creation_def map_save_def ex_listed_def ex_made_def ex_live1_def ex_live_def ex_router_def)
  show ?thesis
    unfolding run_receive exec.simps(2)
    by (simp add: start [simplified] ex_pool_made after_def reply submsg_defs enclose_def del: exec.simps)
qed

lemma ex_listed_live: "live ex_host ex_listed"
  using live.ran [OF ex_live1_live from_outside.simps(2) [THEN iffD2, OF TrueI]] ex_pool_run by blast

lemma ex_listed_pool:
  "map_may_load (VLPS (h_router ex_listed)) (Token ''atom'', Token ''eucl'') = Some ''pool''" "\<exists>st. map_may_load (h_pools ex_listed) ''pool'' = Some st"
  by (simp_all add: ex_listed_def ex_made_def map_may_load_def)

theorem registered_pool_belongs_witness:
  "live ex_host ex_listed \<and> map_may_load (VLPS (h_router ex_listed)) (Token ''atom'', Token ''eucl'') = Some ''pool''
     \<and> (\<exists>st s. map_may_load (h_pools ex_listed) ''pool'' = Some st \<and> VLP_STATE st = Some s
       \<and> pair_token_1 (vlp_pair s) = Token ''atom'' \<and> vlp_router s = ''router'' \<and> vlp_virtual_balance s = ''vb'')"
proof -
  obtain st where st: "map_may_load (h_pools ex_listed) ''pool'' = Some st" using ex_listed_pool(2) by blast
  from registered_pool_belongs [OF ex_listed_live _ _ ex_listed_pool(1) st] st ex_listed_live ex_listed_pool(1)
  show ?thesis by auto
qed

end
