(* ===== verification/Cross_Chain.thy ===== *)
theory Cross_Chain
  imports Router_Escrow Settlement Hub_Properties
begin

text \<open>
  The two ends of a request, factory and router. The router books what a message brings in on the escrow record of its
  chain; the factory holds the funds and sends them to the escrows of the chain when the router has answered. The two
  amounts are the same.
\<close>

section \<open>What the factory tells the router\<close>

text \<open>The pending request behind a message: its amounts and tokens are those of the message.\<close>

fun tells :: "fac_storage \<Rightarrow> addr \<Rightarrow> ChainIbcExecuteMsg \<Rightarrow> bool" where
  "tells st a (CI_Swap m) \<longleftrightarrow>
     (\<exists>q. map_may_load (PENDING_SWAPS st) (a, csw_tx_id m) = Some q
        \<and> csw_asset_in m = twd_token (sr_asset_in q) \<and> csw_amount_in m = sr_amount_in q)"
| "tells st a (CI_AddLiquidity s x y tol pair tx) \<longleftrightarrow>
     (\<exists>q. map_may_load (PENDING_ADD_LIQUIDITY st) (a, tx) = Some q
        \<and> x = alr_token_1_liquidity q \<and> y = alr_token_2_liquidity q \<and> pair_token_1 pair < pair_token_2 pair
        \<and> pair_token_1 pair = twd_token (pwd_token_1 (alr_pair_info q)) \<and> pair_token_2 pair = twd_token (pwd_token_2 (alr_pair_info q)))"
| "tells st a _ \<longleftrightarrow> True"

lemma swap_told:
  assumes "execute_swap_request M av qs ta st info env sender t out amt min_out swaps to addrs pf = Inr (st', r)"
    and "m \<in> set (requests r)" and "av (ccu_address (chain_sender m)) = Inr a"
  shows "tells st' a m"
proof -
  obtain saddr where saddr: "av (ccu_address sender) = Inr saddr" using swap_request_ok1 [OF assms(1)] by blast
  from swap_request_stores [OF assms(1) this refl] obtain net and q :: SwapRequest and c :: ChainIbcSwapExecuteMsg
      and n state channel timeout p where
      msg: "fac_to_msg (st\<lparr>F_TX_NONCE := n, PENDING_SWAPS := map_save (PENDING_SWAPS st) (saddr, snd (fac_generate_tx st env sender)) q\<rparr>)
        env (CI_Swap c) state channel timeout = Inr (st', p)" and r: "r = \<lparr>r_messages = [p], r_data = None\<rparr>"
    and c: "csw_sender c = sender" "csw_tx_id c = snd (fac_generate_tx st env sender)" "csw_asset_in c = twd_token t"
      "sr_asset_in q = t" "sr_amount_in q = net" "csw_amount_in c = net" by blast
  have "m = CI_Swap c" using assms(2) fac_to_msg_keeps(2) [OF msg] by (simp add: r)
  moreover have "PENDING_SWAPS st' = map_save (PENDING_SWAPS st) (saddr, csw_tx_id c) q"
    by (subst fac_to_msg_keeps(1) [OF msg]) (simp add: c)
  ultimately show ?thesis using assms(3) saddr c by simp
qed

lemma deposit_told:
  assumes run: "add_liquidity_request ta st info env p x y slip to = Inr (st', r)"
    and "m \<in> set (requests r)" and "a = ccu_address (chain_sender m)"
  shows "tells st' a m"
proof -
  from run obtain state where state: "F_STATE st = Some state"
    using add_request_ok1 by blast
  let ?s = "\<lparr>ccu_chain_uid = fs_chain_uid state, ccu_address = info_sender info\<rparr>"
  let ?tx = "snd (fac_generate_tx st env ?s)"
  obtain pair where pair: "get_pair p = Inr pair" and req: "requests r = [CI_AddLiquidity ?s x y slip pair ?tx]"
    and pend: "PENDING_ADD_LIQUIDITY st' = map_save (PENDING_ADD_LIQUIDITY st) (info_sender info, ?tx)
        \<lparr>alr_sender = info_sender info, alr_tx_id = ?tx, alr_token_1_liquidity = x, alr_token_2_liquidity = y, alr_pair_info = p\<rparr>"
    using add_request_stores [OF run state refl refl] by blast
  have "pair_token_1 pair = twd_token (pwd_token_1 p)" "pair_token_2 pair = twd_token (pwd_token_2 p)"
    using add_request_checked [OF run] pair by (auto simp: PairWithDenom_validate_def is_ok_iff ensure_eq_Inr)
  moreover have "pair_token_1 pair < pair_token_2 pair"
    using pair by (auto simp: get_pair_def Pair_new_def Let_def bindR_eq_Inr Pair_validate_Inr)
  ultimately show ?thesis using assms(2,3) req pend by simp
qed

lemma others_told:
  "fac_execute_request_pool_creation vl ta st env info pair nm sy dec mk to = Inr (st', r) \<Longrightarrow> m \<in> set (requests r) \<Longrightarrow> tells st'' a m"
  "execute_request_register_escrow st env info token to = Inr (st', r) \<Longrightarrow> m \<in> set (requests r) \<Longrightarrow> tells st'' a m"
  "execute_withdraw_virtual_balance st env info tk amt addrs to = Inr (st', r) \<Longrightarrow> m \<in> set (requests r) \<Longrightarrow> tells st'' a m"
  "remove_liquidity_request av st info env sender pr lp to addrs = Inr (st', r) \<Longrightarrow> m \<in> set (requests r) \<Longrightarrow> tells st'' a m"
  unfolding fac_execute_request_pool_creation_def execute_request_register_escrow_def
    execute_withdraw_virtual_balance_def remove_liquidity_request_def Let_def split_beta bindR_eq_Inr ensure_eq_Inr
    response_simps
  by (auto dest!: fac_to_msg_request)

lemma request_told:
  assumes run: "fac_execute w st env info msg = Inr (st', r)" and m: "m \<in> set (requests r)"
    and av: "w_addr_validate w (ccu_address (chain_sender m)) = Inr a" "a = ccu_address (chain_sender m)"
  shows "tells st' a m"
proof (cases msg)
  case (F_Receive c)
  with run obtain hook where "from_json_hook (crm_msg c) = Inr hook"
    by (auto simp: fac_execute_def fac_receive_cw20_def Let_def bindR_eq_Inr)
  with F_Receive run m av show ?thesis
    by (cases hook) (auto simp: fac_execute_def fac_receive_cw20_def Let_def bindR_eq_Inr ensure_eq_Inr dest: others_told(4) swap_told)
next
  case (F_IbcCallbackReceive p)
  with run m show ?thesis
    by (auto simp: fac_execute_def fac_ibc_receive_internal_call_def Let_def bindR_eq_Inr ensure_eq_Inr dest!: router_message_requests)
next
  case (F_NativeReceiveCallback b)
  with run m show ?thesis
    by (auto simp: fac_execute_def fac_execute_native_receive_callback_def bindR_eq_Inr ensure_eq_Inr dest!: router_message_requests)
next
  case (F_IbcCallbackAckAndTimeout ack)
  with run m show ?thesis
    by (auto simp: fac_execute_def fac_ibc_ack_packet_internal_call_def bindR_eq_Inr dest!: internal_ack_requests)
next
  case (F_ExecuteSwapRequest t out x min_out to swaps addrs pf)
  with run obtain state where "F_STATE st = Some state" by (auto simp: fac_execute_def bindR_eq_Inr item_load_eq_Inr)
  from swap_told [OF run [unfolded F_ExecuteSwapRequest fac_execute_swap [OF this]] m av(1)] show ?thesis .
next
  case (F_AddLiquidityRequest p x y slip to)
  with run have "add_liquidity_request (w_token_allowed w) st info env p x y slip to = Inr (st', r)" by (simp add: fac_execute_def)
  from deposit_told [OF this m av(2)] show ?thesis .
qed (use run m in \<open>auto simp: fac_execute_def dest: others_told dest!: quiet_requests\<close>)

section \<open>What the factory puts in escrow\<close>

text \<open>The amount that a message of the factory brings to an escrow, and that of a whole response.\<close>

fun deposited :: "message_info \<Rightarrow> escrow_ExecuteMsg \<Rightarrow> nat" where
  "deposited info ESC_DepositNative = (\<Sum>c\<leftarrow>info_funds info. unat (coin_amount c))"
| "deposited info (ESC_Receive m) = unat (crm_amount m)"
| "deposited info _ = 0"

definition escrow_amount :: "addr \<Rightarrow> CosmosMsg \<Rightarrow> addr \<Rightarrow> nat" where
  "escrow_amount self m e = (case escrow_call self m of Some (e', info, m') \<Rightarrow> if e' = e then deposited info m' else 0 | None \<Rightarrow> 0)"

definition put_in_escrow :: "addr \<Rightarrow> Response \<Rightarrow> addr \<Rightarrow> nat" where
  "put_in_escrow self r e = (\<Sum>m\<leftarrow>r_messages r. escrow_amount self (sm_msg m) e)"

lemma put_in_escrow_simps [simp]:
  "put_in_escrow self \<lparr>r_messages = [], r_data = d\<rparr> e = 0"
  "put_in_escrow self \<lparr>r_messages = m # ms, r_data = d\<rparr> e
     = escrow_amount self (sm_msg m) e + put_in_escrow self \<lparr>r_messages = ms, r_data = d\<rparr> e"
  by (simp_all add: put_in_escrow_def)

lemma escrow_amount_simps [simp]:
  "escrow_amount self (create_escrow_msg t x e') e = (if e' = e then unat x else 0)"
  "escrow_amount self (create_transfer_msg t x to own) e = 0"
  "escrow_amount self (Wasm_Execute a (To_Cw20 (CW20_Mint to x)) f) e = 0"
  "escrow_amount self (Wasm_Execute a (To_Cw20 (CW20_Burn x)) f) e = 0"
  "escrow_amount self (Wasm_Execute a (To_Cw20 (CW20_Transfer to x)) f) e = 0"
  "escrow_amount self (Wasm_Instantiate ad code n f l) e = 0"
  by (cases t; cases own; simp add: escrow_amount_def escrow_call_create deposit_info_def create_transfer_msg_def)+

lemma put_in_escrow_new: "put_in_escrow self \<lparr>r_messages = map (new_escrow state) ts @ ms, r_data = x\<rparr> e
    = put_in_escrow self \<lparr>r_messages = ms, r_data = x\<rparr> e"
  by (induction ts) (simp_all add: new_escrow_def submsg_defs)

text \<open>The tokens that have a given escrow.\<close>

abbreviation tokens_of :: "fac_storage \<Rightarrow> addr \<Rightarrow> Token set" where
  "tokens_of st e \<equiv> {t. map_may_load (TOKEN_TO_ESCROW st) t = Some e}"

lemma finite_tokens: "finite (tokens_of st e)"
proof (rule finite_subset)
  show "tokens_of st e \<subseteq> fst ` set (TOKEN_TO_ESCROW st)"
    by (auto simp: map_may_load_def dest!: map_of_SomeD intro: rev_image_eqI)
qed simp

lemma sum_tokens: "(\<Sum>t\<in>tokens_of st e. if t = t' then n else 0) = (if map_may_load (TOKEN_TO_ESCROW st) t' = Some e then n else (0 :: nat))"
  using finite_tokens [of st e] by (simp add: sum.delta)

lemma swap_put_in_escrow:
  assumes "ack_swap_request av st (AckOk data) sender tx native = Inr (st', r)" and "av sender = Inr a"
    and "map_may_load (PENDING_SWAPS st) (a, tx) = Some q"
  shows "put_in_escrow self r e
     = (if map_may_load (TOKEN_TO_ESCROW st) (twd_token (sr_asset_in q)) = Some e then unat (sr_amount_in q) else 0)"
  using assms
  by (auto simp: ack_swap_request_def Let_def bindR_eq_Inr map_load_eq_Inr submsg_defs split: if_splits)

lemma deposit_put_in_escrow:
  assumes "ack_add_liquidity av st (AckOk data) sender tx native = Inr (st', r)" and "av sender = Inr a"
    and "map_may_load (PENDING_ADD_LIQUIDITY st) (a, tx) = Some q"
  shows "put_in_escrow self r e
     = (if map_may_load (TOKEN_TO_ESCROW st) (twd_token (pwd_token_1 (alr_pair_info q))) = Some e then unat (alr_token_1_liquidity q) else 0)
     + (if map_may_load (TOKEN_TO_ESCROW st) (twd_token (pwd_token_2 (alr_pair_info q))) = Some e then unat (alr_token_2_liquidity q) else 0)"
  using assms
  by (auto simp: ack_add_liquidity_def Let_def bindR_eq_Inr map_load_eq_Inr submsg_defs)

lemma others_put_in_escrow:
  "ack_pool_creation av st env sender pres tx native = Inr (st', r) \<Longrightarrow> put_in_escrow self r e = 0"
  "ack_escrow_creation av st sender eres tx native = Inr (st', r) \<Longrightarrow> put_in_escrow self r e = 0"
  "ack_remove_liquidity av st rres sender tx native = Inr (st', r) \<Longrightarrow> put_in_escrow self r e = 0"
  "ack_withdraw_request st wres native = Inr (st', r) \<Longrightarrow> put_in_escrow self r e = 0"
  apply (cases pres; auto simp: ack_pool_creation_def Let_def bindR_eq_Inr submsg_defs put_in_escrow_new split: if_splits)
  apply (cases eres; auto simp: ack_escrow_creation_def Let_def bindR_eq_Inr submsg_defs new_escrow_def split: if_splits)
  apply (cases rres; auto simp: ack_remove_liquidity_def Let_def bindR_eq_Inr submsg_defs split: if_splits)
  apply (cases wres; auto simp: ack_withdraw_request_def split: if_splits)
  done

section \<open>The two ends together\<close>

lemma sum_tokens_brought:
  "(\<Sum>t\<in>tokens_of st e. brought_in ql rt (CI_Swap m) (t, ccu_chain_uid (csw_sender m)))
     = (if map_may_load (TOKEN_TO_ESCROW st) (csw_asset_in m) = Some e then unat (csw_amount_in m) else 0)"
  "map_may_load (VLPS rt) (get_tupple pair) = Some v \<Longrightarrow> ql v = Inr l \<Longrightarrow>
   (\<Sum>t\<in>tokens_of st e. brought_in ql rt (CI_AddLiquidity s x y tol pair tx) (t, ccu_chain_uid s))
     = (if map_may_load (TOKEN_TO_ESCROW st) (pair_token_1 (glr_pair l)) = Some e then unat x else 0)
     + (if map_may_load (TOKEN_TO_ESCROW st) (pair_token_2 (glr_pair l)) = Some e then unat y else 0)"
  by (simp_all add: map_load_def sum.distrib sum_tokens)

text \<open>The factory puts in escrow what the router booked for the message that is answered.\<close>

lemma answer_put_in_escrow:
  assumes reg: "registry_ok c h" and hub: "reusable_internal_call (ask_liquidity c h) (h_router h) henv m u = Inr (rt, hr)"
    and told: "tells st a m" and av: "av (ccu_address (chain_sender m)) = Inr a"
    and ack: "fac_reusable_internal_ack_call av st env m (Json_Ack (AckOk d)) native = Inr (st', r)"
  shows "put_in_escrow self r e = (\<Sum>t\<in>tokens_of st e. brought_in (ask_liquidity c h) (h_router h) m (t, u))"
proof (cases m)
  case (CI_Swap x)
  with hub have "u = ccu_chain_uid (csw_sender x)" by (auto simp: reusable_internal_call_def bindR_eq_Inr ensure_eq_Inr)
  moreover from ack CI_Swap obtain dd where
      "ack_swap_request av st (AckOk dd) (ccu_address (csw_sender x)) (csw_tx_id x) native = Inr (st', r)"
    by (auto simp: fac_reusable_internal_ack_call_def bindR_eq_Inr from_json_ack_def split: option.splits)
  ultimately show ?thesis
    using told av CI_Swap swap_put_in_escrow [of av st dd _ _ native st' r a _ self e] by (auto simp: sum_tokens)
next
  case (CI_AddLiquidity s x y tol pair tx)
  with hub have u: "u = ccu_chain_uid s" by (auto simp: reusable_internal_call_def bindR_eq_Inr ensure_eq_Inr)
  from hub CI_AddLiquidity obtain v l where v: "map_may_load (VLPS (h_router h)) (get_tupple pair) = Some v" "ask_liquidity c h v = Inr l"
    by (auto simp: reusable_internal_call_def ibc_execute_add_liquidity_def Let_def bindR_eq_Inr ensure_eq_Inr map_load_eq_Inr)
  from reg v(1) have "serves c h v (get_tupple pair)" by (simp add: registry_ok_def del: split_paired_All)
  note serves_asked [OF this v(2)]
  moreover from told CI_AddLiquidity obtain q where q: "map_may_load (PENDING_ADD_LIQUIDITY st) (a, tx) = Some q"
      "x = alr_token_1_liquidity q" "y = alr_token_2_liquidity q" "pair_token_1 pair < pair_token_2 pair"
      "pair_token_1 pair = twd_token (pwd_token_1 (alr_pair_info q))" "pair_token_2 pair = twd_token (pwd_token_2 (alr_pair_info q))"
    by auto
  ultimately have l: "pair_token_1 (glr_pair l) = twd_token (pwd_token_1 (alr_pair_info q))"
      "pair_token_2 (glr_pair l) = twd_token (pwd_token_2 (alr_pair_info q))"
    by (simp_all add: pair_key_def get_tupple_def less_imp_le)
  from ack CI_AddLiquidity obtain dd where "ack_add_liquidity av st (AckOk dd) (ccu_address s) tx native = Inr (st', r)"
    by (auto simp: fac_reusable_internal_ack_call_def bindR_eq_Inr from_json_ack_def split: option.splits)
  from deposit_put_in_escrow [OF this _ q(1)] av CI_AddLiquidity sum_tokens_brought(2) [where ql = "ask_liquidity c h", OF v, where st = st and e = e and s = s and x = x and y = y and tol = tol and tx = tx]
  show ?thesis by (simp add: u q(2,3) l del: brought_in.simps)
qed (use ack in \<open>auto simp: fac_reusable_internal_ack_call_def bindR_eq_Inr others_put_in_escrow\<close>)

lemma handlers_release_nothing:
  "ibc_execute_swap st x = Inr (st', r) \<Longrightarrow> released r k = 0"
  "ibc_execute_add_liquidity ql st sender a b tol pair tx = Inr (st', r) \<Longrightarrow> released r k = 0"
  "ibc_execute_remove_liquidity st y = Inr (st', r) \<Longrightarrow> released r k = 0"
  "execute_request_pool_creation st env sender pair tx = Inr (st', r) \<Longrightarrow> released r k = 0"
  "execute_request_escrow_creation st sender tk tx = Inr (st', r) \<Longrightarrow> released r k = 0"
  unfolding ibc_execute_swap_def ibc_execute_add_liquidity_def ibc_execute_remove_liquidity_def execute_request_pool_creation_def
    execute_request_escrow_creation_def Let_def split_beta vsl_chain_uid_ok bindR_Inr bindR_eq_Inr ensure_eq_Inr
  by (auto simp: bindR_eq_Inr submsg_defs split: option.splits)

lemma message_releases_nothing: "reusable_internal_call ql st env m u = Inr (st', r) \<Longrightarrow> released r k = 0"
  by (cases m) (auto simp: reusable_internal_call_def bindR_eq_Inr ensure_eq_Inr submsg_defs dest: handlers_release_nothing)

text \<open>
  C2: The escrows of a chain and the record of the router move together. A factory sends a request of a user; the router
  of any hub that can be reached accepts it; later the factory, where the request is still pending, is told that it
  succeeded. Then for every escrow of the chain, what the factory now sends to this escrow is exactly what the router added to
  its record for the tokens of this escrow on this chain: the input of a swap, the two amounts of a deposit, and nothing for
  every other request.
\<close>

theorem exchange_balanced:
  assumes "fac_execute w st env info msg = Ok (st1, r1)" and "m \<in> set (requests r1)"
    and "w_addr_validate w (ccu_address (chain_sender m)) = Ok (ccu_address (chain_sender m))"
    and "live c h" and "\<And>a. host_validate c (host_vb c) = Ok a \<Longrightarrow> a = host_vb c" and "\<And>h. host_new_address c h \<noteq> []"
    and "reusable_internal_call (ask_liquidity c h) (h_router h) henv m u = Ok (rt, hr)"
    and "key = (ccu_address (chain_sender m), ChainIbc_get_tx_id m)"
    and "map_may_load (PENDING_SWAPS st2) key = map_may_load (PENDING_SWAPS st1) key"
    and "map_may_load (PENDING_ADD_LIQUIDITY st2) key = map_may_load (PENDING_ADD_LIQUIDITY st1) key"
    and "packet_data p = Json_ChainIbc m"
    and "fac_execute w st2 env2 info2 (F_IbcCallbackAckAndTimeout
           \<lparr>acknowledgement = Json_Ack (AckOk d), original_packet = p\<rparr>) = Ok (st3, r3)"
  shows "(\<Sum>t\<in>tokens_of st2 e. recorded rt (t, u))
     = (\<Sum>t\<in>tokens_of st2 e. recorded (h_router h) (t, u)) + put_in_escrow (contract_address env2) r3 e"
proof -
  have "tells st1 (ccu_address (chain_sender m)) m" using request_told [OF assms(1,2,3) refl] .
  then have told: "tells st2 (ccu_address (chain_sender m)) m" using assms(8,9,10) by (cases m) simp_all
  have reg: "registry_ok c h" using live_registry [OF assms(4) _ assms(5)] assms(6) by (simp add: real_addresses_def)
  have ack: "fac_reusable_internal_ack_call (w_addr_validate w) st2 env2 m (Json_Ack (AckOk d)) False = Inr (st3, r3)"
    using assms(11,12) by (simp add: fac_execute_def fac_ibc_ack_packet_internal_call_def)
  have "recorded rt (t, u) = recorded (h_router h) (t, u) + brought_in (ask_liquidity c h) (h_router h) m (t, u)" for t
    using chain_booksD [OF internal_call_chain [OF assms(7)], of "(t, u)"] message_releases_nothing [OF assms(7)] by simp
  with answer_put_in_escrow [OF reg assms(7) told assms(3) ack] show ?thesis by (simp add: sum.distrib)
qed

text \<open>The swap of the example, from the factory over the hub with the new pool back to the factory.\<close>

definition xc_msg :: ChainIbcExecuteMsg where
  "xc_msg = CI_Swap \<lparr>csw_sender = xf_user, csw_asset_in = Token ''atom'', csw_amount_in = 1000, csw_asset_out = Token ''eucl'',
     csw_min_amount_out = 1, csw_swaps = [\<lparr>nsp_token_in = Token ''atom'', nsp_token_out = Token ''eucl'', nsp_test_fail = None\<rparr>],
     csw_cross_chain_addresses = [], csw_tx_id = xf_tx\<rparr>"

lemma xc_sent:
  "\<exists>st r. fac_execute xf_world xf_fac xf_env (xf_pays 1000) (xf_swap None) = Ok (st, r) \<and> requests r = [xc_msg]
     \<and> TOKEN_TO_ESCROW st = TOKEN_TO_ESCROW xf_fac
     \<and> (\<exists>q. map_may_load (PENDING_SWAPS st) (''alice'', xf_tx) = Some q \<and> sr_asset_in q = xf_in \<and> sr_partner_fee_amount q = 0)"
  by (simp add: xf_defs fac_execute_def execute_swap_request_def Let_def split_beta fac_generate_tx_def xf_fee
      TokenWithDenom_validate_def TokenType_is_native_def get_denom_def MAX_PARTNER_FEE_BPS_def checked_sub_def
      map_has_def slice_first_def slice_last_def get_timeout_def map_load_def map_may_load_def fac_to_msg_def
      ChainIbc_to_msg_def xc_msg_def xf_tx_def submsg_defs map_save_def)

lemma xc_accepted:
  "\<exists>rt r. reusable_internal_call q (h_router ex_listed) env xc_msg (ChainUid ''osmosis'') = Ok (rt, r)
     \<and> recorded (h_router ex_listed) (Token ''atom'', ChainUid ''osmosis'') = 0"
  by (simp add: reusable_internal_call_def xc_msg_def ibc_execute_swap_def xf_user_def ex_listed_def ex_made_def ex_live1_def ex_live_def
      ex_router_def ex_state_def slice_first_def slice_last_def split_first_def validate_swap_pairs_def Pair_new_def Pair_validate_def
      get_tupple_def Token_validate_def ascii_defs less_eq_Token_def map_has_def map_load_def map_may_load_def map_save_def item_load_def
      Let_def add_escrow_def checked_add_def unwrap_or_def map_err_def submsg_defs amount_at_def)

theorem exchange_balanced_witness:
  "\<exists>st1 r1 rt hr st3 r3. fac_execute xf_world xf_fac xf_env (xf_pays 1000) (xf_swap None) = Ok (st1, r1) \<and> xc_msg \<in> set (requests r1)
     \<and> live ex_host ex_listed
     \<and> reusable_internal_call (ask_liquidity ex_host ex_listed) (h_router ex_listed) ex_env xc_msg (ChainUid ''osmosis'') = Ok (rt, hr)
     \<and> fac_execute xf_world st1 xf_env (xf_pays 0) (F_IbcCallbackAckAndTimeout \<lparr>acknowledgement =
           Json_Ack (AckOk (Swapped \<lparr>swresp_amount_out = 5, swresp_tx_id = xf_tx\<rparr>)), original_packet = xf_lost\<rparr>) = Ok (st3, r3)
     \<and> recorded rt (Token ''atom'', ChainUid ''osmosis'') = put_in_escrow ''factory'' r3 ''escrow1''"
proof -
  let ?ack = "\<lparr>acknowledgement = Json_Ack (AckOk (Swapped \<lparr>swresp_amount_out = 5, swresp_tx_id = xf_tx\<rparr>)), original_packet = xf_lost\<rparr>"
  obtain st r where sent: "fac_execute xf_world xf_fac xf_env (xf_pays 1000) (xf_swap None) = Ok (st, r)" and "requests r = [xc_msg]"
      and esc: "TOKEN_TO_ESCROW st = TOKEN_TO_ESCROW xf_fac"
      and "\<exists>q. map_may_load (PENDING_SWAPS st) (''alice'', xf_tx) = Some q \<and> sr_asset_in q = xf_in \<and> sr_partner_fee_amount q = 0"
    using xc_sent by blast
  then have m: "xc_msg \<in> set (requests r)" by simp
  obtain rt hr where acc: "reusable_internal_call (ask_liquidity ex_host ex_listed) (h_router ex_listed) ex_env xc_msg (ChainUid ''osmosis'') = Ok (rt, hr)"
      and zero: "recorded (h_router ex_listed) (Token ''atom'', ChainUid ''osmosis'') = 0"
    using xc_accepted by blast
  have av: "w_addr_validate xf_world (ccu_address (chain_sender xc_msg)) = Ok (ccu_address (chain_sender xc_msg))" by (simp add: xf_world_def)
  have data: "packet_data xf_lost = Json_ChainIbc xc_msg" by (simp add: xf_lost_def xc_msg_def)
  have tokens: "tokens_of st ''escrow1'' = {Token ''atom''}" unfolding esc by (auto simp: xf_fac_def map_may_load_def split: if_splits)
  have "map_may_load (TOKEN_TO_ESCROW st) (Token ''atom'') = Some ''escrow1''" by (simp add: esc xf_fac_def map_may_load_def)
  then have "\<exists>st3 r3. fac_execute xf_world st xf_env (xf_pays 0) (F_IbcCallbackAckAndTimeout ?ack) = Ok (st3, r3)"
    using data \<open>\<exists>q. _\<close> by (auto simp: fac_execute_def fac_ibc_ack_packet_internal_call_def fac_reusable_internal_ack_call_def
        from_json_ack_def swap_ack_def ack_swap_request_def Let_def map_load_def xf_in_def xc_msg_def xf_user_def xf_world_def)
  then obtain st3 r3 where ack: "fac_execute xf_world st xf_env (xf_pays 0) (F_IbcCallbackAckAndTimeout ?ack) = Ok (st3, r3)" by blast
  from exchange_balanced [OF sent m av ex_listed_live _ _ acc refl refl refl data ack, of "''escrow1''"]
  have "recorded rt (Token ''atom'', ChainUid ''osmosis'') = put_in_escrow ''factory'' r3 ''escrow1''"
    by (simp add: tokens zero xf_env_def)
  with sent m ex_listed_live acc ack show ?thesis by blast
qed

end
