(* ===== verification/Hub_Reserves.thy ===== *)
theory Hub_Reserves
  imports Hub_Packets Hub_Registry
begin

text \<open>
  The reserves of the pools and the ledger. A pool records its reserves on its own; what it can pay out is its virtual
  balance. Over whole transactions, with mints, deposits, trades over several pools, fees, withdrawals, failures and calls from
  outside, the virtual balance covers the reserves.
\<close>

section \<open>Reserves and cover\<close>

text \<open>The reserve of a pool of the hub, and by how much its virtual balance exceeds it.\<close>

definition recorded_reserve :: "('d, 'e) host \<Rightarrow> hub \<Rightarrow> addr \<Rightarrow> Token \<Rightarrow> nat" where
  "recorded_reserve c h a t =
     (case map_may_load (h_pools h) a of
        None \<Rightarrow> 0
      | Some st \<Rightarrow> (case VLP_STATE st of None \<Rightarrow> 0 | Some s \<Rightarrow> if own_pool c s then reserve st t else 0))"

definition slack :: "('d, 'e) host \<Rightarrow> hub \<Rightarrow> addr \<Rightarrow> Token \<Rightarrow> int" where
  "slack c h a t = int (vb_bal (h_vb h) (vsl, a, token_id t)) - int (recorded_reserve c h a t)"

text \<open>What an account of the hub loses by a message to the ledger.\<close>

fun burns :: "addr \<Rightarrow> vb_ExecuteMsg \<Rightarrow> bool" where
  "burns a (VB_Burn m) \<longleftrightarrow> bk_cross_chain_user (burn_balance_key m) = \<lparr>ccu_chain_uid = vsl, ccu_address = a\<rparr>"
| "burns a _ \<longleftrightarrow> False"

fun draws :: "addr \<Rightarrow> Token \<Rightarrow> vb_ExecuteMsg \<Rightarrow> nat" where
  "draws a t (VB_Transfer m) =
     (if transfer_from m = \<lparr>ccu_chain_uid = vsl, ccu_address = a\<rparr> \<and> transfer_token_id m = token_id t then unat (transfer_amount m) else 0)"
| "draws a t _ = 0"

lemma ledger_draws:
  assumes "vb_execute st info m = Inr (st', r)" and "\<not> burns a m"
  shows "vb_bal st (vsl, a, token_id t) \<le> vb_bal st' (vsl, a, token_id t) + draws a t m"
proof (cases m)
  case (VB_Transfer x)
  with assms show ?thesis
    by (cases "transfer_from x") (auto simp: transfer_ok_iff)
next
  case (VB_Burn x)
  with assms show ?thesis
    by (cases "bk_cross_chain_user (burn_balance_key x)") (auto simp: burn_ok_iff to_serialized_balance_key_def)
qed (use assms in \<open>auto simp: mint_ok_iff\<close>)

lemma foreign_draw:
  assumes "vb_execute st info m = Inr (st', r)" and "VB_STATE st = Some s" and "info_sender info \<noteq> a"
    and "info_sender info = vbs_router s \<Longrightarrow> \<forall>x. m \<noteq> VB_Transfer x"
  shows "draws a t m = 0"
  using assms by (cases m) (auto simp: transfer_ok_iff may_transfer_def)

section \<open>Time passes\<close>

text \<open>Pools stay what they are, new ones have addresses that the host keeps for them, and the log of the ledger grows.\<close>

definition later :: "('d, 'e) host \<Rightarrow> hub \<Rightarrow> hub \<Rightarrow> bool" where
  "later c h h' \<longleftrightarrow> set (h_log h) \<subseteq> set (h_log h')
     \<and> (\<forall>a. map_has (h_pools h') a \<longrightarrow> map_has (h_pools h) a \<or> (a \<in> range (host_new_address c) \<and> a \<noteq> host_router c \<and> a \<noteq> host_vb c))
     \<and> (\<forall>a st. map_may_load (h_pools h) a = Some st \<longrightarrow> (\<exists>st'. map_may_load (h_pools h') a = Some st' \<and> same_pool st st'))"

lemma same_pool_refl: "same_pool st st"
  by (simp add: same_pool_def)

lemma same_pool_trans: "same_pool x y \<Longrightarrow> same_pool y z \<Longrightarrow> same_pool x z"
  unfolding same_pool_def by metis

lemma later_refl [simp]: "later c h h"
  by (simp add: later_def same_pool_refl)

lemma later_trans: "later c h h' \<Longrightarrow> later c h' h'' \<Longrightarrow> later c h h''"
  unfolding later_def by (intro conjI) (blast intro: same_pool_trans)+

lemma later_updates [simp]:
  "later c h (h\<lparr>h_router := st\<rparr>)"
  "later c h (h\<lparr>h_vb := vb, h_log := h_log h @ l\<rparr>)"
  by (auto simp: later_def same_pool_refl)

lemma later_pool:
  "map_may_load (h_pools h) a = Some st \<Longrightarrow> same_pool st st' \<Longrightarrow> later c h (h\<lparr>h_pools := map_save (h_pools h) a st'\<rparr>)"
  "map_may_load (h_pools h) a = None \<Longrightarrow> a \<in> range (host_new_address c) \<Longrightarrow> a \<noteq> host_router c \<Longrightarrow> a \<noteq> host_vb c \<Longrightarrow>
     later c h (h\<lparr>h_pools := map_save (h_pools h) a st'\<rparr>)"
  by (auto simp: later_def same_pool_refl map_has_def)

lemma contract_call_later:
  assumes "contract_call c h a info m = Inr (h', r)"
  shows "later c h h'"
proof -
  consider "a = host_router c" | "a \<noteq> host_router c" "a = host_vb c" | "a \<noteq> host_router c" "a \<noteq> host_vb c" by blast
  then show ?thesis
  proof cases
    case 3
    with assms obtain x st st' where h': "h' = h\<lparr>h_pools := map_save (h_pools h) a st'\<rparr>"
      and st: "map_may_load (h_pools h) a = Some st"
      and ex: "vlp_execute (host_math c) (ask_balance c h) st (env_at c a) info x = Inr (st', r)"
      by (cases m) (auto simp: contract_call_def bindR_eq_Inr map_load_eq_Inr)
    from later_pool(1) [OF st vlp_execute_same [OF ex]] show ?thesis by (simp add: h')
  qed (use assms in \<open>cases m; auto simp: contract_call_def bindR_eq_Inr\<close>)+
qed

lemma start_later:
  assumes "start c h s msg = Inr (h', self, r)"
  shows "later c h h'"
proof -
  consider a x f where "contract_call c h a \<lparr>info_sender = s, info_funds = f\<rparr> x = Inr (h', r)"
    | info m where "create_pool c h info m = Inr (h', self, r)"
    | "go_outside c h s msg = Inr (h', self, r)"
    using assms
    by (auto simp: start_def bindR_eq_Inr split: CosmosMsg.splits wasm_instantiate_msg.splits if_splits)
  then show ?thesis
  proof cases
    case 1
    from contract_call_later [OF this] show ?thesis .
  next
    case 2
    then show ?thesis
      by (auto simp: create_pool_def Let_def bindR_eq_Inr ensure_eq_Inr in_hub_def map_has_def intro!: later_pool(2))
  next
    case 3
    then show ?thesis by (cases msg) (auto simp: go_outside_def bindR_eq_Inr)
  qed
qed

lemma reply_later:
  assumes "reply_call c h self rep = Inr (h', r)"
  shows "later c h h'"
proof (cases "self = host_router c")
  case False
  with assms obtain st st' where "h' = h\<lparr>h_pools := map_save (h_pools h) self st'\<rparr>"
    and "map_may_load (h_pools h) self = Some st" and "vlp_reply st rep = Inr (st', r)"
    by (auto simp: reply_call_def bindR_eq_Inr map_load_eq_Inr)
  then show ?thesis by (auto intro!: later_pool(1) simp: same_pool_refl dest: vlp_reply_silent)
qed (use assms in \<open>auto simp: reply_call_def bindR_eq_Inr\<close>)

lemma after_later:
  assumes "after c h self m out = Inr (h', r)" and "\<And>h1 d. out = Inr (h1, d) \<Longrightarrow> later c h h1"
  shows "later c h h'"
  using assms reply_later later_trans by (cases out) (fastforce simp: after_def split: if_splits)+

lemma run_later:
  "exec c n h s msg = Some (Inr (h', d')) \<Longrightarrow> later c h h'"
  "handle c n h self ms d = Some (Inr (h', d')) \<Longrightarrow> later c h h'"
proof (induction c n h s msg and c n h self ms d arbitrary: h' d' and h' d' rule: exec_handle.induct)
  case (2 c n h sender msg)
  from 2(2) obtain h1 self r d1 where start: "start c h sender msg = Inr (h1, self, r)"
    and handle: "handle c n h1 self (r_messages r) (r_data r) = Some (Inr (h', d1))"
    unfolding exec_Inr by auto
  with 2(1) [of "(h1, self, r)" h1 "(self, r)" self r h' d1] start_later [OF start] show ?case
    by (auto intro: later_trans)
next
  case (5 c n h self m ms d)
  from 5(4) obtain out h1 r h2 d2 where ex: "exec c n h self (sm_msg m) = Some out" and aft: "after c h self m out = Inr (h1, r)"
    and rep: "handle c n h1 self (r_messages r) (r_data r) = Some (Inr (h2, d2))"
    and rest: "handle c (Suc n) h2 self ms (if d2 = None then d else d2) = Some (Inr (h', d'))"
    unfolding handle_Cons_Inr by auto
  have "later c h h1" using after_later [OF aft] 5(1) ex by blast
  moreover have "later c h1 h2" using 5(2) [OF ex, of "(h1, r)" h1 r h2 d2] aft rep by simp
  moreover have "later c h2 h'" using 5(3) [OF ex, of "(h1, r)" h1 r "(h2, d2)" h2 d2 h' d'] aft rep rest by simp
  ultimately show ?case by (blast intro: later_trans)
qed simp_all

section \<open>What a pool still has to pay\<close>

text \<open>
  Messages of a pool that an excess of \<open>k\<close> is enough for: its transfers come first and are covered by \<open>k\<close>; after a
  message to another contract, nothing more is drawn.
\<close>

fun ledger_msg :: "('d, 'e) host \<Rightarrow> CosmosMsg \<Rightarrow> bool" where
  "ledger_msg c (Wasm_Execute a (To_VirtualBalance _) _) \<longleftrightarrow> a = host_vb c"
| "ledger_msg c _ \<longleftrightarrow> False"

definition drawn :: "addr \<Rightarrow> Token \<Rightarrow> SubMsg \<Rightarrow> nat" where
  "drawn a t m = (\<Sum>x\<leftarrow>vb_msg_of (sm_msg m). draws a t x)"

fun enough :: "('d, 'e) host \<Rightarrow> addr \<Rightarrow> Token \<Rightarrow> int \<Rightarrow> SubMsg list \<Rightarrow> bool" where
  "enough c a t k [] \<longleftrightarrow> 0 \<le> k"
| "enough c a t k (m # ms) \<longleftrightarrow>
     (if ledger_msg c (sm_msg m) then enough c a t (k - int (drawn a t m)) ms else 0 \<le> k \<and> vb_msg_of (sm_msg m) = [] \<and> enough c a t 0 ms)"

lemma enough_others: "\<forall>m\<in>set ms. vb_msg_of (sm_msg m) = [] \<Longrightarrow> 0 \<le> k \<Longrightarrow> enough c a t k ms"
proof (induction ms arbitrary: k)
  case (Cons m ms)
  then have "\<not> ledger_msg c (sm_msg m)" by (cases "sm_msg m" rule: vb_msg_of.cases) auto
  with Cons show ?case by simp
qed simp

lemma enough_transfers:
  assumes "\<forall>m\<in>set ts. ledger_msg c (sm_msg m)" and "\<forall>m\<in>set ms. vb_msg_of (sm_msg m) = []"
    and "(\<Sum>m\<leftarrow>ts. int (drawn a t m)) \<le> k"
  shows "enough c a t k (ts @ ms)"
  using assms(1,3) by (induction ts arbitrary: k) (auto simp: enough_others [OF assms(2)])

lemma enough_mono: "enough c a t k ms \<Longrightarrow> k \<le> k' \<Longrightarrow> enough c a t k' ms"
  by (induction c a t k ms arbitrary: k' rule: enough.induct) auto

lemma drawn_transfer:
  "contract_address env = a \<Longrightarrow> drawn a t (reply_on_error (pool_transfer state env vsl t' x to) i) = (if t' = t then unat x else 0)"
  "contract_address env = a \<Longrightarrow> drawn a t (reply_always (pool_transfer state env vsl t' x to) i) = (if t' = t then unat x else 0)"
  by (auto simp: drawn_def pool_transfer_def submsg_defs Token.expand)

lemma ledger_transfer:
  "ledger_msg c (sm_msg (reply_on_error (pool_transfer state env u t x to) i)) \<longleftrightarrow> vlp_virtual_balance state = host_vb c"
  "ledger_msg c (sm_msg (reply_always (pool_transfer state env u t x to) i)) \<longleftrightarrow> vlp_virtual_balance state = host_vb c"
  by (auto simp: pool_transfer_def submsg_defs)

lemma deliver_enough:
  assumes "deliver_swap state env vsl sender b out min_out tx vs = Inr ms" and "vlp_virtual_balance state = host_vb c"
    and "contract_address env = a" and "(if b = t then int (unat out) else 0) \<le> k"
  shows "enough c a t k ms"
  using assms(1)
proof (rule deliver_swap_messages)
  assume "ms = [reply_on_error (pool_transfer state env vsl b out sender) VIRTUAL_BALANCE_TRANSFER_REPLY_ID]"
  with assms(2-4) show ?thesis by (simp add: drawn_transfer ledger_transfer del: of_nat_unat split: if_splits)
next
  fix v vs'
  let ?to = "\<lparr>ccu_chain_uid = vsl, ccu_address = nsv_vlp_address v\<rparr>"
  assume "ms = [reply_on_error (pool_transfer state env vsl b out ?to) VIRTUAL_BALANCE_TRANSFER_REPLY_ID,
      reply_always (Wasm_Execute (nsv_vlp_address v) (To_Vlp (VLP_Swap sender tx b out min_out vs' (nsv_test_fail v))) []) NEXT_SWAP_REPLY_ID]"
  with assms(2-4) show ?thesis
    by (simp add: drawn_transfer ledger_transfer del: of_nat_unat split: if_splits) (simp_all add: submsg_defs)
qed

lemma swap_enough:
  assumes "cosmwasm_math M" and "execute_swap M q st env sender b x min_out tx vs tf = Inr (st', r)"
    and s: "VLP_STATE st = Some s" and own: "own_pool c s" and a: "contract_address env = a"
    and q: "q (host_vb c) = query_balance vb" and cover: "reserve st t \<le> vb_bal vb (vsl, a, token_id t)"
  shows "enough c a t (int (vb_bal vb (vsl, a, token_id t)) - int (reserve st' t)) (r_messages r)"
proof (rule cosmwasm_math.execute_swap_okE [OF assms(1,2)], goal_cases)
  case (1 state lpf ef sw Rin Rout v out Rin' Rout' lp_fees euclid_fees fee_msgs out_msgs)
  let ?o = "get_other_token (vlp_pair s) b"
  have state: "state = s" using 1(1) s by simp
  have vb: "vlp_virtual_balance s = host_vb c" using own by (simp add: own_pool_def)
  have "pair_token_1 (vlp_pair s) \<noteq> pair_token_2 (vlp_pair s)" using own by (auto simp: own_pool_def)
  with 1(3) have other: "?o \<noteq> b" by (auto simp: get_other_token_def Token_exists_def state)
  have v: "vb_bal vb (vsl, a, token_id b) = unat Rin + unat x"
    using 1(9,10) by (auto simp: state vb q query_balance_def to_serialized_balance_key_def amount_at_def a)
  define fee where "fee = (if b = t then int (unat ef) else 0)"
  define pay where "pay = (if ?o = t then int (unat out) else 0)"
  have B: "amount_at (VLP_BALANCES st') t = (if t = ?o then Rout' else if t = b then Rin' else amount_at (VLP_BALANCES st) t)"
    by (simp add: 1(18) state)
  have R: "reserve st ?o = unat Rout" using 1(8) by (simp add: amount_at_Some state)
  have bal: "fee + pay \<le> int (vb_bal vb (vsl, a, token_id t)) - int (reserve st' t)"
  proof -
    consider "t = b" | "t = ?o" "t \<noteq> b" | "t \<noteq> b" "t \<noteq> ?o" by blast
    then show ?thesis
    proof cases
      case 1
      with other v \<open>unat Rin' + unat ef = unat Rin + unat x\<close> show ?thesis unfolding B by (simp add: fee_def pay_def del: of_nat_unat)
    next
      case 2
      have "unat Rout \<le> vb_bal vb (vsl, a, token_id t)" using cover R 2 by simp
      with 2 \<open>unat Rout = unat Rout' + unat out\<close> show ?thesis unfolding B by (simp add: fee_def pay_def del: of_nat_unat)
    next
      case 3
      with cover show ?thesis unfolding B by (simp add: fee_def pay_def del: of_nat_unat)
    qed
  qed
  note fees = 1(16) [unfolded collect_euclid_fee_Inr state] and out = 1(17) [unfolded state]
  have r: "r_messages r = fee_msgs @ out_msgs" by (simp add: 1(19))
  show ?case
  proof (cases "ef = 0")
    case True
    with fees have "fee_msgs = []" by simp
    moreover have "pay \<le> int (vb_bal vb (vsl, a, token_id t)) - int (reserve st' t)" using bal by (simp add: fee_def True split: if_splits)
    ultimately show ?thesis unfolding r pay_def using deliver_enough [OF out vb a] by simp
  next
    case False
    then have "fee_msgs = [reply_on_error (pool_transfer s env vsl b ef (fee_recipient (vlp_fee s))) VIRTUAL_BALANCE_TRANSFER_REPLY_ID]"
      using fees by simp
    moreover have "int (drawn a t (reply_on_error (pool_transfer s env vsl b ef (fee_recipient (vlp_fee s))) VIRTUAL_BALANCE_TRANSFER_REPLY_ID)) = fee"
      by (simp add: drawn_transfer a fee_def del: of_nat_unat)
    moreover have "pay \<le> int (vb_bal vb (vsl, a, token_id t)) - int (reserve st' t) - fee" using bal by simp
    note deliver_enough [OF out vb a this [unfolded pay_def]]
    ultimately show ?thesis by (simp add: r ledger_transfer vb del: of_nat_unat)
  qed
qed

lemma remove_enough:
  assumes "cosmwasm_math M" and "remove_liquidity M st env info sender lp tx = Inr (st', r)"
    and s: "VLP_STATE st = Some s" and own: "own_pool c s" and a: "contract_address env = a"
    and cover: "int (reserve st t) \<le> k"
  shows "enough c a t (k - int (reserve st' t)) (r_messages r)"
proof (rule cosmwasm_math.remove_liquidity_okE [OF assms(1,2)], goal_cases)
  case (1 state l R1 R2 share x1 x2 l' R1' R2' L')
  let ?t1 = "pair_token_1 (vlp_pair s)" and ?t2 = "pair_token_2 (vlp_pair s)"
  have state: "state = s" using 1(1) s by simp
  have own: "vlp_virtual_balance s = host_vb c" "?t1 \<noteq> ?t2" using own by (auto simp: own_pool_def)
  have B: "amount_at (VLP_BALANCES st') t = (if t = ?t2 then R2' else if t = ?t1 then R1' else amount_at (VLP_BALANCES st) t)"
    by (simp add: 1(13) state)
  have R: "reserve st ?t1 = unat R1" "reserve st ?t2 = unat R2" using 1(3,4) by (simp_all add: amount_at_Some state)
  have "(if ?t1 = t then int (unat x1) else 0) + (if ?t2 = t then int (unat x2) else 0) \<le> k - int (reserve st' t)"
    using cover own(2) R 1(10,11) unfolding B by (auto simp del: of_nat_unat)
  then have "0 \<le> k - int (reserve st' t) - (if ?t1 = t then int (unat x1) else 0) - (if ?t2 = t then int (unat x2) else 0)" by linarith
  with own(1) show ?case unfolding 1(14) state by (simp add: drawn_transfer ledger_transfer a if_distrib [of int] del: of_nat_unat cong: if_cong)
qed

text \<open>A call of a pool, other than a deposit, leaves enough for the messages it sends.\<close>

lemma pool_enough:
  assumes "cosmwasm_math M" and ex: "vlp_execute M q st env info m = Inr (st', r)"
    and s: "VLP_STATE st = Some s" and own: "own_pool c s" and a: "contract_address env = a"
    and q: "q (host_vb c) = query_balance vb" and cover: "reserve st t \<le> vb_bal vb (vsl, a, token_id t)"
    and "\<And>u tx x y tol. m = VLP_AddLiquidity u tx x y tol \<Longrightarrow> info_sender info \<noteq> host_router c"
  shows "enough c a t (int (vb_bal vb (vsl, a, token_id t)) - int (reserve st' t)) (r_messages r)"
proof (cases m)
  case (VLP_Swap u tx b x min_out vs tf)
  with swap_enough [where q = q, OF assms(1) _ s own a q cover] ex show ?thesis by (simp del: of_nat_unat)
next
  case (VLP_RemoveLiquidity u tx lp)
  with remove_enough [OF assms(1) _ s own a, of info u lp tx st' r t "int (vb_bal vb (vsl, a, token_id t))"] ex cover show ?thesis by (simp del: of_nat_unat)
next
  case (VLP_AddLiquidity u tx x y tol)
  with ex assms(8) s own show ?thesis by (auto simp: add_liquidity_def bindR_eq_Inr ensure_eq_Inr item_load_eq_Inr own_pool_def)
qed (use ex cover in \<open>auto simp: register_pool_def update_fee_def Let_def bindR_eq_Inr ensure_eq_Inr simp del: of_nat_unat\<close>)

section \<open>What the router sends to a pool\<close>

fun deposits_in :: "addr \<Rightarrow> CosmosMsg \<Rightarrow> bool" where
  "deposits_in a (Wasm_Execute v (To_Vlp (VLP_AddLiquidity _ _ _ _ _)) _) \<longleftrightarrow> v = a"
| "deposits_in a _ \<longleftrightarrow> False"

lemma deposits_in_rank: "deposits_in a msg \<Longrightarrow> rank msg = 1"
  by (cases "(a, msg)" rule: deposits_in.cases) auto

text \<open>The three messages of a deposit: the router mints for the pool what it tells the pool to book.\<close>

definition deposit_msgs :: "addr \<Rightarrow> addr \<Rightarrow> Pair \<Rightarrow> CrossChainUser \<Rightarrow> string \<Rightarrow> uint128 \<Rightarrow> uint128 \<Rightarrow> u64 \<Rightarrow> SubMsg list" where
  "deposit_msgs vb a p sender tx x y tol =
     [reply_on_error (mint_for_vlp vb vsl a (pair_token_1 p) x) VIRTUAL_BALANCE_MINT_REPLY_ID,
      reply_on_error (mint_for_vlp vb vsl a (pair_token_2 p) y) VIRTUAL_BALANCE_MINT_REPLY_ID,
      reply_always (Wasm_Execute a (To_Vlp (VLP_AddLiquidity sender tx x y tol)) []) ADD_LIQUIDITY_REPLY_ID]"

text \<open>The messages of the router hold no deposit for the pool, or are those of a deposit.\<close>

definition fair :: "addr \<Rightarrow> liq_querier \<Rightarrow> addr option \<Rightarrow> SubMsg list \<Rightarrow> bool" where
  "fair a ql va ms \<longleftrightarrow> (\<forall>m\<in>set ms. \<not> deposits_in a (sm_msg m))
     \<or> (\<exists>vb l sender tx x y tol. va = Some vb \<and> ql a = Inr l \<and> ms = deposit_msgs vb a (glr_pair l) sender tx x y tol)"

lemma quiet_fair: "sends_quietly 0 st r st' \<Longrightarrow> fair a ql va (r_messages r)" "sends 1 st r st' \<Longrightarrow> fair a ql va (r_messages r)"
  by (auto simp: sends_quietly_def sends_def fair_def dest!: deposits_in_rank)

lemma fairI: "(\<And>m. m \<in> set (r_messages r) \<Longrightarrow> \<not> deposits_in a (sm_msg m)) \<Longrightarrow> fair a ql va (r_messages r)"
  by (auto simp: fair_def)

lemma add_liquidity_fair:
  assumes "ibc_execute_add_liquidity ql st sender x y tol pair tx = Inr (st', r)"
  shows "fair a ql (ledger_address st) (r_messages r)"
proof -
  from assms obtain state vb v st1 and l :: GetLiquidityResponse where
      "ql v = Inr l"
    and e1: "add_escrow st (pair_token_1 (glr_pair l)) (ccu_chain_uid sender) x = Inr st1"
    and e2: "add_escrow st1 (pair_token_2 (glr_pair l)) (ccu_chain_uid sender) y = Inr st'"
    and state: "RT_STATE st' = Some state" "rs_virtual_balance_address state = Some vb"
    and r: "r_messages r = deposit_msgs vb v (glr_pair l) sender tx x y tol"
    unfolding ibc_execute_add_liquidity_def Let_def split_beta vsl_chain_uid_ok bindR_Inr bindR_eq_Inr ensure_eq_Inr
      ok_or_eq_Inr item_load_eq_Inr deposit_msgs_def
    by auto
  moreover have "ledger_address st = Some vb" using add_escrow_ledger [OF e1] add_escrow_ledger [OF e2] state by simp
  moreover have "v \<noteq> a \<Longrightarrow> \<forall>m\<in>set (r_messages r). \<not> deposits_in a (sm_msg m)"
    by (simp add: r deposit_msgs_def mint_for_vlp_def submsg_defs)
  ultimately show ?thesis unfolding fair_def by blast
qed

lemma other_requests_fair:
  "ibc_execute_swap st x = Inr (st', r) \<Longrightarrow> fair a ql va (r_messages r)"
  "ibc_execute_remove_liquidity st y = Inr (st', r) \<Longrightarrow> fair a ql va (r_messages r)"
  "execute_request_pool_creation st env sender pair tx = Inr (st', r) \<Longrightarrow> fair a ql va (r_messages r)"
  "execute_request_escrow_creation st sender tk tx = Inr (st', r) \<Longrightarrow> fair a ql va (r_messages r)"
  "execute_withdraw_voucher st env info tk z as to = Inr (st', r) \<Longrightarrow> fair a ql va (r_messages r)"
  unfolding ibc_execute_swap_def ibc_execute_remove_liquidity_def execute_request_pool_creation_def
    execute_request_escrow_creation_def execute_withdraw_voucher_def Let_def split_beta vsl_chain_uid_ok bindR_Inr bindR_eq_Inr ensure_eq_Inr
  by (auto simp: bindR_eq_Inr submsg_defs mint_for_vlp_def release_internal_def intro!: fairI split: option.splits)

lemma request_fair:
  "reusable_internal_call ql st env m u = Inr (st', r) \<Longrightarrow> fair a ql (ledger_address st) (r_messages r)"
  by (cases m) (auto simp: reusable_internal_call_def bindR_eq_Inr ensure_eq_Inr submsg_defs release_internal_def
      intro: add_liquidity_fair other_requests_fair fairI)

lemma register_fair:
  assumes "execute_register_factory st env info u c = Inr (st', r)"
  shows "fair a ql va (r_messages r)"
proof (cases c)
  case (RegisterNative f)
  with assms obtain s msg chain p where p: "rt_to_msg (fst (rt_generate_tx st env s)) env msg chain 0 = Inr (fst p, snd p)"
    and r: "r = \<lparr>r_messages = [snd p], r_data = None\<rparr>"
    unfolding execute_register_factory_def Let_def split_beta bindR_eq_Inr ensure_eq_Inr
    by (auto simp: bindR_eq_Inr)
  have "rank (sm_msg (snd p)) = 0" using rt_to_msg_chain_msg [OF p] by (simp add: chain_msg_def)
  then show ?thesis by (auto simp: r fair_def dest!: deposits_in_rank)
next
  case (RegisterIbc ch to)
  with assms show ?thesis
    unfolding execute_register_factory_def Let_def split_beta bindR_eq_Inr ensure_eq_Inr
    by (auto simp: submsg_defs bindR_eq_Inr intro!: fairI)
qed

lemma update_channel_fair: "execute_update_factory_channel st env info ch u = Inr (st', r) \<Longrightarrow> fair a ql va (r_messages r)"
  unfolding execute_update_factory_channel_def Let_def split_beta bindR_eq_Inr ensure_eq_Inr
  by (auto simp: submsg_defs bindR_eq_Inr intro!: fairI split: if_splits)

lemma callback_fair:
  "ibc_receive_internal_call ql st env p = Inr (st', r) \<Longrightarrow> fair a ql (ledger_address st) (r_messages r)"
  "execute_native_receive_callback ql st env info u m = Inr (st', r) \<Longrightarrow> fair a ql (ledger_address st) (r_messages r)"
  by (auto simp: ibc_receive_internal_call_def execute_native_receive_callback_def bindR_eq_Inr ensure_eq_Inr from_json_Inr
      dest: request_fair)

lemma rt_execute_fair:
  assumes "rt_execute qv ql st env info msg = Inr (st', r)"
  shows "fair a ql (ledger_address st) (r_messages r)"
proof -
  obtain state where state: "RT_STATE st = Some state"
    using assms by (auto simp: rt_execute_def ok_simps)
  show ?thesis
    using assms
    by (cases msg; cases "rs_locked state")
       (auto simp: rt_execute_def state dest: callback_fair register_fair update_channel_fair other_requests_fair(5)
         intro: quiet_fair(1) [OF admin_sends(1)] quiet_fair(1) [OF admin_sends(2)] quiet_fair(1) [OF admin_sends(3)]
         quiet_fair(1) [OF admin_sends(4)] quiet_fair(1) [OF callback_sends(3)] quiet_fair(2) [OF release_escrow_sends])
qed

lemma self_call_replies:
  "on_remove_liquidity_reply st env msg = Inr (st', r) \<Longrightarrow> m \<in> set (r_messages r) \<Longrightarrow> \<not> deposits_in a (sm_msg m)"
  "on_swap_reply st env msg = Inr (st', r) \<Longrightarrow> m \<in> set (r_messages r) \<Longrightarrow> \<not> deposits_in a (sm_msg m)"
  by (auto simp: on_remove_liquidity_reply_def on_swap_reply_def bindR_eq_Inr ensure_eq_Inr Let_def submsg_defs release_internal_def
      split: SubMsgResult.splits)

lemma rt_reply_fair:
  assumes "rt_reply av ql st env rep = Inr (st', r)" and "reply_id rep \<noteq> VIRTUAL_BALANCE_INSTANTIATE_REPLY_ID"
  shows "\<forall>m\<in>set (r_messages r). \<not> deposits_in a (sm_msg m)"
proof (cases "self_calling (reply_id rep)")
  case True
  with assms(1) show ?thesis unfolding self_calling_def by (auto simp: rt_reply_dispatch dest: self_call_replies)
next
  case False
  with rt_reply_sends [OF assms] show ?thesis by (auto simp: sends_quietly_def dest!: deposits_in_rank)
qed

end
