(* ===== verification/Hub_Cover.thy ===== *)
theory Hub_Cover
  imports Hub_Reserves Hub_Properties
begin

text \<open>
  The virtual balances of a pool cover its reserves, in every state that the hub reaches: one step of the hub, a deposit as
  a whole, runs of messages, transactions, and the property.
\<close>

section \<open>One step\<close>

text \<open>A pool at the address that somebody else instantiated: its records are not the hub's.\<close>

definition alien :: "('d, 'e) host \<Rightarrow> hub \<Rightarrow> addr \<Rightarrow> bool" where
  "alien c h a \<longleftrightarrow> (\<exists>st s. map_may_load (h_pools h) a = Some st \<and> VLP_STATE st = Some s \<and> \<not> own_pool c s)"

definition unburned :: "addr \<Rightarrow> hub \<Rightarrow> bool" where
  "unburned a h \<longleftrightarrow> (\<forall>m\<in>set (h_log h). \<not> burns a m)"

text \<open>The address is one that the host keeps for new contracts, and messages to such an address fail before there is a contract.\<close>

definition sound_host :: "('d, 'e) host \<Rightarrow> addr \<Rightarrow> bool" where
  "sound_host c a \<longleftrightarrow> cosmwasm_math (host_math c) \<and> a \<in> range (host_new_address c) \<and> a \<noteq> host_router c \<and> a \<noteq> host_vb c
     \<and> (\<forall>h s m f x. \<not> in_hub c h a \<longrightarrow> host_outside c h s (Wasm_Execute a m f) \<noteq> Inr x)"

lemma alien_later: "alien c h a \<Longrightarrow> later c h h' \<Longrightarrow> alien c h' a"
  by (fastforce simp: alien_def later_def same_pool_def own_pool_def)

lemma alien_slack: "alien c h a \<Longrightarrow> 0 \<le> slack c h a t"
  by (auto simp: alien_def slack_def recorded_reserve_def)

lemma unburned_later: "unburned a h' \<Longrightarrow> later c h h' \<Longrightarrow> unburned a h"
  by (auto simp: unburned_def later_def)

lemma slack_updates [simp]:
  "slack c (h\<lparr>h_router := st\<rparr>) a t = slack c h a t"
  "b \<noteq> a \<Longrightarrow> slack c (h\<lparr>h_pools := map_save (h_pools h) b st'\<rparr>) a t = slack c h a t"
  by (simp_all add: slack_def recorded_reserve_def)

lemma alien_updates [simp]: "alien c (h\<lparr>h_router := st\<rparr>) a = alien c h a"
  by (simp add: alien_def)

lemma slack_own:
  assumes "map_may_load (h_pools h) a = Some st" and "VLP_STATE st = Some s" and "own_pool c s"
  shows "slack c h a t = int (vb_bal (h_vb h) (vsl, a, token_id t)) - int (reserve st t)"
  using assms by (simp add: slack_def recorded_reserve_def)

text \<open>What the messages of a contract still may do.\<close>

definition ready :: "('d, 'e) host \<Rightarrow> hub \<Rightarrow> addr \<Rightarrow> addr \<Rightarrow> Token \<Rightarrow> SubMsg list \<Rightarrow> bool" where
  "ready c h self a t ms \<longleftrightarrow> alien c h a
     \<or> (if self = a then enough c a t (slack c h a t) ms
        else 0 \<le> slack c h a t \<and> (self = host_router c \<longrightarrow> fair a (ask_liquidity c h) (Some (host_vb c)) ms))"

lemma ledger_step_slack:
  assumes "vb_execute (h_vb h) info x = Inr (st, r)" and "\<not> burns a x"
  shows "slack c h a t - int (draws a t x) \<le> slack c (h\<lparr>h_vb := st, h_log := l\<rparr>) a t"
proof -
  have "int (vb_bal (h_vb h) (vsl, a, token_id t)) \<le> int (vb_bal st (vsl, a, token_id t) + draws a t x)"
    using ledger_draws [OF assms] by (simp only: of_nat_le_iff)
  then show ?thesis by (simp add: slack_def recorded_reserve_def del: of_nat_unat)
qed

lemma vlp_execute_state: "vlp_execute M q st env info m = Inr (st', r) \<Longrightarrow> \<exists>s. VLP_STATE st = Some s"
  by (cases m) (auto simp: add_liquidity_def remove_liquidity_def register_pool_def update_fee_def bindR_eq_Inr item_load_eq_Inr
      elim: execute_swap_messages)

lemma pool_step_ready:
  assumes "sound_host c a" and "vlp_execute (host_math c) (ask_balance c h) st (env_at c a) info m = Inr (st', r)"
    and st: "map_may_load (h_pools h) a = Some st" and "0 \<le> slack c h a t"
    and "\<And>u tx x y tol. m = VLP_AddLiquidity u tx x y tol \<Longrightarrow> info_sender info \<noteq> host_router c"
  shows "ready c (h\<lparr>h_pools := map_save (h_pools h) a st'\<rparr>) a a t (r_messages r)"
proof -
  let ?h = "h\<lparr>h_pools := map_save (h_pools h) a st'\<rparr>"
  obtain s where s: "VLP_STATE st = Some s" using vlp_execute_state [OF assms(2)] by blast
  show ?thesis
  proof (cases "own_pool c s")
    case True
    obtain s' where s': "VLP_STATE st' = Some s'" "own_pool c s'"
      using vlp_execute_same [OF assms(2)] s True by (auto simp: same_pool_def own_pool_def)
    have "int (reserve st t) \<le> int (vb_bal (h_vb h) (vsl, a, token_id t))"
      using assms(4) slack_own [OF st s True, of t] by simp
    then have "reserve st t \<le> vb_bal (h_vb h) (vsl, a, token_id t)" by (simp only: of_nat_le_iff)
    from pool_enough [OF _ assms(2) s True _ _ this assms(5)] assms(1)
    have "enough c a t (int (vb_bal (h_vb h) (vsl, a, token_id t)) - int (reserve st' t)) (r_messages r)"
      by (auto simp: sound_host_def env_at_def ask_balance_def)
    then show ?thesis using slack_own [of ?h a st' s' c t] s' by (simp add: ready_def)
  next
    case False
    then have "alien c h a" using st s by (auto simp: alien_def)
    from alien_later [OF this later_pool(1) [OF st vlp_execute_same [OF assms(2)]]] show ?thesis by (simp add: ready_def)
  qed
qed

lemma contract_call_ready:
  assumes "sound_host c a" and "linked c h" and "contract_call c h b info m = Inr (h', r)" and "unburned a h'" and "0 \<le> slack c h a t"
    and "info_sender info = a \<Longrightarrow> \<forall>x. m \<noteq> To_VirtualBalance x"
    and "info_sender info = host_router c \<Longrightarrow> \<not> deposits_in a (Wasm_Execute b m f) \<and> (\<forall>x. m \<noteq> To_VirtualBalance (VB_Transfer x))"
  shows "ready c h' b a t (r_messages r)"
proof -
  have a: "a \<noteq> host_router c" "a \<noteq> host_vb c" using assms(1) by (simp_all add: sound_host_def)
  have ledger: "ledger_address (h_router h) = Some (host_vb c)" using assms(2) by (simp add: linked_def)
  obtain sv where sv: "VB_STATE (h_vb h) = Some sv" "vbs_router sv = host_router c" using assms(2) by (auto simp: linked_def)
  consider "b = host_router c" | "b \<noteq> host_router c" "b = host_vb c" | "b \<noteq> host_router c" "b \<noteq> host_vb c" by blast
  then show ?thesis
  proof cases
    case 1
    with assms(3) obtain x st where h': "h' = h\<lparr>h_router := st\<rparr>" and
      ex: "rt_execute (ask_balance c h) (ask_liquidity c h) (h_router h) (env_at c b) info x = Inr (st, r)"
      by (cases m) (auto simp: contract_call_def bindR_eq_Inr)
    have "ask_liquidity c h' = ask_liquidity c h" by (simp add: h' ask_liquidity_def fun_eq_iff)
    with rt_execute_fair [OF ex, of a] assms(5) 1 a show ?thesis by (simp add: ready_def h' ledger)
  next
    case 2
    with assms(3) obtain x st where m: "m = To_VirtualBalance x" and h': "h' = h\<lparr>h_vb := st, h_log := h_log h @ [x]\<rparr>"
      and ex: "vb_execute (h_vb h) info x = Inr (st, r)"
      by (cases m) (auto simp: contract_call_def bindR_eq_Inr)
    have "info_sender info \<noteq> a" using assms(6) m by blast
    then have "draws a t x = 0" using foreign_draw [OF ex sv(1)] assms(7) m sv(2) by auto
    moreover have "\<not> burns a x" using assms(4) by (simp add: h' unburned_def)
    ultimately have "0 \<le> slack c h' a t" using ledger_step_slack [OF ex, of a c t "h_log h @ [x]"] assms(5) by (simp add: h')
    with 2 a show ?thesis by (simp add: ready_def)
  next
    case 3
    with assms(3) obtain x st st' where h': "h' = h\<lparr>h_pools := map_save (h_pools h) b st'\<rparr>" and m: "m = To_Vlp x"
      and st: "map_may_load (h_pools h) b = Some st"
      and ex: "vlp_execute (host_math c) (ask_balance c h) st (env_at c b) info x = Inr (st', r)"
      by (cases m) (auto simp: contract_call_def bindR_eq_Inr map_load_eq_Inr)
    show ?thesis
    proof (cases "b = a")
      case True
      have "info_sender info \<noteq> host_router c" if "x = VLP_AddLiquidity u tx y z tol" for u tx y z tol
        using assms(7) that m True by auto
      from pool_step_ready [OF assms(1) ex [unfolded True] st [unfolded True] assms(5) this] show ?thesis by (simp add: h' True)
    next
      case False
      with assms(5) 3(1) show ?thesis by (simp add: ready_def h')
    qed
  qed
qed

lemma new_pool_empty:
  assumes "vlp_instantiate env info m = Inr (st, r)"
  shows "reserve st t = 0"
proof -
  have "VLP_BALANCES st = map_save (map_save [] (pair_token_1 (vim_pair m)) 0) (pair_token_2 (vim_pair m)) 0"
    using assms by (auto simp: vlp_instantiate_def register_pool_def Let_def bindR_eq_Inr ensure_eq_Inr
        split: option.splits vlp_ExecuteMsg.splits)
  then show ?thesis by (simp add: amount_at_def map_may_load_def map_save_def)
qed

lemma start_ready:
  assumes "sound_host c a" and "linked c h" and "start c h s msg = Inr (h', self, r)" and "orders c s [m]" and "sm_msg m = msg"
    and "unburned a h'" and "0 \<le> slack c h a t"
    and "s = a \<Longrightarrow> vb_msg_of msg = []" and "s = host_router c \<Longrightarrow> \<not> deposits_in a msg"
  shows "ready c h' self a t (r_messages r)"
proof -
  have a: "a \<noteq> host_router c" "a \<noteq> host_vb c" using assms(1) by (simp_all add: sound_host_def)
  consider b x f where "msg = Wasm_Execute b x f" "in_hub c h b" "self = b"
      "contract_call c h b \<lparr>info_sender = s, info_funds = f\<rparr> x = Inr (h', r)"
    | info m where "create_pool c h info m = Inr (h', self, r)"
    | b x f where "msg = Wasm_Execute b x f" "\<not> in_hub c h b" "go_outside c h s msg = Inr (h', self, r)"
    | "\<forall>a x f. msg \<noteq> Wasm_Execute a x f" "go_outside c h s msg = Inr (h', self, r)"
    using assms(3)
    by (auto simp: start_def bindR_eq_Inr split: CosmosMsg.splits wasm_instantiate_msg.splits if_splits)
  then show ?thesis
  proof cases
    case 1
    have "\<forall>y. x \<noteq> To_VirtualBalance (VB_Transfer y)" if "s = host_router c"
      using assms(4,5) that by (auto simp: orders_def to_ledger_def 1(1))
    moreover have "\<forall>y. x \<noteq> To_VirtualBalance y" if "s = a" using assms(8) that by (auto simp: 1(1))
    ultimately show ?thesis using contract_call_ready [OF assms(1,2) 1(4) assms(6,7), of f] assms(9) by (simp add: 1(1,3))
  next
    case 2
    then obtain st where st: "vlp_instantiate (env_at c self) info m = Inr (st, r)" and new: "\<not> in_hub c h self"
        and h': "h' = h\<lparr>h_pools := map_save (h_pools h) self st\<rparr>"
      by (auto simp: create_pool_def Let_def bindR_eq_Inr ensure_eq_Inr)
    have "0 \<le> slack c h' a t"
    proof (cases "self = a")
      case True
      with new_pool_empty [OF st, of t] show ?thesis by (simp add: h' slack_def recorded_reserve_def split: option.splits)
    qed (use assms(7) in \<open>simp add: h'\<close>)
    moreover have "self \<noteq> host_router c" using new by (auto simp: in_hub_def)
    ultimately show ?thesis using vlp_instantiate_silent [OF st] by (simp add: ready_def)
  next
    case 3
    then have "h' = h" "self = b" and out: "\<exists>y. host_outside c h s (Wasm_Execute b x f) = Inr y"
      by (auto simp: go_outside_def bindR_eq_Inr)
    moreover have "b \<noteq> a" using out 3(2) assms(1) unfolding sound_host_def by blast
    moreover have "b \<noteq> host_router c" using 3(2) by (auto simp: in_hub_def)
    ultimately show ?thesis using assms(7) by (simp add: ready_def)
  next
    case 4
    then have "h' = h" "r_messages r = []" by (cases msg; auto simp: go_outside_def bindR_eq_Inr)+
    with assms(7) show ?thesis by (simp add: ready_def fair_def)
  qed
qed

section \<open>A deposit\<close>

lemma mint_exec:
  assumes "exec c n h (host_router c) (mint_for_vlp (host_vb c) vsl a tk x) = Some (Inr (h', d))"
  shows "\<exists>vb l. h' = h\<lparr>h_vb := vb, h_log := h_log h @ l\<rparr>
     \<and> (\<forall>t. vb_bal vb (vsl, a, token_id t) = vb_bal (h_vb h) (vsl, a, token_id t) + (if t = tk then unat x else 0))"
proof -
  from assms obtain k h1 self r d1 where start: "start c h (host_router c) (mint_for_vlp (host_vb c) vsl a tk x) = Inr (h1, self, r)"
    and handle: "handle c k h1 self (r_messages r) (r_data r) = Some (Inr (h', d1))"
    unfolding exec_Inr by blast
  then obtain st info y where mint: "vb_execute (h_vb h) info (VB_Mint y) = Inr (st, r)" and y: "mint_amount y = x"
      "mint_balance_key y = \<lparr>bk_cross_chain_user = \<lparr>ccu_chain_uid = vsl, ccu_address = a\<rparr>, bk_token_id = token_id tk\<rparr>"
    and h1: "h1 = h\<lparr>h_vb := st, h_log := h_log h @ [VB_Mint y]\<rparr>"
    by (auto simp: start_def in_hub_def contract_call_def mint_for_vlp_def bindR_eq_Inr split: if_splits)
  have "h' = h1" using handle vb_execute_silent [OF mint] by simp
  moreover have "vb_bal st (vsl, a, token_id t) = vb_bal (h_vb h) (vsl, a, token_id t) + (if t = tk then unat x else 0)" for t
    using mint y by (auto simp: mint_ok_iff to_serialized_balance_key_def Token.expand)
  ultimately show ?thesis using h1 by blast
qed

lemma add_liquidity_reserves:
  assumes "cosmwasm_math M" and "add_liquidity M st env info sender x y tol tx = Inr (st', r)"
  shows "\<exists>s s'. VLP_STATE st = Some s \<and> VLP_STATE st' = Some s' \<and> own_pool c s' = own_pool c s \<and> r_messages r = []
     \<and> (own_pool c s \<longrightarrow> (\<forall>t. reserve st' t = reserve st t + (if t = pair_token_1 (vlp_pair s) then unat x else 0)
          + (if t = pair_token_2 (vlp_pair s) then unat y else 0)))"
proof (rule cosmwasm_math.add_liquidity_okE [OF assms], goal_cases)
  case (1 s l R1 R2 lp l' R1' R2' L')
  let ?s' = "s\<lparr>vlp_total_lp_tokens := L'\<rparr>"
  have R: "reserve st (pair_token_1 (vlp_pair s)) = unat R1" "reserve st (pair_token_2 (vlp_pair s)) = unat R2"
    using 1(4,5) by (simp_all add: amount_at_Some)
  have "reserve st' t = reserve st t + (if t = pair_token_1 (vlp_pair s) then unat x else 0)
          + (if t = pair_token_2 (vlp_pair s) then unat y else 0)" if "own_pool c s" for t
    using that R 1(9,10) by (auto simp: own_pool_def 1(12))
  moreover have "own_pool c ?s' = own_pool c s" by (simp add: own_pool_def)
  moreover have "VLP_STATE st' = Some ?s'" "r_messages r = []" by (simp_all add: 1(12,13))
  ultimately show ?case using 1(1) by blast
qed

lemma deposit_exec:
  assumes sound: "sound_host c a"
    and ex: "exec c n h (host_router c) (Wasm_Execute a (To_Vlp (VLP_AddLiquidity sender tx x y tol)) []) = Some (Inr (h', d))"
  shows "\<exists>st st' s. map_may_load (h_pools h) a = Some st \<and> VLP_STATE st = Some s \<and> h' = h\<lparr>h_pools := map_save (h_pools h) a st'\<rparr>
     \<and> (\<exists>s'. VLP_STATE st' = Some s' \<and> (own_pool c s' \<longleftrightarrow> own_pool c s))
     \<and> (\<forall>t. own_pool c s \<longrightarrow> reserve st' t = reserve st t + (if t = pair_token_1 (vlp_pair s) then unat x else 0)
          + (if t = pair_token_2 (vlp_pair s) then unat y else 0))"
proof -
  from ex obtain k h1 self r d1 where
      start: "start c h (host_router c) (Wasm_Execute a (To_Vlp (VLP_AddLiquidity sender tx x y tol)) []) = Inr (h1, self, r)"
    and handle: "handle c k h1 self (r_messages r) (r_data r) = Some (Inr (h', d1))"
    unfolding exec_Inr by blast
  have a: "a \<noteq> host_router c" "a \<noteq> host_vb c" and math: "cosmwasm_math (host_math c)" using sound by (simp_all add: sound_host_def)
  have "in_hub c h a"
  proof (rule ccontr)
    assume out: "\<not> in_hub c h a"
    with start have "\<exists>z. host_outside c h (host_router c) (Wasm_Execute a (To_Vlp (VLP_AddLiquidity sender tx x y tol)) []) = Inr z"
      by (auto simp: start_def go_outside_def bindR_eq_Inr)
    with out sound show False unfolding sound_host_def by blast
  qed
  with start a obtain st st' info where st: "map_may_load (h_pools h) a = Some st" and h1: "h1 = h\<lparr>h_pools := map_save (h_pools h) a st'\<rparr>"
    and add: "add_liquidity (host_math c) st (env_at c a) info sender x y tol tx = Inr (st', r)"
    by (auto simp: start_def contract_call_def bindR_eq_Inr map_load_eq_Inr)
  from add_liquidity_reserves [OF math add, of c] obtain s s' where s: "VLP_STATE st = Some s" "VLP_STATE st' = Some s'" "own_pool c s' = own_pool c s"
    and r: "r_messages r = []" and R: "own_pool c s \<longrightarrow> (\<forall>t. reserve st' t = reserve st t
        + (if t = pair_token_1 (vlp_pair s) then unat x else 0) + (if t = pair_token_2 (vlp_pair s) then unat y else 0))" by blast
  have "h' = h1" using handle r by simp
  then show ?thesis using st s h1 R by blast
qed

lemma deposit_covered:
  assumes sound: "sound_host c a" and l: "ask_liquidity c h a = Inr l" and cover: "0 \<le> slack c h a t"
    and run: "handle c n h (host_router c) (deposit_msgs (host_vb c) a (glr_pair l) sender tx x y tol) d = Some (Inr (h', d'))"
  shows "0 \<le> slack c h' a t"
proof -
  let ?p = "glr_pair l"
  let ?add = "reply_always (Wasm_Execute a (To_Vlp (VLP_AddLiquidity sender tx x y tol)) []) ADD_LIQUIDITY_REPLY_ID"
  let ?m2 = "reply_on_error (mint_for_vlp (host_vb c) vsl a (pair_token_2 ?p) y) VIRTUAL_BALANCE_MINT_REPLY_ID"
  obtain k1 h1 d1 where m1: "exec c k1 h (host_router c) (mint_for_vlp (host_vb c) vsl a (pair_token_1 ?p) x) = Some (Inr (h1, d1))"
    and run1: "handle c n h1 (host_router c) [?m2, ?add] d = Some (Inr (h', d'))"
    by (rule handle_mint [OF run [unfolded deposit_msgs_def]]) (simp_all add: submsg_defs)
  obtain k2 h2 d2 where m2: "exec c k2 h1 (host_router c) (mint_for_vlp (host_vb c) vsl a (pair_token_2 ?p) y) = Some (Inr (h2, d2))"
    and add: "handle c n h2 (host_router c) [?add] d = Some (Inr (h', d'))"
    by (rule handle_mint [OF run1]) (simp_all add: submsg_defs)
  from add obtain k out h4 r d4 where ex: "exec c k h2 (host_router c) (Wasm_Execute a (To_Vlp (VLP_AddLiquidity sender tx x y tol)) []) = Some out"
    and aft: "after c h2 (host_router c) (reply_always (Wasm_Execute a (To_Vlp (VLP_AddLiquidity sender tx x y tol)) []) ADD_LIQUIDITY_REPLY_ID) out
        = Inr (h4, r)"
    and rep: "handle c k h4 (host_router c) (r_messages r) (r_data r) = Some (Inr (h', d4))"
    unfolding handle_single by (auto simp: submsg_defs)
  from aft obtain h3 d3 where out: "out = Inr (h3, d3)"
    and reply: "reply_call c h3 (host_router c) \<lparr>reply_id = ADD_LIQUIDITY_REPLY_ID, reply_result = SubMsgOk d3\<rparr> = Inr (h4, r)"
    by (cases out) (auto simp: after_def submsg_defs reply_call_def rt_reply_dispatch on_add_liquidity_reply_def bindR_eq_Inr)
  have "r_messages r = []" using answering_replies(2) [OF reply] by auto
  with rep reply have h': "slack c h' a t = slack c h3 a t" by (auto simp: reply_call_def bindR_eq_Inr)
  from mint_exec [OF m1] mint_exec [OF m2] obtain vb2 log where h2: "h2 = h\<lparr>h_vb := vb2, h_log := log\<rparr>"
    and bal: "vb_bal vb2 (vsl, a, token_id t) = vb_bal (h_vb h) (vsl, a, token_id t)
        + (if t = pair_token_1 ?p then unat x else 0) + (if t = pair_token_2 ?p then unat y else 0)"
    by auto
  from deposit_exec [OF sound ex [unfolded out]] obtain st st' s s' where st: "map_may_load (h_pools h) a = Some st" "VLP_STATE st = Some s"
    and h3: "h3 = h2\<lparr>h_pools := map_save (h_pools h) a st'\<rparr>" and st': "VLP_STATE st' = Some s'" "own_pool c s' = own_pool c s"
    and R: "own_pool c s \<Longrightarrow> reserve st' t = reserve st t + (if t = pair_token_1 (vlp_pair s) then unat x else 0)
        + (if t = pair_token_2 (vlp_pair s) then unat y else 0)"
    by (auto simp: h2)
  have pair: "?p = vlp_pair s" using l st query_liquidity_pair by (fastforce simp: ask_liquidity_def)
  show ?thesis
  proof (cases "own_pool c s")
    case True
    have "slack c h3 a t = int (vb_bal vb2 (vsl, a, token_id t)) - int (reserve st' t)"
      using slack_own [of h3 a st' s' c t] st' True by (simp add: h3 h2)
    also have "\<dots> = slack c h a t"
      using slack_own [OF st True, of t] bal R [OF True] by (simp add: pair del: of_nat_unat)
    finally show ?thesis using cover h' by simp
  next
    case False
    then have "alien c h3 a" using st' by (auto simp: alien_def h3)
    from alien_slack [OF this] show ?thesis by (simp add: h')
  qed
qed

section \<open>Runs\<close>

lemma reply_slack:
  assumes "reply_call c h self rep = Inr (h', r)"
  shows "slack c h' a t = slack c h a t"
proof (cases "self = host_router c")
  case False
  with assms obtain st where "h' = h\<lparr>h_pools := map_save (h_pools h) self st\<rparr>" and "map_may_load (h_pools h) self = Some st"
    by (auto simp: reply_call_def bindR_eq_Inr map_load_eq_Inr dest: vlp_reply_silent)
  then show ?thesis by (cases "self = a") (simp_all add: slack_def recorded_reserve_def)
qed (use assms in \<open>auto simp: reply_call_def bindR_eq_Inr\<close>)

lemma reply_no_deposits:
  assumes "reply_call c h self rep = Inr (h', r)" and "self = host_router c \<Longrightarrow> reply_id rep \<noteq> VIRTUAL_BALANCE_INSTANTIATE_REPLY_ID"
  shows "(self \<noteq> host_router c \<longrightarrow> r_messages r = []) \<and> (\<forall>m\<in>set (r_messages r). \<not> deposits_in a (sm_msg m))"
  using assms reply_call_silent [OF _ assms(1)]
  by (cases "self = host_router c") (auto simp: reply_call_def bindR_eq_Inr dest: rt_reply_fair)

text \<open>What follows a message: the hub as the message left it, and no new deposits.\<close>

lemma after_slack:
  assumes "after c h self m out = Inr (h1, r)" and "orders c self [m]"
  shows "\<exists>h0. (\<forall>h2 d. out = Inr (h2, d) \<longrightarrow> h0 = h2) \<and> ((\<exists>e. out = Inl e) \<longrightarrow> h0 = h) \<and> later c h0 h1
     \<and> slack c h1 a t = slack c h0 a t \<and> (self \<noteq> host_router c \<longrightarrow> r_messages r = []) \<and> (\<forall>m\<in>set (r_messages r). \<not> deposits_in a (sm_msg m))"
proof -
  have id: "self = host_router c \<Longrightarrow> sm_id m \<noteq> VIRTUAL_BALANCE_INSTANTIATE_REPLY_ID"
    using assms(2) by (simp add: orders_def to_ledger_def)
  have rep: "later c h0 h1 \<and> slack c h1 a t = slack c h0 a t \<and> (self \<noteq> host_router c \<longrightarrow> r_messages r = [])
      \<and> (\<forall>m\<in>set (r_messages r). \<not> deposits_in a (sm_msg m))"
    if "reply_call c h0 self \<lparr>reply_id = sm_id m, reply_result = res\<rparr> = Inr (h1, r)" for h0 res
    using reply_later [OF that] reply_slack [OF that, of a t] reply_no_deposits [OF that, of a] id by simp
  show ?thesis
  proof (cases out)
    case (Inl e')
    with assms(1) rep show ?thesis by (auto simp: after_def split: if_splits)
  next
    case (Inr q)
    with assms(1) rep show ?thesis by (cases q) (auto simp: after_def split: if_splits)
  qed
qed

lemma ledger_exec:
  assumes "exec c n h s (Wasm_Execute (host_vb c) (To_VirtualBalance x) f) = Some (Inr (h', d))" and "unburned a h'"
  shows "slack c h a t - int (draws a t x) \<le> slack c h' a t"
proof -
  from assms(1) obtain k h1 self r d1 where start: "start c h s (Wasm_Execute (host_vb c) (To_VirtualBalance x) f) = Inr (h1, self, r)"
    and handle: "handle c k h1 self (r_messages r) (r_data r) = Some (Inr (h', d1))"
    unfolding exec_Inr by blast
  then obtain st info where ex: "vb_execute (h_vb h) info x = Inr (st, r)" and h1: "h1 = h\<lparr>h_vb := st, h_log := h_log h @ [x]\<rparr>"
    by (auto simp: start_def in_hub_def contract_call_def bindR_eq_Inr split: if_splits)
  have "h' = h1" using handle vb_execute_silent [OF ex] by simp
  with ledger_step_slack [OF ex, of a c t "h_log h @ [x]"] assms(2) show ?thesis by (simp add: h1 unburned_def)
qed

lemma readyE:
  assumes "ready c h self a t ms"
  obtains "alien c h a"
    | l sender tx x y tol where "self = host_router c" "0 \<le> slack c h a t" "ask_liquidity c h a = Inr l"
        "ms = deposit_msgs (host_vb c) a (glr_pair l) sender tx x y tol"
    | "self = a" "enough c a t (slack c h a t) ms"
    | "self \<noteq> a" "0 \<le> slack c h a t" "self = host_router c \<Longrightarrow> \<forall>x\<in>set ms. \<not> deposits_in a (sm_msg x)"
proof -
  consider "alien c h a" | "self = a" "enough c a t (slack c h a t) ms"
    | "self \<noteq> a" "0 \<le> slack c h a t" "self = host_router c \<Longrightarrow> fair a (ask_liquidity c h) (Some (host_vb c)) ms"
    using assms by (auto simp: ready_def split: if_splits)
  then show thesis
  proof cases
    case 3
    show thesis
    proof (cases "self = host_router c \<and> \<not> (\<forall>x\<in>set ms. \<not> deposits_in a (sm_msg x))")
      case True
      with 3(3) obtain vb l sender tx x y tol where "Some (host_vb c) = Some vb" "ask_liquidity c h a = Inr l"
          "ms = deposit_msgs vb a (glr_pair l) sender tx x y tol"
        unfolding fair_def by blast
      with True 3(2) that(2) show thesis by simp
    qed (use 3 that(4) in blast)
  qed (use that in blast)+
qed

lemma run_covered:
  "exec c n h s msg = Some (Inr (h', d')) \<Longrightarrow> sound_host c a \<Longrightarrow> linked c h \<Longrightarrow> orders c s [m] \<Longrightarrow> sm_msg m = msg \<Longrightarrow> unburned a h' \<Longrightarrow>
     (s = a \<longrightarrow> vb_msg_of msg = []) \<Longrightarrow> (s = host_router c \<longrightarrow> \<not> deposits_in a msg) \<Longrightarrow> 0 \<le> slack c h a t \<Longrightarrow> 0 \<le> slack c h' a t"
  "handle c n h self ms d = Some (Inr (h', d')) \<Longrightarrow> sound_host c a \<Longrightarrow> linked c h \<Longrightarrow> orders c self ms \<Longrightarrow> unburned a h' \<Longrightarrow>
     ready c h self a t ms \<Longrightarrow> 0 \<le> slack c h' a t"
proof (induction c n h s msg and c n h self ms d arbitrary: m h' d' and h' d' rule: exec_handle.induct)
  case (2 c n h sender msg)
  from 2(2) obtain h1 self r d1 where start: "start c h sender msg = Inr (h1, self, r)"
    and handle: "handle c n h1 self (r_messages r) (r_data r) = Some (Inr (h', d1))"
    unfolding exec_Inr by auto
  have "unburned a h1" using unburned_later [OF 2(7) run_later(2) [OF handle]] .
  note ready = start_ready [OF 2(3,4) start 2(5,6) this 2(10)]
  have "linked c h1" "orders c self (r_messages r)" using start_step [OF 2(4) start 2(5,6)] by blast+
  with 2(1) [of "(h1, self, r)" h1 "(self, r)" self r h' d1] start handle ready 2(3,7,8,9) show ?case by simp
next
  case (3 c n h self d)
  then show ?case using alien_slack by (auto simp: ready_def split: if_splits)
next
  case (5 c n h self m ms d)
  from 5(4) obtain out h1 r h2 d2 where ex: "exec c n h self (sm_msg m) = Some out" and aft: "after c h self m out = Inr (h1, r)"
    and rep: "handle c n h1 self (r_messages r) (r_data r) = Some (Inr (h2, d2))"
    and rest: "handle c (Suc n) h2 self ms (if d2 = None then d else d2) = Some (Inr (h', d'))"
    unfolding handle_Cons_Inr by auto
  have a: "a \<noteq> host_router c" using 5(5) by (simp add: sound_host_def)
  note ord = orders_Cons [OF 5(7)]
  note linked = after_linked [OF 5(6) ord [THEN conjunct1] ex aft]
  have "linked c h2" using run_books(2) [OF rep linked] by blast
  have unburned: "unburned a h2" "unburned a h1"
    using unburned_later [OF 5(8) run_later(2) [OF rest]] unburned_later run_later(2) [OF rep] by blast+
  obtain h0 where h0: "\<And>h2 d. out = Inr (h2, d) \<Longrightarrow> h0 = h2" "\<And>e. out = Inl e \<Longrightarrow> h0 = h" "later c h0 h1" "slack c h1 a t = slack c h0 a t"
      "self \<noteq> host_router c \<Longrightarrow> r_messages r = []" "\<forall>m\<in>set (r_messages r). \<not> deposits_in a (sm_msg m)"
    using after_slack [OF aft ord [THEN conjunct1], of a t] by metis
  have "unburned a h0" using unburned_later [OF unburned(2) h0(3)] .
  have one: "0 \<le> slack c h0 a t" if "0 \<le> slack c h a t" "self = a \<longrightarrow> vb_msg_of (sm_msg m) = []"
      "self = host_router c \<longrightarrow> \<not> deposits_in a (sm_msg m)"
  proof (cases out)
    case (Inr q)
    then obtain d0 where "out = Inr (h0, d0)" using h0(1) by (cases q) auto
    with 5(1) [of h0 d0 m] ex 5(5,6) ord \<open>unburned a h0\<close> that show ?thesis by simp
  qed (use h0(2) that in simp)
  have tail: "0 \<le> slack c h' a t" if "ready c h2 self a t ms"
    using 5(3) [OF ex, of "(h1, r)" h1 r "(h2, d2)" h2 d2 h' d'] aft rep rest ord 5(5,8) \<open>linked c h2\<close> that by simp
  consider "alien c h a"
    | l sender tx x y tol where "self = host_router c" "0 \<le> slack c h a t" "ask_liquidity c h a = Inr l"
        "m # ms = deposit_msgs (host_vb c) a (glr_pair l) sender tx x y tol"
    | "self = a" "enough c a t (slack c h a t) (m # ms)"
    | "self \<noteq> a" "0 \<le> slack c h a t" "self = host_router c \<Longrightarrow> \<forall>x\<in>set (m # ms). \<not> deposits_in a (sm_msg x)"
    using readyE [OF 5(9)] by metis
  then show ?case
  proof cases
    case 1
    from alien_slack [OF alien_later [OF this run_later(2) [OF 5(4)]]] show ?thesis .
  next
    case 2
    from deposit_covered [OF 5(5) 2(3,2)] 5(4) 2(1,4) show ?thesis by simp
  next
    case 3
    have h2: "slack c h2 a t = slack c h0 a t" using rep h0(4,5) 3(1) a by simp
    show ?thesis
    proof (cases "ledger_msg c (sm_msg m)")
      case True
      then obtain x f where x: "sm_msg m = Wasm_Execute (host_vb c) (To_VirtualBalance x) f"
        by (cases "(c, sm_msg m)" rule: ledger_msg.cases) auto
      have "slack c h a t - int (draws a t x) \<le> slack c h0 a t"
      proof (cases out)
        case (Inr q)
        then obtain d0 where "out = Inr (h0, d0)" using h0(1) by (cases q) auto
        with ledger_exec [of c n h self x f h0 d0 a t] ex x \<open>unburned a h0\<close> show ?thesis by simp
      qed (use h0(2) in simp)
      moreover have "enough c a t (slack c h a t - int (draws a t x)) ms" using 3(2) x by (simp add: drawn_def)
      ultimately have "enough c a t (slack c h2 a t) ms" using enough_mono h2 by simp
      then show ?thesis using tail 3(1) by (simp add: ready_def)
    next
      case False
      with 3(2) one 3(1) a have "0 \<le> slack c h0 a t" "enough c a t 0 ms" by auto
      then have "enough c a t (slack c h2 a t) ms" using enough_mono h2 by simp
      then show ?thesis using tail 3(1) by (simp add: ready_def)
    qed
  next
    case 4
    have "0 \<le> slack c h1 a t" using one 4 h0(4) by auto
    then have "ready c h1 self a t (r_messages r)" using h0(6) 4(1) by (simp add: ready_def fair_def)
    then have "0 \<le> slack c h2 a t"
      using 5(2) [OF ex, of "(h1, r)" h1 r h2 d2] aft rep 5(5) linked unburned(1) by simp
    then show ?thesis using tail 4 by (simp add: ready_def fair_def)
  qed
qed simp_all

section \<open>Transactions\<close>

lemma entry_fair:
  "ibc_packet_receive st env p = Inr (st', r) \<Longrightarrow> m \<in> set (r_messages r) \<Longrightarrow> \<not> deposits_in a (sm_msg m)"
  "ibc_packet_ack st env k = Inr (st', r) \<Longrightarrow> m \<in> set (r_messages r) \<Longrightarrow> \<not> deposits_in a (sm_msg m)"
  "ibc_packet_timeout st env p = Inr (st', r) \<Longrightarrow> m \<in> set (r_messages r) \<Longrightarrow> \<not> deposits_in a (sm_msg m)"
  by (auto simp: ibc_packet_receive_def ibc_packet_ack_def ibc_packet_timeout_def Let_def bindR_eq_Inr submsg_defs)

lemma rt_entry_covered:
  assumes "rt_entry c n h res = Some (Inr (h', d))" and "sound_host c a" and "linked c h" and "unburned a h'" and "0 \<le> slack c h a t"
    and "\<And>st r. res = Inr (st, r) \<Longrightarrow> rt_step (h_router h) r st"
    and "\<And>st r. res = Inr (st, r) \<Longrightarrow> sends k (h_router h) r st"
    and "\<And>st r m. res = Inr (st, r) \<Longrightarrow> m \<in> set (r_messages r) \<Longrightarrow> \<not> deposits_in a (sm_msg m)"
  shows "0 \<le> slack c h' a t \<and> later c h h'"
proof -
  from assms(1) obtain st r where res: "res = Inr (st, r)"
    and handle: "handle c n (h\<lparr>h_router := st\<rparr>) (host_router c) (r_messages r) (r_data r) = Some (Inr (h', d))"
    by (auto simp: rt_entry_def bind_run_Inr)
  have link: "linked c (h\<lparr>h_router := st\<rparr>)" "orders c (host_router c) (r_messages r)"
    using router_step [OF assms(3) assms(6) [OF res]] assms(7) [OF res] by (simp_all add: sends_def)
  have "ready c (h\<lparr>h_router := st\<rparr>) (host_router c) a t (r_messages r)"
    using assms(2,5) assms(8) [OF res] by (auto simp: ready_def fair_def sound_host_def)
  from run_covered(2) [OF handle assms(2) link assms(4) this] run_later(2) [OF handle] show ?thesis
    by (auto intro: later_trans [of c h "h\<lparr>h_router := st\<rparr>"])
qed

lemma run_tx_later:
  assumes "run_tx c n h tx = Some (Inr (h', d))"
  shows "later c h h'"
proof -
  have entry: "later c h h'" if "rt_entry c n h res = Some (Inr (h', d))" for res
    using that by (auto simp: rt_entry_def bind_run_Inr dest!: run_later(2) intro: later_trans [OF later_updates(1)])
  show ?thesis
    using assms entry run_later(1) by (cases tx) (auto simp: rt_channel_def bind_run_Inr)
qed

lemma run_tx_covered:
  assumes "run_tx c n h tx = Some (Inr (h', d))" and "sound_host c a" and "linked c h" and "from_outside c h tx" and "unburned a h'"
    and "0 \<le> slack c h a t"
  shows "0 \<le> slack c h' a t"
proof (cases tx)
  case (Tx_Message s msg)
  then have "s \<noteq> host_router c" "s \<noteq> a" using assms(2,4) by (auto simp: in_hub_def sound_host_def)
  with run_covered(1) [OF _ assms(2,3), of n s msg h' d "SubMsg_new msg" t] assms(1,5,6) Tx_Message show ?thesis
    by (simp add: submsg_defs)
next
  case (Tx_Receive p)
  with assms(1) show ?thesis
    using rt_entry_covered [OF _ assms(2,3,5,6) rt_step.received entry_sends(1) entry_fair(1)] by simp
next
  case (Tx_Ack k)
  with assms(1) show ?thesis
    using rt_entry_covered [OF _ assms(2,3,5,6) rt_step.acknowledged entry_sends(2) entry_fair(2)] by simp
next
  case (Tx_Timeout p)
  with assms(1) show ?thesis
    using rt_entry_covered [OF _ assms(2,3,5,6) rt_step.timed_out entry_sends(3) entry_fair(3)] by simp
qed (use assms in \<open>auto simp: rt_channel_def bind_run_Inr\<close>)

lemma live_pools:
  assumes "live c h" and "map_has (h_pools h) a"
  shows "a \<in> range (host_new_address c) \<and> a \<noteq> host_router c \<and> a \<noteq> host_vb c"
  using assms
proof (induction rule: live.induct)
  case (deployed info i j h)
  then show ?case by (auto simp: deploy_def Let_def bindR_eq_Inr map_has_def map_may_load_def)
next
  case (ran h tx n h' d)
  with run_tx_later [OF ran.hyps(3)] show ?case by (auto simp: later_def)
qed

lemma live_covered:
  assumes "live c h" and "\<And>a. host_validate c (host_vb c) = Inr a \<Longrightarrow> a = host_vb c" and "sound_host c a" and "unburned a h"
  shows "0 \<le> slack c h a t"
  using assms(1,4)
proof (induction rule: live.induct)
  case (deployed info i j h)
  then have "h_pools h = []" by (auto simp: deploy_def Let_def bindR_eq_Inr)
  then show ?case by (simp add: slack_def recorded_reserve_def map_may_load_def)
next
  case (ran h tx n h' d)
  have "linked c h" using live_books [OF ran.hyps(1) assms(2)] by blast
  moreover have "0 \<le> slack c h a t" using ran.IH unburned_later [OF ran.prems run_tx_later [OF ran.hyps(3)]] by blast
  ultimately show ?case using run_tx_covered [OF ran.hyps(3) assms(3) _ ran.hyps(2) ran.prems] by blast
qed

section \<open>The property\<close>

text \<open>
  C3: Pools can pay their reserves. In every state the hub can reach, by any transactions, failures and calls from outside
  contracts, the reserve that a registered pool records of a token is covered by its virtual balance on the ledger, unless the
  router has burned from the pool's own account. The host gives new contracts addresses at which nobody else acts.
\<close>

theorem pool_reserves_covered:
  assumes "live c h" and "\<And>a. host_validate c (host_vb c) = Ok a \<Longrightarrow> a = host_vb c" and "\<And>h. host_new_address c h \<noteq> []"
    and "\<And>h s b m f x. b \<in> range (host_new_address c) \<Longrightarrow> \<not> in_hub c h b \<Longrightarrow> host_outside c h s (Wasm_Execute b m f) \<noteq> Ok x"
    and "cosmwasm_math (host_math c)"
    and "map_may_load (VLPS (h_router h)) k = Some a" and "map_may_load (h_pools h) a = Some st"
    and "\<And>b. VB_Burn b \<in> set (h_log h) \<Longrightarrow> bk_cross_chain_user (burn_balance_key b) \<noteq> \<lparr>ccu_chain_uid = vsl, ccu_address = a\<rparr>"
  shows "unat (amount_at (VLP_BALANCES st) t) \<le> unat (amount_at (VB_BALANCES (h_vb h)) (vsl, a, token_id t))"
proof -
  have "registry_ok c h" using live_registry [OF assms(1) _ assms(2)] assms(3) by (simp add: real_addresses_def)
  with assms(6) have "serves c h a k" by (simp add: registry_ok_def del: split_paired_All)
  with assms(7) obtain s where s: "VLP_STATE st = Some s" "own_pool c s" by (auto simp: serves_def)
  have "sound_host c a" using live_pools [OF assms(1), of a] assms(4,5,7) by (auto simp: sound_host_def map_has_def)
  moreover have "\<not> burns a m" if "m \<in> set (h_log h)" for m using assms(8) that by (cases m) auto
  then have "unburned a h" by (simp add: unburned_def)
  ultimately have "0 \<le> slack c h a t" using live_covered [OF assms(1,2)] by blast
  with slack_own [OF assms(7) s] have "int (reserve st t) \<le> int (vb_bal (h_vb h) (vsl, a, token_id t))" by simp
  then show ?thesis by (simp only: of_nat_le_iff)
qed

text \<open>The first deposit into the new pool of the example.\<close>

abbreviation ex_key :: "string \<Rightarrow> BalanceKey" where
  "ex_key t \<equiv> \<lparr>bk_cross_chain_user = \<lparr>ccu_chain_uid = vsl, ccu_address = ''pool''\<rparr>, bk_token_id = t\<rparr>"

definition ex_paid :: hub where
  "ex_paid = ex_listed\<lparr>h_router := (h_router ex_listed)\<lparr>ESCROW_BALANCES :=
       [((Token ''atom'', ex_uid ''osmosis''), 40000), ((Token ''eucl'', ex_uid ''osmosis''), 10000)]\<rparr>,
     h_vb := (h_vb ex_live)\<lparr>VB_BALANCES := [((vsl, ''pool'', ''atom''), 40000), ((vsl, ''pool'', ''eucl''), 10000)]\<rparr>,
     h_log := [VB_Mint \<lparr>mint_amount = 40000, mint_balance_key = ex_key ''atom''\<rparr>, VB_Mint \<lparr>mint_amount = 10000, mint_balance_key = ex_key ''eucl''\<rparr>]\<rparr>"

definition ex_booked :: "vlp_storage" where
  "ex_booked = \<lparr>VLP_STATE = Some \<lparr>vlp_pair = ex_pair, vlp_router = ''router'', vlp_virtual_balance = ''vb'',
       vlp_fee = vim_fee ex_order, vlp_total_fees_collected = \<lparr>tf_lp_fees = [], tf_euclid_fees = []\<rparr>, vlp_last_updated = 0,
       vlp_total_lp_tokens = 19000, vlp_admin = ''admin''\<rparr>, CHAIN_LP_TOKENS = [(ex_uid ''osmosis'', 19000)],
       VLP_BALANCES = [(Token ''atom'', 40000), (Token ''eucl'', 10000)]\<rparr>"

lemma ex_deposit_call:
  "reusable_internal_call (ask_liquidity ex_host ex_listed) (h_router ex_listed) env (CI_AddLiquidity ex_user 40000 10000 50 ex_pair ''tx2'') (ex_uid ''osmosis'')
     = Ok (h_router ex_paid, \<lparr>r_messages = deposit_msgs ''vb'' ''pool'' ex_pair ex_user ''tx2'' 40000 10000 50, r_data = None\<rparr>)"
  by (simp add: reusable_internal_call_def ibc_execute_add_liquidity_def deposit_msgs_def ex_paid_def ex_listed_def ex_made_def ex_live1_def ex_live_def
      ex_router_def ex_state_def ex_user_def get_tupple_def less_eq_Token_def ask_liquidity_def query_liquidity_def map_load_def map_may_load_def
      map_save_def item_load_def Let_def add_escrow_def checked_add_def unwrap_or_def)

lemma ex_deposit_add:
  "exec ex_host (Suc (Suc n)) ex_paid ''router'' (Wasm_Execute ''pool'' (To_Vlp (VLP_AddLiquidity ex_user ''tx2'' 40000 10000 50)) [])
     = Some (Ok (ex_paid\<lparr>h_pools := [(''pool'', ex_booked)]\<rparr>, Some (Pb_Execute (Some (Json_AddLiquidity \<lparr>alresp_mint_lp_tokens = 19000,
          alresp_vlp_address = ''pool''\<rparr>)))))"
proof -
  have "isqrt_nat 400000000 = 20000" by (simp add: isqrt_nat.simps Let_def)
  then show ?thesis
    by (simp add: start_def in_hub_def contract_call_def ex_paid_def ex_listed_def ex_made_def ex_booked_def map_has_def map_load_def map_may_load_def
        map_save_def add_liquidity_def item_load_def std_math_def Let_def lift_err_def assert_slippage_tolerance_def decimal256_from_ratio_def
        calculate_lp_allocation_def checked_mul_def checked_add_def checked_sub_def MINIMUM_LIQUIDITY_def ex_user_def env_at_def enclose_def)
qed

abbreviation ex_minting :: "(SerializedBalanceKey, uint128) store \<Rightarrow> vb_ExecuteMsg list \<Rightarrow> hub" where
  "ex_minting b l \<equiv> ex_paid\<lparr>h_vb := (h_vb ex_live)\<lparr>VB_BALANCES := b\<rparr>, h_log := l\<rparr>"

lemma ex_deposit_mints:
  "exec ex_host (Suc (Suc n)) (ex_minting [] []) ''router'' (mint_for_vlp ''vb'' vsl ''pool'' (Token ''atom'') 40000)
     = Some (Ok (ex_minting [((vsl, ''pool'', ''atom''), 40000)] [VB_Mint \<lparr>mint_amount = 40000, mint_balance_key = ex_key ''atom''\<rparr>], None))"
  "exec ex_host (Suc (Suc n)) (ex_minting [((vsl, ''pool'', ''atom''), 40000)] [VB_Mint \<lparr>mint_amount = 40000, mint_balance_key = ex_key ''atom''\<rparr>]) ''router''
       (mint_for_vlp ''vb'' vsl ''pool'' (Token ''eucl'') 10000) = Some (Ok (ex_paid, None))"
  by (simp_all add: start_def in_hub_def contract_call_def mint_for_vlp_def execute_mint_def to_serialized_balance_key_def item_load_def
      map_may_load_def map_save_def Let_def checked_add_def unwrap_or_def enclose_def ex_live_def ex_paid_def ex_listed_def ex_made_def ex_live1_def)

lemma ex_deposit_run:
  "\<exists>d. run_tx ex_host (Suc (Suc (Suc (Suc (Suc 0))))) ex_listed
      (Tx_Receive (ex_packet ''osmosis'' (CI_AddLiquidity ex_user 40000 10000 50 ex_pair ''tx2'')))
    = Some (Ok (ex_paid\<lparr>h_pools := [(''pool'', ex_booked)]\<rparr>, d))"
proof -
  let ?p = "ex_packet ''osmosis'' (CI_AddLiquidity ex_user 40000 10000 50 ex_pair ''tx2'')"
  have fields: "RT_STATE (h_router ex_listed) = Some (ex_state False)" "rs_locked (ex_state False) = False"
      "CHANNEL_TO_CHAIN_UID (h_router ex_listed) = [(''osmosis-0'', ex_uid ''osmosis'')]"
      "CHAIN_UID_TO_CHAIN (h_router ex_listed) = [(ex_uid ''osmosis'', ex_chain ''osmosis'')]"
      "contract_address (env_at ex_host ''router'') = ''router''" "factory_addr (ex_chain ''osmosis'') = ''factory''"
      "ex_listed\<lparr>h_router := h_router ex_paid\<rparr> = ex_minting [] []"
    by (simp_all add: ex_chain_def ex_paid_def ex_listed_def ex_made_def ex_live1_def ex_live_def ex_router_def ex_state_def env_at_def)
  have start: "start ex_host ex_listed ''router'' (callback_msg ex_host ?p)
      = Ok (ex_minting [] [], ''router'', \<lparr>r_messages = deposit_msgs ''vb'' ''pool'' ex_pair ex_user ''tx2'' 40000 10000 50, r_data = None\<rparr>)"
    by (simp add: start_def in_hub_def contract_call_def rt_execute_def ibc_receive_internal_call_def ex_packet_def ex_deposit_call
        fields item_load_def map_load_def map_may_load_def)
  have reply: "reply_call ex_host h ''router'' \<lparr>reply_id = ADD_LIQUIDITY_REPLY_ID,
        reply_result = SubMsgOk (Some (Pb_Execute (Some (Json_AddLiquidity x))))\<rparr> = Ok (h, set_data (Json_Ack (AckOk (LiquidityAdded x))) Response_new)" for h x
    by (simp add: reply_call_def rt_reply_dispatch on_add_liquidity_reply_def parse_reply_execute_data_def parse_execute_response_data_def
        from_json_add_liquidity_def Let_def unwrap_or_def)
  show ?thesis
    unfolding run_receive exec.simps(2)
    by (simp add: start [simplified] deposit_msgs_def ex_deposit_mints ex_deposit_add after_def reply submsg_defs enclose_def del: exec.simps)
qed

theorem pool_reserves_covered_witness:
  "\<exists>h st. live ex_host h \<and> map_may_load (VLPS (h_router h)) (Token ''atom'', Token ''eucl'') = Some ''pool''
     \<and> map_may_load (h_pools h) ''pool'' = Some st \<and> unat (amount_at (VLP_BALANCES st) (Token ''atom'')) = 40000
     \<and> 40000 \<le> unat (amount_at (VB_BALANCES (h_vb h)) (vsl, ''pool'', ''atom''))"
proof -
  let ?h = "ex_paid\<lparr>h_pools := [(''pool'', ex_booked)]\<rparr>"
  have live: "live ex_host ?h"
    using live.ran [OF ex_listed_live from_outside.simps(2) [THEN iffD2, OF TrueI]] ex_deposit_run by blast
  have reg: "map_may_load (VLPS (h_router ?h)) (Token ''atom'', Token ''eucl'') = Some ''pool''"
    and pool: "map_may_load (h_pools ?h) ''pool'' = Some ex_booked"
    by (simp_all add: ex_paid_def ex_listed_def map_may_load_def)
  have "VB_Burn b \<notin> set (h_log ?h)" for b by (simp add: ex_paid_def)
  with pool_reserves_covered [OF live _ _ _ _ reg pool, of "Token ''atom''"]
  have "unat (amount_at (VLP_BALANCES ex_booked) (Token ''atom'')) \<le> unat (amount_at (VB_BALANCES (h_vb ?h)) (vsl, ''pool'', ''atom''))"
    by (simp add: std.cosmwasm_math_axioms)
  moreover have "unat (amount_at (VLP_BALANCES ex_booked) (Token ''atom'')) = 40000"
    by (simp add: ex_booked_def amount_at_def map_may_load_def)
  ultimately show ?thesis using live reg pool by (intro exI conjI) (assumption | simp)+
qed

section \<open>How a pool's account can be burned\<close>

text \<open>
  C34: The condition on burns is needed: anyone can make the router burn from a pool. The callbacks of the router do not check
  who calls them. A made-up answer to a registration registers the hub's own chain id, with a channel and a factory of the
  caller's choice; a made-up packet on this channel then withdraws in the name of any pool, and the router tells itself
  to release the pool's balance, that is to burn it and to pay it out at the addresses in the packet.
\<close>

theorem forged_registration_speaks_for_pools:
  assumes "RT_STATE st = Some state" and "\<not> rs_locked state" and "DEREGISTERED_CHAINS st = Some ds" and "vsl \<notin> set ds"
    and "packet_data reg = Json_HubIbc (HI_RegisterFactory vsl tx)"
    and "packet_data p = Json_ChainIbc (CI_Withdraw w)" and "cwd_sender w = \<lparr>ccu_chain_uid = vsl, ccu_address = pool\<rparr>"
    and "channel_id (packet_dest p) = channel_id (packet_src reg)" and "port_id (packet_src p) = ''wasm.'' @ f"
  shows "\<exists>st1 st2 r. rt_execute qv ql st env anyone (R_IbcCallbackAckAndTimeout \<lparr>acknowledgement = Json_Ack (AckOk (FactoryRegistered
         \<lparr>rfresp_factory_address = f, rfresp_chain_id = i\<rparr>)), original_packet = reg\<rparr>) = Ok (st1, Response_new)
     \<and> rt_execute qv ql st1 env anyone (R_IbcCallbackReceive p) = Ok (st2, r)
     \<and> map sm_msg (r_messages r) = [Wasm_Execute (contract_address env) (To_Router (R_ReleaseEscrowInternal
          \<lparr>ccu_chain_uid = vsl, ccu_address = pool\<rparr> (cwd_token w) (Some (cwd_amount w)) (cwd_cross_chain_addresses w) (cwd_timeout w) (cwd_tx_id w))) []]"
  using assms
  by (simp add: rt_execute_def ibc_ack_packet_internal_call_def reusable_internal_ack_call_def from_json_ack_def register_ack_def
      ibc_ack_register_factory_def ibc_receive_internal_call_def reusable_internal_call_def item_load_def map_load_def Let_def
      release_internal_def submsg_defs)

text \<open>The example hub, where the pool holds a deposit.\<close>

definition ex_forged :: "binary \<Rightarrow> IbcPacket" where
  "ex_forged b = \<lparr>packet_data = b, packet_src = \<lparr>port_id = ''wasm.mallory'', channel_id = ''forged''\<rparr>,
     packet_dest = \<lparr>port_id = ''wasm.router'', channel_id = ''forged''\<rparr>\<rparr>"

definition ex_theft :: ChainIbcWithdrawExecuteMsg where
  "ex_theft = \<lparr>cwd_sender = \<lparr>ccu_chain_uid = vsl, ccu_address = ''pool''\<rparr>, cwd_token = Token ''atom'', cwd_amount = 40000,
     cwd_cross_chain_addresses = [ex_to ''osmosis'' None], cwd_tx_id = ''tx3'', cwd_timeout = None\<rparr>"

theorem forged_registration_speaks_for_pools_witness:
  "\<exists>st1 st2 r. rt_execute (ex_vb 0) (\<lambda>_. parse_error) (h_router ex_paid) ex_env (ex_info ''mallory'')
       (R_IbcCallbackAckAndTimeout \<lparr>acknowledgement = Json_Ack (AckOk (FactoryRegistered \<lparr>rfresp_factory_address = ''mallory'', rfresp_chain_id = ''x''\<rparr>)),
         original_packet = ex_forged (Json_HubIbc (HI_RegisterFactory vsl ''tx''))\<rparr>) = Ok (st1, Response_new)
     \<and> rt_execute (ex_vb 0) (\<lambda>_. parse_error) st1 ex_env (ex_info ''mallory'') (R_IbcCallbackReceive (ex_forged (Json_ChainIbc (CI_Withdraw ex_theft)))) = Ok (st2, r)
     \<and> map sm_msg (r_messages r) = [Wasm_Execute ''router'' (To_Router (R_ReleaseEscrowInternal \<lparr>ccu_chain_uid = vsl, ccu_address = ''pool''\<rparr>
          (Token ''atom'') (Some 40000) [ex_to ''osmosis'' None] None ''tx3'')) []]"
proof -
  have "RT_STATE (h_router ex_paid) = Some (ex_state False)" "\<not> rs_locked (ex_state False)" "DEREGISTERED_CHAINS (h_router ex_paid) = Some []" "vsl \<notin> set []"
    by (simp_all add: ex_paid_def ex_listed_def ex_live1_def ex_router_def ex_state_def)
  note forged_registration_speaks_for_pools [OF this, where reg = "ex_forged (Json_HubIbc (HI_RegisterFactory vsl ''tx''))"
      and p = "ex_forged (Json_ChainIbc (CI_Withdraw ex_theft))" and w = ex_theft and pool = "''pool''" and f = "''mallory''" and i = "''x''"
      and tx = "''tx''" and qv = "ex_vb 0" and ql = "\<lambda>_. parse_error" and env = ex_env and anyone = "ex_info ''mallory''"]
  then show ?thesis by (simp add: ex_forged_def ex_theft_def ex_env_def)
qed

end
