(* ===== verification/Router_Releases.thy ===== *)
theory Router_Releases
  imports Router_Properties "HOL-Library.Multiset"
begin

text \<open>
  Releases that fail. A release sends one message per payout, a packet to the factory of an IBC chain or a direct call of a
  factory on the hub's own chain. The failure of a packet comes back as an acknowledgement, that of a call as a
  reply; both find the release that they answer, and undo it.
\<close>

section \<open>What a release waits for\<close>

text \<open>A message of the router that carries \<open>msg\<close> to a factory, and the answer to which finds \<open>msg\<close> again.\<close>

fun carries :: "rt_storage \<Rightarrow> SubMsg \<Rightarrow> HubIbcExecuteMsg \<Rightarrow> bool" where
  "carries st \<lparr>sm_id = i, sm_msg = Ibc_SendPacket ch b t, sm_reply_on = on\<rparr> msg = (b = Json_HubIbc msg)"
| "carries st \<lparr>sm_id = i, sm_msg = Wasm_Execute a (To_Factory (F_NativeReceiveCallback b)) f, sm_reply_on = on\<rparr> msg =
     (b = Json_HubIbc msg \<and> fst HUB_IBC_EXECUTE_MSG_QUEUE_RANGE \<le> i \<and> i \<le> snd HUB_IBC_EXECUTE_MSG_QUEUE_RANGE
        \<and> map_may_load (q_entries (HUB_QUEUE st)) i = Some msg)"
| "carries st m msg = False"

fun native_call :: "SubMsg \<Rightarrow> bool" where
  "native_call \<lparr>sm_id = i, sm_msg = Wasm_Execute a m f, sm_reply_on = on\<rparr> = True"
| "native_call m = False"

abbreviation queued :: "rt_storage \<Rightarrow> u64 \<Rightarrow> HubIbcExecuteMsg option" where
  "queued st \<equiv> map_may_load (q_entries (HUB_QUEUE st))"

abbreviation keeps_queue :: "rt_storage \<Rightarrow> rt_storage \<Rightarrow> bool" where
  "keeps_queue st st' \<equiv> (\<forall>i m. queued st i = Some m \<longrightarrow> queued st' i = Some m)"

text \<open>The release messages of \<open>ms\<close>, all of one user and one token, can be answered in the state \<open>st\<close>.\<close>

definition awaits :: "rt_storage \<Rightarrow> CrossChainUser \<Rightarrow> Token \<Rightarrow> SubMsg list \<Rightarrow> bool" where
  "awaits st s tk ms \<longleftrightarrow> (\<forall>m\<in>set ms. \<exists>u x a tx. carries st m (HI_ReleaseEscrow u s x tk a tx))
     \<and> distinct (map sm_id (filter native_call ms))"

lemma carries_release: "carries st m (HI_ReleaseEscrow u s x tk a tx) \<Longrightarrow> release_of (sm_msg m) = [(u, a, unat x)]"
  by (cases "(st, m, HI_ReleaseEscrow u s x tk a tx)" rule: carries.cases) auto

lemma carries_mono: "carries st m msg \<Longrightarrow> keeps_queue st st' \<Longrightarrow> carries st' m msg"
  by (cases "(st, m, msg)" rule: carries.cases) auto

lemma carries_queued: "carries st m msg \<Longrightarrow> native_call m \<Longrightarrow> queued st (sm_id m) = Some msg"
  by (cases "(st, m, msg)" rule: carries.cases) auto

lemma awaits_mono: "awaits st s tk ms \<Longrightarrow> keeps_queue st st' \<Longrightarrow> awaits st' s tk ms"
  unfolding awaits_def using carries_mono by blast

lemma awaits_perm: "mset ms = mset ms' \<Longrightarrow> awaits st s tk ms' \<Longrightarrow> awaits st s tk ms"
  unfolding awaits_def by (metis mset_eq_imp_distinct_iff mset_eq_setD mset_filter mset_map)

lemma rt_to_msg_carries:
  assumes "rt_to_msg st env msg chain to = Inr (st', m)"
  shows "carries st' m msg \<and> keeps_queue st st' \<and> (native_call m \<longrightarrow> queued st (sm_id m) = None)"
proof (cases "chain_type chain")
  case (Ibc d)
  with assms show ?thesis by (auto simp: rt_to_msg_def HubIbc_to_msg_def submsg_defs)
next
  case NativeChain
  with assms obtain q i where push: "queue_push (fst HUB_IBC_EXECUTE_MSG_QUEUE_RANGE) (snd HUB_IBC_EXECUTE_MSG_QUEUE_RANGE)
        (HUB_QUEUE st) msg = Inr (q, i)"
    and st': "st' = st\<lparr>HUB_QUEUE := q\<rparr>"
    and m: "m = reply_always (Wasm_Execute (factory_addr chain) (To_Factory (F_NativeReceiveCallback (Json_HubIbc msg))) []) i"
    by (auto simp: rt_to_msg_def HubIbc_to_msg_def bindR_eq_Inr)
  have "queued st' i = Some msg"
    using hub_queue.push_take(2) [OF push] by (auto simp: st' queue_take_def bindR_eq_Inr map_load_eq_Inr)
  moreover have "queued st' j = Some x" if "queued st j = Some x" for j x
    using that hub_queue.push_take(1) [OF push] hub_queue.push_take(3) [OF push, of j] by (cases "j = i") (simp_all add: st')
  ultimately show ?thesis
    using hub_queue.push_id_in_range [OF push] hub_queue.push_take(1) [OF push] by (simp add: m submsg_defs)
qed

lemma release_loop_awaits:
  assumes "release_loop env s tk to as rem tr st msgs = Inr (rem', tr', st', msgs')"
  shows "\<exists>ms. msgs' = msgs @ ms \<and> awaits st' s tk ms \<and> keeps_queue st st'
     \<and> (\<forall>m\<in>set ms. native_call m \<longrightarrow> queued st (sm_id m) = None)"
  using assms
proof (induction as arbitrary: rem tr st msgs)
  case Nil
  then show ?case by (simp add: awaits_def)
next
  case (Cons a as)
  show ?case
  proof (cases "rem = 0")
    case True
    with Cons.prems show ?thesis by (simp add: awaits_def)
  next
    case False
    from Cons.prems False show ?thesis
    proof (cases rule: release_loop_step)
      case 1
      from Cons.IH [OF 1(2)] show ?thesis .
    next
      case (2 st1 rem1 tr1 m)
      from 2(11) obtain st0 w tx chain where st0: "HUB_QUEUE st0 = HUB_QUEUE st"
        and msg: "rt_to_msg st0 env (HI_ReleaseEscrow (ccu_chain_uid (ccl_user a)) s w tk (ccu_address (ccl_user a)) tx) chain to = Inr (st1, m)"
        by blast
      note m = rt_to_msg_carries [OF msg, unfolded st0]
      from Cons.IH [OF 2(9)] obtain ms where ms: "msgs' = (msgs @ [m]) @ ms" "awaits st' s tk ms" "keeps_queue st1 st'"
          "\<forall>m\<in>set ms. native_call m \<longrightarrow> queued st1 (sm_id m) = None" by blast
      have "sm_id m \<noteq> sm_id x" if "x \<in> set ms" "native_call x" "native_call m" for x
        using that ms(4) carries_queued [of st1 m] m by fastforce
      moreover have "carries st' m (HI_ReleaseEscrow (ccu_chain_uid (ccl_user a)) s w tk (ccu_address (ccl_user a)) tx)"
        using m carries_mono ms(3) by blast
      ultimately have "awaits st' s tk (m # ms)"
        using ms(2) by (auto simp: awaits_def)
      moreover have "queued st (sm_id x) = None" if "x \<in> set ms" "native_call x" for x
        using that ms(4) m by (metis option.exhaust option.distinct(1))
      ultimately show ?thesis
        using ms(1,3) m by (intro exI [of _ "m # ms"]) auto
    qed
  qed
qed

section \<open>Failed answers\<close>

text \<open>
  The error with which a release message fails comes back to the router: for a packet, in the acknowledgement (or in the one that
  the time-out handler makes up), which the router passes to itself in a callback; for a call, in a reply. The
  queries of other contracts, the address check and the ends of the channels are arguments.
\<close>

fun callback :: "vb_querier \<Rightarrow> liq_querier \<Rightarrow> env \<Rightarrow> rt_storage \<times> Response \<Rightarrow> rt_result" where
  "callback qv ql env (st, r) =
     (case map sm_msg (r_messages r) of
        [Wasm_Execute a (To_Router msg) f] \<Rightarrow> rt_execute qv ql st env \<lparr>info_sender = contract_address env, info_funds = f\<rparr> msg
      | _ \<Rightarrow> parse_error)"

fun failed_answer :: "(string \<Rightarrow> addr result) \<Rightarrow> vb_querier \<Rightarrow> liq_querier \<Rightarrow> env \<Rightarrow> (string \<Rightarrow> IbcEndpoint \<times> IbcEndpoint) \<Rightarrow> string
    \<Rightarrow> SubMsg \<Rightarrow> rt_storage \<Rightarrow> rt_result" where
  "failed_answer av qv ql env ends e \<lparr>sm_id = i, sm_msg = Ibc_SendPacket ch b t, sm_reply_on = on\<rparr> st =
     bindR (ibc_packet_ack st env \<lparr>acknowledgement = Json_Ack (AckError e),
         original_packet = \<lparr>packet_data = b, packet_src = fst (ends ch), packet_dest = snd (ends ch)\<rparr>\<rparr>) (callback qv ql env)"
| "failed_answer av qv ql env ends e m st = rt_reply av ql st env \<lparr>reply_id = sm_id m, reply_result = SubMsgErr e\<rparr>"

fun failed_answers :: "(SubMsg \<Rightarrow> rt_storage \<Rightarrow> rt_result) \<Rightarrow> SubMsg list \<Rightarrow> rt_storage \<Rightarrow> (rt_storage \<times> vb_ExecuteMsg list) result" where
  "failed_answers answer [] st = Ok (st, [])"
| "failed_answers answer (m # ms) st =
     bindR (answer m st) (\<lambda>(st, r).
     bindR (failed_answers answer ms st) (\<lambda>(st, vs). Ok (st, vb_msgs r @ vs)))"

abbreviation mint_back :: "CrossChainUser \<Rightarrow> Token \<Rightarrow> nat \<Rightarrow> vb_ExecuteMsg" where
  "mint_back s tk x \<equiv> VB_Mint \<lparr>mint_amount = of_nat x, mint_balance_key = \<lparr>bk_cross_chain_user = s, bk_token_id = token_id tk\<rparr>\<rparr>"

text \<open>A router that is not locked and knows its ledger.\<close>

definition in_service :: "rt_storage \<Rightarrow> bool" where
  "in_service st \<longleftrightarrow> (\<exists>s. RT_STATE st = Some s \<and> \<not> rs_locked s \<and> rs_virtual_balance_address s \<noteq> None)"

text \<open>One error, in whatever state it finds such a router.\<close>

lemma failed_release_ack:
  assumes "in_service st" and "map_has (ESCROW_BALANCES st) (tk, u)" and "escrow_of st tk u + unat x < 2 ^ 128"
  shows "\<exists>r. ibc_ack_release_escrow st u s x tk (AckError e)
      = Ok (st\<lparr>ESCROW_BALANCES := map_save (ESCROW_BALANCES st) (tk, u) (amount_at (ESCROW_BALANCES st) (tk, u) + x)\<rparr>, r)
     \<and> vb_msgs r = [mint_back s tk (unat x)]"
  using assms
  by (auto simp: in_service_def ibc_ack_release_escrow_def item_load_def map_load_def map_has_def checked_add_def Let_def submsg_defs
      amount_at_def unwrap_or_def vb_msgs_def split: option.splits)

lemma failed_answer_undoes:
  assumes "carries st m (HI_ReleaseEscrow u s x tk a tx)" and "in_service st"
    and "map_has (ESCROW_BALANCES st) (tk, u)" and "escrow_of st tk u + unat x < 2 ^ 128"
  shows "\<exists>st' r. failed_answer av qv ql env ends e m st = Ok (st', r) \<and> vb_msgs r = [mint_back s tk (unat x)]
     \<and> in_service st' \<and> (\<forall>k. map_has (ESCROW_BALANCES st) k \<longrightarrow> map_has (ESCROW_BALANCES st') k)
     \<and> (\<forall>k v. escrow_of st' k v = escrow_of st k v + (if k = tk \<and> v = u then unat x else 0))
     \<and> (\<forall>i. (native_call m \<longrightarrow> i \<noteq> sm_id m) \<longrightarrow> queued st' i = queued st i)"
proof -
  obtain i c on where m: "m = \<lparr>sm_id = i, sm_msg = c, sm_reply_on = on\<rparr>" by (cases m)
  let ?q = "(HUB_QUEUE st)\<lparr>q_entries := map_remove (q_entries (HUB_QUEUE st)) i\<rparr>"
  let ?st = "if native_call m then st\<lparr>HUB_QUEUE := ?q\<rparr> else st"
  have "in_service ?st" "map_has (ESCROW_BALANCES ?st) (tk, u)" "escrow_of ?st tk u + unat x < 2 ^ 128"
    using assms(2-4) by (simp_all add: in_service_def)
  from failed_release_ack [OF this, of s e] obtain r where
      ack: "ibc_ack_release_escrow ?st u s x tk (AckError e)
        = Ok (?st\<lparr>ESCROW_BALANCES := map_save (ESCROW_BALANCES ?st) (tk, u) (amount_at (ESCROW_BALANCES ?st) (tk, u) + x)\<rparr>, r)"
    and r: "vb_msgs r = [mint_back s tk (unat x)]" by blast
  obtain state where state: "RT_STATE st = Some state" "\<not> rs_locked state" using assms(2) by (auto simp: in_service_def)
  have "failed_answer av qv ql env ends e m st = ibc_ack_release_escrow ?st u s x tk (AckError e)"
    using assms(1) unfolding m
    by (cases "(st, m, HI_ReleaseEscrow u s x tk a tx)" rule: carries.cases)
       (auto simp: m state ibc_packet_ack_def submsg_defs rt_execute_def item_load_def ibc_ack_packet_internal_call_def
         reusable_internal_ack_call_def from_json_ack_def rt_reply_def on_reply_native_ibc_wrapper_call_def queue_take_def
         map_load_def make_ack_fail_def)
  moreover have "unat (amount_at (ESCROW_BALANCES st) (tk, u) + x) = escrow_of st tk u + unat x"
    using assms(4) by (simp add: unat_add_u128)
  ultimately show ?thesis
    using ack r assms(2) by (auto simp: in_service_def m)
qed

text \<open>All of them, one after the other.\<close>

lemma paid_append [simp]: "paid (p @ q) u = paid p u + paid q u"
  by (simp add: paid_def)

lemma failed_answers_undo:
  assumes "awaits st s tk ms" and "in_service st"
    and "\<forall>m\<in>set ms. \<forall>(u, a, x)\<in>set (release_of (sm_msg m)). map_has (ESCROW_BALANCES st) (tk, u)"
    and "\<And>u. escrow_of st tk u + paid (releases ms) u < 2 ^ 128"
  shows "\<exists>st'. failed_answers (failed_answer av qv ql env ends e) ms st = Ok (st', map (\<lambda>(u, a, x). mint_back s tk x) (releases ms))
     \<and> (\<forall>k u. escrow_of st' k u = escrow_of st k u + (if k = tk then paid (releases ms) u else 0))"
  using assms
proof (induction ms arbitrary: st)
  case (Cons m ms)
  from Cons.prems(1) obtain u x a tx where m: "carries st m (HI_ReleaseEscrow u s x tk a tx)" by (auto simp: awaits_def)
  note rel = carries_release [OF m]
  have "map_has (ESCROW_BALANCES st) (tk, u)" using Cons.prems(3) rel by simp
  moreover have "escrow_of st tk u + unat x < 2 ^ 128" using Cons.prems(4) [of u] rel by simp
  ultimately obtain st1 r where ans: "failed_answer av qv ql env ends e m st = Ok (st1, r)" and r: "vb_msgs r = [mint_back s tk (unat x)]"
    and st1: "in_service st1" "\<forall>k. map_has (ESCROW_BALANCES st) k \<longrightarrow> map_has (ESCROW_BALANCES st1) k"
      "\<forall>k v. escrow_of st1 k v = escrow_of st k v + (if k = tk \<and> v = u then unat x else 0)"
      "\<forall>i. (native_call m \<longrightarrow> i \<noteq> sm_id m) \<longrightarrow> queued st1 i = queued st i"
    using failed_answer_undoes [OF m Cons.prems(2)] by blast
  have "carries st1 y msg" if y: "y \<in> set ms" "carries st y msg" for y msg
  proof -
    have "native_call m \<longrightarrow> sm_id y \<noteq> sm_id m" if "native_call y"
      using Cons.prems(1) y(1) that by (auto simp: awaits_def image_iff) metis
    with st1(4) have "queued st1 (sm_id y) = queued st (sm_id y)" if "native_call y" using that by blast
    with y(2) show ?thesis by (cases "(st, y, msg)" rule: carries.cases) auto
  qed
  then have "awaits st1 s tk ms" using Cons.prems(1) unfolding awaits_def by (auto split: if_splits) blast+
  moreover have "escrow_of st1 tk v + paid (releases ms) v < 2 ^ 128" for v
    using Cons.prems(4) [of v] st1(3) rel by (simp split: if_splits)
  moreover have "\<forall>m\<in>set ms. \<forall>(u, a, x)\<in>set (release_of (sm_msg m)). map_has (ESCROW_BALANCES st1) (tk, u)"
    using Cons.prems(3) st1(2) by fastforce
  ultimately obtain st2 where "failed_answers (failed_answer av qv ql env ends e) ms st1 = Ok (st2, map (\<lambda>(u, a, x). mint_back s tk x) (releases ms))"
    and "\<forall>k v. escrow_of st2 k v = escrow_of st1 k v + (if k = tk then paid (releases ms) v else 0)"
    using Cons.IH [OF _ st1(1)] by blast
  with ans r st1(3) show ?case by (simp add: rel)
qed simp

lemma sum_list_perm: "mset xs = mset ys \<Longrightarrow> (\<Sum>x\<leftarrow>xs. f x) = (\<Sum>x\<leftarrow>ys. f x :: nat)"
  by (metis mset_map sum_mset_sum_list)

lemma paid_perm:
  assumes "mset ms = mset ms'"
  shows "paid (releases ms) u = paid (releases ms') u"
proof -
  have "paid (releases xs) u = (\<Sum>m\<leftarrow>xs. paid (release_of (sm_msg m)) u)" for xs by (induction xs) simp_all
  then show ?thesis using sum_list_perm [OF assms] by simp
qed

lemma planned_perm:
  assumes "mset ms = mset ms'"
  shows "planned (releases ms) = planned (releases ms')"
proof -
  have "planned (releases xs) = (\<Sum>m\<leftarrow>xs. planned (release_of (sm_msg m)))" for xs by (induction xs) simp_all
  then show ?thesis using sum_list_perm [OF assms] by simp
qed

abbreviation payouts_of :: "Response \<Rightarrow> SubMsg list" where
  "payouts_of r \<equiv> filter (\<lambda>m. release_of (sm_msg m) \<noteq> []) (r_messages r)"

lemma releases_payouts: "releases (filter (\<lambda>m. release_of (sm_msg m) \<noteq> []) ms) = releases ms"
  by (induction ms) auto

lemma paid_pos: "(u, a, x) \<in> set p \<Longrightarrow> x \<le> paid p u"
  by (induction p) auto

lemma release_awaits:
  assumes "execute_release_escrow q st env info sender tk amt addrs to tx = Inr (st', r)"
  shows "awaits st' sender tk (payouts_of r)"
  using assms
proof (rule release_escrow_okE)
  fix state vb bal w timeout rem tr msgs
  assume loop: "release_loop env sender tk timeout addrs w 0 st [] = Inr (rem, tr, st', msgs)"
    and r: "r = \<lparr>r_messages = (if tr \<noteq> 0 then [burn_msg vb sender tk tr] else []) @ msgs, r_data = None\<rparr>"
  have aw: "awaits st' sender tk msgs" using release_loop_awaits [OF loop] by auto
  then have "filter (\<lambda>m. release_of (sm_msg m) \<noteq> []) msgs = msgs"
    by (intro filter_True) (fastforce simp: awaits_def dest: carries_release)
  then have "payouts_of r = msgs" by (simp add: r burn_msg_def submsg_defs)
  with aw show ?thesis by simp
qed

lemma released_recorded:
  assumes "execute_release_escrow q st env info sender tk amt addrs to tx = Inr (st', r)" and "(u, a, x) \<in> set (releases (r_messages r))"
  shows "map_has (ESCROW_BALANCES st') (tk, u)"
proof (rule release_escrow_plan [OF assms(1)])
  fix bal p
  assume p: "p = plan (escrow_of st tk) (unat (unwrap_or amt bal)) addrs" "releases (r_messages r) = p"
    and esc: "\<And>k u. escrow_of st' k u + (if k = tk then paid p u else 0) = escrow_of st k u" and same: "rt_same st st'"
  have "(u, a, x) \<in> set p" using assms(2) p(2) by simp
  then have "0 < escrow_of st tk u" using esc [of tk u] paid_pos [of u a x p] plan_pos [of "(u, a, x)"] p(1) by fastforce
  then have "map_has (ESCROW_BALANCES st) (tk, u)"
    by (cases "map_may_load (ESCROW_BALANCES st) (tk, u)") (simp_all add: map_has_def amount_at_def unwrap_or_def)
  with same show ?thesis by (simp add: rt_same_def)
qed

section \<open>The property\<close>

text \<open>
  C25: Failed releases are undone. When all payouts of a release fail, over IBC or on the hub's own chain, and their errors come
  back, in any order, to the entry points of a router that is not locked, all of them are accepted, and the ledger is told to mint to the
  user, payout by payout, exactly what it was told to burn. If they come back at once, the escrow record is
  what it was before the release, for every token and chain. If they come back to any later state of the router (in
  service, with the records and the pending calls still there and room for the amounts), every record of the token rises by
  exactly what its chain was told to release, and no other record changes.
\<close>

theorem failed_release_restores:
  assumes "rt_execute qv ql st env info (R_ReleaseEscrowInternal sender tk amt addrs to tx) = Ok (st', r)"
    and "mset ms = mset (payouts_of r)"
  shows "vb_msgs r = (if planned (releases ms) = 0 then [] else [VB_Burn \<lparr>burn_amount = of_nat (planned (releases ms)), burn_balance_key =
          \<lparr>bk_cross_chain_user = sender, bk_token_id = token_id tk\<rparr>\<rparr>])
     \<and> (\<exists>st2. failed_answers (failed_answer av qv' ql' env' ends e) ms st'
            = Ok (st2, map (\<lambda>(u, a, x). mint_back sender tk x) (releases ms)) \<and> escrow_of st2 = escrow_of st)
     \<and> (\<forall>st1. in_service st1 \<longrightarrow> keeps_queue st' st1 \<longrightarrow> (\<forall>k. map_has (ESCROW_BALANCES st') k \<longrightarrow> map_has (ESCROW_BALANCES st1) k)
          \<longrightarrow> (\<forall>u. escrow_of st1 tk u + paid (releases ms) u < 2 ^ 128)
          \<longrightarrow> (\<exists>st2. failed_answers (failed_answer av qv' ql' env' ends e) ms st1
                = Ok (st2, map (\<lambda>(u, a, x). mint_back sender tk x) (releases ms))
              \<and> (\<forall>k u. escrow_of st2 k u = escrow_of st1 k u + (if k = tk then paid (releases ms) u else 0))))"
proof -
  have rel: "execute_release_escrow qv st env info sender tk amt addrs to tx = Ok (st', r)"
    and unlocked: "\<exists>s. RT_STATE st = Some s \<and> \<not> rs_locked s"
    using assms(1) by (auto simp: rt_execute_def bindR_eq_Inr item_load_eq_Inr split: if_splits)
  note perm = paid_perm [OF assms(2), unfolded releases_payouts] planned_perm [OF assms(2), unfolded releases_payouts]
  obtain state vb bal p where known: "RT_STATE st = Some state" "rs_virtual_balance_address state = Some vb"
    and "qv vb \<lparr>bk_cross_chain_user = sender, bk_token_id = token_id tk\<rparr> = Inr bal" "unwrap_or amt bal \<le> bal"
    and "p = plan (escrow_of st tk) (unat (unwrap_or amt bal)) addrs" and p: "releases (r_messages r) = p"
    and burn: "vb_msgs r = (if planned p = 0 then [] else [VB_Burn \<lparr>burn_amount = of_nat (planned p), burn_balance_key =
        \<lparr>bk_cross_chain_user = sender, bk_token_id = token_id tk\<rparr>\<rparr>])"
    and "planned p \<le> unat (unwrap_or amt bal)"
    and esc: "\<And>k u. escrow_of st' k u + (if k = tk then paid p u else 0) = escrow_of st k u" and same: "rt_same st st'"
    by (rule release_escrow_plan [OF rel]) (rule that)
  have serve: "in_service st'" using unlocked known same by (simp add: in_service_def rt_same_def)
  have aw: "awaits st' sender tk ms" using awaits_perm [OF assms(2) release_awaits [OF rel]] .
  have has: "map_has (ESCROW_BALANCES st') (tk, u)" if "m \<in> set ms" "(u, a, x) \<in> set (release_of (sm_msg m))" for m u a x
    using released_recorded [OF rel] that mset_eq_setD [OF assms(2)] by auto
  note undo = failed_answers_undo [where av = av and qv = qv' and ql = ql' and env = env' and ends = ends and e = e]
  have "escrow_of st' tk u + paid (releases ms) u < 2 ^ 128" for u
    using esc [of tk u] unat_lt_u128 [of "amount_at (ESCROW_BALANCES st) (tk, u)"] by (simp add: perm p)
  with undo [OF aw serve] has obtain st2 where
      "failed_answers (failed_answer av qv' ql' env' ends e) ms st' = Ok (st2, map (\<lambda>(u, a, x). mint_back sender tk x) (releases ms))"
    and "\<forall>k u. escrow_of st2 k u = escrow_of st' k u + (if k = tk then paid (releases ms) u else 0)" by blast
  moreover from this(2) have "escrow_of st2 = escrow_of st" by (intro ext) (metis esc perm(1) p)
  moreover have "vb_msgs r = (if planned (releases ms) = 0 then [] else [VB_Burn \<lparr>burn_amount = of_nat (planned (releases ms)), burn_balance_key =
          \<lparr>bk_cross_chain_user = sender, bk_token_id = token_id tk\<rparr>\<rparr>])" using burn by (simp add: perm p)
  moreover have "\<exists>st2. failed_answers (failed_answer av qv' ql' env' ends e) ms st1 = Ok (st2, map (\<lambda>(u, a, x). mint_back sender tk x) (releases ms))
      \<and> (\<forall>k u. escrow_of st2 k u = escrow_of st1 k u + (if k = tk then paid (releases ms) u else 0))"
    if "in_service st1" "keeps_queue st' st1" "\<forall>k. map_has (ESCROW_BALANCES st') k \<longrightarrow> map_has (ESCROW_BALANCES st1) k"
      "\<forall>u. escrow_of st1 tk u + paid (releases ms) u < 2 ^ 128" for st1
    using undo [OF awaits_mono [OF aw that(2)] that(1)] has that(3,4) by blast
  ultimately show ?thesis by blast
qed

text \<open>Two payouts of the example hub, the second of which fails first.\<close>

theorem failed_release_restores_witness:
  "\<exists>st' r st2 vs. rt_execute (ex_vb 120) (\<lambda>_. parse_error) (ex_hub False) ex_env (ex_info ''router'')
        (R_ReleaseEscrowInternal ex_user ex_tk None [ex_to ''juno'' None, ex_to ''osmosis'' (Some 60)] None ''tx'') = Ok (st', r)
     \<and> releases (r_messages r) = [(ex_uid ''juno'', ''alice'', 50), (ex_uid ''osmosis'', ''alice'', 60)]
     \<and> failed_answers (failed_answer Ok (ex_vb 0) (\<lambda>_. parse_error) ex_env (\<lambda>ch. (\<lparr>port_id = [], channel_id = ch\<rparr>, \<lparr>port_id = [], channel_id = []\<rparr>))
          ''Timeout'') (rev (payouts_of r)) st' = Ok (st2, vs)
     \<and> vs = map (\<lambda>(u, a, x). mint_back ex_user ex_tk x) (releases (rev (payouts_of r))) \<and> escrow_of st2 = escrow_of (ex_hub False)"
proof -
  let ?addrs = "[ex_to ''juno'' None, ex_to ''osmosis'' (Some 60)]"
  obtain st' r where rel: "execute_release_escrow (ex_vb 120) (ex_hub False) ex_env (ex_info ''router'') ex_user ex_tk None ?addrs None ''tx''
      = Ok (st', r)" using ex_release by blast
  have "rt_execute (ex_vb 120) (\<lambda>_. parse_error) (ex_hub False) ex_env (ex_info ''router'')
      (R_ReleaseEscrowInternal ex_user ex_tk None ?addrs None ''tx'') = Ok (st', r)"
    unfolding rel [symmetric] by (simp add: rt_execute_def ex_hub_def ex_state_def item_load_def)
  moreover have "releases (r_messages r) = [(ex_uid ''juno'', ''alice'', 50), (ex_uid ''osmosis'', ''alice'', 60)]"
    by (rule release_escrow_plan [OF rel]) (simp add: ex_plan del: plan.simps)
  moreover have "mset (rev (payouts_of r)) = mset (payouts_of r)" by simp
  ultimately show ?thesis
    using failed_release_restores [of "ex_vb 120" "\<lambda>_. parse_error" "ex_hub False" ex_env "ex_info ''router''" ex_user ex_tk None ?addrs None
        "''tx''" st' r "rev (payouts_of r)" Ok "ex_vb 0" "\<lambda>_. parse_error" ex_env] by blast
qed

end
