(* ===== verification/Lp_Token.thy ===== *)
theory Lp_Token
  imports Messages
begin

text \<open>
  The LP token, \<^verbatim>\<open>contracts/liquidity/cw20/src\<close>: a thin contract around the token library. It remembers which pool,
  pair and factory it belongs to, answers its instantiation with them, and hands every message and query on to the
  library. The library (\<open>cw20_base\<close>) is not part of the repository: its state is a type variable and its entry
  points are arguments.
\<close>

section \<open>Messages of the token library\<close>

datatype Cw20ExecuteMsg =
    Base_Transfer string uint128
  | Base_Burn uint128
  | Base_Send string uint128 binary
  | Base_IncreaseAllowance string uint128 "Expiration option"
  | Base_DecreaseAllowance string uint128 "Expiration option"
  | Base_TransferFrom string string uint128
  | Base_SendFrom string string uint128 binary
  | Base_BurnFrom string uint128
  | Base_Mint string uint128
  | Base_UpdateMarketing "string option" "string option" "string option"
  | Base_UploadLogo string

datatype Cw20QueryMsg =
    BaseQ_TokenInfo
  | BaseQ_Minter
  | BaseQ_Allowance string string
  | BaseQ_AllAllowances string "string option" "u32 option"
  | BaseQ_AllAccounts "string option" "u32 option"
  | BaseQ_MarketingInfo
  | BaseQ_DownloadLogo
  | BaseQ_Balance string

datatype cw20_QueryMsg =
    CW20Q_TokenInfo
  | CW20Q_Minter
  | CW20Q_Allowance string string
  | CW20Q_AllAllowances string "string option" "u32 option"
  | CW20Q_AllAccounts "string option" "u32 option"
  | CW20Q_MarketingInfo
  | CW20Q_DownloadLogo
  | CW20Q_Balance string

text \<open>The conversions (\<^verbatim>\<open>From\<close>) of the messages of this contract into those of the library.\<close>

definition Cw20InstantiateMsg_from :: "cw20_InstantiateMsg \<Rightarrow> LpTokenInstantiateMsg" where
  "Cw20InstantiateMsg_from msg =
     \<lparr>lpt_name = cim_name msg, lpt_symbol = cim_symbol msg, lpt_decimals = cim_decimals msg,
      lpt_initial_balances = cim_initial_balances msg, lpt_mint = cim_mint msg, lpt_marketing = cim_marketing msg\<rparr>"

fun Cw20ExecuteMsg_from :: "cw20_ExecuteMsg \<Rightarrow> Cw20ExecuteMsg" where
  "Cw20ExecuteMsg_from (CW20_Transfer recipient amount) = Base_Transfer recipient amount"
| "Cw20ExecuteMsg_from (CW20_Burn amount) = Base_Burn amount"
| "Cw20ExecuteMsg_from (CW20_Send contract amount msg) = Base_Send contract amount msg"
| "Cw20ExecuteMsg_from (CW20_IncreaseAllowance spender amount expires) = Base_IncreaseAllowance spender amount expires"
| "Cw20ExecuteMsg_from (CW20_DecreaseAllowance spender amount expires) = Base_DecreaseAllowance spender amount expires"
| "Cw20ExecuteMsg_from (CW20_TransferFrom owner recipient amount) = Base_TransferFrom owner recipient amount"
| "Cw20ExecuteMsg_from (CW20_SendFrom owner contract amount msg) = Base_SendFrom owner contract amount msg"
| "Cw20ExecuteMsg_from (CW20_BurnFrom owner amount) = Base_BurnFrom owner amount"
| "Cw20ExecuteMsg_from (CW20_Mint recipient amount) = Base_Mint recipient amount"
| "Cw20ExecuteMsg_from (CW20_UpdateMarketing project description marketing) =
     Base_UpdateMarketing project description marketing"
| "Cw20ExecuteMsg_from (CW20_UploadLogo logo) = Base_UploadLogo logo"

fun Cw20QueryMsg_from :: "cw20_QueryMsg \<Rightarrow> Cw20QueryMsg" where
  "Cw20QueryMsg_from (CW20Q_Balance address) = BaseQ_Balance address"
| "Cw20QueryMsg_from CW20Q_TokenInfo = BaseQ_TokenInfo"
| "Cw20QueryMsg_from CW20Q_Minter = BaseQ_Minter"
| "Cw20QueryMsg_from (CW20Q_Allowance owner spender) = BaseQ_Allowance owner spender"
| "Cw20QueryMsg_from (CW20Q_AllAllowances owner start_after limit) = BaseQ_AllAllowances owner start_after limit"
| "Cw20QueryMsg_from (CW20Q_AllAccounts start_after limit) = BaseQ_AllAccounts start_after limit"
| "Cw20QueryMsg_from CW20Q_MarketingInfo = BaseQ_MarketingInfo"
| "Cw20QueryMsg_from CW20Q_DownloadLogo = BaseQ_DownloadLogo"

section \<open>Errors of the token library\<close>

text \<open>The errors of the library that the contract knows; any other one makes the conversion (\<^verbatim>\<open>From\<close>) panic.\<close>

datatype Cw20ContractError =
    Cw20_Std StdError
  | Cw20_Expired
  | Cw20_LogoTooBig
  | Cw20_NoAllowance
  | Cw20_Unauthorized
  | Cw20_CannotExceedCap
  | Cw20_InvalidPngHeader
  | Cw20_InvalidXmlPreamble
  | Cw20_CannotSetOwnAccount
  | Cw20_DuplicateInitialBalanceAddresses
  | Cw20_InvalidExpiration
  | Cw20_Other string

fun ContractError_from :: "Cw20ContractError \<Rightarrow> failure" where
  "ContractError_from (Cw20_Std std) = Raised (Std std)"
| "ContractError_from Cw20_Expired = Raised Expired"
| "ContractError_from Cw20_LogoTooBig = Raised LogoTooBig"
| "ContractError_from Cw20_NoAllowance = Raised NoAllowance"
| "ContractError_from Cw20_Unauthorized = Raised Unauthorized"
| "ContractError_from Cw20_CannotExceedCap = Raised CannotExceedCap"
| "ContractError_from Cw20_InvalidPngHeader = Raised InvalidPngHeader"
| "ContractError_from Cw20_InvalidXmlPreamble = Raised InvalidXmlPreamble"
| "ContractError_from Cw20_CannotSetOwnAccount = Raised CannotSetOwnAccount"
| "ContractError_from Cw20_DuplicateInitialBalanceAddresses = Raised DuplicateInitialBalanceAddresses"
| "ContractError_from Cw20_InvalidExpiration = Raised InvalidExpiration"
| "ContractError_from (Cw20_Other err) = Panic (''Unsupported cw20 error: '' @ err)"

definition from_cw20 :: "Cw20ContractError + 'a \<Rightarrow> 'a result" where
  "from_cw20 m = (case m of Inl e \<Rightarrow> Inl (ContractError_from e) | Inr x \<Rightarrow> Ok x)"

lemma from_cw20_Inr [simp]: "from_cw20 m = Inr x \<longleftrightarrow> m = Inr x" "from_cw20 (Inr x) = Inr x"
  by (cases m; simp add: from_cw20_def)+

section \<open>State and entry points\<close>

record lp_State =
  lps_token_pair :: Pair
  lps_factory_address :: addr
  lps_vlp :: string

record 'c lp_storage =
  LP_STATE :: "lp_State option"
  LP_BASE :: 'c

type_synonym 'c lp_result = "('c lp_storage \<times> Response) result"

definition lp_instantiate ::
    "('c \<Rightarrow> env \<Rightarrow> message_info \<Rightarrow> LpTokenInstantiateMsg \<Rightarrow> Cw20ContractError + 'c \<times> Response) \<Rightarrow> 'c \<Rightarrow> env \<Rightarrow> message_info
       \<Rightarrow> cw20_InstantiateMsg \<Rightarrow> 'c lp_result" where
  "lp_instantiate cw20_instantiate base env info msg =
     bindR (from_cw20 (cw20_instantiate base env info (Cw20InstantiateMsg_from msg))) (\<lambda>(base, cw20_resp).
     let state = \<lparr>lps_token_pair = cim_token_pair msg, lps_factory_address = cim_factory msg, lps_vlp = cim_vlp msg\<rparr>;
         data = \<lparr>cir_pair = cim_token_pair msg, cir_address = contract_address env, cir_vlp = cim_vlp msg\<rparr>
     in Ok (\<lparr>LP_STATE = Some state, LP_BASE = base\<rparr>, set_data (Json_Cw20Instantiate data) cw20_resp))"

definition lp_execute ::
    "('c \<Rightarrow> env \<Rightarrow> message_info \<Rightarrow> Cw20ExecuteMsg \<Rightarrow> Cw20ContractError + 'c \<times> Response) \<Rightarrow> 'c lp_storage \<Rightarrow> env \<Rightarrow> message_info
       \<Rightarrow> cw20_ExecuteMsg \<Rightarrow> 'c lp_result" where
  "lp_execute execute_cw20 st env info msg =
     bindR (from_cw20 (execute_cw20 (LP_BASE st) env info (Cw20ExecuteMsg_from msg))) (\<lambda>(base, resp).
     Ok (st\<lparr>LP_BASE := base\<rparr>, resp))"

definition lp_query ::
    "('c \<Rightarrow> env \<Rightarrow> Cw20QueryMsg \<Rightarrow> StdError + binary) \<Rightarrow> 'c lp_storage \<Rightarrow> env \<Rightarrow> cw20_QueryMsg \<Rightarrow> binary result" where
  "lp_query cw20_query st env msg = lift_err Std (cw20_query (LP_BASE st) env (Cw20QueryMsg_from msg))"

section \<open>Facts\<close>

text \<open>No message is lost or confused on its way into the library.\<close>

lemma Cw20ExecuteMsg_from_inject [simp]: "Cw20ExecuteMsg_from m = Cw20ExecuteMsg_from m' \<longleftrightarrow> m = m'"
  by (cases m; cases m') auto

lemma Cw20QueryMsg_from_inject [simp]: "Cw20QueryMsg_from m = Cw20QueryMsg_from m' \<longleftrightarrow> m = m'"
  by (cases m; cases m') auto

text \<open>
  No error of the library is confused with another one: callers of the token can tell them apart, unless the contract
  does not know the error at all.
\<close>

lemma ContractError_from_inject: "ContractError_from e = ContractError_from e' \<longleftrightarrow> e = e'"
  by (cases e; cases e') auto

text \<open>A token never changes the pool, pair and factory it belongs to.\<close>

lemma lp_execute_keeps_state: "lp_execute ex st env info msg = Inr (st', r) \<Longrightarrow> LP_STATE st' = LP_STATE st"
  by (auto simp: lp_execute_def bindR_eq_Inr)

lemma lp_instantiate_Inr:
  "lp_instantiate inst base env info msg = Inr (st, r) \<longleftrightarrow>
     (\<exists>base' r0. inst base env info (Cw20InstantiateMsg_from msg) = Inr (base', r0)
        \<and> st = \<lparr>LP_STATE = Some \<lparr>lps_token_pair = cim_token_pair msg, lps_factory_address = cim_factory msg,
              lps_vlp = cim_vlp msg\<rparr>, LP_BASE = base'\<rparr>
        \<and> r = set_data (Json_Cw20Instantiate
            \<lparr>cir_pair = cim_token_pair msg, cir_address = contract_address env, cir_vlp = cim_vlp msg\<rparr>) r0)"
  by (auto simp: lp_instantiate_def bindR_eq_Inr Let_def simp del: response_simps)

end
