(* ===== verification/Liquidity_Chain.thy ===== *)
theory Liquidity_Chain
  imports Factory_Properties Lp_Token Escrow
begin

text \<open>
  The contracts of a liquidity chain together: the factory with the escrows it pays from and the LP tokens it
  instantiates. Who can make an escrow pay, what a release of the router pays, and how the LP token of a new pool
  is found again.
\<close>

section \<open>Payments from escrows\<close>

fun payout_of :: "CosmosMsg \<Rightarrow> (string \<times> addr \<times> uint128) list" where
  "payout_of (Wasm_Execute e (To_Escrow (ESC_Withdraw to x)) _) = [(e, to, x)]"
| "payout_of _ = []"

text \<open>The withdrawals a response orders: the escrow, the recipient and the amount.\<close>

definition payouts :: "Response \<Rightarrow> (string \<times> addr \<times> uint128) list" where
  "payouts r = concat (map (\<lambda>m. payout_of (sm_msg m)) (r_messages r))"

lemma payouts_simps [simp]:
  "payouts \<lparr>r_messages = [], r_data = x\<rparr> = []"
  "payouts \<lparr>r_messages = m # ms, r_data = x\<rparr> = payout_of (sm_msg m) @ payouts \<lparr>r_messages = ms, r_data = x\<rparr>"
  "payouts \<lparr>r_messages = ms @ ms', r_data = x\<rparr>
     = payouts \<lparr>r_messages = ms, r_data = x\<rparr> @ payouts \<lparr>r_messages = ms', r_data = x\<rparr>"
  by (simp_all add: payouts_def)

lemma payout_of_transfer [simp]:
  "payout_of (create_transfer_msg t a to own) = []" "payout_of (create_escrow_msg t a e) = []"
  by (cases t; simp add: create_transfer_msg_def create_escrow_msg_def)+

lemma fac_to_msg_payout: "fac_to_msg st env msg state channel timeout = Inr p \<Longrightarrow> payout_of (sm_msg (snd p)) = []"
  by (auto simp: fac_to_msg_def ChainIbc_to_msg_def bindR_eq_Inr submsg_defs split: if_splits)

lemma request_payouts:
  "fac_execute_request_pool_creation vl ta st env info pair nm sy dec mk to = Inr (st', r) \<Longrightarrow> payouts r = []"
  "execute_request_register_escrow st env info token to = Inr (st', r) \<Longrightarrow> payouts r = []"
  "execute_withdraw_virtual_balance st env info tk amt addrs to = Inr (st', r) \<Longrightarrow> payouts r = []"
  "remove_liquidity_request av st info env sender pr lp to addrs = Inr (st', r) \<Longrightarrow> payouts r = []"
  "execute_swap_request M av qs ta st info env sender ai out amt min_out swaps to addrs pf = Inr (st', r) \<Longrightarrow> payouts r = []"
  unfolding fac_execute_request_pool_creation_def execute_request_register_escrow_def execute_swap_request_def
    execute_withdraw_virtual_balance_def remove_liquidity_request_def Let_def split_beta bindR_eq_Inr ensure_eq_Inr
    response_simps
  by (force dest!: fac_to_msg_payout)+

lemma add_request_payouts:
  assumes "add_liquidity_request ta st info env p a b slip to = Inr (st', r)"
  shows "payouts r = []"
proof -
  have none: "payouts \<lparr>r_messages = map SubMsg_new ms, r_data = None\<rparr> = []"
    if "fund_token env info s t x = Inr ms" for s t x ms
    using that by (auto simp: fund_token_def ensure_eq_Inr bindR_eq_Inr submsg_defs split: if_splits)
  from add_request_ok1 [OF assms] show ?thesis
    by (auto dest!: none fac_to_msg_payout)
qed

lemma quiet_payouts:
  "execute_update_hub_channel st info ch = Inr (st', r) \<Longrightarrow> payouts r = []"
  "execute_request_register_denom st info token = Inr (st', r) \<Longrightarrow> payouts r = []"
  "execute_request_deregister_denom st info token = Inr (st', r) \<Longrightarrow> payouts r = []"
  by (auto simp: execute_update_hub_channel_def execute_request_register_denom_def
      execute_request_deregister_denom_def bindR_eq_Inr ensure_eq_Inr submsg_defs)

lemma payouts_new_escrow: "payouts \<lparr>r_messages = map (new_escrow state) ts, r_data = x\<rparr> = []"
  by (induction ts) (simp_all add: new_escrow_def submsg_defs)

lemma ack_payouts:
  "ack_pool_creation av st env sender pres tx native = Inr (st', r) \<Longrightarrow> payouts r = []"
  "ack_escrow_creation av st sender eres tx native = Inr (st', r) \<Longrightarrow> payouts r = []"
  "ack_add_liquidity av st ares sender tx native = Inr (st', r) \<Longrightarrow> payouts r = []"
  "ack_remove_liquidity av st rres sender tx native = Inr (st', r) \<Longrightarrow> payouts r = []"
  "ack_swap_request av st sres sender tx native = Inr (st', r) \<Longrightarrow> payouts r = []"
  "ack_withdraw_request st wres native = Inr (st', r) \<Longrightarrow> payouts r = []"
  apply (cases pres; auto simp: ack_pool_creation_def Let_def bindR_eq_Inr submsg_defs payouts_new_escrow split: if_splits)
  apply (cases eres; auto simp: ack_escrow_creation_def Let_def bindR_eq_Inr submsg_defs new_escrow_def split: if_splits)
  apply (cases ares; auto simp: ack_add_liquidity_def Let_def bindR_eq_Inr submsg_defs split: if_splits)
  apply (cases rres; auto simp: ack_remove_liquidity_def Let_def bindR_eq_Inr submsg_defs split: if_splits)
  apply (cases sres; auto simp: ack_swap_request_def Let_def bindR_eq_Inr submsg_defs split: if_splits)
  apply (cases wres; auto simp: ack_withdraw_request_def split: if_splits)
  done

lemma internal_ack_payouts:
  "fac_reusable_internal_ack_call av st env msg ack native = Inr (st', r) \<Longrightarrow> payouts r = []"
  by (cases msg) (auto simp: fac_reusable_internal_ack_call_def bindR_eq_Inr intro: ack_payouts)

text \<open>A message of the router, as the factory recognises it.\<close>

definition router_says :: "fac_storage \<Rightarrow> message_info \<Rightarrow> factory_ExecuteMsg \<Rightarrow> HubIbcExecuteMsg \<Rightarrow> bool" where
  "router_says st info msg h \<longleftrightarrow>
     (\<exists>state. F_STATE st = Some state \<and>
        (case msg of
           F_IbcCallbackReceive p \<Rightarrow> packet_data p = Json_HubIbc h
             \<and> replace_empty ''wasm.'' (port_id (packet_src p)) = fs_router_contract state
             \<and> HUB_CHANNEL st = Some (channel_id (packet_dest p))
         | F_NativeReceiveCallback b \<Rightarrow> b = Json_HubIbc h \<and> fs_is_native state
             \<and> info_sender info = fs_router_contract state
         | _ \<Rightarrow> False))"

lemma router_says_obeyed:
  assumes "(\<exists>p. msg = F_IbcCallbackReceive p) \<or> (\<exists>b. msg = F_NativeReceiveCallback b)"
  shows "fac_execute w st env info msg = Inr (st', r) \<longleftrightarrow>
     (\<exists>h. router_says st info msg h \<and> fac_reusable_internal_call (w_addr_validate w) st env h = Inr (st', r))"
  using assms
  by (auto simp: fac_execute_def fac_ibc_receive_internal_call_def fac_execute_native_receive_callback_def router_says_def
      bindR_eq_Inr ensure_eq_Inr Let_def from_json_Inr item_load_eq_Inr)

lemma release_Inr:
  "fac_execute_release_escrow av st env x token addr tx = Inr (st', r) \<longleftrightarrow>
     (\<exists>to e. av addr = Inr to \<and> Token_validate token = Inr token \<and> map_may_load (TOKEN_TO_ESCROW st) token = Some e \<and> st' = st
        \<and> r = \<lparr>r_messages = [SubMsg_new (Wasm_Execute e (To_Escrow (ESC_Withdraw to x)) [])],
              r_data = Some (Json_Ack (AckOk (EscrowReleased \<lparr>reresp_factory_address = contract_address env,
                reresp_chain_id = block_chain_id env, reresp_amount = x, reresp_token = token, reresp_to_address = addr\<rparr>)))\<rparr>)"
  by (auto simp: fac_execute_release_escrow_def Let_def bindR_eq_Inr map_load_eq_Inr Token_validate_Inr)


text \<open>
  C20: an escrow is told to pay only on the word of the router. A transaction of the factory orders a withdrawal only
  if it carries a release message that names the router as its origin, over the hub channel or, on the hub's own
  chain, by the router itself; it then orders exactly that one withdrawal, of the amount in the message, from the
  escrow of the token, to the address in the message.
\<close>

theorem escrow_pays_on_router_word:
  assumes run: "fac_execute w st env info msg = Ok (st', r)" and paid: "(e, to, x) \<in> set (payouts r)"
  shows "\<exists>c s token addr tx. router_says st info msg (HI_ReleaseEscrow c s x token addr tx)
     \<and> w_addr_validate w addr = Ok to \<and> map_may_load (TOKEN_TO_ESCROW st) token = Some e \<and> payouts r = [(e, to, x)]"
proof -
  have router: ?thesis if origin: "(\<exists>p. msg = F_IbcCallbackReceive p) \<or> (\<exists>b. msg = F_NativeReceiveCallback b)"
  proof -
    from run obtain h where "router_says st info msg h" "fac_reusable_internal_call (w_addr_validate w) st env h = Inr (st', r)"
      unfolding router_says_obeyed [OF origin] by blast
    with paid show ?thesis
      by (cases h) (fastforce simp: fac_reusable_internal_call_def release_Inr submsg_defs execute_register_router_def
          fac_execute_update_factory_channel_def Let_def bindR_eq_Inr ensure_eq_Inr)+
  qed
  have quiet: ?thesis if "payouts r = []" using that paid by simp
  show ?thesis
  proof (cases msg)
    case (F_Receive m)
    with run obtain hook where "from_json_hook (crm_msg m) = Inr hook"
      by (auto simp: fac_execute_def fac_receive_cw20_def Let_def bindR_eq_Inr)
    with F_Receive run show ?thesis
      by (intro quiet, cases hook) (auto simp: fac_execute_def fac_receive_cw20_def Let_def bindR_eq_Inr ensure_eq_Inr
          dest!: request_payouts)
  next
    case (F_IbcCallbackAckAndTimeout ack)
    with run show ?thesis
      by (intro quiet) (auto simp: fac_execute_def fac_ibc_ack_packet_internal_call_def bindR_eq_Inr
          dest!: internal_ack_payouts)
  qed (use router run paid in \<open>auto simp: fac_execute_def bindR_eq_Inr Let_def
        dest!: request_payouts add_request_payouts quiet_payouts\<close>)
qed

text \<open>The example: the router releases 40 of the token to alice, from an escrow that holds 30 and 50.\<close>

definition xl_packet :: "uint128 \<Rightarrow> string \<Rightarrow> IbcPacket" where
  "xl_packet x addr = \<lparr>packet_data = Json_HubIbc (HI_ReleaseEscrow (ChainUid ''osmosis'') xf_user x (Token ''atom'') addr ''tx''),
     packet_src = \<lparr>port_id = ''wasm.router'', channel_id = ''channel-1''\<rparr>,
     packet_dest = \<lparr>port_id = ''wasm.factory'', channel_id = ''channel-7''\<rparr>\<rparr>"

lemma xl_router: "replace_empty ''wasm.'' ''wasm.router'' = ''router''"
  by (simp add: replace_empty.simps)

lemma xl_says: "router_says xf_fac info (F_IbcCallbackReceive (xl_packet x addr))
    (HI_ReleaseEscrow (ChainUid ''osmosis'') xf_user x (Token ''atom'') addr ''tx'')"
  by (simp add: router_says_def xl_packet_def xl_router xf_fac_def xf_state_def)

lemma xl_release_ok:
  "\<exists>st r. fac_execute xf_world xf_fac xf_env info (F_IbcCallbackReceive (xl_packet x addr)) = Ok (st, r)
     \<and> payouts r = [(''escrow1'', addr, x)]"
proof -
  have "\<exists>st r. fac_reusable_internal_call Ok xf_fac xf_env (HI_ReleaseEscrow (ChainUid ''osmosis'') xf_user x (Token ''atom'') addr ''tx'')
      = Inr (st, r) \<and> payouts r = [(''escrow1'', addr, x)]"
    by (simp add: fac_reusable_internal_call_def fac_execute_release_escrow_def Token_validate_def ascii_defs map_load_def
        map_may_load_def xf_fac_def Let_def submsg_defs)
  then show ?thesis
    using xl_says router_says_obeyed [of "F_IbcCallbackReceive (xl_packet x addr)"] by (fastforce simp: xf_world_def)
qed

theorem escrow_pays_on_router_word_witness:
  "\<exists>st r c s token a tx. fac_execute xf_world xf_fac xf_env (xf_pays 0) (F_IbcCallbackReceive (xl_packet 40 ''alice'')) = Ok (st, r)
     \<and> router_says xf_fac (xf_pays 0) (F_IbcCallbackReceive (xl_packet 40 ''alice'')) (HI_ReleaseEscrow c s 40 token a tx)"
proof -
  obtain st r where ok: "fac_execute xf_world xf_fac xf_env (xf_pays 0) (F_IbcCallbackReceive (xl_packet 40 ''alice'')) = Ok (st, r)"
    and "payouts r = [(''escrow1'', ''alice'', 40)]" using xl_release_ok by blast
  then have "(''escrow1'', ''alice'', 40) \<in> set (payouts r)" by simp
  from escrow_pays_on_router_word [OF ok this] ok show ?thesis by blast
qed

section \<open>A release from end to end\<close>

text \<open>
  C15: a release of the router reaches the user in full. If the escrow of the token holds the amount in listed
  denominations, the factory accepts the packet, answers with the amount, and orders one withdrawal; the escrow
  carries it out and its transfers to the user add up to exactly the released amount.
\<close>

theorem release_pays_user:
  assumes says: "router_says st info msg (HI_ReleaseEscrow c s x token addr tx)" and x: "x \<noteq> 0"
    and ok: "w_addr_validate w addr = Ok to" "Token_validate token = Ok token"
      "map_may_load (TOKEN_TO_ESCROW st) token = Some e"
    and esc: "esc_inv est" "ESC_STATE est = Some estate" "es_factory_address estate = contract_address env"
      "ALLOWED_DENOMS est = Some ds" "unat x \<le> sum_list (balances (DENOM_TO_AMOUNT est) ds)"
  shows "\<exists>r est' amounts. fac_execute w st env info msg = Ok (st, r) \<and> payouts r = [(e, to, x)]
     \<and> (\<exists>resp. r_data r = Some (Json_Ack (AckOk (EscrowReleased resp))) \<and> reresp_amount resp = x \<and> reresp_to_address resp = addr)
     \<and> esc_execute est \<lparr>info_sender = contract_address env, info_funds = []\<rparr> (ESC_Withdraw to x)
         = Ok (est', \<lparr>r_messages = map SubMsg_new (map2 (\<lambda>d a. create_transfer_msg d (of_nat a) to None) ds amounts),
               r_data = None\<rparr>)
     \<and> sum_list amounts = unat x
     \<and> total_of (DENOM_TO_AMOUNT est) = total_of (DENOM_TO_AMOUNT est') + unat x"
proof -
  have origin: "(\<exists>p. msg = F_IbcCallbackReceive p) \<or> (\<exists>b. msg = F_NativeReceiveCallback b)"
    using says by (cases msg) (auto simp: router_says_def)
  obtain r where "fac_reusable_internal_call (w_addr_validate w) st env (HI_ReleaseEscrow c s x token addr tx) = Inr (st, r)"
    and r: "payouts r = [(e, to, x)]"
      "\<exists>resp. r_data r = Some (Json_Ack (AckOk (EscrowReleased resp))) \<and> reresp_amount resp = x \<and> reresp_to_address resp = addr"
    using ok by (simp add: fac_reusable_internal_call_def release_Inr submsg_defs)
  then have "fac_execute w st env info msg = Ok (st, r)"
    unfolding router_says_obeyed [OF origin] using says by blast
  with r have "\<exists>r. fac_execute w st env info msg = Ok (st, r) \<and> payouts r = [(e, to, x)]
     \<and> (\<exists>resp. r_data r = Some (Json_Ack (AckOk (EscrowReleased resp))) \<and> reresp_amount resp = x \<and> reresp_to_address resp = addr)"
    by blast
  moreover obtain est' where "execute_withdraw est \<lparr>info_sender = contract_address env, info_funds = []\<rparr> to x
         = Ok (est', \<lparr>r_messages = map SubMsg_new (map2 (\<lambda>d a. create_transfer_msg d (of_nat a) to None) ds
             (greedy (unat x) (balances (DENOM_TO_AMOUNT est) ds))), r_data = None\<rparr>)"
      "sum_list (greedy (unat x) (balances (DENOM_TO_AMOUNT est) ds)) = unat x"
      "total_of (DENOM_TO_AMOUNT est) = total_of (DENOM_TO_AMOUNT est') + unat x"
    using withdraw_paid [OF esc(1,2,4) _ x esc(5), of "\<lparr>info_sender = contract_address env, info_funds = []\<rparr>" to] esc(3)
    by auto
  ultimately show ?thesis by auto
qed


lemma xl_escrow:
  "ESC_STATE (example_escrow 30 50) = Some \<lparr>es_token_id = Token ''atom'', es_factory_address = ''factory'', es_total_amount = 80\<rparr>"
  "ALLOWED_DENOMS (example_escrow 30 50) = Some [Native ''uatom'', Native ''ibc/atom'']"
  "balances (DENOM_TO_AMOUNT (example_escrow 30 50)) [Native ''uatom'', Native ''ibc/atom''] = [30, 50]"
  by (simp_all add: example_escrow_def amount_at_def map_may_load_def get_key_def)

lemma xl_world:
  "w_addr_validate xf_world addr = Ok addr" "Token_validate (Token ''atom'') = Ok (Token ''atom'')"
  "map_may_load (TOKEN_TO_ESCROW xf_fac) (Token ''atom'') = Some ''escrow1''" "contract_address xf_env = ''factory''"
  by (simp_all add: xf_world_def Token_validate_def ascii_defs xf_fac_def map_may_load_def xf_env_def)

theorem release_pays_user_witness:
  "\<exists>r est' amounts. fac_execute xf_world xf_fac xf_env by_factory (F_IbcCallbackReceive (xl_packet 40 ''alice'')) = Ok (xf_fac, r)
     \<and> payouts r = [(''escrow1'', ''alice'', 40)] \<and> sum_list amounts = 40
     \<and> esc_execute (example_escrow 30 50) by_factory (ESC_Withdraw ''alice'' 40)
         = Ok (est', \<lparr>r_messages = map SubMsg_new (map2 (\<lambda>d a. create_transfer_msg d (of_nat a) ''alice'' None)
               [Native ''uatom'', Native ''ibc/atom''] amounts), r_data = None\<rparr>)"
proof -
  have inv: "esc_inv (example_escrow 30 50)" by (rule example_escrow_inv) simp
  have holds: "unat (40 :: uint128) \<le> sum_list (balances (DENOM_TO_AMOUNT (example_escrow 30 50)) [Native ''uatom'', Native ''ibc/atom''])"
    unfolding xl_escrow(3) by simp
  show ?thesis
    using release_pays_user [OF xl_says _ xl_world(1-3) inv xl_escrow(1) _ xl_escrow(2) holds, of xf_env] xl_world(4)
    by fastforce
qed

text \<open>
  C24: anyone can empty the escrows. The callback for packets looks at the packet it is given but not at its sender,
  so a transaction of any account that carries a made-up packet, naming the router's port and the hub channel, makes
  the factory order the escrow to pay any amount it holds to any address, and the escrow pays.
\<close>

theorem forged_packet_drains_escrow:
  assumes st: "F_STATE st = Some state" "HUB_CHANNEL st = Some ch" and x: "x \<noteq> 0"
    and router: "replace_empty ''wasm.'' port = fs_router_contract state"
    and ok: "w_addr_validate w thief = Ok thief" "Token_validate token = Ok token"
      "map_may_load (TOKEN_TO_ESCROW st) token = Some e"
    and esc: "esc_inv est" "ESC_STATE est = Some estate" "es_factory_address estate = contract_address env"
      "ALLOWED_DENOMS est = Some ds" "unat x \<le> sum_list (balances (DENOM_TO_AMOUNT est) ds)"
    and forged: "packet_src packet = \<lparr>port_id = port, channel_id = any\<rparr>" "channel_id (packet_dest packet) = ch"
      "packet_data packet = Json_HubIbc (HI_ReleaseEscrow c s x token thief tx)"
  shows "\<exists>r est' amounts. fac_execute w st env \<lparr>info_sender = thief, info_funds = []\<rparr> (F_IbcCallbackReceive packet) = Ok (st, r)
     \<and> payouts r = [(e, thief, x)]
     \<and> execute_withdraw est \<lparr>info_sender = contract_address env, info_funds = []\<rparr> thief x
         = Ok (est', \<lparr>r_messages = map SubMsg_new (map2 (\<lambda>d a. create_transfer_msg d (of_nat a) thief None) ds amounts),
               r_data = None\<rparr>)
     \<and> sum_list amounts = unat x"
proof -
  let ?info = "\<lparr>info_sender = thief, info_funds = []\<rparr>"
  have says: "router_says st ?info (F_IbcCallbackReceive packet) (HI_ReleaseEscrow c s x token thief tx)"
    using st router forged by (simp add: router_says_def)
  obtain r where "fac_reusable_internal_call (w_addr_validate w) st env (HI_ReleaseEscrow c s x token thief tx) = Inr (st, r)"
    and "payouts r = [(e, thief, x)]"
    using ok by (simp add: fac_reusable_internal_call_def release_Inr submsg_defs)
  moreover from this says have "fac_execute w st env ?info (F_IbcCallbackReceive packet) = Ok (st, r)"
    by (subst router_says_obeyed) blast+
  moreover have "es_factory_address estate = info_sender \<lparr>info_sender = contract_address env, info_funds = []\<rparr>"
    using esc(3) by simp
  from withdraw_paid [OF esc(1,2,4) this [symmetric] x esc(5), of thief] show ?thesis
    using calculation by blast
qed

theorem forged_packet_drains_escrow_witness:
  "\<exists>r est' amounts. fac_execute xf_world xf_fac xf_env \<lparr>info_sender = ''mallory'', info_funds = []\<rparr>
       (F_IbcCallbackReceive (xl_packet 80 ''mallory'')) = Ok (xf_fac, r)
     \<and> execute_withdraw (example_escrow 30 50) by_factory ''mallory'' 80
         = Ok (est', \<lparr>r_messages = map SubMsg_new (map2 (\<lambda>d a. create_transfer_msg d (of_nat a) ''mallory'' None)
               [Native ''uatom'', Native ''ibc/atom''] amounts), r_data = None\<rparr>)
     \<and> sum_list amounts = 80"
proof -
  have inv: "esc_inv (example_escrow 30 50)" by (rule example_escrow_inv) simp
  have holds: "unat (80 :: uint128) \<le> sum_list (balances (DENOM_TO_AMOUNT (example_escrow 30 50)) [Native ''uatom'', Native ''ibc/atom''])"
    unfolding xl_escrow(3) by simp
  have st: "F_STATE xf_fac = Some xf_state" "HUB_CHANNEL xf_fac = Some ''channel-7''"
    and router: "replace_empty ''wasm.'' ''wasm.router'' = fs_router_contract xf_state"
    by (simp_all add: xf_fac_def xl_router xf_state_def)
  have packet: "packet_src (xl_packet 80 ''mallory'') = \<lparr>port_id = ''wasm.router'', channel_id = ''channel-1''\<rparr>"
      "channel_id (packet_dest (xl_packet 80 ''mallory'')) = ''channel-7''"
      "packet_data (xl_packet 80 ''mallory'')
         = Json_HubIbc (HI_ReleaseEscrow (ChainUid ''osmosis'') xf_user 80 (Token ''atom'') ''mallory'' ''tx'')"
    by (simp_all add: xl_packet_def)
  have "(80 :: uint128) \<noteq> 0" and "es_factory_address \<lparr>es_token_id = Token ''atom'', es_factory_address = ''factory'',
      es_total_amount = 80\<rparr> = contract_address xf_env"
    by (simp_all add: xl_world)
  from forged_packet_drains_escrow [OF st this(1) router xl_world(1-3) inv xl_escrow(1) this(2) xl_escrow(2) holds packet]
  show ?thesis unfolding xl_world(4) by fastforce
qed

section \<open>The LP token of a new pool\<close>

lemma pool_request_stores:
  assumes "fac_execute_request_pool_creation vl ta st env info pair nm sy dec mk to = Inr (st1, r1)"
    and "F_STATE st = Some state"
    and "tx = snd (fac_generate_tx st env \<lparr>ccu_chain_uid = fs_chain_uid state, ccu_address = info_sender info\<rparr>)"
  shows "\<exists>p. get_pair pair = Inr p \<and> \<not> map_has (PAIR_TO_VLP st) (get_tupple p)
     \<and> map_may_load (PENDING_REQUESTS st1) (info_sender info, tx) = Some (PendingPool
         \<lparr>pcq_sender = info_sender info, pcq_tx_id = tx, pcq_pair_info = pair, pcq_lp_token_instantiate_msg =
            \<lparr>lpt_name = nm, lpt_symbol = sy, lpt_decimals = dec, lpt_initial_balances = [],
             lpt_mint = Some \<lparr>minter = contract_address env, cap = None\<rparr>, lpt_marketing = mk\<rparr>\<rparr>)"
proof -
  have keep: "PENDING_REQUESTS (fst q) = PENDING_REQUESTS st0" if "fac_to_msg st0 e m s c t = Inr q" for st0 e m s c t q
    using that by (auto simp: fac_to_msg_def bindR_eq_Inr)
  from assms(1) show ?thesis
    unfolding fac_execute_request_pool_creation_def Let_def split_beta bindR_eq_Inr ensure_eq_Inr fac_generate_tx_fst
      response_simps assms(2) item_load_eq_Inr option.inject map_has_def
    apply (elim exE conjE)
    apply (erule Inr_inject [THEN Pair_inject], hypsubst)
    apply (drule keep)
    apply (simp add: assms(3))
    done
qed


lemma ack_pool_ok:
  assumes run: "ack_pool_creation av st env sender (AckOk data) tx native = Inr (st', r)" and av: "av sender = Inr a"
    and pend: "map_may_load (PENDING_REQUESTS st) (a, tx) = Some (PendingPool req)" and pair: "get_pair (pcq_pair_info req) = Inr p"
  shows "\<exists>state ms. F_STATE st = Some state
     \<and> PAIR_TO_VLP st' = map_save (PAIR_TO_VLP st) (get_tupple p) (pcr_vlp_contract data)
     \<and> r_messages r = ms @ [reply_always (Wasm_Instantiate (Some (fs_admin state)) (fs_cw20_code_id state)
          (New_Cw20 \<lparr>cim_name = lpt_name (pcq_lp_token_instantiate_msg req), cim_symbol = lpt_symbol (pcq_lp_token_instantiate_msg req),
             cim_decimals = lpt_decimals (pcq_lp_token_instantiate_msg req), cim_initial_balances = [],
             cim_mint = lpt_mint (pcq_lp_token_instantiate_msg req),
             cim_marketing = lpt_marketing (pcq_lp_token_instantiate_msg req), cim_vlp = pcr_vlp_contract data,
             cim_factory = contract_address env, cim_token_pair = p\<rparr>) [] ''cw20'') CW20_INSTANTIATE_REPLY_ID]"
  using run by (auto simp: ack_pool_creation_def av pool_request_may_load_def pend pair Let_def bindR_eq_Inr item_load_eq_Inr)

text \<open>
  C23: the LP token of a new pool is the one that is found again. When the router reports the new pool, the factory
  instantiates an LP token with the name, symbol and decimals of the request, no starting balances, and itself as
  the only minter. Whatever the token library does, once the token contract is instantiated its answer makes the
  factory record its address for the pool, so that a later deposit mints, and a withdrawal is accepted, there.
\<close>

theorem lp_token_registered:
  fixes cw20_instantiate :: "'c \<Rightarrow> env \<Rightarrow> message_info \<Rightarrow> LpTokenInstantiateMsg \<Rightarrow> Cw20ContractError + 'c \<times> Response"
  assumes req: "fac_execute_request_pool_creation vl ta st env info pair nm sy dec mk to = Ok (st1, r1)"
    and state: "F_STATE st = Some state"
    and tx: "tx = snd (fac_generate_tx st env \<lparr>ccu_chain_uid = fs_chain_uid state, ccu_address = info_sender info\<rparr>)"
    and av: "av (info_sender info) = Ok (info_sender info)"
    and same: "map_may_load (PENDING_REQUESTS st2) (info_sender info, tx) = map_may_load (PENDING_REQUESTS st1) (info_sender info, tx)"
    and ack: "ack_pool_creation av st2 env (info_sender info) (AckOk data) tx native = Ok (st3, r)"
  shows "\<exists>p im admin code. get_pair pair = Ok p
     \<and> last (r_messages r) = reply_always (Wasm_Instantiate admin code (New_Cw20 im) [] ''cw20'') CW20_INSTANTIATE_REPLY_ID
     \<and> Cw20InstantiateMsg_from im = \<lparr>lpt_name = nm, lpt_symbol = sy, lpt_decimals = dec, lpt_initial_balances = [],
          lpt_mint = Some \<lparr>minter = contract_address env, cap = None\<rparr>, lpt_marketing = mk\<rparr>
     \<and> (\<forall>base lp_env lp_info lp lp_r.
          lp_instantiate cw20_instantiate base lp_env lp_info im = Ok (lp, lp_r)
          \<and> av (contract_address lp_env) = Ok (contract_address lp_env) \<longrightarrow>
          LP_STATE lp = Some \<lparr>lps_token_pair = p, lps_factory_address = contract_address env, lps_vlp = pcr_vlp_contract data\<rparr>
          \<and> (\<exists>st4 r4. fac_reply av st3 env \<lparr>reply_id = CW20_INSTANTIATE_REPLY_ID, reply_result =
                SubMsgOk (Some (Pb_Instantiate (contract_address lp_env) (r_data lp_r)))\<rparr> = Ok (st4, r4)
              \<and> get_vlp st4 p = Ok (pcr_vlp_contract data)
              \<and> get_lp_token_address st4 (pcr_vlp_contract data) = Ok (contract_address lp_env)))"
proof -
  from pool_request_stores [OF req state tx] same obtain p where p: "get_pair pair = Inr p"
    and pend: "map_may_load (PENDING_REQUESTS st2) (info_sender info, tx) = Some (PendingPool
         \<lparr>pcq_sender = info_sender info, pcq_tx_id = tx, pcq_pair_info = pair, pcq_lp_token_instantiate_msg =
            \<lparr>lpt_name = nm, lpt_symbol = sy, lpt_decimals = dec, lpt_initial_balances = [],
             lpt_mint = Some \<lparr>minter = contract_address env, cap = None\<rparr>, lpt_marketing = mk\<rparr>\<rparr>)" by auto
  define im where "im = \<lparr>cim_name = nm, cim_symbol = sy, cim_decimals = dec, cim_initial_balances = [],
             cim_mint = Some \<lparr>minter = contract_address env, cap = None\<rparr>, cim_marketing = mk, cim_vlp = pcr_vlp_contract data,
             cim_factory = contract_address env, cim_token_pair = p\<rparr>"
  from ack_pool_ok [OF ack av pend, unfolded PoolCreateRequest.select_convs LpTokenInstantiateMsg.select_convs, OF p,
      folded im_def] obtain ms and s :: fac_State where
      vlp: "PAIR_TO_VLP st3 = map_save (PAIR_TO_VLP st2) (get_tupple p) (pcr_vlp_contract data)"
    and msg: "r_messages r = ms @ [reply_always (Wasm_Instantiate (Some (fs_admin s)) (fs_cw20_code_id s) (New_Cw20 im) [] ''cw20'')
        CW20_INSTANTIATE_REPLY_ID]"
    by blast
  have found: "\<exists>st4 r4. fac_reply av st3 env \<lparr>reply_id = CW20_INSTANTIATE_REPLY_ID, reply_result =
                SubMsgOk (Some (Pb_Instantiate a (Some (Json_Cw20Instantiate
                  \<lparr>cir_pair = q, cir_address = b, cir_vlp = pcr_vlp_contract data\<rparr>))))\<rparr> = Ok (st4, r4)
              \<and> get_vlp st4 p = Ok (pcr_vlp_contract data) \<and> get_lp_token_address st4 (pcr_vlp_contract data) = Ok a"
    if "av a = Ok a" for a q b
    using that by (simp add: fac_reply_def CHAIN_IBC_EXECUTE_MSG_QUEUE_RANGE_def fac_reply_ids on_cw20_instantiate_reply_def
        parse_reply_instantiate_data_def lift_err_def get_vlp_def get_lp_token_address_def map_load_def vlp
        from_json_cw20_instantiate_def)
  have "Cw20InstantiateMsg_from im = \<lparr>lpt_name = nm, lpt_symbol = sy, lpt_decimals = dec, lpt_initial_balances = [],
          lpt_mint = Some \<lparr>minter = contract_address env, cap = None\<rparr>, lpt_marketing = mk\<rparr>"
    by (simp add: im_def Cw20InstantiateMsg_from_def)
  with p msg found show ?thesis
    by (intro exI [of _ p] exI [of _ im] exI [of _ "Some (fs_admin s)"] exI [of _ "fs_cw20_code_id s"])
       (auto simp: lp_instantiate_Inr im_def)
qed


abbreviation xl_request :: fac_result where
  "xl_request \<equiv> fac_execute_request_pool_creation (\<lambda>_. Ok ()) (\<lambda>_ _. Ok True) (xf_fac\<lparr>PAIR_TO_VLP := []\<rparr>) xf_env (xf_pays 0)
     xf_pair ''LP'' ''LP'' 6 None None"

definition xl_tx :: string where
  "xl_tx = snd (fac_generate_tx (xf_fac\<lparr>PAIR_TO_VLP := []\<rparr>) xf_env xf_user)"

lemma xl_request_ok: "\<exists>st r. xl_request = Ok (st, r) \<and> F_STATE st = Some xf_state"
  unfolding fac_execute_request_pool_creation_def xf_get_pair
  by (simp add: xf_pair_def xf_defs Let_def split_beta fac_generate_tx_def map_has_def get_timeout_def map_load_def
      map_may_load_def fac_to_msg_def ChainIbc_to_msg_def get_vec_token_info_def)

theorem lp_token_registered_witness:
  "\<exists>st1 r1 st3 r st4 r4 lp lp_r p im. xl_request = Ok (st1, r1)
     \<and> ack_pool_creation Ok st1 xf_env ''alice'' (AckOk \<lparr>pcr_vlp_contract = ''vlp''\<rparr>) xl_tx False = Ok (st3, r)
     \<and> lp_instantiate (\<lambda>base _ _ _. Inr (base, Response_new)) () (xf_env\<lparr>contract_address := ''lp''\<rparr>) (xf_pays 0) im = Ok (lp, lp_r)
     \<and> fac_reply Ok st3 xf_env \<lparr>reply_id = CW20_INSTANTIATE_REPLY_ID,
          reply_result = SubMsgOk (Some (Pb_Instantiate ''lp'' (r_data lp_r)))\<rparr> = Ok (st4, r4)
     \<and> get_vlp st4 p = Ok ''vlp'' \<and> get_lp_token_address st4 ''vlp'' = Ok ''lp''"
proof -
  let ?info = "xf_pays 0" and ?st = "xf_fac\<lparr>PAIR_TO_VLP := []\<rparr>"
  have alice: "info_sender ?info = ''alice''" and state: "F_STATE ?st = Some xf_state"
    and tx: "xl_tx = snd (fac_generate_tx ?st xf_env \<lparr>ccu_chain_uid = fs_chain_uid xf_state, ccu_address = info_sender ?info\<rparr>)"
    by (simp_all add: xf_defs xl_tx_def)
  obtain st1 r1 where ok: "xl_request = Ok (st1, r1)" and st1: "F_STATE st1 = Some xf_state" using xl_request_ok by blast
  obtain req where pend: "map_may_load (PENDING_REQUESTS st1) (''alice'', xl_tx) = Some (PendingPool req)"
    and req: "pcq_pair_info req = xf_pair"
    using pool_request_stores [OF ok state tx] by (auto simp: alice)
  have "\<exists>st3 r. ack_pool_creation Ok st1 xf_env (info_sender ?info) (AckOk \<lparr>pcr_vlp_contract = ''vlp''\<rparr>) xl_tx False = Ok (st3, r)"
    by (simp add: ack_pool_creation_def pool_request_may_load_def pend alice req xf_get_pair st1 Let_def)
  then obtain st3 r where
    ack: "ack_pool_creation Ok st1 xf_env (info_sender ?info) (AckOk \<lparr>pcr_vlp_contract = ''vlp''\<rparr>) xl_tx False = Ok (st3, r)" by blast
  from lp_token_registered [OF ok state tx refl refl ack, of "\<lambda>(base :: unit) _ _ _. Inr (base, Response_new)"] obtain p im where
    lp: "\<And>(base :: unit) lp_env lp_info lp lp_r.
          lp_instantiate (\<lambda>base _ _ _. Inr (base, Response_new)) base lp_env lp_info im = Ok (lp, lp_r) \<Longrightarrow>
          \<exists>st4 r4. fac_reply Ok st3 xf_env \<lparr>reply_id = CW20_INSTANTIATE_REPLY_ID, reply_result =
                SubMsgOk (Some (Pb_Instantiate (contract_address lp_env) (r_data lp_r)))\<rparr> = Ok (st4, r4)
              \<and> get_vlp st4 p = Ok ''vlp'' \<and> get_lp_token_address st4 ''vlp'' = Ok (contract_address lp_env)"
    unfolding PoolCreationResponse.select_convs by blast
  obtain lp' lp_r where inst: "lp_instantiate (\<lambda>base _ _ _. Inr (base, Response_new)) () (xf_env\<lparr>contract_address := ''lp''\<rparr>) (xf_pays 0) im
      = Ok (lp', lp_r)" by (simp add: lp_instantiate_def Let_def)
  have "contract_address (xf_env\<lparr>contract_address := ''lp''\<rparr>) = ''lp''" by simp
  from lp [OF inst, unfolded this] ok ack [unfolded alice] inst show ?thesis by blast
qed

end
