(* ===== verification/Events.thy ===== *)
theory Events
  imports Euclid_Types
begin

text \<open>
  The events, \<^verbatim>\<open>packages/euclid/src/events.rs\<close>, as a type and a list of attributes. Indexers read them; no contract
  does, so the responses of the other theories carry none. The debug rendering of a route and of a time, which the
  swap event contains, is derived by the compiler and an argument here.
\<close>

record event =
  ev_type :: string
  ev_attributes :: "(string \<times> string) list"

definition add_attribute :: "string \<Rightarrow> string \<Rightarrow> event \<Rightarrow> event" where
  "add_attribute k v e = e\<lparr>ev_attributes := ev_attributes e @ [(k, v)]\<rparr>"

definition simple_event :: event where
  "simple_event = add_attribute ''version'' ''1.0.0'' \<lparr>ev_type = ''euclid'', ev_attributes = []\<rparr>"

definition liquidity_event :: "Pool \<Rightarrow> string \<Rightarrow> event" where
  "liquidity_event pool tx_id =
     add_attribute ''tx_id'' tx_id
    (add_attribute ''token_2_liquidity'' (show_nat (unat (pool_reserve_2 pool)))
    (add_attribute ''token_2_id'' (token_id (pair_token_2 (pool_pair pool)))
    (add_attribute ''token_1_liquidity'' (show_nat (unat (pool_reserve_1 pool)))
    (add_attribute ''token_1_id'' (token_id (pair_token_1 (pool_pair pool)))
    (add_attribute ''action'' ''liquidity_change'' simple_event)))))"

definition swap_event :: "(NextSwapPair list \<Rightarrow> string) \<Rightarrow> (nat \<Rightarrow> string) \<Rightarrow> string \<Rightarrow> SwapRequest \<Rightarrow> event" where
  "swap_event debug_swaps debug_timeout tx_id swap =
     add_attribute ''timeout'' (debug_timeout (sr_timeout swap))
    (add_attribute ''swaps'' (debug_swaps (sr_swaps swap))
    (add_attribute ''min_amount_out'' (show_nat (unat (sr_min_amount_out swap)))
    (add_attribute ''amount_in'' (show_nat (unat (sr_amount_in swap)))
    (add_attribute ''asset_out'' (token_id (sr_asset_out swap))
    (add_attribute ''asset_in_denom'' (get_key (twd_token_type (sr_asset_in swap)))
    (add_attribute ''asset_in'' (token_id (twd_token (sr_asset_in swap)))
    (add_attribute ''tx_id'' tx_id
    (add_attribute ''action'' ''swap'' simple_event))))))))"

definition register_factory_event :: "string \<Rightarrow> string \<Rightarrow> string \<Rightarrow> string \<Rightarrow> event" where
  "register_factory_event tx_id factory_address channel router =
     add_attribute ''tx_id'' tx_id
    (add_attribute ''router'' router
    (add_attribute ''channel'' channel
    (add_attribute ''factory_address'' factory_address
    (add_attribute ''action'' ''register_factory'' simple_event))))"

datatype TxType =
    Tx_Swap
  | Tx_AddLiquidity
  | Tx_RemoveLiquidity
  | Tx_PoolCreation
  | Tx_EscrowCreation
  | Tx_EscrowRelease
  | Tx_EscrowWithdraw
  | Tx_RegisterFactory
  | Tx_UpdateFactoryChannel
  | Tx_WithdrawVirtualBalance
  | Tx_WithdrawVoucher

fun TxType_fmt :: "TxType \<Rightarrow> string" where
  "TxType_fmt Tx_Swap = ''swap''"
| "TxType_fmt Tx_AddLiquidity = ''add_liquidity''"
| "TxType_fmt Tx_RemoveLiquidity = ''remove_liquidity''"
| "TxType_fmt Tx_PoolCreation = ''pool_creation''"
| "TxType_fmt Tx_EscrowCreation = ''escrow_creation''"
| "TxType_fmt Tx_EscrowRelease = ''escrow_release''"
| "TxType_fmt Tx_EscrowWithdraw = ''escrow_withdraw''"
| "TxType_fmt Tx_RegisterFactory = ''register_factory''"
| "TxType_fmt Tx_UpdateFactoryChannel = ''update_factory_channel''"
| "TxType_fmt Tx_WithdrawVirtualBalance = ''withdraw_virtual_balance''"
| "TxType_fmt Tx_WithdrawVoucher = ''withdraw_voucher''"

text \<open>The derived debug rendering: the name of the variant.\<close>

fun TxType_debug :: "TxType \<Rightarrow> string" where
  "TxType_debug Tx_Swap = ''Swap''"
| "TxType_debug Tx_AddLiquidity = ''AddLiquidity''"
| "TxType_debug Tx_RemoveLiquidity = ''RemoveLiquidity''"
| "TxType_debug Tx_PoolCreation = ''PoolCreation''"
| "TxType_debug Tx_EscrowCreation = ''EscrowCreation''"
| "TxType_debug Tx_EscrowRelease = ''EscrowRelease''"
| "TxType_debug Tx_EscrowWithdraw = ''EscrowWithdraw''"
| "TxType_debug Tx_RegisterFactory = ''RegisterFactory''"
| "TxType_debug Tx_UpdateFactoryChannel = ''UpdateFactoryChannel''"
| "TxType_debug Tx_WithdrawVirtualBalance = ''WithdrawVirtualBalance''"
| "TxType_debug Tx_WithdrawVoucher = ''WithdrawVoucher''"

definition tx_event :: "string \<Rightarrow> string \<Rightarrow> TxType \<Rightarrow> event" where
  "tx_event tx_id sender tx_type =
     (let tx_type = (case tx_type of Tx_AddLiquidity \<Rightarrow> ''add_liquidity'' | t \<Rightarrow> TxType_debug t) in
      add_attribute ''type'' tx_type
     (add_attribute ''sender'' sender
     (add_attribute ''tx_id'' tx_id
     (add_attribute ''action'' ''transaction'' simple_event))))"

section \<open>What events say\<close>

lemmas event_simps = add_attribute_def simple_event_def

definition event_type :: "event \<Rightarrow> string option" where
  "event_type e = map_of (ev_attributes e) ''type''"

text \<open>An event of a transaction tells the transaction, its sender and its type apart from all others.\<close>

lemma tx_event_inject: "tx_event tx s t = tx_event tx' s' t' \<longleftrightarrow> tx = tx' \<and> s = s' \<and> t = t'"
  by (cases t; cases t') (auto simp: tx_event_def event_simps Let_def)

text \<open>
  The name under which a type is displayed is not the one in the events: only deposits appear in events under their
  display name, every other type under the name of its variant.
\<close>

lemma tx_event_type: "event_type (tx_event tx s t) = Some (TxType_fmt t) \<longleftrightarrow> t = Tx_AddLiquidity"
  by (cases t) (simp_all add: event_type_def tx_event_def event_simps Let_def)

text \<open>The events of the contracts are told apart by their action.\<close>

lemma event_actions:
  "map_of (ev_attributes (tx_event tx s t)) ''action'' = Some ''transaction''"
  "map_of (ev_attributes (liquidity_event p tx)) ''action'' = Some ''liquidity_change''"
  "map_of (ev_attributes (swap_event f g tx r)) ''action'' = Some ''swap''"
  "map_of (ev_attributes (register_factory_event tx a c ro)) ''action'' = Some ''register_factory''"
  by (simp_all add: tx_event_def liquidity_event_def swap_event_def register_factory_event_def event_simps Let_def)

end
