(* ===== verification/Storage_Keys.thy ===== *)
theory Storage_Keys
  imports Euclid_Types
begin

text \<open>
  Storage keys. The shared types \<open>Token\<close>, \<open>ChainUid\<close> and \<open>Pair\<close> say how they are written as keys of a storage map and how
  they are read back (\<^verbatim>\<open>PrimaryKey\<close> and \<^verbatim>\<open>KeyDeserialize\<close> in \<^verbatim>\<open>packages/euclid/src/token.rs\<close> and \<^verbatim>\<open>chain.rs\<close>). The layout in
  which the storage library joins the parts of a key is the locale \<open>joined_keys\<close>; what a map expects of a key type is
  \<open>map_key\<close>: the key that was written is read back, hence different values have different slots, which is why a storage
  map is modelled as a map from values. All three types satisfy it.
\<close>

section \<open>Reading strings\<close>

text \<open>
  \<open>String::from_utf8\<close>: the width of a character by its first byte, the admissible second bytes, and for a sequence that is
  not a string the index of the first bad character and the number of its bytes, or none if the input ends within it.
\<close>

definition utf8_char_width :: "nat \<Rightarrow> nat" where
  "utf8_char_width b = (if b < 0x80 then 1 else if b < 0xC2 then 0 else if b < 0xE0 then 2 else if b < 0xF0 then 3
     else if b < 0xF5 then 4 else 0)"

definition is_continuation :: "nat \<Rightarrow> bool" where
  "is_continuation b = (0x80 \<le> b \<and> b < 0xC0)"

definition utf8_second :: "nat \<Rightarrow> nat \<Rightarrow> bool" where
  "utf8_second b c = (is_continuation c \<and> (b = 0xE0 \<longrightarrow> 0xA0 \<le> c) \<and> (b = 0xED \<longrightarrow> c < 0xA0)
     \<and> (b = 0xF0 \<longrightarrow> 0x90 \<le> c) \<and> (b = 0xF4 \<longrightarrow> c < 0x90))"

fun utf8_rest :: "nat \<Rightarrow> nat \<Rightarrow> bytes \<Rightarrow> nat option + nat" where
  "utf8_rest seen 0 cs = Inr seen"
| "utf8_rest seen (Suc k) [] = Inl None"
| "utf8_rest seen (Suc k) (c # cs) = (if is_continuation (of_char c) then utf8_rest (Suc seen) k cs else Inl (Some seen))"

definition utf8_char :: "char \<Rightarrow> bytes \<Rightarrow> nat option + nat" where
  "utf8_char c cs =
     (let b = of_char c; w = utf8_char_width b in
      if w = 0 then Inl (Some 1)
      else if w = 1 then Inr 1
      else (case cs of [] \<Rightarrow> Inl None
            | d # ds \<Rightarrow> if utf8_second b (of_char d) then utf8_rest 2 (w - 2) ds else Inl (Some 1)))"

function utf8_error :: "nat \<Rightarrow> bytes \<Rightarrow> (nat \<times> nat option) option" where
  "utf8_error i [] = None"
| "utf8_error i (c # cs) = (case utf8_char c cs of Inl e \<Rightarrow> Some (i, e) | Inr w \<Rightarrow> utf8_error (i + w) (drop (w - 1) cs))"
  by pat_completeness auto
termination by (relation "measure (\<lambda>(i, b). length b)") auto

abbreviation is_utf8 :: "bytes \<Rightarrow> bool" where
  "is_utf8 b \<equiv> utf8_error 0 b = None"

definition show_utf8_error :: "nat \<times> nat option \<Rightarrow> string" where
  "show_utf8_error e =
     (case e of
        (i, Some n) \<Rightarrow> ''invalid utf-8 sequence of '' @ show_nat n @ '' bytes from index '' @ show_nat i
      | (i, None) \<Rightarrow> ''incomplete utf-8 byte sequence from index '' @ show_nat i)"

definition read_utf8 :: "bytes \<Rightarrow> string result" where
  "read_utf8 b =
     (case utf8_error 0 b of
        None \<Rightarrow> Ok b
      | Some e \<Rightarrow> Err (Std (GenericErr (''Invalid UTF-8 sequence: '' @ show_utf8_error e))))"

section \<open>Writing and reading keys\<close>

definition be_bytes16 :: "nat \<Rightarrow> bytes" where
  "be_bytes16 n = [char_of (n div 256), char_of (n mod 256)]"

definition Token_key :: "Token \<Rightarrow> bytes list" where
  "Token_key t = [token_id t]"

definition Token_from_vec :: "bytes \<Rightarrow> Token result" where
  "Token_from_vec b = bindR (read_utf8 b) (\<lambda>s. Ok (Token s))"

text \<open>The text of a validation error is an argument, \<open>text_of\<close>.\<close>

definition ChainUid_key :: "ChainUid \<Rightarrow> bytes list" where
  "ChainUid_key u = [uid_str u]"

definition ChainUid_from_vec :: "(ContractError \<Rightarrow> string) \<Rightarrow> bytes \<Rightarrow> ChainUid result" where
  "ChainUid_from_vec text_of b =
     bindR (read_utf8 b) (\<lambda>s.
     (case ChainUid_create s of
        Inl (Raised e) \<Rightarrow> Err (Std (GenericErr (text_of e)))
      | r \<Rightarrow> r))"

text \<open>
  \<open>joined_key\<close> is the key layout of the storage library: \<open>jk\<close>. The \<open>assert!\<close> of \<open>key\<close> panics on a
  token id longer than 65535 bytes.
\<close>

definition Pair_key :: "(bytes list \<Rightarrow> bytes) \<Rightarrow> Pair \<Rightarrow> bytes list result" where
  "Pair_key jk p =
     (let size = length (jk (Token_key (pair_token_1 p))) in
      if size \<le> 65535
      then Ok (be_bytes16 size # Token_key (pair_token_1 p) @ Token_key (pair_token_2 p))
      else panic ''Key size exceeds u8 limit'')"

definition parse_length :: "bytes \<Rightarrow> nat result" where
  "parse_length b =
     (case b of [h, l] \<Rightarrow> Ok (256 * of_char h + of_char l)
      | _ \<Rightarrow> Err (Std (GenericErr ''Could not read 2 byte length'')))"

text \<open>\<open>v.split_off(n)\<close> leaves the first \<open>n\<close> bytes and returns the rest; it panics beyond the end.\<close>

definition split_off :: "bytes \<Rightarrow> nat \<Rightarrow> (bytes \<times> bytes) result" where
  "split_off b n =
     (if n \<le> length b then Ok (take n b, drop n b) else panic ''`at` split index out of bounds'')"

definition Pair_from_vec :: "bytes \<Rightarrow> Pair result" where
  "Pair_from_vec v =
     bindR (split_off v 2) (\<lambda>(value, values).
     bindR (parse_length value) (\<lambda>size_bytes_len.
     bindR (split_off values size_bytes_len) (\<lambda>(values, token_1_key_bytes).
     bindR (parse_length values) (\<lambda>token_1_key_len.
     bindR (split_off token_1_key_bytes (token_1_key_len + 2)) (\<lambda>(token_1_key_bytes, token_2_key_bytes).
     bindR (Token_from_vec (drop 2 token_1_key_bytes)) (\<lambda>token_1.
     bindR (Token_from_vec token_2_key_bytes) (\<lambda>token_2.
     Ok \<lparr>pair_token_1 = token_1, pair_token_2 = token_2\<rparr>)))))))"

section \<open>The layout of joined keys\<close>

text \<open>
  The storage library puts the length of every part but the last before it, in two bytes.
\<close>

locale joined_keys =
  fixes jk :: "bytes list \<Rightarrow> bytes"
  assumes jk_last: "jk [k] = k"
    and jk_part: "ks \<noteq> [] \<Longrightarrow> length k \<le> 65535 \<Longrightarrow> jk (k # ks) = be_bytes16 (length k) @ k @ jk ks"

text \<open>What a storage map expects of a key type, for the keys \<open>ok\<close>.\<close>

locale map_key = joined_keys jk for jk +
  fixes key :: "'k \<Rightarrow> bytes list result" and from_vec :: "bytes \<Rightarrow> 'k result" and ok :: "'k \<Rightarrow> bool"
  assumes read_back: "ok k \<Longrightarrow> key k = Inr ks \<Longrightarrow> from_vec (jk ks) = Inr k"
begin

lemma slots_distinct: "ok k \<Longrightarrow> ok k' \<Longrightarrow> key k = Inr ks \<Longrightarrow> key k' = Inr ks' \<Longrightarrow> jk ks = jk ks' \<Longrightarrow> k = k'"
  using read_back [of k ks] read_back [of k' ks'] by simp

end

fun std_joined_key :: "bytes list \<Rightarrow> bytes" where
  "std_joined_key [] = []"
| "std_joined_key [k] = k"
| "std_joined_key (k # ks) = be_bytes16 (length k) @ k @ std_joined_key ks"

interpretation std_keys: joined_keys std_joined_key
proof
  show "std_joined_key (k # ks) = be_bytes16 (length k) @ k @ std_joined_key ks" if "ks \<noteq> []" for k ks
    using that by (cases ks) simp_all
qed simp

section \<open>The key types\<close>

lemma parse_be_bytes16 [simp]: "n \<le> 65535 \<Longrightarrow> parse_length (be_bytes16 n) = Ok n"
  by (simp add: parse_length_def be_bytes16_def)

lemma length_be_bytes16 [simp]: "length (be_bytes16 n) = 2"
  by (simp add: be_bytes16_def)

lemma split_off_append [simp]: "length a = n \<Longrightarrow> split_off (a @ b) n = Ok (a, b)"
  by (auto simp: split_off_def)

lemma split_off_append2 [simp]: "length a + length b = n \<Longrightarrow> split_off (a @ b @ c) n = Ok (a @ b, c)"
  using split_off_append [of "a @ b" n c] by simp

lemma read_utf8_ok [simp]: "is_utf8 b \<Longrightarrow> read_utf8 b = Ok b"
  by (simp add: read_utf8_def)

lemma ascii_is_utf8: "(\<And>c. c \<in> set b \<Longrightarrow> (of_char c :: nat) < 0x80) \<Longrightarrow> utf8_error i b = None"
proof (induction b arbitrary: i)
  case (Cons c cs)
  then have "utf8_char c cs = Inr 1" by (simp add: utf8_char_def utf8_char_width_def)
  with Cons show ?case by simp
qed simp

lemma valid_uid_is_utf8: "is_ok (ChainUid_validate u) \<Longrightarrow> is_utf8 (uid_str u)"
  by (rule ascii_is_utf8)
     (auto simp: ChainUid_validate_def ensure_def ascii_defs is_ok_def split: if_splits)

lemma valid_uid: "is_ok (ChainUid_validate u) \<Longrightarrow> ChainUid_validate u = Ok u"
  by (auto simp: ChainUid_validate_def ensure_def is_ok_def split: if_splits)

sublocale joined_keys \<subseteq> token_key: map_key jk "\<lambda>t. Ok (Token_key t)" Token_from_vec "\<lambda>t. is_utf8 (token_id t)"
  by standard (auto simp: Token_key_def jk_last Token_from_vec_def)

sublocale joined_keys \<subseteq> chain_key: map_key jk "\<lambda>u. Ok (ChainUid_key u)" "ChainUid_from_vec text_of" "\<lambda>u. is_ok (ChainUid_validate u)"
  for text_of
  by standard (auto simp: ChainUid_key_def jk_last ChainUid_from_vec_def ChainUid_create_def valid_uid_is_utf8 valid_uid)

sublocale joined_keys \<subseteq> pair_key: map_key jk "Pair_key jk" Pair_from_vec
  "\<lambda>p. is_utf8 (token_id (pair_token_1 p)) \<and> is_utf8 (token_id (pair_token_2 p))"
  by standard (auto simp: Pair_key_def Pair_from_vec_def Token_key_def Token_from_vec_def jk_last jk_part Let_def split: if_splits)

text \<open>Hence different tokens, chains and pairs are never stored in the same slot.\<close>

context joined_keys
begin

lemma token_slots: "is_utf8 (token_id t) \<Longrightarrow> is_utf8 (token_id t') \<Longrightarrow> jk (Token_key t) = jk (Token_key t') \<Longrightarrow> t = t'"
  using token_key.slots_distinct by blast

lemma chain_slots:
  "is_ok (ChainUid_validate u) \<Longrightarrow> is_ok (ChainUid_validate u') \<Longrightarrow> jk (ChainUid_key u) = jk (ChainUid_key u') \<Longrightarrow> u = u'"
  using chain_key.slots_distinct by blast

lemma pair_written: "\<exists>ks. Pair_key jk p = Inr ks" if "length (token_id (pair_token_1 p)) \<le> 65535"
  using that by (simp add: Pair_key_def Token_key_def jk_last)

lemmas pair_read_back = pair_key.read_back
lemmas pair_slots = pair_key.slots_distinct

end

text \<open>
  C22: A pair that is written as a storage key is read back, and no other pair has its slot: if the first token id has at most
  65535 bytes the key can be written, reading the bytes that the storage library makes of it returns the pair, and a pair of
  strings with the same bytes is this pair. A longer token id makes writing panic.
\<close>

theorem pair_key_roundtrip:
  assumes "joined_keys jk" and "is_utf8 (token_id (pair_token_1 p))" and "is_utf8 (token_id (pair_token_2 p))"
  shows "if length (token_id (pair_token_1 p)) \<le> 65535
     then \<exists>ks. Pair_key jk p = Ok ks \<and> Pair_from_vec (jk ks) = Ok p
       \<and> (\<forall>q ks'. is_utf8 (token_id (pair_token_1 q)) \<longrightarrow> is_utf8 (token_id (pair_token_2 q)) \<longrightarrow> Pair_key jk q = Ok ks' \<longrightarrow> jk ks' = jk ks
            \<longrightarrow> q = p)
     else Pair_key jk p = panic ''Key size exceeds u8 limit''"
proof (cases "length (token_id (pair_token_1 p)) \<le> 65535")
  case True
  then obtain ks where ks: "Pair_key jk p = Ok ks" using joined_keys.pair_written [OF assms(1)] by blast
  moreover have "Pair_from_vec (jk ks) = Ok p" using joined_keys.pair_read_back [OF assms(1) _ ks] assms(2,3) by simp
  ultimately show ?thesis using True assms(2,3) joined_keys.pair_slots [OF assms(1)] by (metis (no_types, lifting))
next
  case False
  then show ?thesis by (simp add: Pair_key_def Token_key_def joined_keys.jk_last [OF assms(1)])
qed

text \<open>The pair of the repository's own test.\<close>

definition ex_key_pair :: Pair where
  "ex_key_pair = \<lparr>pair_token_1 = Token ''token_1123'', pair_token_2 = Token ''token_2''\<rparr>"

theorem pair_key_roundtrip_witness:
  "\<exists>ks. Pair_key std_joined_key ex_key_pair = Ok ks \<and> Pair_from_vec (std_joined_key ks) = Ok ex_key_pair"
proof -
  have "is_utf8 (token_id (pair_token_1 ex_key_pair))" "is_utf8 (token_id (pair_token_2 ex_key_pair))"
    by (simp_all add: ex_key_pair_def utf8_char_def utf8_char_width_def)
  from pair_key_roundtrip [OF std_keys.joined_keys_axioms this] show ?thesis
    by (auto simp: ex_key_pair_def)
qed

end
