(* ===== verification/Spec2Isabelle.thy ===== *)
theory Spec2Isabelle
  imports Cross_Chain Hub_Cover Router_Releases Liquidity_Chain Events Storage_Keys
begin

text \<open>
  \<^bold>\<open>Verification of the Euclid core contracts.\<close>

  \<^bold>\<open>The system.\<close> Euclid pools the liquidity of many chains. On every liquidity chain a \<^emph>\<open>factory\<close> takes the requests of
  users and holds their funds while a request is pending, one \<^emph>\<open>escrow\<close> per token keeps the deposited funds, and one
  \<^emph>\<open>LP token\<close> per pool stands for the shares. On the hub the \<^emph>\<open>router\<close> receives the requests of the factories, keeps
  a record of how much of each token every chain holds in escrow, and routes to the \<^emph>\<open>virtual liquidity pools\<close>, which
  trade virtual balances that the \<^emph>\<open>virtual balance\<close> contract keeps as a ledger. Router and factories talk by IBC
  packets, acknowledgements and time-outs, or, for a factory on the hub's own chain, by direct calls whose replies
  play the part of acknowledgements.

  \<^bold>\<open>Theories and sources\<close> (paths under \<^verbatim>\<open>src/\<close>):

  \<^item> \<^verbatim>\<open>Contract_Error\<close>: the errors, \<^verbatim>\<open>packages/euclid/src/error.rs\<close>.
  \<^item> \<^verbatim>\<open>Prelude\<close>: results and their sequencing (\<open>bindR\<close>, \<open>ensure\<close>), checked arithmetic on 128-bit words, storage items
    and maps as association lists, sums over maps, the \<open>greedy\<close> distribution, decimal numerals.
  \<^item> \<^verbatim>\<open>Platform\<close>: what the contracts use of the platform: coins, environment, sender, and its decimal arithmetic as a
    record \<open>cw_math\<close> with its documented laws (locale \<open>cosmwasm_math\<close>) and an instance \<open>std_math\<close>.
  \<^item> \<^verbatim>\<open>Euclid_Types\<close>: chains, users, tokens, pairs, fees, pools, swaps, time-outs, transaction ids with their
    validation, \<^verbatim>\<open>packages/euclid/src\<close>.
  \<^item> \<^verbatim>\<open>Storage_Keys\<close>: tokens, chain ids and pairs as keys of storage maps, \<^verbatim>\<open>token.rs\<close> and \<^verbatim>\<open>chain.rs\<close> of \<^verbatim>\<open>packages/euclid/src\<close>.
  \<^item> \<^verbatim>\<open>Messages\<close>: the messages of all contracts, packets, acknowledgements, replies, sub-messages and the queue of
    native calls, \<^verbatim>\<open>packages/euclid/src/msgs\<close> and \<^verbatim>\<open>packages/euclid_ibc/src\<close>.
  \<^item> \<^verbatim>\<open>Virtual_Balance\<close>: \<^verbatim>\<open>contracts/hub/virtual_balance\<close>.
  \<^item> \<^verbatim>\<open>Vlp\<close>, \<^verbatim>\<open>Vlp_Correct\<close>: \<^verbatim>\<open>contracts/hub/vlp\<close> and its properties.
  \<^item> \<^verbatim>\<open>Ibc_Channel\<close>: the channel handshakes of router and factory, \<^verbatim>\<open>ibc/channel.rs\<close> of both.
  \<^item> \<^verbatim>\<open>Router\<close>, \<^verbatim>\<open>Router_Correct\<close>, \<^verbatim>\<open>Router_Properties\<close>: \<^verbatim>\<open>contracts/hub/router\<close>, lemmas and properties.
  \<^item> \<^verbatim>\<open>Router_Escrow\<close>: the escrow record of the router, chain by chain, over any history.
  \<^item> \<^verbatim>\<open>Router_Releases\<close>: releases that fail, and the answers that undo them.
  \<^item> \<^verbatim>\<open>Hub\<close>: the contract between router and ledger, and pools and ledger.
  \<^item> \<^verbatim>\<open>Hub_Exec\<close>: the hub as a whole. Router, ledger and pools are one state, and the platform's documented semantics of
    messages, sub-messages, replies and roll-back runs their entry points (\<open>exec\<close>, \<open>handle\<close>).
  \<^item> \<^verbatim>\<open>Hub_Ledger\<close>: transactions from outside (\<open>run_tx\<close>), the states they reach (\<open>live\<close>) and the books of the hub.
  \<^item> \<^verbatim>\<open>Hub_Registry\<close>: the register of pools and the pools agree in every state of the hub.
  \<^item> \<^verbatim>\<open>Hub_Reserves\<close>, \<^verbatim>\<open>Hub_Cover\<close>: the reserves of the pools against their accounts on the ledger, message by message
    and over whole transactions.
  \<^item> \<^verbatim>\<open>Hub_Routes\<close>, \<^verbatim>\<open>Hub_Packets\<close>: swaps over several pools, and packets from receipt to acknowledgement.
  \<^item> \<^verbatim>\<open>Hub_Queries\<close>, \<^verbatim>\<open>Chain_Queries\<close>: the query entry points of the contracts on the hub and on a liquidity chain.
  \<^item> \<^verbatim>\<open>Hub_Properties\<close>: the properties of the hub as a whole.
  \<^item> \<^verbatim>\<open>Escrow\<close>: \<^verbatim>\<open>contracts/liquidity/escrow\<close>.
  \<^item> \<^verbatim>\<open>Requests\<close>: pending requests, as a locale \<open>request_store\<close>.
  \<^item> \<^verbatim>\<open>Factory\<close>, \<^verbatim>\<open>Factory_Correct\<close>, \<^verbatim>\<open>Factory_Properties\<close>: \<^verbatim>\<open>contracts/liquidity/factory\<close>, lemmas and properties.
  \<^item> \<^verbatim>\<open>Factory_Types\<close>: what every reachable storage of the factory satisfies, and the refunds it owes.
  \<^item> \<^verbatim>\<open>Lp_Token\<close>: \<^verbatim>\<open>contracts/liquidity/cw20\<close>, with the token library as argument.
  \<^item> \<^verbatim>\<open>Liquidity_Chain\<close>: factory, escrow and LP token together; \<^verbatim>\<open>Settlement\<close>: funds on their way from factory to escrow.
  \<^item> \<^verbatim>\<open>Cross_Chain\<close>: a factory and the hub together, from a request to the escrow.
  \<^item> \<^verbatim>\<open>Events\<close>: \<^verbatim>\<open>packages/euclid/src/events.rs\<close>.

  \<^bold>\<open>How the code is modelled.\<close> The storage of a contract is a record with one field per \<^verbatim>\<open>Item\<close> (an option) or
  \<^verbatim>\<open>Map\<close> (an association list). A handler takes the storage, the environment, the sender and the message and returns
  the new storage and the response, or an error; an error rolls everything back, as the platform does. A response is
  the list of sub-messages and the data; events are modelled on their own and not attached to responses. Amounts are 128-bit words and every
  addition, subtraction and division is the checked or panicking one of the source. JSON payloads are values of a data
  type, and reading one of the wrong kind is a parse error. What a handler asks of another contract or of the platform
  (balances, supplies, address validation, decimal arithmetic, the token library) is an argument, with its documented
  behaviour as hypotheses where a theorem needs them.

  \<^bold>\<open>What is shown.\<close>

  \<^item> The hub as a whole. In every state that transactions reach, with all their messages, replies, failures and calls back:
    the virtual supply of a token is the recorded escrow and what self-transfers created
    (\<open>Hub_Properties.hub_supply_accounted\<close>); a registered pool serves its pair and belongs to the hub
    (\<open>registered_pool_belongs\<close>); its reserves are covered by its virtual balances unless the router burned from the
    pool's account (\<open>Hub_Cover.pool_reserves_covered\<close>), which a forged registration makes it do
    (\<open>forged_registration_speaks_for_pools\<close>). A transaction ends if no contract outside calls the router or a pool back
    (\<open>hub_transaction_ends\<close>). Whenever the receipt of a packet has an outcome, calls back included, it is an acknowledgement that
    tells what happened, for a new pool under the condition that the router's pool code is that of the pools
    (\<open>packet_answered\<close>). A swap pays what trading along its route gives, and on a route that visits no pool twice what the
    simulation query said (\<open>swap_packet_as_simulated\<close>); on other routes it may pay less
    (\<open>revisited_pool_pays_less\<close>).
  \<^item> Factory and router together: what the factory puts in escrow for an answered request is what the router of the hub
    added to its record (\<open>Cross_Chain.exchange_balanced\<close>), and over any history that record is what the chain's messages
    brought in and failed releases gave back, less what was released (\<open>Router_Escrow.escrow_record_follows_packets\<close>).
  \<^item> Pools: LP accounting, exact swap behaviour, bounds of rounding, no dilution, withdrawals are never blocked and pay
    their share.
  \<^item> Releases: they follow a greedy plan, pay as much as possible, are undone when their payouts fail and the errors reach
    an unlocked router (\<open>Router_Releases.failed_release_restores\<close>), and reach the user in full through factory and escrow
    (\<open>Liquidity_Chain.release_pays_user\<close>).
  \<^item> The factory: its books balance over any sequence of calls (\<open>Factory_Properties.factory_custody\<close>), every request is
    settled once, and it speaks only for its caller; every state it reaches is well formed
    (\<open>Factory_Types.factory_well_formed\<close>), so a failed request can always be refunded (\<open>failed_request_refunded\<close>), and the
    funds of a successful swap are booked by the escrow if it allows them (\<open>Settlement.swap_funds_reach_escrow\<close>).
  \<^item> The ledger: transfers move exactly their amount, nobody but the router or the owner lowers a balance.
  \<^item> Storage: a key that is written is read back and different keys have different slots
    (\<open>Storage_Keys.pair_key_roundtrip\<close>), as the model of storage maps presumes.
  \<^item> What missing checks allow, proved as theorems about the code as it is: forged callbacks on both ends,
    self-transfers, gifts that block a pool, a partner fee that need not be paid, withdrawals that are not backed by LP
    tokens, acknowledgements lost by a locked router.

  The locale \<open>custody\<close> of \<^verbatim>\<open>Hub\<close> is the contract between a controller and the ledger it instructs, interpreted by
  router and virtual balance; \<open>request_store\<close> is interpreted by the swaps, deposits and withdrawals of the factory;
  \<open>cosmwasm_math\<close> by \<open>std_math\<close>; \<open>map_key\<close>, what a storage map expects of its keys, by tokens, chain ids and pairs over any
  layout \<open>joined_keys\<close> of the storage library.

  \<^bold>\<open>Bounds and termination.\<close> The handlers are total: the loops of the source run over finite lists, and
  \<open>replace_empty\<close> has a measure. The executor of the hub has fuel, one unit for each level of calls, because a contract
  outside the hub may call back without end. \<open>hub_transaction_ends\<close> shows that three times the rank of the message and
  twice the depth of the calls among contracts outside is enough whenever those do not call the router or a pool, and
  \<open>run_tx_mono\<close> that more fuel changes no outcome; the invariants and \<open>packet_answered\<close> hold for every outcome, calls back included.

  \<^bold>\<open>Not modelled.\<close> Migrations (they do nothing), schema binaries, mocks and tests. Responses carry no events. Gas, the bank
  and wasm modules and the relayers are the platform's: contracts outside the hub, the addresses of new contracts and
  the text of errors are fields of the record \<open>host\<close>, with hypotheses where a theorem needs them. A host and the answers of
  contracts outside are fixed for a history of the hub, and a contract that is instantiated outside gets no address of its own. Time stamps
  do not overflow: they only end up in the time-outs of packets.
\<close>

end
